(* ===== verification/HP_Prelude.thy ===== *)
theory HP_Prelude
  imports Main "HOL-Library.AList" "HOL-Library.List_Lexorder" "HOL-Library.Char_ord"
begin

text \<open>
  Shared vocabulary of the development: identifiers, the exceptions of the source as values, the
  result type of a fallible operation, Python dictionaries as association lists, and tables of
  the database as lists of rows with the SQL statements the services use on them (an UPDATE with
  a WHERE clause, a SELECT of the first matching row, a sum over the matching rows).
  The lemmas about these helpers are collected in \<open>res_simps\<close>, \<open>dict_simps\<close> and \<open>row_simps\<close>.
\<close>

named_theorems res_simps "the result type and its sequencing"
named_theorems dict_simps "dictionaries as association lists"
named_theorems row_simps "tables as lists of rows"

section \<open>Identifiers and exceptions\<close>

type_synonym uuid = string

text \<open>One constructor per exception class the modelled code raises. \<open>DbError\<close> stands for an
  exception raised inside the database (a trigger or a constraint of the migrations).\<close>

datatype exn =
    ValueError string
  | RuntimeError string
  | PyKeyError string
  | PyLookupError string
  | SnapshotConflict
  | DbError string
  | ResourceNotFound
  | ConversationBusy
  | OutboxLeaseLost
  | IdempotencyConflict
  | RunNotCancellable
  | RunNotRetryable
  | RunRetryNotSafe string
  | FileNotReady
  | WorkConflict string
  | RunNotExecutable
  | StaleFencingToken
  | LeaseConflict
  | SegmentClosed
  | TranscriptVersionConflict
  | OperationUncertain
  | MemoryContextRevoked
  | RunBudgetError string
  | RunBudgetExhausted
  | WorkBudgetExhausted
  | CapabilityBudgetExhausted
  | RunBudgetConflict string
  | AccountModelEntitlementUnavailable
  | ModelAccessTierDenied
  | AccountDailyBudgetExhausted
  | AccountDailyBudgetConflict string
  | CapacityUnavailable
  | ApplicationError string bool
  | CancelledError
  | TimeoutError

text \<open>\<open>web_domain.errors.DomainError\<close> and its subclasses among the above.\<close>

fun is_domain_error :: "exn \<Rightarrow> bool" where
  "is_domain_error ResourceNotFound = True"
| "is_domain_error ConversationBusy = True"
| "is_domain_error OutboxLeaseLost = True"
| "is_domain_error IdempotencyConflict = True"
| "is_domain_error RunNotCancellable = True"
| "is_domain_error RunNotRetryable = True"
| "is_domain_error (RunRetryNotSafe _) = True"
| "is_domain_error FileNotReady = True"
| "is_domain_error (WorkConflict _) = True"
| "is_domain_error _ = False"

text \<open>JSON values as the code handles them after decoding. Floating point numbers are not modelled:
  the code that is modelled here reads integers, booleans, strings, lists and objects.\<close>

datatype json =
    JNull
  | JBool bool
  | JInt int
  | JStr string
  | JList "json list"
  | JObj "(string \<times> json) list"

text \<open>Equality of Python numbers: \<open>True == 1\<close>.\<close>

fun num_of :: "json \<Rightarrow> int option" where
  "num_of (JInt n) = Some n"
| "num_of (JBool b) = Some (if b then 1 else 0)"
| "num_of _ = None"

definition py_eq :: "json \<Rightarrow> json \<Rightarrow> bool" where
  "py_eq a b \<longleftrightarrow> a = b \<or> num_of a \<noteq> None \<and> num_of a = num_of b"

text \<open>Equality of decoded JSON values: dictionaries do not order their keys, booleans are numbers.\<close>

fun json_canon :: "json \<Rightarrow> json" where
  "json_canon (JBool b) = JInt (if b then 1 else 0)"
| "json_canon (JList xs) = JList (map json_canon xs)"
| "json_canon (JObj kvs) = JObj (sort_key fst (map (\<lambda>kv. (fst kv, json_canon (snd kv))) kvs))"
| "json_canon j = j"

definition json_eq :: "json \<Rightarrow> json \<Rightarrow> bool" where
  "json_eq a b \<longleftrightarrow> json_canon a = json_canon b"

lemma json_eq_refl [simp]: "json_eq a a"
  by (simp add: json_eq_def)

section \<open>Results\<close>

text \<open>A fallible operation returns \<open>Inl\<close> of the exception or \<open>Inr\<close> of its value. An operation that
  also changes the database returns the new database in the \<open>Inr\<close> part only: an exception leaves
  the enclosing \<open>UnitOfWork\<close>, which rolls the transaction back.\<close>

type_synonym 'a res = "exn + 'a"

fun ebind :: "'a res \<Rightarrow> ('a \<Rightarrow> 'b res) \<Rightarrow> 'b res" where
  "ebind (Inl e) f = Inl e"
| "ebind (Inr x) f = f x"

definition ensure :: "bool \<Rightarrow> exn \<Rightarrow> 'a res \<Rightarrow> 'a res" where
  "ensure b e k = (if b then k else Inl e)"

definition need :: "exn \<Rightarrow> 'a option \<Rightarrow> 'a res" where
  "need e x = (case x of None \<Rightarrow> Inl e | Some v \<Rightarrow> Inr v)"

lemma ebind_Inr_iff [res_simps]: "ebind m f = Inr y \<longleftrightarrow> (\<exists>x. m = Inr x \<and> f x = Inr y)"
  by (cases m) auto

lemma ebind_Inl_iff: "ebind m f = Inl e \<longleftrightarrow> m = Inl e \<or> (\<exists>x. m = Inr x \<and> f x = Inl e)"
  by (cases m) auto

lemma ensure_Inr_iff [res_simps]: "ensure b e k = Inr y \<longleftrightarrow> b \<and> k = Inr y"
  by (simp add: ensure_def)

lemma ensure_Inl_iff: "ensure b e k = Inl x \<longleftrightarrow> (\<not> b \<and> e = x) \<or> (b \<and> k = Inl x)"
  by (auto simp: ensure_def)

lemma ensure_simps [simp]: "ensure True e k = k" "ensure False e k = Inl e"
  by (simp_all add: ensure_def)

lemma need_Inr_iff [res_simps]: "need e x = Inr v \<longleftrightarrow> x = Some v"
  by (cases x) (auto simp: need_def)

lemma need_simps [simp]: "need e None = Inl e" "need e (Some v) = Inr v"
  by (simp_all add: need_def)

text \<open>The transaction wrapper: the committed state, or the old one when the body raised.\<close>

definition committed :: "('a \<times> 's) res \<Rightarrow> 's \<Rightarrow> 's" where
  "committed r s = (case r of Inl _ \<Rightarrow> s | Inr (_, s') \<Rightarrow> s')"

lemma committed_simps [simp]: "committed (Inl e) s = s" "committed (Inr (x, s')) s = s'"
  by (simp_all add: committed_def)

lemma committed_result: "\<not> isl r \<Longrightarrow> r = Inr (fst (projr r), committed r s)"
  by (cases r) (auto simp: committed_def)

section \<open>Dictionaries\<close>

text \<open>\<open>d.get(k, default)\<close> and \<open>d[k] = v\<close>; two dictionaries are equal when they hold the same
  items, in any order.\<close>

definition dget :: "('k \<times> 'v) list \<Rightarrow> 'k \<Rightarrow> 'v \<Rightarrow> 'v" where
  "dget d k dflt = (case map_of d k of None \<Rightarrow> dflt | Some v \<Rightarrow> v)"

definition dset :: "'k \<Rightarrow> 'v \<Rightarrow> ('k \<times> 'v) list \<Rightarrow> ('k \<times> 'v) list" where
  "dset k v d = AList.update k v d"

definition dict_eq :: "('k \<times> 'v) list \<Rightarrow> ('k \<times> 'v) list \<Rightarrow> bool" where
  "dict_eq a b \<longleftrightarrow> set a = set b"

definition dict_ok :: "('k \<times> 'v) list \<Rightarrow> bool" where
  "dict_ok d \<longleftrightarrow> distinct (map fst d)"

lemma dget_dset [simp, dict_simps]: "dget (dset k v d) k' x = (if k' = k then v else dget d k' x)"
  by (simp add: dget_def dset_def update_conv')

lemma map_of_dset [simp, dict_simps]: "map_of (dset k v d) = (map_of d)(k \<mapsto> v)"
  by (simp add: dset_def update_conv')

lemma dget_Nil [simp]: "dget [] k x = x"
  by (simp add: dget_def)

lemma dict_ok_dset [simp, dict_simps]: "dict_ok d \<Longrightarrow> dict_ok (dset k v d)"
  by (simp add: dict_ok_def dset_def distinct_update)

lemma dict_eq_refl [simp]: "dict_eq a a"
  by (simp add: dict_eq_def)

lemma dict_eq_map_of: "dict_ok a \<Longrightarrow> dict_ok b \<Longrightarrow> dict_eq a b \<Longrightarrow> map_of a = map_of b"
  unfolding dict_eq_def dict_ok_def
  by (metis map_of_inject_set)

lemma dget_mem: "dict_ok d \<Longrightarrow> (k, v) \<in> set d \<Longrightarrow> dget d k x = v"
  by (simp add: dget_def dict_ok_def map_of_is_SomeI)

text \<open>The accumulation loops \<open>d[k] = d.get(k, 0) + v\<close>, the same with minus, and the same with the
  result clamped at zero, over all items of \<open>vs\<close>.\<close>

definition dict_add :: "('k \<times> int) list \<Rightarrow> ('k \<times> int) list \<Rightarrow> ('k \<times> int) list" where
  "dict_add vs d = fold (\<lambda>(k, v) d. dset k (dget d k 0 + v) d) vs d"

definition dict_sub :: "('k \<times> int) list \<Rightarrow> ('k \<times> int) list \<Rightarrow> ('k \<times> int) list" where
  "dict_sub vs d = fold (\<lambda>(k, v) d. dset k (dget d k 0 - v) d) vs d"

definition dict_sub_clamped :: "('k \<times> int) list \<Rightarrow> ('k \<times> int) list \<Rightarrow> ('k \<times> int) list" where
  "dict_sub_clamped vs d = fold (\<lambda>(k, v) d. dset k (max 0 (dget d k 0 - v)) d) vs d"

lemma dget_Cons: "dget ((k, v) # d) k' x = (if k' = k then v else dget d k' x)"
  by (simp add: dget_def)

lemma dget_not_key: "k \<notin> fst ` set d \<Longrightarrow> dget d k x = x"
  by (simp add: dget_def map_of_eq_None_iff [THEN iffD2])

lemma dict_ok_Cons: "dict_ok ((k, v) # d) \<longleftrightarrow> k \<notin> fst ` set d \<and> dict_ok d"
  by (auto simp: dict_ok_def)

lemma dget_dict_add [dict_simps]:
  "dict_ok vs \<Longrightarrow> dget (dict_add vs d) k 0 = dget d k 0 + dget vs k 0"
  by (induction vs arbitrary: d)
     (auto simp: dict_add_def dict_ok_Cons dget_Cons dget_not_key)

lemma dget_dict_sub [dict_simps]:
  "dict_ok vs \<Longrightarrow> dget (dict_sub vs d) k 0 = dget d k 0 - dget vs k 0"
  by (induction vs arbitrary: d)
     (auto simp: dict_sub_def dict_ok_Cons dget_Cons dget_not_key)

lemma dget_dict_sub_clamped [dict_simps]:
  "dict_ok vs \<Longrightarrow> dget (dict_sub_clamped vs d) k 0 =
     (if k \<in> fst ` set vs then max 0 (dget d k 0 - dget vs k 0) else dget d k 0)"
  by (induction vs arbitrary: d)
     (auto simp: dict_sub_clamped_def dict_ok_Cons dget_Cons dget_not_key, force+)

lemma dget_map_keys:
  "dget (map (\<lambda>r. (f r, g (f r))) rs) d x = (if d \<in> f ` set rs then g d else x)"
  by (induction rs) (auto simp: dget_Cons)

lemma dget_nonneg: "list_all (\<lambda>(k, v). 0 \<le> v) d \<Longrightarrow> (0::int) \<le> dget d k 0"
  by (induction d) (auto simp: dget_Cons)

section \<open>Rows\<close>

text \<open>\<open>UPDATE t SET \<dots> WHERE P\<close> and the sum of a column over the rows with \<open>P\<close>.\<close>

definition update_where :: "('r \<Rightarrow> bool) \<Rightarrow> ('r \<Rightarrow> 'r) \<Rightarrow> 'r list \<Rightarrow> 'r list" where
  "update_where P f rs = map (\<lambda>r. if P r then f r else r) rs"

definition sum_where :: "('r \<Rightarrow> bool) \<Rightarrow> ('r \<Rightarrow> int) \<Rightarrow> 'r list \<Rightarrow> int" where
  "sum_where P f rs = sum_list (map f (filter P rs))"

lemma sum_where_Nil [simp]: "sum_where P f [] = 0"
  by (simp add: sum_where_def)

lemma sum_where_Cons [simp]:
  "sum_where P f (r # rs) = (if P r then f r else 0) + sum_where P f rs"
  by (simp add: sum_where_def)

lemma sum_where_append [simp]: "sum_where P f (xs @ ys) = sum_where P f xs + sum_where P f ys"
  by (simp add: sum_where_def)

lemma sum_where_nonneg: "(\<And>r. r \<in> set rs \<Longrightarrow> P r \<Longrightarrow> 0 \<le> f r) \<Longrightarrow> 0 \<le> sum_where P f rs"
  by (induction rs) (auto intro: add_nonneg_nonneg)

lemma sum_where_cong:
  "(\<And>r. r \<in> set rs \<Longrightarrow> P r = Q r) \<Longrightarrow> (\<And>r. r \<in> set rs \<Longrightarrow> P r \<Longrightarrow> f r = g r) \<Longrightarrow>
   sum_where P f rs = sum_where Q g rs"
  by (induction rs) auto

lemma update_where_simps [simp]:
  "update_where P f [] = []"
  "update_where P f (r # rs) = (if P r then f r else r) # update_where P f rs"
  "update_where P f (xs @ ys) = update_where P f xs @ update_where P f ys"
  "length (update_where P f rs) = length rs"
  by (simp_all add: update_where_def)

lemma set_update_where: "set (update_where P f rs) = (\<lambda>r. if P r then f r else r) ` set rs"
  by (simp add: update_where_def)

lemma update_where_id: "(\<And>r. r \<in> set rs \<Longrightarrow> \<not> P r) \<Longrightarrow> update_where P f rs = rs"
  by (induction rs) auto

lemma map_update_where [row_simps]:
  "(\<And>r. P r \<Longrightarrow> g (f r) = g r) \<Longrightarrow> map g (update_where P f rs) = map g rs"
  by (simp add: update_where_def)

lemma filter_update_where_disjoint [row_simps]:
  "(\<And>r. P r \<Longrightarrow> \<not> Q r) \<Longrightarrow> (\<And>r. P r \<Longrightarrow> \<not> Q (f r)) \<Longrightarrow>
   filter Q (update_where P f rs) = filter Q rs"
  by (induction rs) auto

lemma list_ex_update_where [row_simps]:
  "(\<And>r. P r \<Longrightarrow> Q (f r) = Q r) \<Longrightarrow> list_ex Q (update_where P f rs) = list_ex Q rs"
  by (induction rs) auto

lemma list_all_update_where [row_simps]:
  "list_all Q (update_where P f rs) = list_all (\<lambda>r. if P r then Q (f r) else Q r) rs"
  by (induction rs) auto

lemma filter_update_where_same:
  "(\<And>r. P r \<Longrightarrow> P (f r)) \<Longrightarrow> filter P (update_where P f rs) = map f (filter P rs)"
  by (induction rs) auto

lemma sum_where_update_where:
  "sum_where Q g (update_where P f rs) =
     sum_where (\<lambda>r. \<not> P r \<and> Q r) g rs + sum_where (\<lambda>r. P r \<and> Q (f r)) (\<lambda>r. g (f r)) rs"
  by (induction rs) auto

lemma sum_where_split:
  "sum_where Q g rs = sum_where (\<lambda>r. \<not> P r \<and> Q r) g rs + sum_where (\<lambda>r. P r \<and> Q r) g rs"
  by (induction rs) auto

lemma sum_where_False [simp]: "sum_where (\<lambda>_. False) f rs = 0"
  by (induction rs) auto

text \<open>A dictionary built from the selected rows adds up to the same column sums.\<close>

lemma sum_where_dict:
  "distinct (map f (filter P rs)) \<Longrightarrow>
   sum_where (\<lambda>r. P r \<and> f r = d) g rs = dget (map (\<lambda>r. (f r, g r)) (filter P rs)) d 0"
  by (induction rs) (auto simp: dget_Cons dget_not_key image_iff)

text \<open>\<open>SELECT \<dots> WHERE P\<close> with \<open>fetchone\<close>: the library's \<open>find\<close>.\<close>

lemma find_SomeD: "find P xs = Some x \<Longrightarrow> x \<in> set xs \<and> P x"
  by (auto simp: find_Some_iff)

lemma find_update_where:
  "(\<And>r. r \<in> set rs \<Longrightarrow> P r \<Longrightarrow> Q (f r) = Q r) \<Longrightarrow>
   find Q (update_where P f rs) = map_option (\<lambda>r. if P r then f r else r) (find Q rs)"
  by (induction rs) auto

lemma find_append: "find P (xs @ ys) = (case find P xs of None \<Rightarrow> find P ys | Some x \<Rightarrow> Some x)"
  by (induction xs) auto

end
