(* ===== verification/Authority.thy ===== *)
theory Authority
  imports HP_Prelude
begin

text \<open>
  Who may act: accounts, Work mandates, Runs, Executions, attempt leases and the memory epoch.
  Models \<open>run_domain/lifecycle.py\<close> (lock, check_work, start), \<open>run_domain/execution.py\<close>,
  \<open>persistence/memory_context.py\<close> and the Run updates of \<open>persistence/runs.py\<close> together with the
  triggers that fire on them (\<open>enforce_run_status_transition\<close>, \<open>immutable_run_input\<close>,
  \<open>project_execution_status\<close>). Columns that no modelled code reads (\<open>updated_at\<close>, audit columns)
  are left out. A transaction sees one clock value \<open>now\<close>.
\<close>

section \<open>Tables\<close>

datatype status = Queued | Running | Cancelling | Succeeded | Failed | Cancelled

datatype work_status = WActive | WPausing | WPaused | WStopping | WStopped | WCompleted

datatype source_kind = Chat | Work

datatype role = Root | Subagent | Capability

definition TERMINAL :: "status list" where
  "TERMINAL = [Succeeded, Failed, Cancelled]"

definition ACTIVE :: "status list" where
  "ACTIVE = [Queued, Running, Cancelling]"

record account_row =
  a_status :: string
  a_memory_epoch :: int

record work_row =
  w_account_id :: uuid
  w_status :: work_status
  w_active_coordinator_run_id :: "uuid option"
  w_current_requirement_revision :: int
  w_control_epoch :: int

record run_row =
  r_run_id :: uuid
  r_account_id :: uuid
  r_source_kind :: source_kind
  r_conversation_id :: "uuid option"
  r_session_id :: "uuid option"
  r_work_id :: "uuid option"
  r_requirement_revision :: "int option"
  r_work_control_epoch :: "int option"
  r_status :: status
  r_failure_code :: "string option"
  r_failure_message :: "string option"
  r_result_json :: "json option"
  r_created_at :: int
  r_started_at :: "int option"
  r_finished_at :: "int option"
  r_version :: int

text \<open>The manifest of the memory a context was built from: \<open>scopes = None\<close> is JSON null (any
  scope), \<open>Some []\<close> is no memory at all.\<close>

record manifest =
  m_epoch :: int
  m_scopes :: "string list option"
  m_documents :: "string list"

datatype affected = AffectedNull | AffectedAccount | AffectedScopes "string list"

record memory_action_row =
  ma_account_id :: uuid
  ma_action_id :: uuid
  ma_source_id :: uuid
  ma_invalidation_epoch :: int
  ma_affected_scopes :: affected

record memory_source_row =
  ms_account_id :: uuid
  ms_source_id :: uuid
  ms_state :: string
  ms_manual_curation :: bool
  ms_generation :: int
  ms_current_action_id :: "uuid option"

record execution_row =
  e_execution_id :: uuid
  e_account_id :: uuid
  e_run_id :: uuid
  e_role :: role
  e_status :: status
  e_attempt_no :: int
  e_memory_context :: "manifest option"

record lease_row =
  l_account_id :: uuid
  l_run_id :: uuid
  l_owner_segment_id :: "string option"
  l_fencing_token :: int
  l_lease_expires_at :: "int option"

datatype wait_state = Waiting | Resumed | WaitCancelled | Expired

record wait_row =
  wt_wait_id :: string
  wt_run_id :: uuid
  wt_account_id :: uuid
  wt_execution_id :: uuid
  wt_operation_id :: string
  wt_reason :: string
  wt_resume_ref :: string
  wt_deadline :: string
  wt_state :: wait_state

record authority_db =
  accounts :: "uuid \<Rightarrow> account_row option"
  conversations :: "(uuid \<times> uuid) list"
  works :: "uuid \<Rightarrow> work_row option"
  runs :: "run_row list"
  executions :: "execution_row list"
  leases :: "uuid \<Rightarrow> lease_row option"
  waits :: "wait_row list"
  memory_actions :: "memory_action_row list"
  memory_sources :: "memory_source_row list"

text \<open>The execution identity a task carries: account, Run, Execution and fencing token.\<close>

type_synonym fence = "(uuid \<times> uuid \<times> uuid \<times> int) option"

section \<open>Memory epochs\<close>

definition account_epoch :: "'a authority_db_scheme \<Rightarrow> uuid \<Rightarrow> int res" where
  "account_epoch s acc = need ResourceNotFound (map_option a_memory_epoch (accounts s acc))"

fun intersects :: "string list option \<Rightarrow> affected \<Rightarrow> bool" where
  "intersects None _ = True"
| "intersects _ AffectedNull = True"
| "intersects _ AffectedAccount = True"
| "intersects (Some scopes) (AffectedScopes ss) = list_ex (\<lambda>x. x \<in> set ss) scopes"

definition actions_after :: "'a authority_db_scheme \<Rightarrow> uuid \<Rightarrow> int \<Rightarrow> memory_action_row list" where
  "actions_after s acc checked =
     sort_key ma_invalidation_epoch
       (filter (\<lambda>r. ma_account_id r = acc \<and> ma_invalidation_epoch r > checked) (memory_actions s))"

definition check_manifest ::
  "'a authority_db_scheme \<Rightarrow> uuid \<Rightarrow> manifest option \<Rightarrow> int option \<Rightarrow> manifest option res" where
  "check_manifest s acc mf epoch_arg =
     ebind (case epoch_arg of None \<Rightarrow> account_epoch s acc | Some e \<Rightarrow> Inr e) (\<lambda>epoch.
       case mf of
         None \<Rightarrow> if epoch \<noteq> 0 then Inl MemoryContextRevoked else Inr None
       | Some m \<Rightarrow>
           (let checked = m_epoch m; advanced = Some (m\<lparr>m_epoch := epoch\<rparr>) in
            if checked > epoch then Inl MemoryContextRevoked
            else if m_scopes m = Some [] then Inr advanced
            else
              (let rows = actions_after s acc checked in
               if int (length rows) \<noteq> epoch - checked
                  \<or> map ma_invalidation_epoch rows \<noteq> map (\<lambda>i. checked + int i + 1) [0..<length rows]
               then Inl MemoryContextRevoked
               else if list_ex (\<lambda>r. intersects (m_scopes m) (ma_affected_scopes r)) rows
               then Inl MemoryContextRevoked
               else Inr advanced)))"

definition find_execution ::
  "'a authority_db_scheme \<Rightarrow> uuid \<Rightarrow> uuid \<Rightarrow> uuid option \<Rightarrow> execution_row option" where
  "find_execution s acc run ex =
     find (\<lambda>e. e_account_id e = acc \<and> e_run_id e = run \<and>
               (ex = None \<and> e_role e = Root \<or> ex = Some (e_execution_id e))) (executions s)"

definition check_execution ::
  "'a authority_db_scheme \<Rightarrow> uuid \<Rightarrow> uuid \<Rightarrow> uuid option \<Rightarrow> bool \<Rightarrow>
   (manifest option \<times> 'a authority_db_scheme) res" where
  "check_execution s acc run ex advance =
     ebind (account_epoch s acc) (\<lambda>epoch.
       case find_execution s acc run ex of
         None \<Rightarrow> Inr (None, s)
       | Some row \<Rightarrow>
           ebind (check_manifest s acc (e_memory_context row) (Some epoch)) (\<lambda>mf.
             Inr (mf,
               if advance \<and> mf \<noteq> e_memory_context row
               then s\<lparr>executions := update_where
                        (\<lambda>e. e_execution_id e = e_execution_id row \<and> e_status e \<in> {Queued, Running})
                        (\<lambda>e. e\<lparr>e_memory_context := mf\<rparr>) (executions s)\<rparr>
               else s)))"

definition bind_context ::
  "'a authority_db_scheme \<Rightarrow> uuid \<Rightarrow> uuid \<Rightarrow> string list option \<Rightarrow> string list \<Rightarrow> int \<Rightarrow>
   (unit \<times> 'a authority_db_scheme) res" where
  "bind_context s acc ex scopes documents epoch =
     (let mf = \<lparr>m_epoch = epoch, m_scopes = scopes, m_documents = sort documents\<rparr> in
      ebind (check_manifest s acc (Some mf) None) (\<lambda>_.
        Inr ((), s\<lparr>executions := update_where
              (\<lambda>e. e_account_id e = acc \<and> e_execution_id e = ex)
              (\<lambda>e. e\<lparr>e_memory_context := Some mf\<rparr>) (executions s)\<rparr>)))"

definition record_revocation ::
  "'a authority_db_scheme \<Rightarrow> uuid \<Rightarrow> uuid \<Rightarrow> memory_source_row \<Rightarrow> affected \<Rightarrow>
   (unit \<times> 'a authority_db_scheme) res" where
  "record_revocation s aid acc source scopes =
     (if ms_state source = ''forgotten'' then Inr ((), s)
      else ebind (account_epoch s acc) (\<lambda>old.
        let epoch = old + 1 in
        Inr ((), s\<lparr>accounts := (accounts s)(acc := map_option (\<lambda>a. a\<lparr>a_memory_epoch := epoch\<rparr>) (accounts s acc)),
                   memory_actions := memory_actions s @
                     [\<lparr>ma_account_id = acc, ma_action_id = aid, ma_source_id = ms_source_id source,
                       ma_invalidation_epoch = epoch, ma_affected_scopes = scopes\<rparr>],
                   memory_sources := update_where
                     (\<lambda>m. ms_account_id m = acc \<and> ms_source_id m = ms_source_id source)
                     (\<lambda>m. m\<lparr>ms_state := ''quarantined'', ms_manual_curation := True,
                            ms_generation := ms_generation m + 1, ms_current_action_id := Some aid\<rparr>)
                     (memory_sources s)\<rparr>)))"

section \<open>Run rows and the triggers on them\<close>

fun run_transition_ok :: "status \<Rightarrow> status \<Rightarrow> bool" where
  "run_transition_ok Queued new = (new \<in> {Running, Cancelling, Failed, Cancelled})"
| "run_transition_ok Running new = (new \<in> {Cancelling, Succeeded, Failed})"
| "run_transition_ok Cancelling new = (new = Cancelled)"
| "run_transition_ok _ _ = False"

text \<open>\<open>project_execution_status\<close>: leaving the running states revokes every lease of the Run.\<close>

definition project_execution_status ::
  "uuid \<Rightarrow> status \<Rightarrow> 'a authority_db_scheme \<Rightarrow> 'a authority_db_scheme" where
  "project_execution_status run new s =
     (let s1 = s\<lparr>executions := update_where (\<lambda>e. e_run_id e = run \<and> e_role e = Root)
                   (\<lambda>e. e\<lparr>e_status := new\<rparr>) (executions s)\<rparr> in
      if new \<in> {Cancelling, Succeeded, Failed, Cancelled}
      then s1\<lparr>executions := update_where
                (\<lambda>e. e_run_id e = run \<and> e_role e \<in> {Subagent, Capability} \<and> e_status e \<in> set ACTIVE)
                (\<lambda>e. e\<lparr>e_status := (if new = Cancelling then Cancelling else Cancelled)\<rparr>) (executions s1),
              leases := (\<lambda>x. map_option (\<lambda>l. if l_run_id l = run
                then l\<lparr>l_owner_segment_id := None, l_lease_expires_at := None,
                       l_fencing_token := l_fencing_token l + 1\<rparr> else l) (leases s x)),
              waits := update_where (\<lambda>w. wt_run_id w = run \<and> wt_state w = Waiting)
                (\<lambda>w. w\<lparr>wt_state := WaitCancelled\<rparr>) (waits s)\<rparr>
      else s1)"

text \<open>An UPDATE of the Run with identifier \<open>run\<close> where \<open>P\<close> holds, with its triggers.\<close>

definition update_run ::
  "uuid \<Rightarrow> (run_row \<Rightarrow> bool) \<Rightarrow> (run_row \<Rightarrow> run_row) \<Rightarrow> 'a authority_db_scheme \<Rightarrow> 'a authority_db_scheme res" where
  "update_run run P f s =
     (case find (\<lambda>r. r_run_id r = run \<and> P r) (runs s) of
        None \<Rightarrow> Inr s
      | Some r \<Rightarrow>
          if r_status r \<in> set TERMINAL \<and> f r \<noteq> r then Inl (DbError ''immutable Run input/terminal fact'')
          else if r_status (f r) \<noteq> r_status r \<and> \<not> run_transition_ok (r_status r) (r_status (f r))
          then Inl (DbError ''invalid Run transition'')
          else
            (let s' = s\<lparr>runs := update_where (\<lambda>x. r_run_id x = run \<and> P x) f (runs s)\<rparr> in
             Inr (if r_status (f r) \<noteq> r_status r
                  then project_execution_status run (r_status (f r)) s' else s')))"

definition mark_running_locked :: "uuid \<Rightarrow> int \<Rightarrow> 'a authority_db_scheme \<Rightarrow> 'a authority_db_scheme res" where
  "mark_running_locked run now s =
     update_run run (\<lambda>_. True)
       (\<lambda>r. r\<lparr>r_status := Running, r_started_at := Some (max now (r_created_at r)),
              r_version := r_version r + 1\<rparr>) s"

definition mark_running_queued :: "uuid \<Rightarrow> int \<Rightarrow> 'a authority_db_scheme \<Rightarrow> 'a authority_db_scheme res" where
  "mark_running_queued run now s =
     update_run run (\<lambda>r. r_status r = Queued)
       (\<lambda>r. r\<lparr>r_status := Running, r_started_at := Some (max now (r_created_at r)),
              r_version := r_version r + 1\<rparr>) s"

definition set_cancelling :: "uuid \<Rightarrow> 'a authority_db_scheme \<Rightarrow> 'a authority_db_scheme res" where
  "set_cancelling run s =
     update_run run (\<lambda>r. r_status r \<in> {Queued, Running})
       (\<lambda>r. r\<lparr>r_status := Cancelling, r_version := r_version r + 1\<rparr>) s"

definition set_result_terminal ::
  "status \<Rightarrow> string option \<Rightarrow> string option \<Rightarrow> json option \<Rightarrow> uuid \<Rightarrow> int \<Rightarrow>
   'a authority_db_scheme \<Rightarrow> 'a authority_db_scheme res" where
  "set_result_terminal st code msg result run now s =
     update_run run (\<lambda>_. True)
       (\<lambda>r. r\<lparr>r_status := st, r_failure_code := code, r_failure_message := msg, r_result_json := result,
              r_finished_at := Some (max now (max (r_created_at r)
                 (case r_started_at r of None \<Rightarrow> r_created_at r | Some t \<Rightarrow> t))),
              r_version := r_version r + 1\<rparr>) s"

section \<open>Ownership checks\<close>

definition find_run :: "'a authority_db_scheme \<Rightarrow> uuid \<Rightarrow> uuid \<Rightarrow> run_row option" where
  "find_run s acc run = find (\<lambda>r. r_account_id r = acc \<and> r_run_id r = run) (runs s)"

definition account_active :: "'a authority_db_scheme \<Rightarrow> uuid \<Rightarrow> bool" where
  "account_active s acc = (case accounts s acc of None \<Rightarrow> False | Some a \<Rightarrow> a_status a = ''active'')"

definition work_get :: "'a authority_db_scheme \<Rightarrow> uuid \<Rightarrow> uuid option \<Rightarrow> work_row res" where
  "work_get s acc wid =
     (case wid of None \<Rightarrow> Inl ResourceNotFound
      | Some w \<Rightarrow> (case works s w of None \<Rightarrow> Inl ResourceNotFound
                   | Some row \<Rightarrow> if w_account_id row = acc then Inr row else Inl ResourceNotFound))"

definition lock :: "'a authority_db_scheme \<Rightarrow> uuid \<Rightarrow> uuid \<Rightarrow> run_row res" where
  "lock s acc run =
     ebind (account_epoch s acc) (\<lambda>_.
     ebind (need ResourceNotFound (find_run s acc run)) (\<lambda>row.
       if r_source_kind row = Work then ebind (work_get s acc (r_work_id row)) (\<lambda>_. Inr row)
       else case r_conversation_id row of
              None \<Rightarrow> Inl ResourceNotFound
            | Some c \<Rightarrow> ensure ((acc, c) \<in> set (conversations s)) ResourceNotFound (Inr row)))"

definition check_work :: "'a authority_db_scheme \<Rightarrow> run_row \<Rightarrow> work_row res" where
  "check_work s run =
     ensure (account_active s (r_account_id run)) ResourceNotFound
       (ebind (work_get s (r_account_id run) (r_work_id run)) (\<lambda>work.
          if w_status work \<noteq> WActive
             \<or> w_active_coordinator_run_id work \<noteq> Some (r_run_id run)
             \<or> Some (w_current_requirement_revision work) \<noteq> r_requirement_revision run
             \<or> Some (w_control_epoch work) \<noteq> r_work_control_epoch run
          then Inl ConversationBusy else Inr work))"

definition start :: "'a authority_db_scheme \<Rightarrow> uuid \<Rightarrow> uuid \<Rightarrow> int \<Rightarrow> (bool \<times> 'a authority_db_scheme) res" where
  "start s acc run_id now =
     ebind (lock s acc run_id) (\<lambda>run.
       if r_status run \<notin> {Queued, Running} then Inr (False, s)
       else ebind (if r_source_kind run = Work then ebind (check_work s run) (\<lambda>_. Inr ()) else Inr ()) (\<lambda>_.
         if r_status run = Queued
         then ebind (mark_running_locked run_id now s) (\<lambda>s'. Inr (True, s'))
         else Inr (True, s)))"

definition require_active_run :: "'a authority_db_scheme \<Rightarrow> uuid \<Rightarrow> uuid \<Rightarrow> run_row res" where
  "require_active_run s acc run_id =
     (case ebind (lock s acc run_id) (\<lambda>run.
             ensure (account_active s acc) RunNotExecutable
             (ebind (if r_source_kind run = Work then ebind (check_work s run) (\<lambda>_. Inr ()) else Inr ()) (\<lambda>_.
              ensure (r_status run \<in> {Queued, Running}) RunNotExecutable (Inr run)))) of
        Inl e \<Rightarrow> Inl (if is_domain_error e then RunNotExecutable else e)
      | Inr run \<Rightarrow> Inr run)"

definition lock_execution ::
  "'a authority_db_scheme \<Rightarrow> fence \<Rightarrow> uuid \<Rightarrow> uuid \<Rightarrow> uuid option \<Rightarrow> execution_row res" where
  "lock_execution s fnc acc run ex =
     (let ex' = (if ex = None then map_option (\<lambda>(_, _, e, _). e) fnc else ex)
      in need RunNotExecutable (find_execution s acc run ex'))"

text \<open>The lease row the fence is compared with: same account, Run, Execution and token, unexpired.\<close>

definition lease_live :: "'a authority_db_scheme \<Rightarrow> uuid \<Rightarrow> uuid \<Rightarrow> uuid \<Rightarrow> int \<Rightarrow> int \<Rightarrow> bool" where
  "lease_live s acc run ex token now =
     (case leases s ex of
        None \<Rightarrow> False
      | Some l \<Rightarrow> l_account_id l = acc \<and> l_run_id l = run \<and> l_fencing_token l = token \<and>
                  (case l_lease_expires_at l of None \<Rightarrow> False | Some t \<Rightarrow> t > now))"

definition assert_execution_fence ::
  "'a authority_db_scheme \<Rightarrow> fence \<Rightarrow> int \<Rightarrow> 'a authority_db_scheme res" where
  "assert_execution_fence s fnc now =
     (case fnc of
        None \<Rightarrow> Inr s
      | Some (acc, run, ex, token) \<Rightarrow>
          (case ebind (require_active_run s acc run) (\<lambda>_.
                ebind (check_execution s acc run (Some ex) True) (\<lambda>(_, s1).
                ebind (lock_execution s1 fnc acc run (Some ex)) (\<lambda>e.
                ensure (e_status e \<in> {Queued, Running}) RunNotExecutable (Inr s1)))) of
             Inl e \<Rightarrow> Inl (if e = RunNotExecutable then StaleFencingToken else e)
           | Inr s1 \<Rightarrow> ensure (lease_live s1 acc run ex token now) StaleFencingToken (Inr s1)))"

text \<open>\<open>owners\<close> are the \<open>(account_id, run_id, execution_id)\<close> of the rows of the given table whose
  given column has the given value.\<close>

definition require_owned_record :: "fence \<Rightarrow> (uuid \<times> uuid \<times> uuid) list \<Rightarrow> unit res" where
  "require_owned_record fnc owners =
     (case fnc of None \<Rightarrow> Inr ()
      | Some (acc, run, ex, _) \<Rightarrow> ensure ((acc, run, ex) \<in> set owners) StaleFencingToken (Inr ()))"

section \<open>Frames\<close>

text \<open>What the checks may change: at most the executions' memory context. \<open>same_but_executions\<close> says
  that every other table of the authority part is the same.\<close>

definition same_but_executions ::
  "'a authority_db_scheme \<Rightarrow> 'a authority_db_scheme \<Rightarrow> bool" where
  "same_but_executions s s' \<longleftrightarrow> s' = s\<lparr>executions := executions s'\<rparr>"

lemma same_but_executions_refl [simp]: "same_but_executions s s"
  by (simp add: same_but_executions_def)

lemma same_but_executions_upd [simp]: "same_but_executions s (s\<lparr>executions := es\<rparr>)"
  by (simp add: same_but_executions_def)

lemma check_execution_frame:
  "check_execution s acc run ex adv = Inr (m, s') \<Longrightarrow> same_but_executions s s'"
  by (auto simp: check_execution_def res_simps split: option.splits if_splits)

lemma assert_execution_fence_frame:
  "assert_execution_fence s fnc now = Inr s' \<Longrightarrow> same_but_executions s s'"
  unfolding assert_execution_fence_def
  by (auto simp: res_simps split: option.splits prod.splits sum.splits dest: check_execution_frame)

lemma lease_live_executions [simp]: "lease_live (s\<lparr>executions := es\<rparr>) = lease_live s"
  by (simp add: lease_live_def fun_eq_iff)

lemma assert_execution_fence_lease:
  assumes "assert_execution_fence s (Some (acc, run, ex, token)) now = Inr s'"
  shows "lease_live s acc run ex token now"
proof -
  have "lease_live s' acc run ex token now"
    using assms unfolding assert_execution_fence_def
    by (auto simp: res_simps split: sum.splits)
  with assert_execution_fence_frame [OF assms] show ?thesis
    by (metis lease_live_executions same_but_executions_def)
qed

end
