(* ===== verification/Usage_Ledger.thy ===== *)
theory Usage_Ledger
  imports HP_Prelude
begin

text \<open>
  The contract the three usage ledgers of the program share (Run, Work, Account per day): a row is
  entered as reserved and later becomes settled with an actual amount, or released. The locale says
  what entering, settling and releasing rows do to the two sums that the budget rows cache: what is
  still held and what is used. It is interpreted by each ledger on its own rows.
\<close>

datatype entry_state = Reserved | Settled | Released

definition USAGE_SOURCES :: "string list" where
  "USAGE_SOURCES = [''provider'', ''measured'', ''estimated'']"

locale usage_ledger =
  fixes key :: "'r \<Rightarrow> 'k"
    and state :: "'r \<Rightarrow> entry_state"
    and held :: "'r \<Rightarrow> int"
    and actual :: "'r \<Rightarrow> int option"
    and settle_row :: "int \<Rightarrow> 'src \<Rightarrow> 'r \<Rightarrow> 'r"
    and release_row :: "'r \<Rightarrow> 'r"
  assumes settle_row_laws [simp]:
      "key (settle_row a src r) = key r" "state (settle_row a src r) = Settled"
      "held (settle_row a src r) = held r" "actual (settle_row a src r) = Some a"
    and release_row_laws [simp]:
      "key (release_row r) = key r" "state (release_row r) = Released"
      "held (release_row r) = held r"
begin

abbreviation holding :: "'k \<Rightarrow> 'r list \<Rightarrow> int" where
  "holding k rs \<equiv> sum_where (\<lambda>r. key r = k \<and> state r = Reserved) held rs"

abbreviation spent :: "'k \<Rightarrow> 'r list \<Rightarrow> int" where
  "spent k rs \<equiv> sum_where (\<lambda>r. key r = k \<and> state r = Settled)
     (\<lambda>r. case actual r of None \<Rightarrow> 0 | Some a \<Rightarrow> a) rs"

lemma settle_holding:
  assumes "\<And>r. r \<in> set rs \<Longrightarrow> P r \<Longrightarrow> state r = Reserved"
  shows "holding k (update_where P (\<lambda>r. settle_row (amt r) src r) rs)
           = holding k rs - sum_where (\<lambda>r. P r \<and> key r = k) held rs"
  using assms by (induction rs) auto

lemma settle_spent:
  assumes "\<And>r. r \<in> set rs \<Longrightarrow> P r \<Longrightarrow> state r = Reserved"
  shows "spent k (update_where P (\<lambda>r. settle_row (amt r) src r) rs)
           = spent k rs + sum_where (\<lambda>r. P r \<and> key r = k) amt rs"
  using assms by (induction rs) auto

lemma release_holding:
  assumes "\<And>r. r \<in> set rs \<Longrightarrow> P r \<Longrightarrow> state r = Reserved"
  shows "holding k (update_where P release_row rs)
           = holding k rs - sum_where (\<lambda>r. P r \<and> key r = k) held rs"
  using assms by (induction rs) auto

lemma release_spent:
  assumes "\<And>r. r \<in> set rs \<Longrightarrow> P r \<Longrightarrow> state r = Reserved"
  shows "spent k (update_where P release_row rs) = spent k rs"
  using assms by (induction rs) auto

lemma held_le_holding:
  assumes "\<And>r. r \<in> set rs \<Longrightarrow> P r \<Longrightarrow> state r = Reserved"
    and "\<And>r. r \<in> set rs \<Longrightarrow> 0 \<le> held r"
  shows "sum_where (\<lambda>r. P r \<and> key r = k) held rs \<le> holding k rs"
  using assms by (induction rs) (auto simp: sum_where_nonneg add_increasing)

lemma reserve_holding:
  assumes "\<And>r. r \<in> set new \<Longrightarrow> state r = Reserved"
  shows "holding k (rs @ new) = holding k rs + sum_where (\<lambda>r. key r = k) held new"
  using assms by (induction new) auto

lemma reserve_spent:
  assumes "\<And>r. r \<in> set new \<Longrightarrow> state r = Reserved"
  shows "spent k (rs @ new) = spent k rs"
  using assms by (induction new) auto

end

end
