(* ===== verification/Run_Budget.thy ===== *)
theory Run_Budget
  imports Authority Usage_Ledger
begin

text \<open>
  The Run budget and the cumulative Work budget: \<open>resources/run_budget.py\<close> and
  \<open>resources/work_budget.py\<close>, with the trigger \<open>enforce_capability_usage_limit\<close> on new usage rows.
  A reservation first holds the Work budget, then the Run budget, inside one savepoint.
  Row locks have no effect here: a transaction is one function from database to database.
\<close>

section \<open>Data\<close>

record run_budget_row =
  b_mode :: string
  b_status :: string
  b_limits :: "(string \<times> int) list"
  b_used :: "(string \<times> int) list"
  b_reserved :: "(string \<times> int) list"
  b_final_response_reserve_tokens :: int

record usage_row =
  u_run_id :: uuid
  u_operation_id :: string
  u_dimension :: string
  u_state :: entry_state
  u_reserved_amount :: int
  u_actual_amount :: "int option"
  u_usage_source :: "string option"
  u_execution_id :: "uuid option"

record work_budget_row =
  wb_limits :: "(string \<times> int) list"
  wb_used :: "(string \<times> int) list"
  wb_reserved :: "(string \<times> int) list"
  wb_version :: int

record work_usage_row =
  wu_account_id :: uuid
  wu_work_id :: uuid
  wu_run_id :: uuid
  wu_operation_id :: string
  wu_dimension :: string
  wu_state :: entry_state
  wu_reserved_amount :: int
  wu_actual_amount :: "int option"
  wu_usage_source :: "string option"

text \<open>The columns of a capability invocation the usage trigger reads.\<close>

record invocation_limit_row =
  ci_child_execution_id :: uuid
  ci_run_id :: uuid
  ci_max_model_calls :: int
  ci_max_tool_calls :: int

record budget_db = authority_db +
  run_budgets :: "uuid \<Rightarrow> run_budget_row option"
  run_usage :: "usage_row list"
  work_budgets :: "uuid \<times> uuid \<Rightarrow> work_budget_row option"
  work_usage :: "work_usage_row list"
  invocation_limits :: "invocation_limit_row list"

record budget_mutation =
  bm_run_id :: uuid
  bm_operation_id :: string
  bm_values :: "(string \<times> int) list"
  bm_state :: entry_state
  bm_replayed :: bool

definition DIMENSIONS :: "string list" where
  "DIMENSIONS =
    [''model_input_tokens'', ''model_output_tokens'', ''model_total_tokens'', ''model_calls'',
     ''tool_calls'', ''bytes_scanned'', ''bytes_returned_to_model'', ''bytes_written'',
     ''output_file_bytes'', ''wall_time_ms'', ''sources_discovered'', ''source_fetches'',
     ''research_iterations'']"

definition DEFAULT_LIMITS :: "(string \<times> int) list" where
  "DEFAULT_LIMITS =
    [(''model_input_tokens'', 800000), (''model_output_tokens'', 200000),
     (''model_total_tokens'', 1000000), (''model_calls'', 400), (''tool_calls'', 400),
     (''sources_discovered'', 300), (''source_fetches'', 200), (''research_iterations'', 30),
     (''bytes_scanned'', 1000000000), (''bytes_returned_to_model'', 10000000),
     (''bytes_written'', 512 * 1024 * 1024), (''output_file_bytes'', 512 * 1024 * 1024),
     (''wall_time_ms'', 18000000)]"

text \<open>The validation of requested amounts; \<open>isinstance(raw, bool)\<close> is the \<open>JBool\<close> case.\<close>

fun amounts_items :: "(string \<times> json) list \<Rightarrow> (string \<times> int) list res" where
  "amounts_items [] = Inr []"
| "amounts_items ((dim, raw) # rest) =
     (if dim \<notin> set DIMENSIONS then Inl (ValueError ''unsupported budget dimension'')
      else case raw of
        JInt n \<Rightarrow> if n < 0 then Inl (ValueError ''budget amount must be a non-negative integer'')
                  else ebind (amounts_items rest) (\<lambda>t. Inr ((dim, n) # t))
      | _ \<Rightarrow> Inl (ValueError ''budget amount must be a non-negative integer''))"

definition amounts_of :: "(string \<times> json) list \<Rightarrow> (string \<times> int) list res" where
  "amounts_of values = ebind (amounts_items values) (\<lambda>normalized.
     ensure (normalized \<noteq> []) (ValueError ''at least one budget dimension is required'') (Inr normalized))"

definition jints :: "(string \<times> int) list \<Rightarrow> (string \<times> json) list" where
  "jints d = map (\<lambda>(k, v). (k, JInt v)) d"

section \<open>The Work budget\<close>

datatype budget_action = Act_Reserve | Act_Settle | Act_Release

fun expected_state :: "budget_action \<Rightarrow> entry_state" where
  "expected_state Act_Reserve = Reserved"
| "expected_state Act_Settle = Settled"
| "expected_state Act_Release = Released"

definition work_create :: "'a budget_db_scheme \<Rightarrow> uuid \<Rightarrow> uuid \<Rightarrow> 'a budget_db_scheme res" where
  "work_create s account work =
     (if work_budgets s (account, work) \<noteq> None then Inl (DbError ''duplicate key'')
      else Inr (s\<lparr>work_budgets := (work_budgets s)((account, work) \<mapsto>
        \<lparr>wb_limits = DEFAULT_LIMITS, wb_used = [], wb_reserved = [], wb_version = 1\<rparr>)\<rparr>))"

definition work_row_of :: "uuid \<Rightarrow> uuid \<Rightarrow> uuid \<Rightarrow> string \<Rightarrow> work_usage_row \<Rightarrow> bool" where
  "work_row_of account work run op r \<longleftrightarrow>
     wu_account_id r = account \<and> wu_work_id r = work \<and> wu_run_id r = run \<and> wu_operation_id r = op"

text \<open>The replay and conflict checks: \<open>Inr True\<close> is the early return, \<open>Inr False\<close> goes on.\<close>

definition work_replay ::
  "work_usage_row list \<Rightarrow> (string \<times> int) list \<Rightarrow> budget_action \<Rightarrow> string option \<Rightarrow> bool res" where
  "work_replay rows values action source =
     (if rows \<noteq> [] then
        (let recorded = map (\<lambda>r. (wu_dimension r,
               if action = Act_Reserve then Some (wu_reserved_amount r) else wu_actual_amount r)) rows in
         if action = Act_Reserve \<or> list_all (\<lambda>r. wu_state r = expected_state action) rows then
           (if action \<noteq> Act_Release \<and>
               (\<not> dict_eq recorded (map (\<lambda>(k, v). (k, Some v)) values)
                \<or> action = Act_Settle \<and> list_ex (\<lambda>r. wu_usage_source r \<noteq> source) rows)
            then Inl (RunBudgetConflict ''Work operation changed'') else Inr True)
         else if list_ex (\<lambda>r. wu_state r \<noteq> Reserved) rows
                 \<or> set (map fst recorded) \<noteq> set (map fst values)
         then Inl (RunBudgetConflict ''Work settlement does not match reservation'')
         else Inr False)
      else if action \<noteq> Act_Reserve then Inl (RunBudgetConflict ''Work operation is not reserved'')
      else Inr False)"

definition work_permits :: "'a budget_db_scheme \<Rightarrow> run_row \<Rightarrow> uuid \<Rightarrow> bool" where
  "work_permits s run work \<longleftrightarrow>
     account_active s (r_account_id run) \<and>
     (case works s work of
        None \<Rightarrow> False
      | Some w \<Rightarrow> w_account_id w = r_account_id run \<and> w_status w = WActive
          \<and> w_active_coordinator_run_id w = Some (r_run_id run)
          \<and> Some (w_current_requirement_revision w) = r_requirement_revision run
          \<and> Some (w_control_epoch w) = r_work_control_epoch run) \<and>
     r_status run \<in> {Queued, Running}"

definition work_over_limit :: "work_budget_row \<Rightarrow> (string \<times> int) list \<Rightarrow> bool" where
  "work_over_limit b values \<longleftrightarrow>
     list_ex (\<lambda>(k, n). case map_of (wb_limits b) k of
        None \<Rightarrow> True
      | Some limit \<Rightarrow> dget (wb_used b) k 0 + dget (wb_reserved b) k 0 + n > limit) values"

definition close_work_row ::
  "budget_action \<Rightarrow> (string \<times> int) list \<Rightarrow> string option \<Rightarrow> work_usage_row \<Rightarrow> work_usage_row" where
  "close_work_row action values source r =
     r\<lparr>wu_state := (if action = Act_Settle then Settled else Released),
       wu_actual_amount := (if action = Act_Settle then Some (dget values (wu_dimension r) 0) else None),
       wu_usage_source := source\<rparr>"

text \<open>The two writes of a mutation: holding new amounts, and closing the operation's rows.\<close>

definition work_hold ::
  "uuid \<Rightarrow> uuid \<Rightarrow> uuid \<Rightarrow> string \<Rightarrow> work_budget_row \<Rightarrow> (string \<times> int) list \<Rightarrow>
   'a budget_db_scheme \<Rightarrow> 'a budget_db_scheme" where
  "work_hold account work run_id op budget values s =
     s\<lparr>work_usage := work_usage s @ map (\<lambda>(k, v).
          \<lparr>wu_account_id = account, wu_work_id = work, wu_run_id = run_id,
           wu_operation_id = op, wu_dimension = k, wu_state = Reserved,
           wu_reserved_amount = v, wu_actual_amount = None, wu_usage_source = None\<rparr>) values,
        work_budgets := (work_budgets s)((account, work) \<mapsto>
          budget\<lparr>wb_reserved := dict_add values (wb_reserved budget),
                 wb_version := wb_version budget + 1\<rparr>)\<rparr>"

definition work_close ::
  "budget_action \<Rightarrow> string option \<Rightarrow> uuid \<Rightarrow> uuid \<Rightarrow> uuid \<Rightarrow> string \<Rightarrow> work_budget_row \<Rightarrow>
   (string \<times> int) list \<Rightarrow> 'a budget_db_scheme \<Rightarrow> 'a budget_db_scheme" where
  "work_close action source account work run_id op budget values s =
     (let rows = filter (work_row_of account work run_id op) (work_usage s) in
      s\<lparr>work_usage := update_where (work_row_of account work run_id op)
           (close_work_row action values source) (work_usage s),
        work_budgets := (work_budgets s)((account, work) \<mapsto>
          budget\<lparr>wb_reserved := dict_sub
                   (map (\<lambda>r. (wu_dimension r, wu_reserved_amount r)) rows) (wb_reserved budget),
                 wb_used := (if action = Act_Settle
                   then dict_add (map (\<lambda>r. (wu_dimension r, dget values (wu_dimension r) 0)) rows)
                          (wb_used budget)
                   else wb_used budget),
                 wb_version := wb_version budget + 1\<rparr>)\<rparr>)"

definition work_values ::
  "(string \<times> json) list option \<Rightarrow> work_usage_row list \<Rightarrow> (string \<times> int) list res" where
  "work_values amounts rows =
     (case amounts of
        Some a \<Rightarrow> amounts_of a
      | None \<Rightarrow> Inr (map (\<lambda>r. (wu_dimension r, wu_reserved_amount r)) rows))"

definition work_mutate ::
  "'a budget_db_scheme \<Rightarrow> uuid \<Rightarrow> string \<Rightarrow> (string \<times> json) list option \<Rightarrow> budget_action \<Rightarrow>
   string option \<Rightarrow> 'a budget_db_scheme res" where
  "work_mutate s run_id op amounts action source =
     (case find (\<lambda>r. r_run_id r = run_id) (runs s) of
        None \<Rightarrow> Inr s
      | Some run \<Rightarrow> (case r_work_id run of
          None \<Rightarrow> Inr s
        | Some work \<Rightarrow> (case work_budgets s (r_account_id run, work) of
            None \<Rightarrow> Inl (RuntimeError ''Work budget missing'')
          | Some budget \<Rightarrow>
              (let rows = filter (work_row_of (r_account_id run) work run_id op) (work_usage s) in
               ebind (work_values amounts rows) (\<lambda>vals.
               ebind (work_replay rows vals action source) (\<lambda>replayed.
                 if replayed then Inr s
                 else if action = Act_Reserve then
                   (if \<not> work_permits s run work
                    then Inl (RunBudgetConflict ''Work no longer permits new reservations'')
                    else if work_over_limit budget vals then Inl WorkBudgetExhausted
                    else Inr (work_hold (r_account_id run) work run_id op budget vals s))
                 else Inr (work_close action source (r_account_id run) work run_id op budget vals s)))))))"

section \<open>The Run budget\<close>

definition run_row_of :: "uuid \<Rightarrow> string \<Rightarrow> usage_row \<Rightarrow> bool" where
  "run_row_of run op r \<longleftrightarrow> u_run_id r = run \<and> u_operation_id r = op"

text \<open>The trigger \<open>enforce_capability_usage_limit\<close> and the inserts it guards.\<close>

definition capability_usage_check :: "usage_row \<Rightarrow> 'a budget_db_scheme \<Rightarrow> unit res" where
  "capability_usage_check new s =
     (case u_execution_id new of
        None \<Rightarrow> Inr ()
      | Some ex \<Rightarrow>
          if u_dimension new \<notin> {''model_calls'', ''tool_calls''} then Inr ()
          else (case find (\<lambda>c. ci_child_execution_id c = ex) (invocation_limits s) of
            None \<Rightarrow> Inr ()
          | Some i \<Rightarrow>
              if u_run_id new \<noteq> ci_run_id i then Inl (DbError ''capability usage Run mismatch'')
              else
                (let cap = (if u_dimension new = ''model_calls'' then ci_max_model_calls i else ci_max_tool_calls i);
                     consumed = sum_where (\<lambda>r. u_execution_id r = Some ex \<and> u_dimension r = u_dimension new
                                               \<and> u_state r \<in> {Reserved, Settled})
                       (\<lambda>r. if u_state r = Settled then (case u_actual_amount r of None \<Rightarrow> 0 | Some a \<Rightarrow> a)
                            else u_reserved_amount r) (run_usage s)
                 in ensure (\<not> consumed + u_reserved_amount new > cap)
                      (DbError ''capability invocation call limit exceeded'') (Inr ()))))"

fun insert_usage_rows :: "usage_row list \<Rightarrow> 'a budget_db_scheme \<Rightarrow> 'a budget_db_scheme res" where
  "insert_usage_rows [] s = Inr s"
| "insert_usage_rows (r # rs) s =
     ebind (capability_usage_check r s) (\<lambda>_. insert_usage_rows rs (s\<lparr>run_usage := run_usage s @ [r]\<rparr>))"

definition protected_amount :: "run_budget_row \<Rightarrow> bool \<Rightarrow> string \<Rightarrow> int" where
  "protected_amount b final_response dim =
     (if \<not> final_response \<and> dim \<in> {''model_output_tokens'', ''model_total_tokens''}
      then b_final_response_reserve_tokens b else 0)"

fun exceeded_dims :: "run_budget_row \<Rightarrow> bool \<Rightarrow> (string \<times> int) list \<Rightarrow> string list res" where
  "exceeded_dims b final_response [] = Inr []"
| "exceeded_dims b final_response ((dim, amount) # rest) =
     (case map_of (b_limits b) dim of
        None \<Rightarrow> Inl (RunBudgetError ''budget snapshot misses dimension'')
      | Some limit \<Rightarrow> ebind (exceeded_dims b final_response rest) (\<lambda>exceeded.
          Inr (if dget (b_used b) dim 0 + dget (b_reserved b) dim 0 + amount
                    > max 0 (limit - protected_amount b final_response dim)
               then dim # exceeded else exceeded)))"

definition new_usage_rows :: "fence \<Rightarrow> uuid \<Rightarrow> string \<Rightarrow> (string \<times> int) list \<Rightarrow> usage_row list" where
  "new_usage_rows fnc run_id op requested =
     map (\<lambda>(dim, amount).
       \<lparr>u_run_id = run_id, u_operation_id = op, u_dimension = dim, u_state = Reserved,
        u_reserved_amount = amount, u_actual_amount = None, u_usage_source = None,
        u_execution_id = map_option (\<lambda>(_, _, ex, _). ex) fnc\<rparr>) requested"

definition reserve_fenced ::
  "'a budget_db_scheme \<Rightarrow> fence \<Rightarrow> uuid \<Rightarrow> int \<Rightarrow> 'a budget_db_scheme res" where
  "reserve_fenced s fnc run_id now =
     (case fnc of
        None \<Rightarrow> Inr s
      | Some (_, frun, _, _) \<Rightarrow> ebind (assert_execution_fence s fnc now) (\<lambda>s1.
          ensure (run_id = frun) StaleFencingToken (Inr s1)))"

definition reserve_rows ::
  "'a budget_db_scheme \<Rightarrow> fence \<Rightarrow> uuid \<Rightarrow> string \<Rightarrow> (string \<times> int) list \<Rightarrow> bool \<Rightarrow> bool \<Rightarrow> run_budget_row \<Rightarrow>
   (budget_mutation \<times> 'a budget_db_scheme) res" where
  "reserve_rows s fnc run_id op requested final_response enforce_limits budget =
     ebind (exceeded_dims budget final_response requested) (\<lambda>exceeded.
       if exceeded \<noteq> [] \<and> (b_mode budget = ''enforce'' \<or> enforce_limits) then Inl RunBudgetExhausted
       else
         ebind (insert_usage_rows (new_usage_rows fnc run_id op requested) s) (\<lambda>s'.
           Inr (\<lparr>bm_run_id = run_id, bm_operation_id = op, bm_values = requested,
                 bm_state = Reserved, bm_replayed = False\<rparr>,
                s'\<lparr>run_budgets := (run_budgets s')(run_id \<mapsto>
                     budget\<lparr>b_reserved := dict_add requested (b_reserved budget),
                            b_status := (if exceeded \<noteq> [] then ''exhausted'' else b_status budget)\<rparr>)\<rparr>)))"

definition reserve_body ::
  "'a budget_db_scheme \<Rightarrow> fence \<Rightarrow> uuid \<Rightarrow> string \<Rightarrow> (string \<times> json) list \<Rightarrow> bool \<Rightarrow> bool \<Rightarrow> int \<Rightarrow>
   (budget_mutation \<times> 'a budget_db_scheme) res" where
  "reserve_body s fnc run_id op amounts final_response enforce_limits now =
     ebind (reserve_fenced s fnc run_id now) (\<lambda>s1.
     ebind (amounts_of amounts) (\<lambda>requested.
     ensure (op \<noteq> '''' \<and> length op \<le> 200) (ValueError ''operation_id must contain 1 to 200 characters'')
     (ebind (work_mutate s1 run_id op (Some (jints requested)) Act_Reserve None) (\<lambda>s2.
      ebind (need (RunBudgetError ''Run budget snapshot not found'') (run_budgets s2 run_id)) (\<lambda>budget.
        let existing = filter (run_row_of run_id op) (run_usage s2) in
        if existing \<noteq> [] then
          (if \<not> dict_eq (map (\<lambda>r. (u_dimension r, u_reserved_amount r)) existing) requested
           then Inl (RunBudgetConflict ''operation_id was already reserved with different dimensions'')
           else Inr (\<lparr>bm_run_id = run_id, bm_operation_id = op, bm_values = requested,
                     bm_state = u_state (hd existing), bm_replayed = True\<rparr>, s2))
        else reserve_rows s2 fnc run_id op requested final_response enforce_limits budget)))))"

datatype reserve_outcome = Reservation budget_mutation | Exhaustion_Deferred

definition reserve_in_uow ::
  "'a budget_db_scheme \<Rightarrow> fence \<Rightarrow> uuid \<Rightarrow> string \<Rightarrow> (string \<times> json) list \<Rightarrow> bool \<Rightarrow> bool \<Rightarrow> bool \<Rightarrow> int \<Rightarrow>
   (reserve_outcome \<times> 'a budget_db_scheme) res" where
  "reserve_in_uow s fnc run_id op amounts final_response enforce_limits defer now =
     (case reserve_body s fnc run_id op amounts final_response enforce_limits now of
        Inr (m, s') \<Rightarrow> Inr (Reservation m, s')
      | Inl e \<Rightarrow>
          if e = DbError ''capability invocation call limit exceeded'' then Inl CapabilityBudgetExhausted
          else if e = RunBudgetExhausted then
            (if defer then Inr (Exhaustion_Deferred,
                s\<lparr>run_budgets := (\<lambda>x. if x = run_id
                     then map_option (\<lambda>b. b\<lparr>b_status := ''exhausted''\<rparr>) (run_budgets s x)
                     else run_budgets s x)\<rparr>)
             else Inl e)
          else Inl e)"

text \<open>\<open>reserve\<close> owns its transaction: the exhausted mark is committed before the exception.\<close>

definition reserve ::
  "'a budget_db_scheme \<Rightarrow> fence \<Rightarrow> uuid \<Rightarrow> string \<Rightarrow> (string \<times> json) list \<Rightarrow> bool \<Rightarrow> bool \<Rightarrow> int \<Rightarrow>
   budget_mutation res \<times> 'a budget_db_scheme" where
  "reserve s fnc run_id op amounts final_response enforce_limits now =
     (case reserve_in_uow s fnc run_id op amounts final_response enforce_limits True now of
        Inl e \<Rightarrow> (Inl e, s)
      | Inr (Exhaustion_Deferred, s') \<Rightarrow> (Inl RunBudgetExhausted, s')
      | Inr (Reservation m, s') \<Rightarrow> (Inr m, s'))"

definition settle_usage :: "int \<Rightarrow> string \<Rightarrow> usage_row \<Rightarrow> usage_row" where
  "settle_usage amount source r =
     r\<lparr>u_state := Settled, u_actual_amount := Some amount, u_usage_source := Some source\<rparr>"

definition release_usage :: "usage_row \<Rightarrow> usage_row" where
  "release_usage r = r\<lparr>u_state := Released\<rparr>"

definition settle_in_uow ::
  "'a budget_db_scheme \<Rightarrow> uuid \<Rightarrow> string \<Rightarrow> (string \<times> json) list \<Rightarrow> string \<Rightarrow>
   (budget_mutation \<times> 'a budget_db_scheme) res" where
  "settle_in_uow s run_id op actual_raw usage_source =
     ensure (usage_source \<in> set USAGE_SOURCES) (ValueError ''unsupported usage source'')
     (ebind (amounts_of actual_raw) (\<lambda>actual.
      ebind (work_mutate s run_id op (Some (jints actual)) Act_Settle (Some usage_source)) (\<lambda>s1.
      ebind (need (RunBudgetError ''Run budget snapshot not found'') (run_budgets s1 run_id)) (\<lambda>budget.
        let rows = filter (run_row_of run_id op) (run_usage s1);
            reserved_values = map (\<lambda>r. (u_dimension r, u_reserved_amount r)) rows in
        if set (map fst reserved_values) \<noteq> set (map fst actual)
        then Inl (RunBudgetConflict ''settlement dimensions differ from reservation'')
        else if rows \<noteq> [] \<and> list_all (\<lambda>r. u_state r = Settled) rows then
          (if \<not> dict_eq (map (\<lambda>r. (u_dimension r, u_actual_amount r)) rows)
                        (map (\<lambda>(k, v). (k, Some v)) actual)
              \<or> list_ex (\<lambda>r. u_usage_source r \<noteq> Some usage_source) rows
           then Inl (RunBudgetConflict ''operation_id was already settled differently'')
           else Inr (\<lparr>bm_run_id = run_id, bm_operation_id = op, bm_values = actual,
                     bm_state = Settled, bm_replayed = True\<rparr>, s1))
        else if rows = [] \<or> list_ex (\<lambda>r. u_state r \<noteq> Reserved) rows
        then Inl (RunBudgetConflict ''operation is not reserved'')
        else
          (let reserved' = dict_sub_clamped reserved_values (b_reserved budget);
               used' = dict_add actual (b_used budget);
               exhausted = list_ex (\<lambda>(dim, limit). dget used' dim 0 + dget reserved' dim 0 > limit) (b_limits budget)
           in Inr (\<lparr>bm_run_id = run_id, bm_operation_id = op, bm_values = actual,
                    bm_state = Settled, bm_replayed = False\<rparr>,
                   s1\<lparr>run_usage := update_where (run_row_of run_id op)
                        (\<lambda>r. settle_usage (dget actual (u_dimension r) 0) usage_source r) (run_usage s1),
                      run_budgets := (run_budgets s1)(run_id \<mapsto>
                        budget\<lparr>b_used := used', b_reserved := reserved',
                               b_status := (if exhausted then ''exhausted'' else b_status budget)\<rparr>)\<rparr>))))))"

definition release_in_uow ::
  "'a budget_db_scheme \<Rightarrow> uuid \<Rightarrow> string \<Rightarrow> (budget_mutation \<times> 'a budget_db_scheme) res" where
  "release_in_uow s run_id op =
     ebind (work_mutate s run_id op None Act_Release None) (\<lambda>s1.
     ebind (need (RunBudgetError ''Run budget snapshot not found'') (run_budgets s1 run_id)) (\<lambda>budget.
       let rows = filter (run_row_of run_id op) (run_usage s1);
           values = map (\<lambda>r. (u_dimension r, u_reserved_amount r)) rows in
       if rows = [] then Inl (RunBudgetConflict ''operation is not reserved'')
       else if list_all (\<lambda>r. u_state r = Released) rows then
         Inr (\<lparr>bm_run_id = run_id, bm_operation_id = op, bm_values = values,
               bm_state = Released, bm_replayed = True\<rparr>, s1)
       else if list_ex (\<lambda>r. u_state r \<noteq> Reserved) rows
       then Inl (RunBudgetConflict ''settled usage cannot be released'')
       else
         Inr (\<lparr>bm_run_id = run_id, bm_operation_id = op, bm_values = values,
               bm_state = Released, bm_replayed = False\<rparr>,
              s1\<lparr>run_usage := update_where (run_row_of run_id op) release_usage (run_usage s1),
                 run_budgets := (run_budgets s1)(run_id \<mapsto>
                   budget\<lparr>b_reserved := dict_sub_clamped values (b_reserved budget)\<rparr>)\<rparr>)))"

definition settle ::
  "'a budget_db_scheme \<Rightarrow> uuid \<Rightarrow> string \<Rightarrow> (string \<times> json) list \<Rightarrow> string \<Rightarrow>
   (budget_mutation \<times> 'a budget_db_scheme) res" where
  "settle s run_id op actual usage_source =
     ensure (usage_source \<in> set USAGE_SOURCES) (ValueError ''unsupported usage source'')
       (ebind (amounts_of actual) (\<lambda>a. settle_in_uow s run_id op (jints a) usage_source))"

definition release ::
  "'a budget_db_scheme \<Rightarrow> uuid \<Rightarrow> string \<Rightarrow> (budget_mutation \<times> 'a budget_db_scheme) res" where
  "release s run_id op = release_in_uow s run_id op"

section \<open>Recovery of a terminal Run\<close>

text \<open>The reserved rows of the Run grouped by operation; the groups follow the table order (the
  code sorts them by operation, which only fixes the order in which the operations are settled).\<close>

definition reserved_operations :: "'a budget_db_scheme \<Rightarrow> uuid \<Rightarrow> (string \<times> (string \<times> int) list) list" where
  "reserved_operations s run =
     (let rows = filter (\<lambda>r. u_run_id r = run \<and> u_state r = Reserved) (run_usage s) in
      map (\<lambda>op. (op, map (\<lambda>r. (u_dimension r, u_reserved_amount r)) (filter (\<lambda>r. u_operation_id r = op) rows)))
        (remdups (map u_operation_id rows)))"

fun settle_all ::
  "(string \<times> (string \<times> int) list) list \<Rightarrow> uuid \<Rightarrow> 'a budget_db_scheme \<Rightarrow> 'a budget_db_scheme res" where
  "settle_all [] run s = Inr s"
| "settle_all ((op, amounts) # rest) run s =
     ebind (settle_in_uow s run op (jints amounts) ''estimated'') (\<lambda>(_, s'). settle_all rest run s')"

definition recover_terminal_in_uow :: "'a budget_db_scheme \<Rightarrow> uuid \<Rightarrow> 'a budget_db_scheme res" where
  "recover_terminal_in_uow s run_id =
     (case find (\<lambda>r. r_run_id r = run_id) (runs s) of
        None \<Rightarrow> Inl (ValueError ''usage recovery requires a terminal Run'')
      | Some run \<Rightarrow>
          if r_status run \<notin> {Succeeded, Failed, Cancelled}
          then Inl (ValueError ''usage recovery requires a terminal Run'')
          else if filter (\<lambda>r. u_run_id r = run_id \<and> u_state r = Reserved) (run_usage s) = [] then Inr s
          else settle_all (reserved_operations s run_id) run_id s)"

end
