(* ===== verification/Account_Budget.thy ===== *)
theory Account_Budget
  imports Run_Budget
begin

text \<open>
  The model entitlement of an Account and its daily token budget: \<open>account/entitlement_service.py\<close>
  and \<open>resources/account_daily_budget.py\<close>. Instants are timezone-aware and counted in seconds since
  the epoch; a quota date is the UTC day number. \<open>at\<close> is the optional clock argument of the code and
  \<open>now\<close> the clock it falls back to.
\<close>

section \<open>Data\<close>

record entitlement_row =
  en_model_access_tier :: string
  en_daily_token_limit :: "int option"
  en_prompt_visibility :: string
  en_expires_at :: "int option"
  en_version :: int

record daily_row =
  d_used_tokens :: int
  d_reserved_tokens :: int

record account_usage_row =
  au_account_id :: uuid
  au_quota_date :: int
  au_operation_id :: string
  au_snapshot_id :: "uuid option"
  au_state :: entry_state
  au_reserved_tokens :: int
  au_actual_tokens :: "int option"
  au_usage_source :: "string option"

text \<open>The columns of a frozen model request that the budget and the dispatch read.\<close>

record snapshot_row =
  sn_account_id :: uuid
  sn_snapshot_id :: uuid
  sn_run_id :: uuid
  sn_model_call_id :: uuid
  sn_fallback_attempt :: int
  sn_operation_id :: string
  sn_content_hash :: string
  sn_entitlement_version :: int
  sn_execution_id :: "uuid option"
  sn_memory_context :: "manifest option"

record account_db = budget_db +
  entitlements :: "uuid \<Rightarrow> entitlement_row option"
  daily_budgets :: "uuid \<times> int \<Rightarrow> daily_row option"
  account_usage :: "account_usage_row list"
  snapshots :: "snapshot_row list"
  dispatches :: "(uuid \<times> uuid) list"

record account_mutation =
  am_account_id :: uuid
  am_quota_date :: int
  am_operation_id :: string
  am_tokens :: int
  am_state :: entry_state
  am_replayed :: bool

section \<open>Entitlements\<close>

datatype entitlement_state = Account_Unavailable | Missing | Entitlement_Expired | Valid

definition entitlement_get_in_uow ::
  "'a account_db_scheme \<Rightarrow> uuid \<Rightarrow> int option \<Rightarrow> int \<Rightarrow> entitlement_state \<times> entitlement_row option" where
  "entitlement_get_in_uow s acc at now =
     (if \<not> account_active s acc then (Account_Unavailable, None)
      else case entitlements s acc of
        None \<Rightarrow> (Missing, None)
      | Some e \<Rightarrow>
          (case en_expires_at e of
             Some t \<Rightarrow> if t \<le> (case at of None \<Rightarrow> now | Some a \<Rightarrow> a) then (Entitlement_Expired, Some e) else (Valid, Some e)
           | None \<Rightarrow> (Valid, Some e)))"

section \<open>The daily budget\<close>

fun tokens_of :: "json \<Rightarrow> int res" where
  "tokens_of (JInt n) = (if n < 0 then Inl (ValueError ''tokens must be a non-negative integer'') else Inr n)"
| "tokens_of _ = Inl (ValueError ''tokens must be a non-negative integer'')"

definition operation_of :: "string \<Rightarrow> string res" where
  "operation_of v = ensure (v \<noteq> [] \<and> length v \<le> 200) (ValueError ''operation_id must contain 1 to 200 characters'') (Inr v)"

definition quota_date :: "int option \<Rightarrow> int \<Rightarrow> int" where
  "quota_date at now = (case at of None \<Rightarrow> now | Some a \<Rightarrow> a) div 86400"

definition account_row_of :: "uuid \<Rightarrow> int \<Rightarrow> string \<Rightarrow> account_usage_row \<Rightarrow> bool" where
  "account_row_of acc day op r \<longleftrightarrow> au_account_id r = acc \<and> au_quota_date r = day \<and> au_operation_id r = op"

text \<open>\<open>INSERT \<dots> ON CONFLICT DO NOTHING\<close> and the SELECT after it.\<close>

definition daily_of :: "'a account_db_scheme \<Rightarrow> uuid \<Rightarrow> int \<Rightarrow> daily_row" where
  "daily_of s acc day = (case daily_budgets s (acc, day) of
     None \<Rightarrow> \<lparr>d_used_tokens = 0, d_reserved_tokens = 0\<rparr> | Some d \<Rightarrow> d)"

definition entitled ::
  "entitlement_state \<times> entitlement_row option \<Rightarrow> int option \<Rightarrow> string option \<Rightarrow> entitlement_row res" where
  "entitled lookup expected tier =
     (case lookup of
        (Valid, Some e) \<Rightarrow>
          (if expected \<noteq> None \<and> expected \<noteq> Some (en_version e) then Inl AccountModelEntitlementUnavailable
           else if tier \<noteq> None \<and> en_model_access_tier e \<noteq> ''owner'' \<and> Some (en_model_access_tier e) \<noteq> tier
           then Inl ModelAccessTierDenied
           else Inr e)
      | _ \<Rightarrow> Inl AccountModelEntitlementUnavailable)"

definition account_reserve_rows ::
  "'a account_db_scheme \<Rightarrow> entitlement_row \<Rightarrow> uuid \<Rightarrow> int \<Rightarrow> string \<Rightarrow> int \<Rightarrow> uuid option \<Rightarrow>
   (account_mutation \<times> 'a account_db_scheme) res" where
  "account_reserve_rows s e acc day op requested snap =
     (let summary = daily_of s acc day in
      case find (account_row_of acc day op) (account_usage s) of
        Some existing \<Rightarrow>
          (if au_reserved_tokens existing \<noteq> requested \<or> au_snapshot_id existing \<noteq> snap
           then Inl (AccountDailyBudgetConflict ''operation_id was reserved with different tokens'')
           else Inr (\<lparr>am_account_id = acc, am_quota_date = day, am_operation_id = op, am_tokens = requested,
                     am_state = au_state existing, am_replayed = True\<rparr>,
                s\<lparr>daily_budgets := (daily_budgets s)((acc, day) \<mapsto> summary)\<rparr>))
      | None \<Rightarrow>
          if (case en_daily_token_limit e of None \<Rightarrow> False
              | Some limit \<Rightarrow> d_used_tokens summary + d_reserved_tokens summary + requested > limit)
          then Inl AccountDailyBudgetExhausted
          else Inr (\<lparr>am_account_id = acc, am_quota_date = day, am_operation_id = op, am_tokens = requested,
                    am_state = Reserved, am_replayed = False\<rparr>,
               s\<lparr>account_usage := account_usage s @
                   [\<lparr>au_account_id = acc, au_quota_date = day, au_operation_id = op, au_snapshot_id = snap,
                     au_state = Reserved, au_reserved_tokens = requested, au_actual_tokens = None,
                     au_usage_source = None\<rparr>],
                 daily_budgets := (daily_budgets s)((acc, day) \<mapsto>
                   summary\<lparr>d_reserved_tokens := d_reserved_tokens summary + requested\<rparr>)\<rparr>))"

definition account_reserve_in_uow ::
  "'a account_db_scheme \<Rightarrow> uuid \<Rightarrow> string \<Rightarrow> json \<Rightarrow> int option \<Rightarrow> uuid option \<Rightarrow> int option \<Rightarrow> string option \<Rightarrow>
   int option \<Rightarrow> int \<Rightarrow> (account_mutation \<times> 'a account_db_scheme) res" where
  "account_reserve_in_uow s acc op tokens at snap expected tier qdate now =
     ebind (tokens_of tokens) (\<lambda>requested.
     ebind (operation_of op) (\<lambda>op.
     ebind (entitled (entitlement_get_in_uow s acc at now) expected tier) (\<lambda>e.
       account_reserve_rows s e acc (case qdate of Some d \<Rightarrow> d | None \<Rightarrow> quota_date at now) op requested snap)))"

definition account_reserve ::
  "'a account_db_scheme \<Rightarrow> uuid \<Rightarrow> string \<Rightarrow> json \<Rightarrow> int option \<Rightarrow> int option \<Rightarrow> string option \<Rightarrow> int \<Rightarrow>
   (account_mutation \<times> 'a account_db_scheme) res" where
  "account_reserve s acc op tokens at expected tier now =
     account_reserve_in_uow s acc op tokens at None expected tier None now"

definition locked_ledger ::
  "'a account_db_scheme \<Rightarrow> uuid \<Rightarrow> string \<Rightarrow> int option \<Rightarrow> (int \<times> account_usage_row) res" where
  "locked_ledger s acc op qdate =
     ebind (case qdate of
              Some d \<Rightarrow> Inr d
            | None \<Rightarrow> (case filter (\<lambda>r. au_account_id r = acc \<and> au_operation_id r = op) (account_usage s) of
                [r] \<Rightarrow> Inr (au_quota_date r)
              | _ \<Rightarrow> Inl (AccountDailyBudgetConflict ''operation is not uniquely reserved''))) (\<lambda>day.
       case find (account_row_of acc day op) (account_usage s) of
         None \<Rightarrow> Inl (AccountDailyBudgetConflict ''operation is not reserved'')
       | Some row \<Rightarrow> ensure (daily_budgets s (acc, day) \<noteq> None)
                       (AccountDailyBudgetConflict ''operation is not reserved'') (Inr (day, row)))"

definition settle_account_row :: "int \<Rightarrow> string \<Rightarrow> account_usage_row \<Rightarrow> account_usage_row" where
  "settle_account_row actual source r =
     r\<lparr>au_state := Settled, au_actual_tokens := Some actual, au_usage_source := Some source\<rparr>"

definition release_account_row :: "account_usage_row \<Rightarrow> account_usage_row" where
  "release_account_row r = r\<lparr>au_state := Released\<rparr>"

definition update_daily ::
  "uuid \<Rightarrow> int \<Rightarrow> (daily_row \<Rightarrow> daily_row) \<Rightarrow> (uuid \<times> int \<Rightarrow> daily_row option) \<Rightarrow> (uuid \<times> int \<Rightarrow> daily_row option)" where
  "update_daily acc day f D = D((acc, day) := map_option f (D (acc, day)))"

definition account_settle_row ::
  "'a account_db_scheme \<Rightarrow> uuid \<Rightarrow> string \<Rightarrow> int \<Rightarrow> string \<Rightarrow> int \<Rightarrow> account_usage_row \<Rightarrow>
   (account_mutation \<times> 'a account_db_scheme) res" where
  "account_settle_row s acc op actual usage_source day row =
     (let m = \<lparr>am_account_id = acc, am_quota_date = day, am_operation_id = op, am_tokens = actual,
               am_state = Settled, am_replayed = False\<rparr> in
      if au_state row = Settled then
        (if au_actual_tokens row \<noteq> Some actual \<or> au_usage_source row \<noteq> Some usage_source
         then Inl (AccountDailyBudgetConflict ''operation_id was already settled differently'')
         else Inr (m\<lparr>am_replayed := True\<rparr>, s))
      else if au_state row \<noteq> Reserved then Inl (AccountDailyBudgetConflict ''operation is not reserved'')
      else Inr (m, s\<lparr>account_usage := update_where (account_row_of acc day op)
                      (settle_account_row actual usage_source) (account_usage s),
                   daily_budgets := update_daily acc day
                     (\<lambda>d. d\<lparr>d_reserved_tokens := d_reserved_tokens d - au_reserved_tokens row,
                            d_used_tokens := d_used_tokens d + actual\<rparr>) (daily_budgets s)\<rparr>))"

definition account_settle_in_uow ::
  "'a account_db_scheme \<Rightarrow> uuid \<Rightarrow> string \<Rightarrow> json \<Rightarrow> string \<Rightarrow> int option \<Rightarrow>
   (account_mutation \<times> 'a account_db_scheme) res" where
  "account_settle_in_uow s acc op actual_tokens usage_source qdate =
     ebind (tokens_of actual_tokens) (\<lambda>actual.
     ebind (operation_of op) (\<lambda>op.
     ensure (usage_source \<in> set USAGE_SOURCES) (ValueError ''unsupported usage source'')
     (ebind (locked_ledger s acc op qdate) (\<lambda>(day, row).
        account_settle_row s acc op actual usage_source day row))))"

definition account_release_row ::
  "'a account_db_scheme \<Rightarrow> uuid \<Rightarrow> string \<Rightarrow> int \<Rightarrow> account_usage_row \<Rightarrow>
   (account_mutation \<times> 'a account_db_scheme) res" where
  "account_release_row s acc op day row =
     (let held = au_reserved_tokens row;
          m = \<lparr>am_account_id = acc, am_quota_date = day, am_operation_id = op, am_tokens = held,
               am_state = Released, am_replayed = False\<rparr> in
      if au_state row = Released then Inr (m\<lparr>am_replayed := True\<rparr>, s)
      else if au_state row \<noteq> Reserved then Inl (AccountDailyBudgetConflict ''settled usage cannot be released'')
      else Inr (m, s\<lparr>account_usage := update_where (account_row_of acc day op) release_account_row (account_usage s),
                   daily_budgets := update_daily acc day
                     (\<lambda>d. d\<lparr>d_reserved_tokens := d_reserved_tokens d - held\<rparr>) (daily_budgets s)\<rparr>))"

definition account_release_in_uow ::
  "'a account_db_scheme \<Rightarrow> uuid \<Rightarrow> string \<Rightarrow> int option \<Rightarrow> (account_mutation \<times> 'a account_db_scheme) res" where
  "account_release_in_uow s acc op qdate =
     ebind (operation_of op) (\<lambda>op.
     ebind (locked_ledger s acc op qdate) (\<lambda>(day, row). account_release_row s acc op day row))"

end
