(* ===== verification/Budget_Coordinator.thy ===== *)
theory Budget_Coordinator
  imports Account_Budget "HOL-Library.Product_Lexorder"
begin

text \<open>
  One model call pays twice, from the Account's day and from the Run: \<open>resources/model_budget_coordinator.py\<close>,
  and the frozen request it pays for, \<open>resources/model_input_snapshot.py\<close> (insertion and dispatch mark).
  The digest of a request and the fresh identifier of a snapshot are arguments.
\<close>

section \<open>Coordinated reservation, settlement and release\<close>

definition require_matching_total :: "json \<Rightarrow> (string \<times> json) list \<Rightarrow> 'a res \<Rightarrow> 'a res" where
  "require_matching_total tokens run_values k =
     ensure (case map_of run_values ''model_total_tokens'' of None \<Rightarrow> False | Some v \<Rightarrow> py_eq v tokens)
       (ValueError ''Account tokens must equal the Run model_total_tokens dimension'') k"

definition prior_quota_date :: "'a account_db_scheme \<Rightarrow> uuid \<Rightarrow> string \<Rightarrow> uuid option \<Rightarrow> int option res" where
  "prior_quota_date s acc op snap =
     (case snap of
        None \<Rightarrow> Inr None
      | Some sn \<Rightarrow>
          (case filter (\<lambda>r. au_account_id r = acc \<and> au_operation_id r = op \<and> au_snapshot_id r = Some sn) (account_usage s) of
             [] \<Rightarrow> Inr None
           | [r] \<Rightarrow> Inr (Some (au_quota_date r))
           | _ \<Rightarrow> Inl (AccountDailyBudgetConflict ''snapshot reservation has multiple quota dates'')))"

definition coordinator_reserve ::
  "'a account_db_scheme \<Rightarrow> fence \<Rightarrow> uuid \<Rightarrow> uuid \<Rightarrow> string \<Rightarrow> json \<Rightarrow> (string \<times> json) list \<Rightarrow> bool \<Rightarrow> int option \<Rightarrow>
   uuid option \<Rightarrow> int option \<Rightarrow> string option \<Rightarrow> int \<Rightarrow>
   ((account_mutation \<times> reserve_outcome) \<times> 'a account_db_scheme) res" where
  "coordinator_reserve s fnc acc run op tokens run_amounts final_response at snap expected tier now =
     require_matching_total tokens run_amounts
     (ensure (run_budgets s run \<noteq> None \<and> find_run s acc run \<noteq> None) (RunBudgetError ''Run budget snapshot not found'')
      (ebind (require_active_run s acc run) (\<lambda>_.
       ebind (prior_quota_date s acc op snap) (\<lambda>day.
       ebind (account_reserve_in_uow s acc op tokens at snap expected tier day now) (\<lambda>(account, s1).
       ebind (reserve_in_uow s1 fnc run op run_amounts final_response False False now) (\<lambda>(m, s2).
         Inr ((account, m), s2)))))))"

definition coordinator_settle ::
  "'a account_db_scheme \<Rightarrow> uuid \<Rightarrow> uuid \<Rightarrow> string \<Rightarrow> json \<Rightarrow> (string \<times> json) list \<Rightarrow> string \<Rightarrow> int option \<Rightarrow>
   ((account_mutation \<times> budget_mutation) \<times> 'a account_db_scheme) res" where
  "coordinator_settle s acc run op tokens run_actual usage_source qdate =
     require_matching_total tokens run_actual
     (ebind (account_settle_in_uow s acc op tokens usage_source qdate) (\<lambda>(account, s1).
      ebind (settle_in_uow s1 run op run_actual usage_source) (\<lambda>(m, s2). Inr ((account, m), s2))))"

definition dispatched_operation :: "'a account_db_scheme \<Rightarrow> uuid \<Rightarrow> uuid \<Rightarrow> string \<Rightarrow> bool" where
  "dispatched_operation s acc run op \<longleftrightarrow>
     list_ex (\<lambda>q. sn_account_id q = acc \<and> sn_run_id q = run \<and> sn_operation_id q = op
                  \<and> (acc, sn_snapshot_id q) \<in> set (dispatches s)) (snapshots s)"

definition coordinator_release ::
  "'a account_db_scheme \<Rightarrow> uuid \<Rightarrow> uuid \<Rightarrow> string \<Rightarrow> int option \<Rightarrow>
   ((account_mutation \<times> budget_mutation) \<times> 'a account_db_scheme) res" where
  "coordinator_release s acc run op qdate =
     ebind (locked_ledger s acc op qdate) (\<lambda>_.
     ensure (\<not> dispatched_operation s acc run op)
       (AccountDailyBudgetConflict ''a dispatched model reservation cannot be released'')
     (ebind (account_release_in_uow s acc op qdate) (\<lambda>(account, s1).
      ebind (release_in_uow s1 run op) (\<lambda>(m, s2). Inr ((account, m), s2)))))"

section \<open>Recovery of the model holds of a terminal Run\<close>

definition model_holds :: "'a account_db_scheme \<Rightarrow> run_row \<Rightarrow> (account_usage_row \<times> bool) list" where
  "model_holds s run =
     sort_key (\<lambda>(l, _). (au_quota_date l, au_operation_id l))
       (concat (map (\<lambda>l. map (\<lambda>q. (l, (sn_account_id q, sn_snapshot_id q) \<in> set (dispatches s)))
          (filter (\<lambda>q. sn_account_id q = au_account_id l \<and> au_snapshot_id l = Some (sn_snapshot_id q)
                     \<and> sn_account_id q = r_account_id run \<and> sn_run_id q = r_run_id run) (snapshots s)))
          (filter (\<lambda>l. au_state l = Reserved) (account_usage s))))"

definition recover_hold ::
  "run_row \<Rightarrow> account_usage_row \<times> bool \<Rightarrow> 'a account_db_scheme \<Rightarrow> 'a account_db_scheme res" where
  "recover_hold run hold s =
     (let l = fst hold; op = au_operation_id l; acc = r_account_id run; day = Some (au_quota_date l) in
      ebind (locked_ledger s acc op day) (\<lambda>(_, ledger).
        if au_state ledger \<noteq> Reserved then Inr s
        else if snd hold then
          (let amounts = map (\<lambda>r. (u_dimension r, JInt (u_reserved_amount r)))
                 (filter (run_row_of (r_run_id run) op) (run_usage s)) in
           require_matching_total (JInt (au_reserved_tokens l)) amounts
           (ebind (account_settle_in_uow s acc op (JInt (au_reserved_tokens l)) ''estimated'' day) (\<lambda>(_, s1).
            ebind (settle_in_uow s1 (r_run_id run) op amounts ''estimated'') (\<lambda>(_, s2). Inr s2))))
        else
          ebind (account_release_in_uow s acc op day) (\<lambda>(_, s1).
          ebind (release_in_uow s1 (r_run_id run) op) (\<lambda>(_, s2). Inr s2))))"

fun recover_holds ::
  "(account_usage_row \<times> bool) list \<Rightarrow> run_row \<Rightarrow> 'a account_db_scheme \<Rightarrow> 'a account_db_scheme res" where
  "recover_holds [] run s = Inr s"
| "recover_holds (h # hs) run s = ebind (recover_hold run h s) (\<lambda>s'. recover_holds hs run s')"

definition coordinator_recover ::
  "'a account_db_scheme \<Rightarrow> run_row \<Rightarrow> 'a account_db_scheme res" where
  "coordinator_recover s run =
     (if r_status run \<notin> {Succeeded, Failed, Cancelled}
      then Inl (ValueError ''model hold recovery requires a terminal Run'')
      else recover_holds (model_holds s run) run s)"

section \<open>Frozen requests\<close>

text \<open>\<open>bind_execution_observation\<close> fills the Execution of a snapshot with the Root when it has none.\<close>

definition bind_execution_observation :: "'a account_db_scheme \<Rightarrow> snapshot_row \<Rightarrow> snapshot_row" where
  "bind_execution_observation s q =
     q\<lparr>sn_execution_id := (case sn_execution_id q of
         Some e \<Rightarrow> Some e
       | None \<Rightarrow> map_option e_execution_id (find (\<lambda>e. e_account_id e = sn_account_id q
             \<and> e_run_id e = sn_run_id q \<and> e_role e = Root) (executions s)))\<rparr>"

definition snapshot_insert ::
  "'a account_db_scheme \<Rightarrow> fence \<Rightarrow> snapshot_row \<Rightarrow> (snapshot_row \<times> 'a account_db_scheme) res" where
  "snapshot_insert s fnc new =
     (if find_run s (sn_account_id new) (sn_run_id new) = None
      then Inl (PyLookupError ''Run does not belong to model-call Account'')
      else ebind (check_execution s (sn_account_id new) (sn_run_id new) (map_option (\<lambda>(_, _, e, _). e) fnc) True) (\<lambda>(mf, s1).
        case find (\<lambda>q. sn_account_id q = sn_account_id new \<and> sn_run_id q = sn_run_id new
                     \<and> sn_operation_id q = sn_operation_id new) (snapshots s1) of
          Some row \<Rightarrow> (if sn_content_hash row \<noteq> sn_content_hash new then Inl SnapshotConflict else Inr (row, s1))
        | None \<Rightarrow>
            if list_ex (\<lambda>q. sn_model_call_id q = sn_model_call_id new
                 \<and> sn_fallback_attempt q = sn_fallback_attempt new) (snapshots s1)
            then Inl (DbError ''duplicate key'')
            else (let row = bind_execution_observation s1
                   (new\<lparr>sn_execution_id := map_option (\<lambda>(_, _, e, _). e) fnc, sn_memory_context := mf\<rparr>)
             in Inr (row, s1\<lparr>snapshots := snapshots s1 @ [row]\<rparr>))))"

definition mark_dispatched ::
  "'a account_db_scheme \<Rightarrow> fence \<Rightarrow> uuid \<Rightarrow> uuid \<Rightarrow> int \<Rightarrow> (unit \<times> 'a account_db_scheme) res" where
  "mark_dispatched s fnc acc snap now =
     ebind (account_epoch s acc) (\<lambda>_.
     ebind (assert_execution_fence s fnc now) (\<lambda>s1.
     ebind (need (PyLookupError ''snapshot missing'')
       (find (\<lambda>q. sn_account_id q = acc \<and> sn_snapshot_id q = snap) (snapshots s1))) (\<lambda>q.
     ebind (require_active_run s1 acc (sn_run_id q)) (\<lambda>_.
     ebind (case sn_execution_id q of
              Some e \<Rightarrow> Inr e
            | None \<Rightarrow> need (RuntimeError ''NoneType'') (map_option e_execution_id (find_execution s1 acc (sn_run_id q) None))) (\<lambda>ex.
     ensure (case fnc of None \<Rightarrow> True | Some (facc, frun, fex, _) \<Rightarrow> acc = facc \<and> sn_run_id q = frun \<and> ex = fex)
       StaleFencingToken
     (ebind (check_execution s1 acc (sn_run_id q) (sn_execution_id q) True) (\<lambda>(_, s2).
      ebind (check_manifest s2 acc (sn_memory_context q) None) (\<lambda>_.
      ensure (case entitlement_get_in_uow s2 acc None now of
                (Valid, Some e) \<Rightarrow> en_version e = sn_entitlement_version q
              | _ \<Rightarrow> False) AccountModelEntitlementUnavailable
      (ebind (locked_ledger s2 acc (sn_operation_id q) None) (\<lambda>(_, ledger).
       ensure (au_state ledger = Reserved) (AccountDailyBudgetConflict ''model dispatch requires its original reservation'')
       (ensure ((acc, snap) \<notin> set (dispatches s2))
          (AccountDailyBudgetConflict ''model request already dispatched; recover its original Operation'')
          (Inr ((), s2\<lparr>dispatches := dispatches s2 @ [(acc, snap)]\<rparr>)))))))))))))"

end
