(* ===== verification/Run_Budget_Laws.thy ===== *)
theory Run_Budget_Laws
  imports Run_Budget
begin

text \<open>
  The books of the Run budget: the \<open>reserved\<close> and \<open>used\<close> columns of a budget row are the sums of the
  ledger rows of the Run, kept by every operation of the service.
\<close>

section \<open>The ledgers as instances of the shared contract\<close>

interpretation run_led: usage_ledger "\<lambda>r. (u_run_id r, u_dimension r)" u_state u_reserved_amount
    u_actual_amount settle_usage release_usage
  by unfold_locales (simp_all add: settle_usage_def release_usage_def)

definition settle_work_row :: "int \<Rightarrow> string option \<Rightarrow> work_usage_row \<Rightarrow> work_usage_row" where
  "settle_work_row a src r = r\<lparr>wu_state := Settled, wu_actual_amount := Some a, wu_usage_source := src\<rparr>"

lemma close_work_row_settle:
  "close_work_row Act_Settle values src = (\<lambda>r. settle_work_row (dget values (wu_dimension r) 0) src r)"
  by (simp add: close_work_row_def settle_work_row_def fun_eq_iff)

interpretation work_led: usage_ledger "\<lambda>r. ((wu_account_id r, wu_work_id r), wu_dimension r)" wu_state
    wu_reserved_amount wu_actual_amount settle_work_row "close_work_row Act_Release vs src" for vs src
  by unfold_locales (simp_all add: settle_work_row_def close_work_row_def)

section \<open>Frames and amounts\<close>

text \<open>Holding or closing the Work budget touches the two Work tables only.\<close>

definition same_but_work :: "'a budget_db_scheme \<Rightarrow> 'a budget_db_scheme \<Rightarrow> bool" where
  "same_but_work s s' \<longleftrightarrow> s' = s\<lparr>work_usage := work_usage s', work_budgets := work_budgets s'\<rparr>"

lemma same_but_work_refl [simp]: "same_but_work s s"
  by (simp add: same_but_work_def)

lemma same_but_work_upd [simp]:
  "same_but_work s (s\<lparr>work_usage := a, work_budgets := b\<rparr>)"
  by (simp add: same_but_work_def)

text \<open>The outcomes of one Work mutation: nothing, a replay, a hold, or a closed hold.\<close>

lemma work_mutate_cases:
  assumes "work_mutate s run_id op amounts action source = Inr s'"
  obtains (NoWork) "s' = s" "case find (\<lambda>r. r_run_id r = run_id) (runs s) of None \<Rightarrow> True
      | Some run \<Rightarrow> r_work_id run = None"
  | (Replay) run work budget vals where
      "find (\<lambda>r. r_run_id r = run_id) (runs s) = Some run" "r_work_id run = Some work"
      "work_budgets s (r_account_id run, work) = Some budget"
      "work_values amounts (filter (work_row_of (r_account_id run) work run_id op) (work_usage s)) = Inr vals"
      "work_replay (filter (work_row_of (r_account_id run) work run_id op) (work_usage s)) vals action source = Inr True"
      "s' = s"
  | (Hold) run work budget vals where
      "find (\<lambda>r. r_run_id r = run_id) (runs s) = Some run" "r_work_id run = Some work"
      "work_budgets s (r_account_id run, work) = Some budget"
      "work_values amounts (filter (work_row_of (r_account_id run) work run_id op) (work_usage s)) = Inr vals"
      "work_replay (filter (work_row_of (r_account_id run) work run_id op) (work_usage s)) vals action source = Inr False"
      "action = Act_Reserve" "work_permits s run work" "\<not> work_over_limit budget vals"
      "s' = work_hold (r_account_id run) work run_id op budget vals s"
  | (Close) run work budget vals where
      "find (\<lambda>r. r_run_id r = run_id) (runs s) = Some run" "r_work_id run = Some work"
      "work_budgets s (r_account_id run, work) = Some budget"
      "work_values amounts (filter (work_row_of (r_account_id run) work run_id op) (work_usage s)) = Inr vals"
      "work_replay (filter (work_row_of (r_account_id run) work run_id op) (work_usage s)) vals action source = Inr False"
      "action \<noteq> Act_Reserve"
      "s' = work_close action source (r_account_id run) work run_id op budget vals s"
proof (cases "find (\<lambda>r. r_run_id r = run_id) (runs s)")
  case None
  with assms NoWork show ?thesis by (simp add: work_mutate_def)
next
  case (Some run)
  note r = this
  show ?thesis
  proof (cases "r_work_id run")
    case None
    with assms r NoWork show ?thesis by (simp add: work_mutate_def)
  next
    case (Some work)
    note w = this
    obtain budget where b: "work_budgets s (r_account_id run, work) = Some budget"
      using assms r w by (cases "work_budgets s (r_account_id run, work)") (simp_all add: work_mutate_def)
    obtain vals where v: "work_values amounts
        (filter (work_row_of (r_account_id run) work run_id op) (work_usage s)) = Inr vals"
      using assms r w b
      by (cases "work_values amounts (filter (work_row_of (r_account_id run) work run_id op) (work_usage s))")
         (simp_all add: work_mutate_def)
    show ?thesis
    proof (cases "work_replay (filter (work_row_of (r_account_id run) work run_id op) (work_usage s))
        vals action source")
      case (Inl e)
      with assms r w b v show ?thesis by (simp add: work_mutate_def)
    next
      case (Inr rep)
      note p = this
      have step: "(if rep then Inr s else if action = Act_Reserve then
          (if \<not> work_permits s run work
           then Inl (RunBudgetConflict ''Work no longer permits new reservations'')
           else if work_over_limit budget vals then Inl WorkBudgetExhausted
           else Inr (work_hold (r_account_id run) work run_id op budget vals s))
         else Inr (work_close action source (r_account_id run) work run_id op budget vals s)) = Inr s'"
        using assms by (simp only: work_mutate_def r w b v p option.case Let_def ebind.simps)
      show ?thesis
      proof (cases rep)
        case True
        with step p show ?thesis by (intro Replay [OF r w b v]) simp_all
      next
        case False
        note f = this
        show ?thesis
        proof (cases "action = Act_Reserve")
          case True
          with step p f show ?thesis
            by (intro Hold [OF r w b v]) (simp_all split: if_splits)
        next
          case False
          with step p f show ?thesis by (intro Close [OF r w b v]) simp_all
        qed
      qed
    qed
  qed
qed

lemma work_mutate_frame: "work_mutate s run op am act src = Inr s' \<Longrightarrow> same_but_work s s'"
  by (erule work_mutate_cases) (simp_all add: work_hold_def work_close_def Let_def)

section \<open>Validated amounts\<close>

lemma amounts_items_ok:
  "amounts_items vs = Inr d \<Longrightarrow> map fst d = map fst vs \<and> list_all (\<lambda>(k, v). 0 \<le> v) d \<and> vs = jints d"
  by (induction vs arbitrary: d rule: amounts_items.induct)
     (auto simp: res_simps jints_def split: if_splits json.splits)

lemma amounts_of_ok:
  assumes "amounts_of vs = Inr d"
  shows "map fst d = map fst vs" "list_all (\<lambda>(k, v). 0 \<le> v) d" "d \<noteq> []" "vs = jints d"
  using assms amounts_items_ok [of vs] by (auto simp: amounts_of_def res_simps)

lemma amounts_of_dict_ok: "amounts_of vs = Inr d \<Longrightarrow> dict_ok d \<longleftrightarrow> dict_ok vs"
  using amounts_of_ok(1) [of vs d] by (simp add: dict_ok_def)

lemma jints_inject [simp]: "jints a = jints b \<longleftrightarrow> a = b"
  unfolding jints_def by (intro inj_map_eq_map) (auto simp: inj_def)

lemma amounts_items_jints:
  "amounts_items (jints d) = Inr d' \<Longrightarrow> d' = d"
  using amounts_items_ok [of "jints d" d'] by simp

lemma amounts_of_jints: "amounts_of vs = Inr d \<Longrightarrow> amounts_of (jints d) = Inr d"
  using amounts_of_ok(4) by auto

section \<open>The books of the Run ledger\<close>

definition run_ledger_ok :: "usage_row list \<Rightarrow> bool" where
  "run_ledger_ok L \<longleftrightarrow>
     distinct (map (\<lambda>r. (u_run_id r, u_operation_id r, u_dimension r)) L) \<and>
     (\<forall>r \<in> set L. 0 \<le> u_reserved_amount r \<and> 0 \<le> (case u_actual_amount r of None \<Rightarrow> 0 | Some a \<Rightarrow> a))"

text \<open>What the rows of a Run still hold in a dimension, and what its settled rows used.\<close>

definition run_held :: "uuid \<Rightarrow> string \<Rightarrow> usage_row list \<Rightarrow> int" where
  "run_held run d L =
     sum_where (\<lambda>r. (u_run_id r, u_dimension r) = (run, d) \<and> u_state r = Reserved) u_reserved_amount L"

definition run_spent :: "uuid \<Rightarrow> string \<Rightarrow> usage_row list \<Rightarrow> int" where
  "run_spent run d L =
     sum_where (\<lambda>r. (u_run_id r, u_dimension r) = (run, d) \<and> u_state r = Settled)
       (\<lambda>r. case u_actual_amount r of None \<Rightarrow> 0 | Some a \<Rightarrow> a) L"

definition run_books :: "(uuid \<Rightarrow> run_budget_row option) \<Rightarrow> usage_row list \<Rightarrow> bool" where
  "run_books B L \<longleftrightarrow> run_ledger_ok L \<and>
     (\<forall>run b d. B run = Some b \<longrightarrow>
        dget (b_reserved b) d 0 = run_held run d L \<and> dget (b_used b) d 0 = run_spent run d L)"

lemma run_booksD:
  "run_books B L \<Longrightarrow> B run = Some b \<Longrightarrow> dget (b_reserved b) d 0 = run_held run d L"
  "run_books B L \<Longrightarrow> B run = Some b \<Longrightarrow> dget (b_used b) d 0 = run_spent run d L"
  "run_books B L \<Longrightarrow> run_ledger_ok L"
  by (simp_all add: run_books_def)

text \<open>A change of the budget row of one Run and of its ledger rows.\<close>

lemma run_books_update:
  assumes "run_books B L" "run_ledger_ok L'"
    and "\<And>d. dget (b_reserved b') d 0 = run_held run d L'"
    and "\<And>d. dget (b_used b') d 0 = run_spent run d L'"
    and "\<And>run' d. run' \<noteq> run \<Longrightarrow> run_held run' d L' = run_held run' d L"
    and "\<And>run' d. run' \<noteq> run \<Longrightarrow> run_spent run' d L' = run_spent run' d L"
  shows "run_books (B(run \<mapsto> b')) L'"
  using assms unfolding run_books_def by simp

lemma sum_where_new_rows:
  "dict_ok req \<Longrightarrow>
   sum_where (\<lambda>r. (u_run_id r, u_dimension r) = (run', d)) u_reserved_amount (new_usage_rows fnc run op req)
     = (if run' = run then dget req d 0 else 0)"
  unfolding new_usage_rows_def
  by (induction req) (auto simp: dget_Cons dict_ok_Cons dget_not_key)

lemma filter_op_distinct:
  assumes "run_ledger_ok L"
  shows "distinct (map u_dimension (filter (run_row_of run op) L))"
proof -
  have "distinct (map (\<lambda>r. (u_run_id r, u_operation_id r, u_dimension r)) (filter (run_row_of run op) L))"
    using assms by (simp add: run_ledger_ok_def distinct_map_filter)
  then show ?thesis
    by (auto simp: distinct_map run_row_of_def inj_on_def)
qed

lemma run_ledger_ok_append:
  assumes "run_ledger_ok L" "filter (run_row_of run op) L = []" "dict_ok req" "list_all (\<lambda>(k, v). 0 \<le> v) req"
  shows "run_ledger_ok (L @ new_usage_rows fnc run op req)"
proof -
  have *: "map (\<lambda>r. (u_run_id r, u_operation_id r, u_dimension r)) (new_usage_rows fnc run op req)
      = map (\<lambda>x. (run, op, fst x)) req"
    by (auto simp: new_usage_rows_def)
  have "distinct (map (\<lambda>x. (run, op, fst x)) req)"
    using assms(3) by (simp add: dict_ok_def distinct_map inj_on_def)
  moreover have "set (map (\<lambda>r. (u_run_id r, u_operation_id r, u_dimension r)) L)
      \<inter> set (map (\<lambda>x. (run, op, fst x)) req) = {}"
    using assms(2) by (auto simp: filter_empty_conv run_row_of_def)
  moreover have "\<forall>r \<in> set (new_usage_rows fnc run op req). 0 \<le> u_reserved_amount r \<and> u_actual_amount r = None"
    using assms(4) by (auto simp: new_usage_rows_def list_all_iff)
  ultimately show ?thesis
    using assms(1) unfolding run_ledger_ok_def map_append distinct_append *
    by (auto simp: ball_Un)
qed

lemma new_usage_rows_reserved: "r \<in> set (new_usage_rows fnc run op req) \<Longrightarrow> u_state r = Reserved"
  by (auto simp: new_usage_rows_def)

lemma run_held_new:
  assumes "dict_ok req"
  shows "run_held run' d (L @ new_usage_rows fnc run op req)
           = run_held run' d L + (if run' = run then dget req d 0 else 0)"
  unfolding run_held_def
  using run_led.reserve_holding [where new = "new_usage_rows fnc run op req" and k = "(run', d)"
      and rs = L, OF new_usage_rows_reserved] sum_where_new_rows [OF assms, of run' d fnc run op]
  by simp

lemma run_spent_new: "run_spent run' d (L @ new_usage_rows fnc run op req) = run_spent run' d L"
  unfolding run_spent_def
  using run_led.reserve_spent [where new = "new_usage_rows fnc run op req" and k = "(run', d)"
      and rs = L, OF new_usage_rows_reserved]
  by simp

lemma run_books_reserve:
  assumes B: "run_books B L" and b: "B run = Some b"
    and new: "filter (run_row_of run op) L = []" "dict_ok req" "list_all (\<lambda>(k, v). 0 \<le> v) req"
  shows "run_books (B(run \<mapsto> b\<lparr>b_reserved := dict_add req (b_reserved b), b_status := st\<rparr>))
           (L @ new_usage_rows fnc run op req)"
  by (rule run_books_update [OF B run_ledger_ok_append [OF run_booksD(3) [OF B] new]])
     (simp_all add: run_held_new run_spent_new new(2) dget_dict_add run_booksD(1,2) [OF B b])

text \<open>Closing the rows of an operation: what they hold leaves the reserved column.\<close>

lemma op_rows_held:
  assumes "run_ledger_ok L"
  shows "sum_where (\<lambda>r. run_row_of run op r \<and> (u_run_id r, u_dimension r) = (run', d)) g L
     = (if run' = run then dget (map (\<lambda>r. (u_dimension r, g r)) (filter (run_row_of run op) L)) d 0 else 0)"
proof (cases "run' = run")
  case True
  have "sum_where (\<lambda>r. run_row_of run op r \<and> (u_run_id r, u_dimension r) = (run', d)) g L
      = sum_where (\<lambda>r. run_row_of run op r \<and> u_dimension r = d) g L"
    using True by (intro sum_where_cong) (auto simp: run_row_of_def)
  with True sum_where_dict [OF filter_op_distinct [OF assms], of run op d g] show ?thesis by simp
next
  case False
  then have "sum_where (\<lambda>r. run_row_of run op r \<and> (u_run_id r, u_dimension r) = (run', d)) g L
      = sum_where (\<lambda>_. False) g L"
    by (intro sum_where_cong) (auto simp: run_row_of_def)
  with False show ?thesis by simp
qed

definition all_reserved :: "uuid \<Rightarrow> string \<Rightarrow> usage_row list \<Rightarrow> bool" where
  "all_reserved run op L \<longleftrightarrow> list_all (\<lambda>r. u_state r = Reserved) (filter (run_row_of run op) L)"

lemma all_reservedD: "all_reserved run op L \<Longrightarrow> r \<in> set L \<Longrightarrow> run_row_of run op r \<Longrightarrow> u_state r = Reserved"
  by (simp add: all_reserved_def list_all_iff)

lemma op_rows_le_held:
  assumes "run_ledger_ok L" and "all_reserved run op L"
  shows "dget (map (\<lambda>r. (u_dimension r, u_reserved_amount r)) (filter (run_row_of run op) L)) d 0
           \<le> run_held run d L"
  using run_led.held_le_holding [where rs = L and P = "run_row_of run op" and k = "(run, d)"] assms(1)
    all_reservedD [OF assms(2)] op_rows_held [OF assms(1), of run op run d u_reserved_amount]
  unfolding run_held_def by (auto simp: run_ledger_ok_def)

lemma run_held_settle:
  assumes "run_ledger_ok L" and "all_reserved run op L"
  shows "run_held run' d (update_where (run_row_of run op) (\<lambda>r. settle_usage (amt r) src r) L)
     = run_held run' d L - (if run' = run
         then dget (map (\<lambda>r. (u_dimension r, u_reserved_amount r)) (filter (run_row_of run op) L)) d 0 else 0)"
  using run_led.settle_holding [where rs = L and P = "run_row_of run op" and k = "(run', d)" and amt = amt
      and src = src] all_reservedD [OF assms(2)] op_rows_held [OF assms(1), of run op run' d u_reserved_amount]
  unfolding run_held_def by simp

lemma run_spent_settle:
  assumes "run_ledger_ok L" and "all_reserved run op L"
  shows "run_spent run' d (update_where (run_row_of run op) (\<lambda>r. settle_usage (amt r) src r) L)
     = run_spent run' d L + (if run' = run
         then dget (map (\<lambda>r. (u_dimension r, amt r)) (filter (run_row_of run op) L)) d 0 else 0)"
  using run_led.settle_spent [where rs = L and P = "run_row_of run op" and k = "(run', d)" and amt = amt
      and src = src] all_reservedD [OF assms(2)] op_rows_held [OF assms(1), of run op run' d amt]
  unfolding run_spent_def by simp

lemma run_held_release:
  assumes "run_ledger_ok L" and "all_reserved run op L"
  shows "run_held run' d (update_where (run_row_of run op) release_usage L)
     = run_held run' d L - (if run' = run
         then dget (map (\<lambda>r. (u_dimension r, u_reserved_amount r)) (filter (run_row_of run op) L)) d 0 else 0)"
  using run_led.release_holding [where rs = L and P = "run_row_of run op" and k = "(run', d)"]
    all_reservedD [OF assms(2)] op_rows_held [OF assms(1), of run op run' d u_reserved_amount]
  unfolding run_held_def by simp

lemma run_spent_release:
  assumes "all_reserved run op L"
  shows "run_spent run' d (update_where (run_row_of run op) release_usage L) = run_spent run' d L"
  using run_led.release_spent [where rs = L and P = "run_row_of run op" and k = "(run', d)"]
    all_reservedD [OF assms]
  unfolding run_spent_def by simp


lemma run_ledger_ok_update:
  assumes "run_ledger_ok L"
    and "\<And>r. r \<in> set L \<Longrightarrow> P r \<Longrightarrow> u_run_id (f r) = u_run_id r \<and> u_operation_id (f r) = u_operation_id r
          \<and> u_dimension (f r) = u_dimension r \<and> 0 \<le> u_reserved_amount (f r)
          \<and> 0 \<le> (case u_actual_amount (f r) of None \<Rightarrow> 0 | Some a \<Rightarrow> a)"
  shows "run_ledger_ok (update_where P f L)"
proof -
  have "map (\<lambda>r. (u_run_id r, u_operation_id r, u_dimension r)) (update_where P f L)
      = map (\<lambda>r. (u_run_id r, u_operation_id r, u_dimension r)) L"
    using assms(2) by (auto simp: update_where_def)
  with assms show ?thesis by (auto simp: run_ledger_ok_def set_update_where)
qed

lemma run_books_release:
  assumes B: "run_books B L" and b: "B run = Some b"
    and res: "all_reserved run op L"
  shows "run_books (B(run \<mapsto> b\<lparr>b_reserved := dict_sub_clamped
      (map (\<lambda>r. (u_dimension r, u_reserved_amount r)) (filter (run_row_of run op) L)) (b_reserved b)\<rparr>))
      (update_where (run_row_of run op) release_usage L)"
proof (rule run_books_update [OF B])
  note ok = run_booksD(3) [OF B]
  have d: "dict_ok (map (\<lambda>r. (u_dimension r, u_reserved_amount r)) (filter (run_row_of run op) L))"
    using filter_op_distinct [OF ok] by (simp add: dict_ok_def comp_def)
  show "run_ledger_ok (update_where (run_row_of run op) release_usage L)"
    using ok by (intro run_ledger_ok_update) (auto simp: run_ledger_ok_def release_usage_def)
  fix dim
  show "dget (b_reserved (b\<lparr>b_reserved := dict_sub_clamped
      (map (\<lambda>r. (u_dimension r, u_reserved_amount r)) (filter (run_row_of run op) L)) (b_reserved b)\<rparr>)) dim 0
      = run_held run dim (update_where (run_row_of run op) release_usage L)"
    using op_rows_le_held [OF ok res, of dim]
    by (simp add: run_held_release [OF ok res] dget_dict_sub_clamped [OF d] run_booksD(1) [OF B b] dget_not_key)
qed (simp_all add: run_held_release [OF run_booksD(3) [OF B] res] run_spent_release [OF res] run_booksD(2) [OF B b])

lemma run_books_settle:
  assumes B: "run_books B L" and b: "B run = Some b"
    and res: "all_reserved run op L"
    and act: "dict_ok actual" "list_all (\<lambda>(k, v). 0 \<le> v) actual"
      "u_dimension ` set (filter (run_row_of run op) L) = fst ` set actual"
  shows "run_books (B(run \<mapsto> b\<lparr>b_used := dict_add actual (b_used b), b_reserved := dict_sub_clamped
      (map (\<lambda>r. (u_dimension r, u_reserved_amount r)) (filter (run_row_of run op) L)) (b_reserved b),
      b_status := st\<rparr>))
      (update_where (run_row_of run op) (\<lambda>r. settle_usage (dget actual (u_dimension r) 0) src r) L)"
    (is "run_books (B(run \<mapsto> ?b)) ?L")
proof (rule run_books_update [OF B])
  note ok = run_booksD(3) [OF B]
  have d: "dict_ok (map (\<lambda>r. (u_dimension r, u_reserved_amount r)) (filter (run_row_of run op) L))"
    using filter_op_distinct [OF ok] by (simp add: dict_ok_def comp_def)
  show "run_ledger_ok ?L"
    using ok dget_nonneg [OF act(2)]
    by (intro run_ledger_ok_update) (auto simp: run_ledger_ok_def settle_usage_def)
  fix dim
  show "dget (b_reserved ?b) dim 0 = run_held run dim ?L"
    using op_rows_le_held [OF ok res, of dim]
    by (simp add: run_held_settle [OF ok res] dget_dict_sub_clamped [OF d] run_booksD(1) [OF B b] dget_not_key)
  have "dget (map (\<lambda>r. (u_dimension r, dget actual (u_dimension r) 0)) (filter (run_row_of run op) L)) dim 0
      = dget actual dim 0"
    unfolding dget_map_keys [of u_dimension "\<lambda>d. dget actual d 0"] act(3) by (simp add: dget_not_key)
  then show "dget (b_used ?b) dim 0 = run_spent run dim ?L"
    by (simp add: run_spent_settle [OF ok res] dget_dict_add [OF act(1)] run_booksD(2) [OF B b])
qed (simp_all add: run_held_settle [OF run_booksD(3) [OF B] res] run_spent_settle [OF run_booksD(3) [OF B] res])


section \<open>The operations case by case\<close>

lemma insert_usage_rows_eq:
  "insert_usage_rows rs s = Inr s' \<Longrightarrow> s' = s\<lparr>run_usage := run_usage s @ rs\<rparr>"
proof (induction rs arbitrary: s)
  case (Cons r rs)
  then have "insert_usage_rows rs (s\<lparr>run_usage := run_usage s @ [r]\<rparr>) = Inr s'"
    by (auto simp: res_simps)
  from Cons.IH [OF this] show ?case by simp
qed simp

lemma reserve_rows_cases:
  assumes "reserve_rows s fnc run op req fr el b = Inr (m, s')"
  obtains exceeded where "exceeded_dims b fr req = Inr exceeded"
    "exceeded = [] \<or> b_mode b \<noteq> ''enforce'' \<and> \<not> el"
    "m = \<lparr>bm_run_id = run, bm_operation_id = op, bm_values = req, bm_state = Reserved, bm_replayed = False\<rparr>"
    "insert_usage_rows (new_usage_rows fnc run op req) s = Inr (s\<lparr>run_usage := run_usage s @ new_usage_rows fnc run op req\<rparr>)"
    "s' = s\<lparr>run_usage := run_usage s @ new_usage_rows fnc run op req,
            run_budgets := (run_budgets s)(run \<mapsto> b\<lparr>b_reserved := dict_add req (b_reserved b),
              b_status := (if exceeded \<noteq> [] then ''exhausted'' else b_status b)\<rparr>)\<rparr>"
proof -
  obtain exceeded where e: "exceeded_dims b fr req = Inr exceeded"
    using assms by (cases "exceeded_dims b fr req") (simp_all add: reserve_rows_def)
  have n: "\<not> (exceeded \<noteq> [] \<and> (b_mode b = ''enforce'' \<or> el))"
    using assms e by (simp add: reserve_rows_def split: if_splits)
  obtain s1 where i: "insert_usage_rows (new_usage_rows fnc run op req) s = Inr s1"
    using assms e n by (cases "insert_usage_rows (new_usage_rows fnc run op req) s") (simp_all add: reserve_rows_def)
  note s1 = insert_usage_rows_eq [OF i]
  show ?thesis
    by (rule that [OF e _ _ i [unfolded s1]])
       (use assms e n i s1 in \<open>simp_all add: reserve_rows_def\<close>)
qed

lemma reserve_body_cases:
  assumes "reserve_body s fnc run op am fr el now = Inr (m, s')"
  obtains (Replayed) s1 s2 req b where
      "reserve_fenced s fnc run now = Inr s1" "amounts_of am = Inr req" "op \<noteq> [] \<and> length op \<le> 200"
      "work_mutate s1 run op (Some (jints req)) Act_Reserve None = Inr s2" "run_budgets s2 run = Some b"
      "filter (run_row_of run op) (run_usage s2) \<noteq> []"
      "dict_eq (map (\<lambda>r. (u_dimension r, u_reserved_amount r)) (filter (run_row_of run op) (run_usage s2))) req"
      "m = \<lparr>bm_run_id = run, bm_operation_id = op, bm_values = req,
            bm_state = u_state (hd (filter (run_row_of run op) (run_usage s2))), bm_replayed = True\<rparr>"
      "s' = s2"
  | (Fresh) s1 s2 req b where
      "reserve_fenced s fnc run now = Inr s1" "amounts_of am = Inr req" "op \<noteq> [] \<and> length op \<le> 200"
      "work_mutate s1 run op (Some (jints req)) Act_Reserve None = Inr s2" "run_budgets s2 run = Some b"
      "filter (run_row_of run op) (run_usage s2) = []"
      "reserve_rows s2 fnc run op req fr el b = Inr (m, s')"
proof -
  obtain s1 where 1: "reserve_fenced s fnc run now = Inr s1"
    using assms by (cases "reserve_fenced s fnc run now") (simp_all add: reserve_body_def)
  obtain req where 2: "amounts_of am = Inr req"
    using assms 1 by (cases "amounts_of am") (simp_all add: reserve_body_def)
  have 3: "op \<noteq> [] \<and> length op \<le> 200"
    using assms 1 2 by (simp add: reserve_body_def ensure_def split: if_splits)
  obtain s2 where 4: "work_mutate s1 run op (Some (jints req)) Act_Reserve None = Inr s2"
    using assms 1 2 3
    by (cases "work_mutate s1 run op (Some (jints req)) Act_Reserve None") (simp_all add: reserve_body_def)
  obtain b where 5: "run_budgets s2 run = Some b"
    using assms 1 2 3 4 by (cases "run_budgets s2 run") (simp_all add: reserve_body_def)
  show ?thesis
  proof (cases "filter (run_row_of run op) (run_usage s2) = []")
    case True
    with assms 1 2 3 4 5 show ?thesis by (intro Fresh [OF 1 2 3 4 5]) (simp_all add: reserve_body_def)
  next
    case False
    with assms 1 2 3 4 5 show ?thesis
      by (intro Replayed [OF 1 2 3 4 5]) (auto simp: reserve_body_def Let_def split: if_splits)
  qed
qed

lemma reserve_in_uow_reservation:
  "reserve_in_uow s fnc run op am fr el df now = Inr (Reservation m, s') \<longleftrightarrow>
     reserve_body s fnc run op am fr el now = Inr (m, s')"
  by (auto simp: reserve_in_uow_def split: sum.splits if_splits)

lemma reserve_fenced_frame: "reserve_fenced s fnc run now = Inr s1 \<Longrightarrow> same_but_executions s s1"
  by (auto simp: reserve_fenced_def res_simps split: option.splits dest: assert_execution_fence_frame)


lemma settle_in_uow_cases:
  assumes "settle_in_uow s run op raw src = Inr (m, s')"
  obtains (Replayed) actual s1 b where
      "src \<in> set USAGE_SOURCES" "amounts_of raw = Inr actual"
      "work_mutate s run op (Some (jints actual)) Act_Settle (Some src) = Inr s1" "run_budgets s1 run = Some b"
      "filter (run_row_of run op) (run_usage s1) \<noteq> []"
      "list_all (\<lambda>r. u_state r = Settled) (filter (run_row_of run op) (run_usage s1))"
      "dict_eq (map (\<lambda>r. (u_dimension r, u_actual_amount r)) (filter (run_row_of run op) (run_usage s1)))
         (map (\<lambda>(k, v). (k, Some v)) actual)"
      "list_all (\<lambda>r. u_usage_source r = Some src) (filter (run_row_of run op) (run_usage s1))"
      "bm_replayed m" "s' = s1"
  | (Settling) actual s1 b where
      "src \<in> set USAGE_SOURCES" "amounts_of raw = Inr actual"
      "work_mutate s run op (Some (jints actual)) Act_Settle (Some src) = Inr s1" "run_budgets s1 run = Some b"
      "filter (run_row_of run op) (run_usage s1) \<noteq> []"
      "all_reserved run op (run_usage s1)"
      "u_dimension ` set (filter (run_row_of run op) (run_usage s1)) = fst ` set actual"
      "\<not> bm_replayed m"
      "\<exists>st. (st = b_status b \<or> st = ''exhausted'') \<and>
       (st \<noteq> ''exhausted'' \<longrightarrow> list_all (\<lambda>(dim, limit). dget (dict_add actual (b_used b)) dim 0 +
          dget (dict_sub_clamped (map (\<lambda>r. (u_dimension r, u_reserved_amount r))
             (filter (run_row_of run op) (run_usage s1))) (b_reserved b)) dim 0 \<le> limit) (b_limits b)) \<and>
       s' = s1\<lparr>run_usage := update_where (run_row_of run op)
                  (\<lambda>r. settle_usage (dget actual (u_dimension r) 0) src r) (run_usage s1),
               run_budgets := (run_budgets s1)(run \<mapsto> b\<lparr>b_used := dict_add actual (b_used b),
                  b_reserved := dict_sub_clamped (map (\<lambda>r. (u_dimension r, u_reserved_amount r))
                     (filter (run_row_of run op) (run_usage s1))) (b_reserved b), b_status := st\<rparr>)\<rparr>"
proof -
  have 0: "src \<in> set USAGE_SOURCES"
    using assms by (simp add: settle_in_uow_def ensure_def split: if_splits)
  obtain actual where 1: "amounts_of raw = Inr actual"
    using assms 0 by (cases "amounts_of raw") (simp_all add: settle_in_uow_def)
  obtain s1 where 2: "work_mutate s run op (Some (jints actual)) Act_Settle (Some src) = Inr s1"
    using assms 0 1
    by (cases "work_mutate s run op (Some (jints actual)) Act_Settle (Some src)") (simp_all add: settle_in_uow_def)
  obtain b where 3: "run_budgets s1 run = Some b"
    using assms 0 1 2 by (cases "run_budgets s1 run") (simp_all add: settle_in_uow_def)
  let ?rows = "filter (run_row_of run op) (run_usage s1)"
  have 4: "u_dimension ` set ?rows = fst ` set actual"
    using assms 0 1 2 3
    by (simp add: settle_in_uow_def Let_def image_image split: if_splits)
  have 5: "?rows \<noteq> []"
    using 4 amounts_of_ok(3) [OF 1] by (cases ?rows) auto
  show ?thesis
  proof (cases "list_all (\<lambda>r. u_state r = Settled) ?rows")
    case True
    with assms 0 1 2 3 4 5 show ?thesis
      by (intro Replayed [OF 0 1 2 3 5])
         (auto simp: settle_in_uow_def Let_def image_image list_all_iff list_ex_iff split: if_splits)
  next
    case False
    have 6: "\<not> list_ex (\<lambda>r. u_state r \<noteq> Reserved) ?rows"
      using assms 0 1 2 3 4 5 False by (simp add: settle_in_uow_def Let_def image_image split: if_splits)
    note eq = assms [unfolded settle_in_uow_def, simplified 0 1 2 3 ensure_simps ebind.simps need_simps Let_def,
        simplified 5 6 False image_image 4 [unfolded set_filter] set_filter set_map list.map_comp comp_def fst_conv,
        simplified]
    let ?st = "if list_ex (\<lambda>(dim, limit). dget (dict_add actual (b_used b)) dim 0 +
          dget (dict_sub_clamped (map (\<lambda>r. (u_dimension r, u_reserved_amount r)) ?rows) (b_reserved b)) dim 0
            > limit) (b_limits b) then ''exhausted'' else b_status b"
    show ?thesis
      by (rule Settling [OF 0 1 2 3 5 _ 4 _ exI [where x = ?st]])
         (use eq 6 in \<open>auto simp: all_reserved_def list_ex_iff list_all_iff not_less\<close>)
  qed
qed


lemma release_in_uow_cases:
  assumes "release_in_uow s run op = Inr (m, s')"
  obtains (Replayed) s1 b where
      "work_mutate s run op None Act_Release None = Inr s1" "run_budgets s1 run = Some b"
      "filter (run_row_of run op) (run_usage s1) \<noteq> []"
      "list_all (\<lambda>r. u_state r = Released) (filter (run_row_of run op) (run_usage s1))"
      "bm_replayed m" "s' = s1"
  | (Releasing) s1 b where
      "work_mutate s run op None Act_Release None = Inr s1" "run_budgets s1 run = Some b"
      "filter (run_row_of run op) (run_usage s1) \<noteq> []"
      "all_reserved run op (run_usage s1)"
      "\<not> bm_replayed m"
      "s' = s1\<lparr>run_usage := update_where (run_row_of run op) release_usage (run_usage s1),
               run_budgets := (run_budgets s1)(run \<mapsto> b\<lparr>b_reserved := dict_sub_clamped
                 (map (\<lambda>r. (u_dimension r, u_reserved_amount r)) (filter (run_row_of run op) (run_usage s1)))
                 (b_reserved b)\<rparr>)\<rparr>"
proof -
  obtain s1 where 1: "work_mutate s run op None Act_Release None = Inr s1"
    using assms by (cases "work_mutate s run op None Act_Release None") (simp_all add: release_in_uow_def)
  obtain b where 2: "run_budgets s1 run = Some b"
    using assms 1 by (cases "run_budgets s1 run") (simp_all add: release_in_uow_def)
  let ?rows = "filter (run_row_of run op) (run_usage s1)"
  have 3: "?rows \<noteq> []"
    using assms 1 2 by (simp add: release_in_uow_def Let_def split: if_splits)
  show ?thesis
  proof (cases "list_all (\<lambda>r. u_state r = Released) ?rows")
    case True
    with assms 1 2 3 show ?thesis
      by (intro Replayed [OF 1 2 3]) (auto simp: release_in_uow_def Let_def)
  next
    case False
    have 4: "\<not> list_ex (\<lambda>r. u_state r \<noteq> Reserved) ?rows"
      using assms 1 2 3 False by (simp add: release_in_uow_def Let_def split: if_splits)
    note eq = assms [unfolded release_in_uow_def, simplified 1 2 ebind.simps need_simps Let_def,
        simplified 3 4 False, simplified]
    show ?thesis
      by (rule Releasing [OF 1 2 3]) (use eq 4 in \<open>auto simp: all_reserved_def list_ex_iff list_all_iff\<close>)
  qed
qed

section \<open>Every operation keeps the Run books\<close>

text \<open>The Work part of an operation and the fence leave the Run tables alone.\<close>

lemma same_but_work_run:
  assumes "same_but_work s s'"
  shows "run_budgets s' = run_budgets s" "run_usage s' = run_usage s" "runs s' = runs s" "works s' = works s"
    "invocation_limits s' = invocation_limits s" "leases s' = leases s" "accounts s' = accounts s"
    "executions s' = executions s"
  by (subst assms [unfolded same_but_work_def], simp)+

lemma same_but_executions_run:
  fixes s :: "'a budget_db_scheme"
  assumes "same_but_executions s s'"
  shows "run_budgets s' = run_budgets s" "run_usage s' = run_usage s" "runs s' = runs s" "works s' = works s"
    "invocation_limits s' = invocation_limits s" "leases s' = leases s" "accounts s' = accounts s"
    "work_budgets s' = work_budgets s" "work_usage s' = work_usage s"
  by (subst assms [unfolded same_but_executions_def], simp)+


lemma work_mutate_run:
  assumes "work_mutate s run op am act src = Inr s1"
  shows "run_budgets s1 = run_budgets s" "run_usage s1 = run_usage s" "runs s1 = runs s"
  using same_but_work_run [OF work_mutate_frame [OF assms]] by simp_all

lemma reserve_fenced_run:
  fixes s :: "'a budget_db_scheme"
  assumes "reserve_fenced s fnc run now = Inr s1"
  shows "run_budgets s1 = run_budgets s" "run_usage s1 = run_usage s" "runs s1 = runs s"
    "work_budgets s1 = work_budgets s" "work_usage s1 = work_usage s"
  using same_but_executions_run [OF reserve_fenced_frame [OF assms]] by simp_all

abbreviation run_inv :: "'a budget_db_scheme \<Rightarrow> bool" where
  "run_inv s \<equiv> run_books (run_budgets s) (run_usage s)"

lemma reserve_body_books:
  assumes "reserve_body s fnc run op am fr el now = Inr (m, s')" "run_inv s" "dict_ok am"
  shows "run_inv s'"
  using assms(1)
proof (cases rule: reserve_body_cases)
  case (Replayed s1 s2 req b)
  with assms(2) work_mutate_run [OF Replayed(4)] reserve_fenced_run [OF Replayed(1)] show ?thesis by simp
next
  case (Fresh s1 s2 req b)
  note f = work_mutate_run [OF Fresh(4)] reserve_fenced_run [OF Fresh(1)]
  from Fresh(7) show ?thesis
  proof (cases rule: reserve_rows_cases)
    case (1 exceeded)
    have "run_inv s2" using assms(2) f by simp
    from run_books_reserve [OF this Fresh(5,6)] amounts_of_dict_ok [OF Fresh(2)] amounts_of_ok(2) [OF Fresh(2)] assms(3)
    show ?thesis by (simp add: 1(5))
  qed
qed

lemma settle_in_uow_books:
  assumes "settle_in_uow s run op raw src = Inr (m, s')" "run_inv s" "dict_ok raw"
  shows "run_inv s'"
  using assms(1)
proof (cases rule: settle_in_uow_cases)
  case (Replayed actual s1 b)
  with assms(2) work_mutate_run [OF Replayed(3)] show ?thesis by simp
next
  case (Settling actual s1 b)
  have "run_inv s1" using assms(2) work_mutate_run [OF Settling(3)] by simp
  moreover have "dict_ok actual" using amounts_of_dict_ok [OF Settling(2)] assms(3) by simp
  ultimately have *: "run_books ((run_budgets s1)(run \<mapsto> b\<lparr>b_used := dict_add actual (b_used b),
      b_reserved := dict_sub_clamped (map (\<lambda>r. (u_dimension r, u_reserved_amount r))
        (filter (run_row_of run op) (run_usage s1))) (b_reserved b), b_status := st\<rparr>))
      (update_where (run_row_of run op) (\<lambda>r. settle_usage (dget actual (u_dimension r) 0) src r) (run_usage s1))"
    for st
    using Settling(4,6,7) amounts_of_ok(2) [OF Settling(2)] by (intro run_books_settle)
  from Settling(9) show ?thesis
  proof (elim exE conjE)
    fix st assume "s' = s1\<lparr>run_usage := update_where (run_row_of run op)
                  (\<lambda>r. settle_usage (dget actual (u_dimension r) 0) src r) (run_usage s1),
               run_budgets := (run_budgets s1)(run \<mapsto> b\<lparr>b_used := dict_add actual (b_used b),
                  b_reserved := dict_sub_clamped (map (\<lambda>r. (u_dimension r, u_reserved_amount r))
                     (filter (run_row_of run op) (run_usage s1))) (b_reserved b), b_status := st\<rparr>)\<rparr>"
    with * show ?thesis by simp
  qed
qed

lemma release_in_uow_books:
  assumes "release_in_uow s run op = Inr (m, s')" "run_inv s"
  shows "run_inv s'"
  using assms(1)
proof (cases rule: release_in_uow_cases)
  case (Replayed s1 b)
  with assms(2) work_mutate_run [OF Replayed(1)] show ?thesis by simp
next
  case (Releasing s1 b)
  have "run_inv s1" using assms(2) work_mutate_run [OF Releasing(1)] by simp
  from run_books_release [OF this Releasing(2) Releasing(4)] Releasing(6) show ?thesis by simp
qed


section \<open>The books of the Work ledger\<close>

definition work_held :: "uuid \<times> uuid \<Rightarrow> string \<Rightarrow> work_usage_row list \<Rightarrow> int" where
  "work_held k d L = sum_where (\<lambda>r. ((wu_account_id r, wu_work_id r), wu_dimension r) = (k, d)
     \<and> wu_state r = Reserved) wu_reserved_amount L"

definition work_spent :: "uuid \<times> uuid \<Rightarrow> string \<Rightarrow> work_usage_row list \<Rightarrow> int" where
  "work_spent k d L = sum_where (\<lambda>r. ((wu_account_id r, wu_work_id r), wu_dimension r) = (k, d)
     \<and> wu_state r = Settled) (\<lambda>r. case wu_actual_amount r of None \<Rightarrow> 0 | Some a \<Rightarrow> a) L"

definition work_ledger_ok :: "work_usage_row list \<Rightarrow> bool" where
  "work_ledger_ok L \<longleftrightarrow>
     distinct (map (\<lambda>r. (wu_account_id r, wu_work_id r, wu_run_id r, wu_operation_id r, wu_dimension r)) L)"

definition work_books :: "(uuid \<times> uuid \<Rightarrow> work_budget_row option) \<Rightarrow> work_usage_row list \<Rightarrow> bool" where
  "work_books W L \<longleftrightarrow> work_ledger_ok L \<and>
     (\<forall>k b d. W k = Some b \<longrightarrow>
        dget (wb_reserved b) d 0 = work_held k d L \<and> dget (wb_used b) d 0 = work_spent k d L)"

lemma work_booksD:
  "work_books W L \<Longrightarrow> W k = Some b \<Longrightarrow> dget (wb_reserved b) d 0 = work_held k d L"
  "work_books W L \<Longrightarrow> W k = Some b \<Longrightarrow> dget (wb_used b) d 0 = work_spent k d L"
  "work_books W L \<Longrightarrow> work_ledger_ok L"
  unfolding work_books_def by blast+

lemma work_books_update:
  assumes "work_books W L" "work_ledger_ok L'"
    and "\<And>d. dget (wb_reserved b') d 0 = work_held k d L'"
    and "\<And>d. dget (wb_used b') d 0 = work_spent k d L'"
    and "\<And>k' d. k' \<noteq> k \<Longrightarrow> work_held k' d L' = work_held k' d L"
    and "\<And>k' d. k' \<noteq> k \<Longrightarrow> work_spent k' d L' = work_spent k' d L"
  shows "work_books (W(k \<mapsto> b')) L'"
  using assms unfolding work_books_def fun_upd_apply by (metis option.inject)

definition new_work_rows ::
  "uuid \<Rightarrow> uuid \<Rightarrow> uuid \<Rightarrow> string \<Rightarrow> (string \<times> int) list \<Rightarrow> work_usage_row list" where
  "new_work_rows account work run_id op values = map (\<lambda>(k, v).
          \<lparr>wu_account_id = account, wu_work_id = work, wu_run_id = run_id,
           wu_operation_id = op, wu_dimension = k, wu_state = Reserved,
           wu_reserved_amount = v, wu_actual_amount = None, wu_usage_source = None\<rparr>) values"

lemma new_work_rows_reserved: "r \<in> set (new_work_rows acc w run op vs) \<Longrightarrow> wu_state r = Reserved"
  by (auto simp: new_work_rows_def)

lemma sum_where_new_work_rows:
  "dict_ok vs \<Longrightarrow>
   sum_where (\<lambda>r. ((wu_account_id r, wu_work_id r), wu_dimension r) = (k, d)) wu_reserved_amount
     (new_work_rows acc w run op vs) = (if k = (acc, w) then dget vs d 0 else 0)"
  unfolding new_work_rows_def
  by (induction vs) (auto simp: dget_Cons dict_ok_Cons dget_not_key)

lemma work_held_new:
  assumes "dict_ok vs"
  shows "work_held k d (L @ new_work_rows acc w run op vs)
           = work_held k d L + (if k = (acc, w) then dget vs d 0 else 0)"
  unfolding work_held_def
  using work_led.reserve_holding [where new = "new_work_rows acc w run op vs" and k = "(k, d)"
      and rs = L, OF new_work_rows_reserved] sum_where_new_work_rows [OF assms, of k d acc w run op]
  by simp

lemma work_spent_new: "work_spent k d (L @ new_work_rows acc w run op vs) = work_spent k d L"
  unfolding work_spent_def
  using work_led.reserve_spent [where new = "new_work_rows acc w run op vs" and k = "(k, d)"
      and rs = L, OF new_work_rows_reserved]
  by simp

lemma work_ledger_ok_append:
  assumes "work_ledger_ok L" "filter (work_row_of acc w run op) L = []" "dict_ok vs"
  shows "work_ledger_ok (L @ new_work_rows acc w run op vs)"
proof -
  have *: "map (\<lambda>r. (wu_account_id r, wu_work_id r, wu_run_id r, wu_operation_id r, wu_dimension r))
      (new_work_rows acc w run op vs) = map (\<lambda>x. (acc, w, run, op, fst x)) vs"
    by (auto simp: new_work_rows_def)
  have "distinct (map (\<lambda>x. (acc, w, run, op, fst x)) vs)"
    using assms(3) by (simp add: dict_ok_def distinct_map inj_on_def)
  moreover have "set (map (\<lambda>r. (wu_account_id r, wu_work_id r, wu_run_id r, wu_operation_id r, wu_dimension r)) L)
      \<inter> set (map (\<lambda>x. (acc, w, run, op, fst x)) vs) = {}"
    using assms(2) by (auto simp: filter_empty_conv work_row_of_def)
  ultimately show ?thesis
    using assms(1) unfolding work_ledger_ok_def map_append distinct_append * by simp
qed

lemma filter_work_op_distinct:
  assumes "work_ledger_ok L"
  shows "distinct (map wu_dimension (filter (work_row_of acc w run op) L))"
proof -
  have "distinct (map (\<lambda>r. (wu_account_id r, wu_work_id r, wu_run_id r, wu_operation_id r, wu_dimension r))
      (filter (work_row_of acc w run op) L))"
    using assms by (simp add: work_ledger_ok_def distinct_map_filter)
  then show ?thesis
    by (auto simp: distinct_map work_row_of_def inj_on_def)
qed

lemma work_op_rows:
  assumes "work_ledger_ok L"
  shows "sum_where (\<lambda>r. work_row_of acc w run op r \<and> ((wu_account_id r, wu_work_id r), wu_dimension r) = (k, d)) g L
     = (if k = (acc, w) then dget (map (\<lambda>r. (wu_dimension r, g r)) (filter (work_row_of acc w run op) L)) d 0 else 0)"
proof (cases "k = (acc, w)")
  case True
  have "sum_where (\<lambda>r. work_row_of acc w run op r \<and> ((wu_account_id r, wu_work_id r), wu_dimension r) = (k, d)) g L
      = sum_where (\<lambda>r. work_row_of acc w run op r \<and> wu_dimension r = d) g L"
    using True by (intro sum_where_cong) (auto simp: work_row_of_def)
  with True sum_where_dict [OF filter_work_op_distinct [OF assms], of acc w run op d g] show ?thesis by simp
next
  case False
  then have "sum_where (\<lambda>r. work_row_of acc w run op r \<and> ((wu_account_id r, wu_work_id r), wu_dimension r) = (k, d)) g L
      = sum_where (\<lambda>_. False) g L"
    by (intro sum_where_cong) (auto simp: work_row_of_def)
  with False show ?thesis by simp
qed

definition all_work_reserved :: "uuid \<Rightarrow> uuid \<Rightarrow> uuid \<Rightarrow> string \<Rightarrow> work_usage_row list \<Rightarrow> bool" where
  "all_work_reserved acc w run op L \<longleftrightarrow>
     list_all (\<lambda>r. wu_state r = Reserved) (filter (work_row_of acc w run op) L)"

lemma all_work_reservedD:
  "all_work_reserved acc w run op L \<Longrightarrow> r \<in> set L \<Longrightarrow> work_row_of acc w run op r \<Longrightarrow> wu_state r = Reserved"
  by (simp add: all_work_reserved_def list_all_iff)


lemma work_hold_rows:
  "work_hold acc w run op b vs s =
     s\<lparr>work_usage := work_usage s @ new_work_rows acc w run op vs,
       work_budgets := (work_budgets s)((acc, w) \<mapsto>
         b\<lparr>wb_reserved := dict_add vs (wb_reserved b), wb_version := wb_version b + 1\<rparr>)\<rparr>"
  by (simp add: work_hold_def new_work_rows_def)

abbreviation work_inv :: "'a budget_db_scheme \<Rightarrow> bool" where
  "work_inv s \<equiv> work_books (work_budgets s) (work_usage s)"

lemma work_hold_books:
  assumes B: "work_inv s" and b: "work_budgets s (acc, w) = Some b"
    and new: "filter (work_row_of acc w run op) (work_usage s) = []" "dict_ok vs"
  shows "work_inv (work_hold acc w run op b vs s)"
  unfolding work_hold_rows
  using work_books_update [OF B work_ledger_ok_append [OF work_booksD(3) [OF B] new], where k = "(acc, w)"
      and b' = "b\<lparr>wb_reserved := dict_add vs (wb_reserved b), wb_version := wb_version b + 1\<rparr>"]
  by (simp add: work_held_new work_spent_new new(2) dget_dict_add work_booksD(1,2) [OF B b])

lemma work_close_rows:
  "work_close action src acc w run op b vs s =
     s\<lparr>work_usage := update_where (work_row_of acc w run op) (close_work_row action vs src) (work_usage s),
       work_budgets := (work_budgets s)((acc, w) \<mapsto>
         b\<lparr>wb_reserved := dict_sub (map (\<lambda>r. (wu_dimension r, wu_reserved_amount r))
               (filter (work_row_of acc w run op) (work_usage s))) (wb_reserved b),
           wb_used := (if action = Act_Settle
             then dict_add (map (\<lambda>r. (wu_dimension r, dget vs (wu_dimension r) 0))
               (filter (work_row_of acc w run op) (work_usage s))) (wb_used b) else wb_used b),
           wb_version := wb_version b + 1\<rparr>)\<rparr>"
  by (simp add: work_close_def Let_def)

lemma work_ledger_ok_close:
  "work_ledger_ok L \<Longrightarrow> work_ledger_ok (update_where P (close_work_row action vs src) L)"
  by (simp add: work_ledger_ok_def close_work_row_def map_update_where)

lemma work_held_close:
  assumes "work_ledger_ok L" "all_work_reserved acc w run op L" "action \<noteq> Act_Reserve"
  shows "work_held k d (update_where (work_row_of acc w run op) (close_work_row action vs src) L)
     = work_held k d L - (if k = (acc, w) then dget (map (\<lambda>r. (wu_dimension r, wu_reserved_amount r))
         (filter (work_row_of acc w run op) L)) d 0 else 0)"
proof (cases "action = Act_Settle")
  case True
  then show ?thesis
    using work_led.settle_holding [where rs = L and P = "work_row_of acc w run op" and k = "(k, d)"
        and amt = "\<lambda>r. dget vs (wu_dimension r) 0" and src = src]
      all_work_reservedD [OF assms(2)] work_op_rows [OF assms(1), of acc w run op k d wu_reserved_amount]
    unfolding work_held_def by (simp add: close_work_row_settle)
next
  case False
  with assms(3) have "action = Act_Release" by (cases action) auto
  then show ?thesis
    using work_led.release_holding [where rs = L and P = "work_row_of acc w run op" and k = "(k, d)" and vs = vs
        and src = src]
      all_work_reservedD [OF assms(2)] work_op_rows [OF assms(1), of acc w run op k d wu_reserved_amount]
    unfolding work_held_def by simp
qed

lemma work_spent_close:
  assumes "work_ledger_ok L" "all_work_reserved acc w run op L" "action \<noteq> Act_Reserve"
  shows "work_spent k d (update_where (work_row_of acc w run op) (close_work_row action vs src) L)
     = work_spent k d L + (if k = (acc, w) \<and> action = Act_Settle
         then dget (map (\<lambda>r. (wu_dimension r, dget vs (wu_dimension r) 0))
                (filter (work_row_of acc w run op) L)) d 0 else 0)"
proof (cases "action = Act_Settle")
  case True
  then show ?thesis
    using work_led.settle_spent [where rs = L and P = "work_row_of acc w run op" and k = "(k, d)"
        and amt = "\<lambda>r. dget vs (wu_dimension r) 0" and src = src]
      all_work_reservedD [OF assms(2)]
      work_op_rows [OF assms(1), of acc w run op k d "\<lambda>r. dget vs (wu_dimension r) 0"]
    unfolding work_spent_def by (simp add: close_work_row_settle)
next
  case False
  with assms(3) have "action = Act_Release" by (cases action) auto
  then show ?thesis
    using work_led.release_spent [where rs = L and P = "work_row_of acc w run op" and k = "(k, d)" and vs = vs
        and src = src] all_work_reservedD [OF assms(2)]
    unfolding work_spent_def by simp
qed

lemma work_close_books:
  assumes B: "work_inv s" and b: "work_budgets s (acc, w) = Some b"
    and res: "all_work_reserved acc w run op (work_usage s)" and act: "action \<noteq> Act_Reserve"
  shows "work_inv (work_close action src acc w run op b vs s)"
proof -
  note ok = work_booksD(3) [OF B]
  have d: "dict_ok (map (\<lambda>r. (wu_dimension r, g r)) (filter (work_row_of acc w run op) (work_usage s)))"
    for g :: "work_usage_row \<Rightarrow> int"
    using filter_work_op_distinct [OF ok] by (simp add: dict_ok_def comp_def)
  show ?thesis
    unfolding work_close_rows
    using work_books_update [OF B work_ledger_ok_close [OF ok], where k = "(acc, w)"]
    by (simp add: work_held_close [OF ok res act] work_spent_close [OF ok res act] dget_dict_add [OF d]
        dget_dict_sub [OF d] work_booksD(1,2) [OF B b])
qed

lemma work_replay_False:
  assumes "work_replay rows vals act src = Inr False"
  shows "act = Act_Reserve \<Longrightarrow> rows = []" "act \<noteq> Act_Reserve \<Longrightarrow> list_all (\<lambda>r. wu_state r = Reserved) rows"
    "act \<noteq> Act_Reserve \<Longrightarrow> wu_dimension ` set rows = fst ` set vals" "act \<noteq> Act_Reserve \<Longrightarrow> rows \<noteq> []"
  using assms
  by (auto simp: work_replay_def Let_def list_all_iff list_ex_iff image_image split: if_splits)

lemma work_values_dict_ok:
  assumes "work_values am rows = Inr vs" "case am of None \<Rightarrow> distinct (map wu_dimension rows) | Some a \<Rightarrow> dict_ok a"
  shows "dict_ok vs"
  using assms amounts_of_dict_ok
  by (cases am) (auto simp: work_values_def dict_ok_def comp_def)

lemma work_mutate_books:
  assumes "work_mutate s run op am act src = Inr s'" "work_inv s" "case am of None \<Rightarrow> True | Some a \<Rightarrow> dict_ok a"
  shows "work_inv s'"
  using assms(1)
proof (cases rule: work_mutate_cases)
  case (Hold r w b vals)
  note ok = work_booksD(3) [OF assms(2)]
  have "dict_ok vals"
    using assms(3) filter_work_op_distinct [OF ok]
    by (intro work_values_dict_ok [OF Hold(4)]) (simp split: option.splits)
  from work_hold_books [OF assms(2) Hold(3) work_replay_False(1) [OF Hold(5,6)] this]
  show ?thesis by (simp add: Hold(9))
next
  case (Close r w b vals)
  from work_close_books [OF assms(2) Close(3) _ Close(6)] work_replay_False(2) [OF Close(5,6)]
  show ?thesis by (simp add: Close(7) all_work_reserved_def)
qed (use assms in simp_all)

end
