(* ===== verification/Budget_Mirror.thy ===== *)
theory Budget_Mirror
  imports Run_Budget_Laws
begin

text \<open>
  The two ledgers of a Work's Run record the same entries, and recovery of a terminal Run settles
  every entry that is still reserved.
\<close>

section \<open>The Work ledger mirrors the Run ledger\<close>

text \<open>The rows of one operation, as both ledgers record them.\<close>

definition run_entries :: "uuid \<Rightarrow> string \<Rightarrow> usage_row list \<Rightarrow>
    (string \<times> entry_state \<times> int \<times> int option \<times> string option) list" where
  "run_entries run op L = map (\<lambda>r. (u_dimension r, u_state r, u_reserved_amount r, u_actual_amount r,
     u_usage_source r)) (filter (run_row_of run op) L)"

definition work_entries :: "uuid \<Rightarrow> uuid \<Rightarrow> uuid \<Rightarrow> string \<Rightarrow> work_usage_row list \<Rightarrow>
    (string \<times> entry_state \<times> int \<times> int option \<times> string option) list" where
  "work_entries acc w run op L = map (\<lambda>r. (wu_dimension r, wu_state r, wu_reserved_amount r,
     wu_actual_amount r, wu_usage_source r)) (filter (work_row_of acc w run op) L)"

definition run_work :: "'a budget_db_scheme \<Rightarrow> uuid \<Rightarrow> (uuid \<times> uuid) option" where
  "run_work s run = (case find (\<lambda>r. r_run_id r = run) (runs s) of
     None \<Rightarrow> None | Some r \<Rightarrow> map_option (\<lambda>w. (r_account_id r, w)) (r_work_id r))"

definition mirrored :: "'a budget_db_scheme \<Rightarrow> bool" where
  "mirrored s \<longleftrightarrow> (\<forall>run acc w op. run_work s run = Some (acc, w) \<longrightarrow>
     run_entries run op (run_usage s) = work_entries acc w run op (work_usage s))"

lemma run_entries_new: "run_entries run' op' (L @ new_usage_rows fnc run op vs)
    = run_entries run' op' L @ (if run' = run \<and> op' = op then map (\<lambda>(d, v). (d, Reserved, v, None, None)) vs else [])"
  by (induction vs) (auto simp: run_entries_def new_usage_rows_def run_row_of_def)

lemma work_entries_new: "work_entries acc' w' run' op' (L @ new_work_rows acc w run op vs)
    = work_entries acc' w' run' op' L @ (if (acc', w', run', op') = (acc, w, run, op)
        then map (\<lambda>(d, v). (d, Reserved, v, None, None)) vs else [])"
  by (induction vs) (auto simp: work_entries_def new_work_rows_def work_row_of_def)

definition settle_entry where
  "settle_entry vs src e = (fst e, Settled, fst (snd (snd e)), Some (dget vs (fst e) (0::int)), src)"

definition release_entry where
  "release_entry e = (fst e, Released, fst (snd (snd e)), fst (snd (snd (snd e))), snd (snd (snd (snd e))))"

lemma run_entries_settle:
  "run_entries run' op' (update_where (run_row_of run op) (\<lambda>r. settle_usage (dget vs (u_dimension r) 0) src r) L)
     = (if run' = run \<and> op' = op then map (settle_entry vs (Some src)) (run_entries run op L)
        else run_entries run' op' L)"
  by (induction L) (auto simp: run_entries_def run_row_of_def settle_usage_def settle_entry_def)

lemma run_entries_release:
  "run_entries run' op' (update_where (run_row_of run op) release_usage L)
     = (if run' = run \<and> op' = op then map release_entry (run_entries run op L) else run_entries run' op' L)"
  by (induction L) (auto simp: run_entries_def run_row_of_def release_usage_def release_entry_def)

lemma work_entries_settle:
  "work_entries acc' w' run' op' (update_where (work_row_of acc w run op) (close_work_row Act_Settle vs src) L)
     = (if (acc', w', run', op') = (acc, w, run, op) then map (settle_entry vs src) (work_entries acc w run op L)
        else work_entries acc' w' run' op' L)"
  by (induction L) (auto simp: work_entries_def work_row_of_def close_work_row_def settle_entry_def)

lemma work_entries_release:
  "work_entries acc' w' run' op' (update_where (work_row_of acc w run op) (close_work_row Act_Release vs None) L)
     = (if (acc', w', run', op') = (acc, w, run, op)
        then map (\<lambda>e. (fst e, Released, fst (snd (snd e)), None, None)) (work_entries acc w run op L)
        else work_entries acc' w' run' op' L)"
  by (induction L) (auto simp: work_entries_def work_row_of_def close_work_row_def)

lemma entries_simps [simp]:
  "run_entries run op L = [] \<longleftrightarrow> filter (run_row_of run op) L = []"
  "work_entries acc w run op L' = [] \<longleftrightarrow> filter (work_row_of acc w run op) L' = []"
  by (simp_all add: run_entries_def work_entries_def)

lemma entries_states:
  "list_all (\<lambda>e. fst (snd e) = st) (run_entries run op L)
     \<longleftrightarrow> list_all (\<lambda>r. u_state r = st) (filter (run_row_of run op) L)"
  "list_all (\<lambda>e. fst (snd e) = st) (work_entries acc w run op L')
     \<longleftrightarrow> list_all (\<lambda>r. wu_state r = st) (filter (work_row_of acc w run op) L')"
  by (simp_all add: run_entries_def work_entries_def list_all_iff)

lemma find_run_work:
  "find (\<lambda>r. r_run_id r = run) (runs s) = Some r \<Longrightarrow> r_work_id r = Some w \<Longrightarrow>
     run_work s run = Some (r_account_id r, w)"
  by (simp add: run_work_def)

lemma run_work_runs: "runs s = runs s' \<Longrightarrow> run_work s = run_work s'"
  for s :: "'a budget_db_scheme" and s' :: "'b budget_db_scheme"
  by (simp add: run_work_def fun_eq_iff)

text \<open>The outcomes of a mutation by what they do to the Work ledger.\<close>

lemma work_mutate_entries:
  assumes "work_mutate s run op am act src = Inr s1"
  obtains (Unchanged_NoWork) "run_work s run = None" "s1 = s"
  | (Unchanged) acc w where "run_work s run = Some (acc, w)" "s1 = s"
      "filter (work_row_of acc w run op) (work_usage s) \<noteq> []"
      "act \<noteq> Act_Reserve \<longrightarrow>
        list_all (\<lambda>r. wu_state r = expected_state act) (filter (work_row_of acc w run op) (work_usage s))"
  | (Held) acc w vs where "run_work s run = Some (acc, w)" "act = Act_Reserve"
      "filter (work_row_of acc w run op) (work_usage s) = []"
      "work_values am [] = Inr vs"
      "work_usage s1 = work_usage s @ new_work_rows acc w run op vs"
  | (Closed) acc w vs where "run_work s run = Some (acc, w)" "act \<noteq> Act_Reserve"
      "filter (work_row_of acc w run op) (work_usage s) \<noteq> []"
      "work_values am (filter (work_row_of acc w run op) (work_usage s)) = Inr vs"
      "list_all (\<lambda>r. wu_state r = Reserved) (filter (work_row_of acc w run op) (work_usage s))"
      "work_usage s1 = update_where (work_row_of acc w run op) (close_work_row act vs src) (work_usage s)"
  using assms
proof (cases rule: work_mutate_cases)
  case NoWork
  then show ?thesis by (intro Unchanged_NoWork) (auto simp: run_work_def split: option.splits)
next
  case (Replay r w b vals)
  have "filter (work_row_of (r_account_id r) w run op) (work_usage s) \<noteq> []"
    using Replay(5) by (auto simp: work_replay_def split: if_splits)
  moreover have "act \<noteq> Act_Reserve \<longrightarrow> list_all (\<lambda>x. wu_state x = expected_state act)
      (filter (work_row_of (r_account_id r) w run op) (work_usage s))"
    using Replay(5) by (auto simp: work_replay_def Let_def split: if_splits)
  ultimately show ?thesis using Unchanged [OF find_run_work [OF Replay(1,2)] Replay(6)] by blast
next
  case (Hold r w b vals)
  from work_replay_False(1) [OF Hold(5,6)] Hold(4)
  show ?thesis
    using Held [OF find_run_work [OF Hold(1,2)] Hold(6), of vals] by (simp add: Hold(9) work_hold_rows)
next
  case (Close r w b vals)
  from work_replay_False(2,4) [OF Close(5,6)]
  show ?thesis
    using Closed [OF find_run_work [OF Close(1,2)] Close(6) _ Close(4)] by (simp add: Close(7) work_close_rows)
qed


lemma mirroredD:
  "mirrored s \<Longrightarrow> run_work s run = Some (acc, w) \<Longrightarrow>
     run_entries run op (run_usage s) = work_entries acc w run op (work_usage s)"
  by (simp add: mirrored_def)

lemma mirrored_empty: "mirrored s \<Longrightarrow> run_work s run = Some (acc, w) \<Longrightarrow>
    filter (run_row_of run op) (run_usage s) = [] \<longleftrightarrow> filter (work_row_of acc w run op) (work_usage s) = []"
  by (metis mirroredD entries_simps)

lemma mirrored_states: "mirrored s \<Longrightarrow> run_work s run = Some (acc, w) \<Longrightarrow>
    list_all (\<lambda>r. u_state r = st) (filter (run_row_of run op) (run_usage s)) \<longleftrightarrow>
    list_all (\<lambda>r. wu_state r = st) (filter (work_row_of acc w run op) (work_usage s))"
  by (metis mirroredD entries_states)

lemma mirrored_cong:
  assumes "mirrored s" "run_usage s' = run_usage s" "work_usage s' = work_usage s" "runs s' = runs s"
  shows "mirrored s'"
  using assms unfolding mirrored_def run_work_runs [OF assms(4)] by simp

lemma reserve_body_mirrored:
  assumes "reserve_body s fnc run op am fr el now = Inr (m, s')" "mirrored s"
  shows "mirrored s' \<and> runs s' = runs s"
  using assms(1)
proof (cases rule: reserve_body_cases)
  case (Replayed s1 s2 req b)
  note f = reserve_fenced_run [OF Replayed(1)] work_mutate_run [OF Replayed(4)]
  have m1: "mirrored s1" by (rule mirrored_cong [OF assms(2)]) (simp_all add: f)
  from Replayed(4) show ?thesis
  proof (cases rule: work_mutate_entries)
    case (Held acc w vs)
    with mirrored_empty [OF m1 Held(1)] Replayed(6) f show ?thesis by simp
  qed (use m1 Replayed(9) f in simp_all)
next
  case (Fresh s1 s2 req b)
  note f = reserve_fenced_run [OF Fresh(1)] work_mutate_run [OF Fresh(4)]
  have m1: "mirrored s1" by (rule mirrored_cong [OF assms(2)]) (simp_all add: f)
  have new: "run_usage s' = run_usage s1 @ new_usage_rows fnc run op req" "work_usage s' = work_usage s2"
      "runs s' = runs s1"
    using Fresh(7) f by (auto elim!: reserve_rows_cases)
  note w' = run_work_runs [OF new(3)]
  from Fresh(4) show ?thesis
  proof (cases rule: work_mutate_entries)
    case Unchanged_NoWork
    with m1 new show ?thesis
      by (auto simp: mirrored_def w' run_entries_new f)
  next
    case (Unchanged acc w)
    with mirrored_empty [OF m1 Unchanged(1)] Fresh(6) f show ?thesis by simp
  next
    case (Held acc w vs)
    have "vs = req" using Held(4) amounts_of_jints [OF Fresh(2)] by (simp add: work_values_def)
    with m1 new Held(1,5) show ?thesis
      by (auto simp: mirrored_def w' run_entries_new work_entries_new f)
  qed simp
qed

lemma settle_in_uow_mirrored:
  assumes "settle_in_uow s run op raw src = Inr (m, s')" "mirrored s"
  shows "mirrored s' \<and> runs s' = runs s"
  using assms(1)
proof (cases rule: settle_in_uow_cases)
  case (Replayed actual s1 b)
  note f = work_mutate_run [OF Replayed(3)]
  from Replayed(3) show ?thesis
  proof (cases rule: work_mutate_entries)
    case (Closed acc w vs)
    with mirrored_states [OF assms(2) Closed(1), of Reserved op] Replayed(5,6) f show ?thesis
      by (auto simp: list_all_iff filter_empty_conv)
  qed (use assms(2) Replayed(10) f in simp_all)
next
  case (Settling actual s1 b)
  note f = work_mutate_run [OF Settling(3)]
  have new: "run_usage s' = update_where (run_row_of run op)
        (\<lambda>r. settle_usage (dget actual (u_dimension r) 0) src r) (run_usage s)"
      "work_usage s' = work_usage s1" "runs s' = runs s"
    using Settling(9) f by auto
  note w' = run_work_runs [OF new(3)]
  from Settling(3) show ?thesis
  proof (cases rule: work_mutate_entries)
    case Unchanged_NoWork
    with assms(2) new show ?thesis
      by (auto simp: mirrored_def w' run_entries_settle)
  next
    case (Unchanged acc w)
    with mirrored_states [OF assms(2) Unchanged(1), of Settled op] Settling(5,6) f show ?thesis
      by (auto simp: list_all_iff filter_empty_conv all_reserved_def)
  next
    case (Closed acc w vs)
    have "vs = actual" using Closed(4) amounts_of_jints [OF Settling(2)] by (simp add: work_values_def)
    with assms(2) new Closed(1,6) show ?thesis
      by (auto simp: mirrored_def w' run_entries_settle work_entries_settle)
  qed simp
qed


text \<open>All rows of an operation share one state; a reserved row has no actual amount yet.\<close>

definition entry_shape :: "entry_state \<Rightarrow> string \<times> entry_state \<times> int \<times> int option \<times> string option \<Rightarrow> bool" where
  "entry_shape st e \<longleftrightarrow> fst (snd e) = st \<and> fst e \<in> set DIMENSIONS \<and> 0 \<le> fst (snd (snd e)) \<and>
     (st = Reserved \<longrightarrow> snd (snd (snd e)) = (None, None))"

definition shaped :: "usage_row list \<Rightarrow> bool" where
  "shaped L \<longleftrightarrow> (\<forall>run op. \<exists>st. list_all (entry_shape st) (run_entries run op L))"

lemma amounts_items_dims: "amounts_items vs = Inr d \<Longrightarrow> fst ` set d \<subseteq> set DIMENSIONS"
proof (induction vs arbitrary: d)
  case (Cons v vs)
  obtain k raw where v: "v = (k, raw)" by (cases v)
  with Cons.prems obtain n d' where *: "k \<in> set DIMENSIONS" "amounts_items vs = Inr d'" "d = (k, n) # d'"
    by (auto simp: res_simps split: if_splits json.splits)
  with Cons.IH [OF *(2)] show ?case by simp
qed simp

lemma amounts_of_dims: "amounts_of vs = Inr d \<Longrightarrow> fst ` set d \<subseteq> set DIMENSIONS"
  using amounts_items_dims by (auto simp: amounts_of_def res_simps)

lemma shaped_new:
  assumes "shaped L" "filter (run_row_of run op) L = []" "amounts_of am = Inr req"
  shows "shaped (L @ new_usage_rows fnc run op req)"
  unfolding shaped_def
proof (intro allI)
  fix run' op'
  show "\<exists>st. list_all (entry_shape st) (run_entries run' op' (L @ new_usage_rows fnc run op req))"
  proof (cases "run' = run \<and> op' = op")
    case True
    then have "run_entries run' op' (L @ new_usage_rows fnc run op req)
        = map (\<lambda>(d, v). (d, Reserved, v, None, None)) req"
      using assms(2) by (simp add: run_entries_new)
    moreover have "list_all (entry_shape Reserved) (map (\<lambda>(d, v). (d, Reserved, v, None, None)) req)"
      using amounts_of_dims [OF assms(3)] amounts_of_ok(2) [OF assms(3)]
      by (auto simp: list_all_iff entry_shape_def)
    ultimately show ?thesis by metis
  next
    case False
    with assms(1) show ?thesis by (auto simp: run_entries_new shaped_def)
  qed
qed

lemma shaped_settle:
  assumes "shaped L"
  shows "shaped (update_where (run_row_of run op) (\<lambda>r. settle_usage (dget vs (u_dimension r) 0) src r) L)"
  unfolding shaped_def
proof (intro allI)
  fix run' op'
  obtain st where "list_all (entry_shape st) (run_entries run' op' L)"
    using assms by (auto simp: shaped_def)
  then have "list_all (entry_shape (if run' = run \<and> op' = op then Settled else st))
      (run_entries run' op' (update_where (run_row_of run op) (\<lambda>r. settle_usage (dget vs (u_dimension r) 0) src r) L))"
    by (auto simp: run_entries_settle list_all_iff entry_shape_def settle_entry_def)
  then show "\<exists>st. list_all (entry_shape st)
      (run_entries run' op' (update_where (run_row_of run op) (\<lambda>r. settle_usage (dget vs (u_dimension r) 0) src r) L))"
    by blast
qed

lemma shaped_release:
  assumes "shaped L"
  shows "shaped (update_where (run_row_of run op) release_usage L)"
  unfolding shaped_def
proof (intro allI)
  fix run' op'
  obtain st where "list_all (entry_shape st) (run_entries run' op' L)"
    using assms by (auto simp: shaped_def)
  then have "list_all (entry_shape (if run' = run \<and> op' = op then Released else st))
      (run_entries run' op' (update_where (run_row_of run op) release_usage L))"
    by (auto simp: run_entries_release list_all_iff entry_shape_def release_entry_def)
  then show "\<exists>st. list_all (entry_shape st) (run_entries run' op' (update_where (run_row_of run op) release_usage L))"
    by blast
qed

lemma release_in_uow_mirrored:
  assumes "release_in_uow s run op = Inr (m, s')" "mirrored s" "shaped (run_usage s)"
  shows "mirrored s' \<and> runs s' = runs s"
  using assms(1)
proof (cases rule: release_in_uow_cases)
  case (Replayed s1 b)
  note f = work_mutate_run [OF Replayed(1)]
  from Replayed(1) show ?thesis
  proof (cases rule: work_mutate_entries)
    case (Closed acc w vs)
    with mirrored_states [OF assms(2) Closed(1), of Reserved op] Replayed(3,4) f show ?thesis
      by (auto simp: list_all_iff filter_empty_conv)
  qed (use assms(2) Replayed(6) f in simp_all)
next
  case (Releasing s1 b)
  note f = work_mutate_run [OF Releasing(1)]
  have new: "run_usage s' = update_where (run_row_of run op) release_usage (run_usage s)"
      "work_usage s' = work_usage s1" "runs s' = runs s"
    using Releasing(6) f by auto
  note w' = run_work_runs [OF new(3)]
  from Releasing(1) show ?thesis
  proof (cases rule: work_mutate_entries)
    case Unchanged_NoWork
    with assms(2) new show ?thesis
      by (auto simp: mirrored_def w' run_entries_release)
  next
    case (Unchanged acc w)
    with mirrored_states [OF assms(2) Unchanged(1), of Released op] Releasing(3,4) f show ?thesis
      by (auto simp: list_all_iff filter_empty_conv all_reserved_def)
  next
    case (Closed acc w vs)
    obtain st where st: "list_all (entry_shape st) (run_entries run op (run_usage s))"
      using assms(3) by (auto simp: shaped_def)
    have "list_all (\<lambda>e. fst (snd e) = Reserved) (run_entries run op (run_usage s))"
      using Releasing(4) f unfolding entries_states all_reserved_def by simp
    with st have "list_all (\<lambda>e. snd (snd (snd e)) = (None, None)) (run_entries run op (run_usage s))"
      by (auto simp: list_all_iff entry_shape_def)
    then have "map release_entry (run_entries run op (run_usage s))
        = map (\<lambda>e. (fst e, Released, fst (snd (snd e)), None, None)) (run_entries run op (run_usage s))"
      by (auto simp: list_all_iff release_entry_def)
    with assms(2) new Closed(1,2,6) show ?thesis
      by (auto simp: mirrored_def w' run_entries_release work_entries_release)
  qed simp
qed


section \<open>Settling an operation whose rows are all reserved succeeds\<close>

definition budgeted :: "'a budget_db_scheme \<Rightarrow> uuid \<Rightarrow> bool" where
  "budgeted s run \<longleftrightarrow> run_budgets s run \<noteq> None \<and>
     (\<forall>acc w. run_work s run = Some (acc, w) \<longrightarrow> work_budgets s (acc, w) \<noteq> None)"

lemma amounts_items_total:
  "fst ` set d \<subseteq> set DIMENSIONS \<Longrightarrow> list_all (\<lambda>(k, v). 0 \<le> v) d \<Longrightarrow> amounts_items (jints d) = Inr d"
  by (induction d) (auto simp: jints_def)

lemma amounts_of_total:
  "fst ` set d \<subseteq> set DIMENSIONS \<Longrightarrow> list_all (\<lambda>(k, v). 0 \<le> v) d \<Longrightarrow> d \<noteq> [] \<Longrightarrow> amounts_of (jints d) = Inr d"
  by (simp add: amounts_of_def amounts_items_total)

lemma work_budgets_hold_close [simp]:
  "work_budgets (work_close a src acc w run op b vs s) k \<noteq> None \<longleftrightarrow> work_budgets s k \<noteq> None \<or> k = (acc, w)"
  by (auto simp: work_close_rows)

lemma work_mutate_settles:
  assumes d: "amounts_of (jints d) = Inr d"
    and bud: "budgeted s run" and m: "mirrored s"
    and rows: "filter (run_row_of run op) (run_usage s) \<noteq> []" "all_reserved run op (run_usage s)"
      "u_dimension ` set (filter (run_row_of run op) (run_usage s)) = fst ` set d"
  shows "\<exists>s1. work_mutate s run op (Some (jints d)) Act_Settle (Some src) = Inr s1 \<and> budgeted s1 run"
proof (cases "find (\<lambda>r. r_run_id r = run) (runs s)")
  case None
  with bud show ?thesis by (simp add: work_mutate_def)
next
  case (Some r)
  note r = this
  show ?thesis
  proof (cases "r_work_id r")
    case None
    with r bud show ?thesis by (simp add: work_mutate_def)
  next
    case (Some w)
    note rw = find_run_work [OF r this]
    obtain b where b: "work_budgets s (r_account_id r, w) = Some b"
      using bud rw by (auto simp: budgeted_def)
    let ?rows = "filter (work_row_of (r_account_id r) w run op) (work_usage s)"
    have all: "list_all (\<lambda>r. wu_state r = Reserved) ?rows"
      using mirrored_states [OF m rw, of Reserved op] rows(2) by (simp add: all_reserved_def)
    have ne: "?rows \<noteq> []" using mirrored_empty [OF m rw, of op] rows(1) by simp
    have "fst ` set (run_entries run op (run_usage s)) = fst ` set (work_entries (r_account_id r) w run op (work_usage s))"
      using mirroredD [OF m rw] by simp
    then have dims: "wu_dimension ` set ?rows = fst ` set d"
      using rows(3) by (simp add: run_entries_def work_entries_def image_image)
    have "\<not> list_all (\<lambda>r. wu_state r = Settled) ?rows"
      using all ne by (cases ?rows) auto
    then have "work_replay ?rows d Act_Settle (Some src) = Inr False"
      using all ne dims by (auto simp: work_replay_def Let_def list_all_iff list_ex_iff image_image)
    then have "work_mutate s run op (Some (jints d)) Act_Settle (Some src)
        = Inr (work_close Act_Settle (Some src) (r_account_id r) w run op b d s)"
      using r Some b d by (simp add: work_mutate_def work_values_def)
    moreover have "budgeted (work_close Act_Settle (Some src) (r_account_id r) w run op b d s) run"
      using bud by (simp add: budgeted_def work_close_rows run_work_def)
    ultimately show ?thesis by blast
  qed
qed

lemma settle_in_uow_settles:
  assumes d: "amounts_of (jints d) = Inr d" and src: "src \<in> set USAGE_SOURCES"
    and bud: "budgeted s run" and m: "mirrored s"
    and rows: "filter (run_row_of run op) (run_usage s) \<noteq> []" "all_reserved run op (run_usage s)"
      "u_dimension ` set (filter (run_row_of run op) (run_usage s)) = fst ` set d"
  shows "\<exists>mu s'. settle_in_uow s run op (jints d) src = Inr (mu, s') \<and> budgeted s' run \<and>
    run_usage s' = update_where (run_row_of run op) (\<lambda>r. settle_usage (dget d (u_dimension r) 0) src r) (run_usage s)"
proof -
  obtain s1 where s1: "work_mutate s run op (Some (jints d)) Act_Settle (Some src) = Inr s1" "budgeted s1 run"
    using work_mutate_settles [OF d bud m rows] by blast
  note f = work_mutate_run [OF s1(1)]
  obtain b where b: "run_budgets s run = Some b" using s1(2) f by (auto simp: budgeted_def)
  have 1: "\<not> list_all (\<lambda>r. u_state r = Settled) (filter (run_row_of run op) (run_usage s))"
    using rows(1,2) by (cases "filter (run_row_of run op) (run_usage s)") (auto simp: all_reserved_def)
  have 2: "\<not> list_ex (\<lambda>r. u_state r \<noteq> Reserved) (filter (run_row_of run op) (run_usage s))"
    using rows(2) by (auto simp: all_reserved_def list_ex_iff list_all_iff)
  have 3: "set (map fst (map (\<lambda>r. (u_dimension r, u_reserved_amount r)) (filter (run_row_of run op) (run_usage s))))
      = set (map fst d)"
    using rows(3) by (simp add: image_image)
  show ?thesis
    unfolding settle_in_uow_def using s1(2)
    by (simp only: src d s1(1) b f 1 2 3 rows(1) ensure_simps ebind.simps need_simps Let_def simp_thms if_False if_True)
       (simp add: budgeted_def run_work_def f)
qed


section \<open>Recovery\<close>

definition op_amounts :: "uuid \<Rightarrow> string \<Rightarrow> usage_row list \<Rightarrow> (string \<times> int) list" where
  "op_amounts run op L = map (\<lambda>r. (u_dimension r, u_reserved_amount r)) (filter (run_row_of run op) L)"

definition estimate :: "usage_row \<Rightarrow> usage_row" where
  "estimate r = settle_usage (u_reserved_amount r) ''estimated'' r"

lemma estimate_keys [simp]:
  "u_run_id (estimate r) = u_run_id r" "u_operation_id (estimate r) = u_operation_id r"
  "u_dimension (estimate r) = u_dimension r" "u_state (estimate r) = Settled"
  "u_reserved_amount (estimate r) = u_reserved_amount r" "u_actual_amount (estimate r) = Some (u_reserved_amount r)"
  by (simp_all add: estimate_def settle_usage_def)

lemma op_amounts_total:
  assumes "shaped L" "filter (run_row_of run op) L \<noteq> []"
  shows "amounts_of (jints (op_amounts run op L)) = Inr (op_amounts run op L)"
proof (rule amounts_of_total)
  obtain st where st: "list_all (entry_shape st) (run_entries run op L)"
    using assms(1) by (auto simp: shaped_def)
  then show "fst ` set (op_amounts run op L) \<subseteq> set DIMENSIONS" "list_all (\<lambda>(k, v). 0 \<le> v) (op_amounts run op L)"
    by (auto simp: op_amounts_def run_entries_def list_all_iff entry_shape_def)
  show "op_amounts run op L \<noteq> []" using assms(2) by (simp add: op_amounts_def)
qed

lemma settle_op_amounts:
  assumes "run_ledger_ok L"
  shows "update_where (run_row_of run op)
      (\<lambda>r. settle_usage (dget (op_amounts run op L) (u_dimension r) 0) ''estimated'' r) L
    = update_where (run_row_of run op) estimate L"
proof -
  have d: "dict_ok (op_amounts run op L)"
    using filter_op_distinct [OF assms] by (simp add: dict_ok_def op_amounts_def comp_def)
  have "dget (op_amounts run op L) (u_dimension r) 0 = u_reserved_amount r"
    if "r \<in> set L" "run_row_of run op r" for r
    using that by (intro dget_mem [OF d]) (auto simp: op_amounts_def)
  then show ?thesis by (auto simp: update_where_def estimate_def)
qed

lemma filter_other_op [simp]:
  "op' \<noteq> op \<Longrightarrow> filter (run_row_of run op') (update_where (run_row_of run op) estimate L)
     = filter (run_row_of run op') L"
  by (induction L) (auto simp: run_row_of_def)

lemma run_ledger_ok_estimate: "run_ledger_ok L \<Longrightarrow> run_ledger_ok (update_where P estimate L)"
  by (rule run_ledger_ok_update) (auto simp: run_ledger_ok_def)

lemma settle_all_estimates:
  assumes "distinct ops" "\<forall>op \<in> set ops. filter (run_row_of run op) (run_usage s) \<noteq> [] \<and> all_reserved run op (run_usage s)"
    and "run_ledger_ok (run_usage s)" "shaped (run_usage s)" "mirrored s" "budgeted s run"
  shows "\<exists>s'. settle_all (map (\<lambda>op. (op, op_amounts run op (run_usage s))) ops) run s = Inr s' \<and>
    run_usage s' = update_where (\<lambda>r. u_run_id r = run \<and> u_operation_id r \<in> set ops) estimate (run_usage s)"
  using assms
proof (induction ops arbitrary: s)
  case Nil
  then show ?case by (simp add: update_where_def)
next
  case (Cons op ops)
  let ?L = "run_usage s"
  have rows: "filter (run_row_of run op) ?L \<noteq> []" "all_reserved run op ?L"
    using Cons.prems(2) by simp_all
  note am = op_amounts_total [OF Cons.prems(4) rows(1)]
  have "u_dimension ` set (filter (run_row_of run op) ?L) = fst ` set (op_amounts run op ?L)"
    by (simp add: op_amounts_def image_image)
  from settle_in_uow_settles [OF am _ Cons.prems(6,5) rows this, of "''estimated''"]
  obtain mu s1 where s1: "settle_in_uow s run op (jints (op_amounts run op ?L)) ''estimated'' = Inr (mu, s1)"
      "budgeted s1 run" "run_usage s1 = update_where (run_row_of run op) estimate ?L"
    unfolding settle_op_amounts [OF Cons.prems(3)] by (auto simp: USAGE_SOURCES_def)
  have other: "op' \<noteq> op" if "op' \<in> set ops" for op'
    using Cons.prems(1) that by auto
  have rest: "map (\<lambda>op. (op, op_amounts run op (run_usage s1))) ops = map (\<lambda>op. (op, op_amounts run op ?L)) ops"
    by (simp add: s1(3) op_amounts_def other)
  have "\<exists>s'. settle_all (map (\<lambda>op. (op, op_amounts run op (run_usage s1))) ops) run s1 = Inr s' \<and>
      run_usage s' = update_where (\<lambda>r. u_run_id r = run \<and> u_operation_id r \<in> set ops) estimate (run_usage s1)"
  proof (rule Cons.IH)
    show "distinct ops" using Cons.prems(1) by simp
    show "\<forall>op \<in> set ops. filter (run_row_of run op) (run_usage s1) \<noteq> [] \<and> all_reserved run op (run_usage s1)"
      using Cons.prems(2) by (simp add: s1(3) all_reserved_def other)
    show "run_ledger_ok (run_usage s1)" using run_ledger_ok_estimate [OF Cons.prems(3)] by (simp add: s1(3))
    show "shaped (run_usage s1)"
      using shaped_settle [OF Cons.prems(4), of run op "op_amounts run op ?L" "''estimated''"]
      by (simp add: s1(3) settle_op_amounts [OF Cons.prems(3)])
    show "mirrored s1" using settle_in_uow_mirrored [OF s1(1) Cons.prems(5)] by blast
    show "budgeted s1 run" by (rule s1(2))
  qed
  moreover have "update_where (\<lambda>r. u_run_id r = run \<and> u_operation_id r \<in> set ops) estimate (run_usage s1)
      = update_where (\<lambda>r. u_run_id r = run \<and> u_operation_id r \<in> set (op # ops)) estimate ?L"
    using Cons.prems(1) by (auto simp: s1(3) update_where_def run_row_of_def)
  ultimately show ?case by (simp add: s1(1) rest)
qed

lemma shaped_reserved:
  assumes "shaped L" "r \<in> set L" "run_row_of run op r" "u_state r = Reserved"
  shows "all_reserved run op L"
proof -
  obtain st where st: "list_all (entry_shape st) (run_entries run op L)"
    using assms(1) by (auto simp: shaped_def)
  moreover from this have "st = Reserved"
    using assms(2-4) by (auto simp: run_entries_def list_all_iff entry_shape_def)
  ultimately show ?thesis
    by (auto simp: all_reserved_def run_entries_def list_all_iff entry_shape_def)
qed

lemma reserved_operations_amounts:
  assumes "shaped (run_usage s)"
  shows "reserved_operations s run = map (\<lambda>op. (op, op_amounts run op (run_usage s)))
     (remdups (map u_operation_id (filter (\<lambda>r. u_run_id r = run \<and> u_state r = Reserved) (run_usage s))))"
proof -
  have "filter (\<lambda>r. u_operation_id r = op) (filter (\<lambda>r. u_run_id r = run \<and> u_state r = Reserved) (run_usage s))
      = filter (run_row_of run op) (run_usage s)"
    if "r \<in> set (run_usage s)" "u_run_id r = run" "u_state r = Reserved" "u_operation_id r = op" for op r
    using shaped_reserved [OF assms that(1) _ that(3), of run op] that
    by (auto simp: run_row_of_def all_reserved_def list_all_iff intro!: filter_cong)
  then show ?thesis
    by (auto simp: reserved_operations_def Let_def op_amounts_def)
qed

lemma recover_terminal_settles:
  assumes "run_ledger_ok (run_usage s)" "shaped (run_usage s)" "mirrored s" "budgeted s run"
    and "find (\<lambda>r. r_run_id r = run) (runs s) = Some row" "r_status row \<in> {Succeeded, Failed, Cancelled}"
  shows "\<exists>s'. recover_terminal_in_uow s run = Inr s' \<and> run_usage s' =
     update_where (\<lambda>r. u_run_id r = run \<and> u_state r = Reserved) estimate (run_usage s)"
proof (cases "filter (\<lambda>r. u_run_id r = run \<and> u_state r = Reserved) (run_usage s) = []")
  case True
  then have "update_where (\<lambda>r. u_run_id r = run \<and> u_state r = Reserved) estimate (run_usage s) = run_usage s"
    by (auto simp: filter_empty_conv intro!: update_where_id)
  with True assms(5,6) show ?thesis by (simp add: recover_terminal_in_uow_def)
next
  case False
  let ?ops = "remdups (map u_operation_id (filter (\<lambda>r. u_run_id r = run \<and> u_state r = Reserved) (run_usage s)))"
  have "\<forall>op \<in> set ?ops. filter (run_row_of run op) (run_usage s) \<noteq> [] \<and> all_reserved run op (run_usage s)"
  proof
    fix op assume "op \<in> set ?ops"
    then obtain r where r: "r \<in> set (run_usage s)" "run_row_of run op r" "u_state r = Reserved"
      by (auto simp: run_row_of_def)
    with shaped_reserved [OF assms(2) r]
    show "filter (run_row_of run op) (run_usage s) \<noteq> [] \<and> all_reserved run op (run_usage s)"
      by (auto simp: filter_empty_conv)
  qed
  note ops = this
  have "(u_run_id r = run \<and> u_operation_id r \<in> set ?ops) = (u_run_id r = run \<and> u_state r = Reserved)"
    if "r \<in> set (run_usage s)" for r
    using that ops all_reservedD [of run "u_operation_id r" "run_usage s" r] by (auto simp: run_row_of_def)
  then have "update_where (\<lambda>r. u_run_id r = run \<and> u_operation_id r \<in> set ?ops) estimate (run_usage s)
      = update_where (\<lambda>r. u_run_id r = run \<and> u_state r = Reserved) estimate (run_usage s)"
    by (simp add: update_where_def)
  with settle_all_estimates [OF distinct_remdups ops assms(1-4)] False assms(5,6) show ?thesis
    by (simp add: recover_terminal_in_uow_def reserved_operations_amounts [OF assms(2)])
qed

end
