(* ===== verification/Budget_Properties.thy ===== *)
theory Budget_Properties
  imports Budget_Mirror
begin

text \<open>
  What the Run budget and the Work budget guarantee over any sequence of calls of
  \<open>RunBudgetService\<close>: the properties of this component and their witnesses.
\<close>

section \<open>Sequences of calls\<close>

datatype budget_call =
    Reserve_Call fence uuid string "(string \<times> json) list" bool bool int
  | Settle_Call uuid string "(string \<times> json) list" string
  | Release_Call uuid string
  | Recover_Call uuid

fun budget_step :: "budget_call \<Rightarrow> 'a budget_db_scheme \<Rightarrow> 'a budget_db_scheme" where
  "budget_step (Reserve_Call fnc run op am fr el now) s = snd (reserve s fnc run op am fr el now)"
| "budget_step (Settle_Call run op actual src) s = committed (settle s run op actual src) s"
| "budget_step (Release_Call run op) s = committed (release s run op) s"
| "budget_step (Recover_Call run) s = (case recover_terminal_in_uow s run of Inl _ \<Rightarrow> s | Inr s' \<Rightarrow> s')"

fun budget_steps :: "budget_call list \<Rightarrow> 'a budget_db_scheme \<Rightarrow> 'a budget_db_scheme" where
  "budget_steps [] s = s"
| "budget_steps (c # cs) s = budget_steps cs (budget_step c s)"

text \<open>A dictionary argument has distinct keys.\<close>

fun call_ok :: "budget_call \<Rightarrow> bool" where
  "call_ok (Reserve_Call _ _ _ am _ _ _) = dict_ok am"
| "call_ok (Settle_Call _ _ actual _) = dict_ok actual"
| "call_ok _ = True"

definition within_limits :: "run_budget_row \<Rightarrow> bool" where
  "within_limits b \<longleftrightarrow> b_status b = ''exhausted'' \<or>
     (\<forall>d l. map_of (b_limits b) d = Some l \<longrightarrow> dget (b_used b) d 0 + dget (b_reserved b) d 0 \<le> max 0 l)"

definition all_within :: "'a budget_db_scheme \<Rightarrow> bool" where
  "all_within s \<longleftrightarrow> (\<forall>run b. run_budgets s run = Some b \<longrightarrow> within_limits b)"

definition budget_inv :: "'a budget_db_scheme \<Rightarrow> bool" where
  "budget_inv s \<longleftrightarrow> run_inv s \<and> work_inv s \<and> mirrored s \<and> shaped (run_usage s) \<and> all_within s
     \<and> (\<forall>run b. run_budgets s run = Some b \<longrightarrow> 0 \<le> b_final_response_reserve_tokens b)"

section \<open>Each operation keeps the invariant\<close>

lemma dict_ok_jints [simp]: "dict_ok (jints d) \<longleftrightarrow> dict_ok d"
  by (simp add: dict_ok_def jints_def comp_def case_prod_unfold)

lemma exceeded_dims_Nil:
  assumes "exceeded_dims b fr req = Inr []" "(d, n) \<in> set req"
  shows "\<exists>l. map_of (b_limits b) d = Some l \<and>
    dget (b_used b) d 0 + dget (b_reserved b) d 0 + n \<le> max 0 (l - protected_amount b fr d)"
  using assms
proof (induction req)
  case (Cons e req)
  obtain d' n' where e: "e = (d', n')" by (cases e)
  obtain l where l: "map_of (b_limits b) d' = Some l"
    using Cons.prems e by (auto split: option.splits)
  with Cons.prems(1) e have *: "exceeded_dims b fr req = Inr []"
    "dget (b_used b) d' 0 + dget (b_reserved b) d' 0 + n' \<le> max 0 (l - protected_amount b fr d')"
    by (auto simp: res_simps split: if_splits)
  show ?case
  proof (cases "(d, n) \<in> set req")
    case True
    from Cons.IH [OF *(1) True] show ?thesis .
  next
    case False
    with Cons.prems(2) e have "d = d'" "n = n'" by auto
    with l *(2) show ?thesis by auto
  qed
qed simp

lemma protected_nonneg: "0 \<le> b_final_response_reserve_tokens b \<Longrightarrow> 0 \<le> protected_amount b fr d"
  by (simp add: protected_amount_def)

lemma within_limits_reserve:
  assumes "within_limits b" "exceeded_dims b fr req = Inr exceeded" "dict_ok req"
    "0 \<le> b_final_response_reserve_tokens b"
  shows "within_limits (b\<lparr>b_reserved := dict_add req (b_reserved b),
     b_status := (if exceeded \<noteq> [] then ''exhausted'' else b_status b)\<rparr>)"
proof (cases "exceeded = [] \<and> b_status b \<noteq> ''exhausted''")
  case True
  have "dget (b_used b) d 0 + dget (dict_add req (b_reserved b)) d 0 \<le> max 0 l"
    if l: "map_of (b_limits b) d = Some l" for d l
  proof (cases "d \<in> fst ` set req")
    case False
    with assms(1,3) True l show ?thesis by (simp add: dget_dict_add dget_not_key within_limits_def)
  next
    case t: True
    then obtain n where n: "(d, n) \<in> set req" by auto
    from exceeded_dims_Nil [of b fr req, OF _ n] assms(2) True l protected_nonneg [OF assms(4), of fr d]
    have "dget (b_used b) d 0 + dget (b_reserved b) d 0 + n \<le> max 0 l" by auto
    with assms(3) dget_mem [OF assms(3) n] show ?thesis by (simp add: dget_dict_add)
  qed
  with True show ?thesis by (simp add: within_limits_def)
qed (auto simp: within_limits_def)

lemma reserve_body_inv:
  assumes "reserve_body s fnc run op am fr el now = Inr (m, s')" "budget_inv s" "dict_ok am"
  shows "budget_inv s'"
proof -
  have I: "run_inv s" "work_inv s" "mirrored s" "shaped (run_usage s)" "all_within s"
    "\<And>run b. run_budgets s run = Some b \<Longrightarrow> 0 \<le> b_final_response_reserve_tokens b"
    using assms(2) by (auto simp: budget_inv_def)
  have 1: "run_inv s'" by (rule reserve_body_books [OF assms(1) I(1) assms(3)])
  have 2: "mirrored s'" using reserve_body_mirrored [OF assms(1) I(3)] by simp
  show ?thesis
    using assms(1)
  proof (cases rule: reserve_body_cases)
    case (Replayed s1 s2 req b)
    note f = reserve_fenced_run [OF Replayed(1)] work_mutate_run [OF Replayed(4)]
    have "work_inv s1" using I(2) f by simp
    with Replayed(2,9) work_mutate_books [OF Replayed(4)] amounts_of_dict_ok [OF Replayed(2)] assms(3)
    have "work_inv s'" by simp
    with 1 2 I(4-6) f Replayed(9) show ?thesis by (simp add: budget_inv_def all_within_def)
  next
    case (Fresh s1 s2 req b)
    note f = reserve_fenced_run [OF Fresh(1)] work_mutate_run [OF Fresh(4)]
    have ok: "dict_ok req" using amounts_of_dict_ok [OF Fresh(2)] assms(3) by simp
    have "work_inv s1" using I(2) f by simp
    with work_mutate_books [OF Fresh(4)] ok have w: "work_inv s2" by simp
    from Fresh(7) show ?thesis
    proof (cases rule: reserve_rows_cases)
      case (1 exceeded)
      have b: "run_budgets s run = Some b" using Fresh(5) f by simp
      have "shaped (run_usage s')"
        using shaped_new [OF I(4) _ Fresh(2), of run op fnc] Fresh(6) f by (simp add: 1(5))
      moreover have "all_within s'"
        using I(5) within_limits_reserve [OF _ 1(1) ok I(6) [OF b]] b f by (auto simp: all_within_def 1(5))
      moreover have "work_inv s'" using w by (simp add: 1(5))
      moreover have "\<And>run b. run_budgets s' run = Some b \<Longrightarrow> 0 \<le> b_final_response_reserve_tokens b"
        using I(6) b f by (auto simp: 1(5) split: if_splits)
      ultimately show ?thesis using \<open>run_inv s'\<close> 2 by (simp add: budget_inv_def)
    qed
  qed
qed

text \<open>Marking a budget exhausted.\<close>

lemma within_exhausted [simp]: "within_limits (b\<lparr>b_status := ''exhausted''\<rparr>)"
  by (simp add: within_limits_def)

lemma budget_inv_exhaust:
  assumes "budget_inv s"
  shows "budget_inv (s\<lparr>run_budgets := (\<lambda>x. if x = run
     then map_option (\<lambda>b. b\<lparr>b_status := ''exhausted''\<rparr>) (run_budgets s x) else run_budgets s x)\<rparr>)" (is "budget_inv ?s")
proof -
  have w: "run_work ?s = run_work s" by (rule run_work_runs) simp
  show ?thesis
    using assms unfolding budget_inv_def mirrored_def w
    by (auto simp: run_books_def all_within_def)
qed

lemma reserve_inv:
  assumes "budget_inv s" "dict_ok am"
  shows "budget_inv (snd (reserve s fnc run op am fr el now))"
  using assms reserve_body_inv [of s fnc run op am fr el now] budget_inv_exhaust [OF assms(1), of run]
  by (auto simp: reserve_def reserve_in_uow_def split: sum.splits)


lemma within_limits_settle:
  assumes "within_limits b" "st = b_status b \<or> st = ''exhausted''"
    and "st \<noteq> ''exhausted'' \<longrightarrow> list_all (\<lambda>(d, l). dget u d 0 + dget r d 0 \<le> l) (b_limits b)"
  shows "within_limits (b\<lparr>b_used := u, b_reserved := r, b_status := st\<rparr>)"
proof (cases "st = ''exhausted''")
  case False
  have "dget u d 0 + dget r d 0 \<le> max 0 l" if "map_of (b_limits b) d = Some l" for d l
    using assms(3) False map_of_SomeD [OF that] by (auto simp: list_all_iff)
  then show ?thesis by (simp add: within_limits_def)
qed (simp add: within_limits_def)

lemma settle_in_uow_inv:
  assumes "settle_in_uow s run op raw src = Inr (m, s')" "budget_inv s" "dict_ok raw"
  shows "budget_inv s'"
proof -
  have I: "run_inv s" "work_inv s" "mirrored s" "shaped (run_usage s)" "all_within s"
    "\<And>run b. run_budgets s run = Some b \<Longrightarrow> 0 \<le> b_final_response_reserve_tokens b"
    using assms(2) by (auto simp: budget_inv_def)
  have 1: "run_inv s'" by (rule settle_in_uow_books [OF assms(1) I(1) assms(3)])
  have 2: "mirrored s'" using settle_in_uow_mirrored [OF assms(1) I(3)] by simp
  show ?thesis
    using assms(1)
  proof (cases rule: settle_in_uow_cases)
    case (Replayed actual s1 b)
    note f = work_mutate_run [OF Replayed(3)]
    have "work_inv s'"
      using Replayed(10) work_mutate_books [OF Replayed(3) I(2)] amounts_of_dict_ok [OF Replayed(2)] assms(3) by simp
    with 1 2 I(4-6) f Replayed(10) show ?thesis by (simp add: budget_inv_def all_within_def)
  next
    case (Settling actual s1 b)
    note f = work_mutate_run [OF Settling(3)]
    have w: "work_inv s1"
      using work_mutate_books [OF Settling(3) I(2)] amounts_of_dict_ok [OF Settling(2)] assms(3) by simp
    have b: "run_budgets s run = Some b" using Settling(4) f by simp
    from Settling(9) obtain st where st: "st = b_status b \<or> st = ''exhausted''"
        "st \<noteq> ''exhausted'' \<longrightarrow> list_all (\<lambda>(dim, limit). dget (dict_add actual (b_used b)) dim 0 +
          dget (dict_sub_clamped (map (\<lambda>r. (u_dimension r, u_reserved_amount r))
             (filter (run_row_of run op) (run_usage s1))) (b_reserved b)) dim 0 \<le> limit) (b_limits b)"
      and s': "s' = s1\<lparr>run_usage := update_where (run_row_of run op)
                  (\<lambda>r. settle_usage (dget actual (u_dimension r) 0) src r) (run_usage s1),
               run_budgets := (run_budgets s1)(run \<mapsto> b\<lparr>b_used := dict_add actual (b_used b),
                  b_reserved := dict_sub_clamped (map (\<lambda>r. (u_dimension r, u_reserved_amount r))
                     (filter (run_row_of run op) (run_usage s1))) (b_reserved b), b_status := st\<rparr>)\<rparr>"
      by blast
    have "within_limits b" using I(5) b by (simp add: all_within_def)
    note wl = within_limits_settle [OF this st]
    have "shaped (run_usage s')" using shaped_settle [OF I(4)] f by (simp add: s')
    moreover have "all_within s'" using I(5) wl f by (simp add: all_within_def s')
    moreover have "work_inv s'" using w by (simp add: s')
    moreover have "\<And>run b. run_budgets s' run = Some b \<Longrightarrow> 0 \<le> b_final_response_reserve_tokens b"
      using I(6) b f by (auto simp: s' split: if_splits)
    ultimately show ?thesis using 1 2 by (simp add: budget_inv_def)
  qed
qed

lemma run_held_nonneg: "run_ledger_ok L \<Longrightarrow> 0 \<le> run_held run d L"
  unfolding run_held_def by (rule sum_where_nonneg) (simp add: run_ledger_ok_def)

lemma run_spent_nonneg: "run_ledger_ok L \<Longrightarrow> 0 \<le> run_spent run d L"
  unfolding run_spent_def by (rule sum_where_nonneg) (simp add: run_ledger_ok_def)

lemma release_in_uow_inv:
  assumes "release_in_uow s run op = Inr (m, s')" "budget_inv s"
  shows "budget_inv s'"
proof -
  have I: "run_inv s" "work_inv s" "mirrored s" "shaped (run_usage s)" "all_within s"
    "\<And>run b. run_budgets s run = Some b \<Longrightarrow> 0 \<le> b_final_response_reserve_tokens b"
    using assms(2) by (auto simp: budget_inv_def)
  have 1: "run_inv s'" by (rule release_in_uow_books [OF assms(1) I(1)])
  have 2: "mirrored s'" using release_in_uow_mirrored [OF assms(1) I(3,4)] by simp
  show ?thesis
    using assms(1)
  proof (cases rule: release_in_uow_cases)
    case (Replayed s1 b)
    note f = work_mutate_run [OF Replayed(1)]
    have "work_inv s'" using Replayed(6) work_mutate_books [OF Replayed(1) I(2)] by simp
    with 1 2 I(4-6) f Replayed(6) show ?thesis by (simp add: budget_inv_def all_within_def)
  next
    case (Releasing s1 b)
    note f = work_mutate_run [OF Releasing(1)]
    have b: "run_budgets s run = Some b" using Releasing(2) f by simp
    let ?am = "map (\<lambda>r. (u_dimension r, u_reserved_amount r)) (filter (run_row_of run op) (run_usage s))"
    have d: "dict_ok ?am"
      using filter_op_distinct [OF run_booksD(3) [OF I(1)]] by (simp add: dict_ok_def comp_def)
    have r0: "0 \<le> dget (b_reserved b) dim 0" for dim
      unfolding run_booksD(1) [OF I(1) b] by (rule run_held_nonneg [OF run_booksD(3) [OF I(1)]])
    have a0: "0 \<le> dget ?am dim 0" for dim
      by (rule dget_nonneg) (use run_booksD(3) [OF I(1)] in \<open>simp add: run_ledger_ok_def list_all_iff\<close>)
    have le: "dget (dict_sub_clamped ?am (b_reserved b)) dim 0 \<le> dget (b_reserved b) dim 0" for dim
      using r0 [of dim] a0 [of dim] unfolding dget_dict_sub_clamped [OF d] by simp
    have "within_limits b" using I(5) b by (simp add: all_within_def)
    then have "within_limits (b\<lparr>b_reserved := dict_sub_clamped ?am (b_reserved b)\<rparr>)"
      unfolding within_limits_def using le by (auto intro: order_trans [OF add_left_mono])
    then have "all_within s'" using I(5) f by (simp add: all_within_def Releasing(6))
    moreover have "shaped (run_usage s')" using shaped_release [OF I(4)] f by (simp add: Releasing(6))
    moreover have "work_inv s'"
      using work_mutate_books [OF Releasing(1) I(2)] by (simp add: Releasing(6))
    moreover have "\<And>run b. run_budgets s' run = Some b \<Longrightarrow> 0 \<le> b_final_response_reserve_tokens b"
      using I(6) b f by (auto simp: Releasing(6) split: if_splits)
    ultimately show ?thesis using 1 2 by (simp add: budget_inv_def)
  qed
qed


lemma settle_all_inv:
  assumes "settle_all ops run s = Inr s'" "budget_inv s" "list_all (\<lambda>(_, am). dict_ok am) ops"
  shows "budget_inv s'"
  using assms
proof (induction ops run s arbitrary: s' rule: settle_all.induct)
  case (2 op am rest run s)
  from 2(2) obtain m s1 where s1: "settle_in_uow s run op (jints am) ''estimated'' = Inr (m, s1)"
      "settle_all rest run s1 = Inr s'"
    by (auto simp: res_simps)
  from settle_in_uow_inv [OF s1(1) 2(3)] 2(4) have "budget_inv s1" by simp
  from 2(1) [OF s1(2) this] 2(4) show ?case by simp
qed simp

lemma recover_terminal_inv:
  assumes "recover_terminal_in_uow s run = Inr s'" "budget_inv s"
  shows "budget_inv s'"
proof -
  have *: "shaped (run_usage s)" "run_ledger_ok (run_usage s)"
    using assms(2) by (auto simp: budget_inv_def run_books_def)
  have "list_all (\<lambda>(_, am). dict_ok am) (reserved_operations s run)"
    using filter_op_distinct [OF *(2)]
    by (simp add: reserved_operations_amounts [OF *(1)] list_all_iff op_amounts_def dict_ok_def comp_def)
  with assms settle_all_inv show ?thesis
    by (auto simp: recover_terminal_in_uow_def split: option.splits if_splits)
qed

lemma amounts_of_Inr_jints: "amounts_of raw = Inr d \<Longrightarrow> jints d = raw"
  using amounts_of_ok(4) by simp

lemma settle_eq: "settle s run op raw src = settle_in_uow s run op raw src"
proof (cases "src \<in> set USAGE_SOURCES")
  case True
  then show ?thesis
    using amounts_of_Inr_jints [of raw]
    by (cases "amounts_of raw") (simp_all add: settle_def settle_in_uow_def)
qed (simp add: settle_def settle_in_uow_def)

lemma budget_step_inv: "budget_inv s \<Longrightarrow> call_ok c \<Longrightarrow> budget_inv (budget_step c s)"
proof (cases c)
  case (Recover_Call run)
  assume "budget_inv s"
  with recover_terminal_inv [of s run] Recover_Call show ?thesis by (auto split: sum.splits)
next
  case (Settle_Call run op actual src)
  assume "budget_inv s" "call_ok c"
  with settle_in_uow_inv [of s run op actual src] Settle_Call show ?thesis
    by (cases "settle_in_uow s run op actual src") (auto simp: settle_eq)
next
  case (Release_Call run op)
  assume "budget_inv s"
  with release_in_uow_inv [of s run op] Release_Call show ?thesis
    by (cases "release_in_uow s run op") (auto simp: release_def)
qed (simp add: reserve_inv)

lemma budget_steps_inv: "budget_inv s \<Longrightarrow> list_all call_ok cs \<Longrightarrow> budget_inv (budget_steps cs s)"
  by (induction cs s rule: budget_steps.induct) (simp_all add: budget_step_inv)


section \<open>The properties\<close>

text \<open>A database with one active Work, its coordinator Run, fresh budgets and a Capability
  invocation: the witnesses run the operations on it.\<close>

definition demo_budget :: run_budget_row where
  "demo_budget = \<lparr>b_mode = ''enforce'', b_status = ''active'',
     b_limits = [(''model_calls'', 3), (''model_output_tokens'', 100)], b_used = [], b_reserved = [],
     b_final_response_reserve_tokens = 40\<rparr>"

definition demo_db :: budget_db where
  "demo_db =
    \<lparr>accounts = (\<lambda>x. if x = ''acc'' then Some \<lparr>a_status = ''active'', a_memory_epoch = 0\<rparr> else None),
     conversations = [],
     works = (\<lambda>x. if x = ''w'' then Some \<lparr>w_account_id = ''acc'', w_status = WActive,
        w_active_coordinator_run_id = Some ''r'', w_current_requirement_revision = 1, w_control_epoch = 1\<rparr> else None),
     runs = [\<lparr>r_run_id = ''r'', r_account_id = ''acc'', r_source_kind = Work, r_conversation_id = None,
        r_session_id = None, r_work_id = Some ''w'', r_requirement_revision = Some 1, r_work_control_epoch = Some 1,
        r_status = Running, r_failure_code = None, r_failure_message = None, r_result_json = None,
        r_created_at = 0, r_started_at = Some 1, r_finished_at = None, r_version = 2\<rparr>],
     executions = [\<lparr>e_execution_id = ''e'', e_account_id = ''acc'', e_run_id = ''r'', e_role = Root,
        e_status = Running, e_attempt_no = 1, e_memory_context = None\<rparr>],
     leases = (\<lambda>x. if x = ''e'' then Some \<lparr>l_account_id = ''acc'', l_run_id = ''r'',
        l_owner_segment_id = Some ''s'', l_fencing_token = 1, l_lease_expires_at = Some 100\<rparr> else None),
     waits = [], memory_actions = [], memory_sources = [],
     run_budgets = (\<lambda>x. if x = ''r'' then Some demo_budget else None),
     run_usage = [],
     work_budgets = (\<lambda>x. if x = (''acc'', ''w'') then Some \<lparr>wb_limits = [(''model_calls'', 2), (''model_output_tokens'', 500)],
        wb_used = [], wb_reserved = [], wb_version = 1\<rparr> else None),
     work_usage = [],
     invocation_limits = [\<lparr>ci_child_execution_id = ''e'', ci_run_id = ''r'', ci_max_model_calls = 2, ci_max_tool_calls = 0\<rparr>]\<rparr>"

lemma demo_budget_inv: "budget_inv demo_db"
proof -
  have "run_inv demo_db" "work_inv demo_db" "mirrored demo_db" "shaped (run_usage demo_db)"
    by (auto simp: run_books_def run_ledger_ok_def work_books_def work_ledger_ok_def mirrored_def shaped_def
        run_entries_def work_entries_def demo_db_def demo_budget_def run_held_def run_spent_def work_held_def
        work_spent_def)
  moreover have "all_within demo_db"
    by (auto simp: all_within_def within_limits_def demo_db_def demo_budget_def)
  ultimately show ?thesis
    by (auto simp: budget_inv_def demo_db_def demo_budget_def)
qed


definition demo_calls :: "budget_call list" where
  "demo_calls = [Reserve_Call (Some (''acc'', ''r'', ''e'', 1)) ''r'' ''op1'' [(''model_calls'', JInt 2)] False False 5,
     Settle_Call ''r'' ''op1'' [(''model_calls'', JInt 1)] ''provider'',
     Reserve_Call None ''r'' ''op2'' [(''model_calls'', JInt 1)] False False 6]"

lemma demo_calls_budget:
  "run_budgets (budget_steps demo_calls demo_db) ''r'' =
     Some (demo_budget\<lparr>b_used := [(''model_calls'', 1)], b_reserved := [(''model_calls'', 1)]\<rparr>)"
  by code_simp

lemma demo_calls_ok: "list_all call_ok demo_calls"
  by (simp add: demo_calls_def dict_ok_def)

text \<open>C12. The \<open>reserved\<close> and \<open>used\<close> columns of a Run budget are, after any sequence of reserve,
  settle, release and recovery calls, exactly what the Run's ledger rows still hold and have used,
  in every dimension.\<close>

theorem run_columns_are_ledger_sums:
  assumes "budget_inv s" and "list_all call_ok calls"
    and "run_budgets (budget_steps calls s) run = Some b"
  shows "dget (b_reserved b) d 0 = run_held run d (run_usage (budget_steps calls s)) \<and>
         dget (b_used b) d 0 = run_spent run d (run_usage (budget_steps calls s))"
proof -
  have "run_inv (budget_steps calls s)"
    using budget_steps_inv [OF assms(1,2)] by (simp add: budget_inv_def)
  from run_booksD(1) [OF this assms(3)] run_booksD(2) [OF this assms(3)] show ?thesis by simp
qed

theorem run_columns_are_ledger_sums_witness:
  "run_held ''r'' ''model_calls'' (run_usage (budget_steps demo_calls demo_db)) = 1 \<and>
   run_spent ''r'' ''model_calls'' (run_usage (budget_steps demo_calls demo_db)) = 1"
  using run_columns_are_ledger_sums [OF demo_budget_inv demo_calls_ok demo_calls_budget, of "''model_calls''"]
  by (simp add: dget_def)

text \<open>C13. After any sequence of calls, a Run budget that is not marked exhausted has, in every limited
  dimension, used and reserved amounts that together stay within the limit.\<close>

theorem unexhausted_budget_within_limits:
  assumes "budget_inv s" and "list_all call_ok calls"
    and "run_budgets (budget_steps calls s) run = Some b" and "b_status b \<noteq> ''exhausted''"
    and "map_of (b_limits b) d = Some l"
  shows "run_spent run d (run_usage (budget_steps calls s)) + run_held run d (run_usage (budget_steps calls s)) \<le> max 0 l"
proof -
  have inv: "run_inv (budget_steps calls s)" "all_within (budget_steps calls s)"
    using budget_steps_inv [OF assms(1,2)] by (simp_all add: budget_inv_def)
  have "dget (b_used b) d 0 + dget (b_reserved b) d 0 \<le> max 0 l"
    using inv(2) assms(3-5) by (auto simp: all_within_def within_limits_def)
  then show ?thesis
    using run_booksD(1) [OF inv(1) assms(3)] run_booksD(2) [OF inv(1) assms(3)] by simp
qed

theorem unexhausted_budget_within_limits_witness:
  "run_spent ''r'' ''model_calls'' (run_usage (budget_steps demo_calls demo_db)) +
   run_held ''r'' ''model_calls'' (run_usage (budget_steps demo_calls demo_db)) \<le> 3"
  using unexhausted_budget_within_limits [OF demo_budget_inv demo_calls_ok demo_calls_budget, of "''model_calls''" 3]
  by (simp add: demo_budget_def)

text \<open>C14. A newly granted reservation in enforce mode (or with limits enforced by the caller) leaves
  every requested dimension within its limit minus the tokens kept for the final response, counting
  all that the Run's ledger has used or still holds.\<close>

theorem enforced_reservation_within_limit:
  assumes "budget_inv s" and "dict_ok am"
    and "reserve s fnc run op am fr el now = (Inr m, s')" and "\<not> bm_replayed m"
    and "run_budgets s run = Some b" and "b_mode b = ''enforce'' \<or> el" and "(d, n) \<in> set (bm_values m)"
  shows "\<exists>l. map_of (b_limits b) d = Some l \<and>
    run_spent run d (run_usage s') + run_held run d (run_usage s') \<le> max 0 (l - protected_amount b fr d)"
proof -
  have body: "reserve_body s fnc run op am fr el now = Inr (m, s')"
    using assms(3) by (auto simp: reserve_def reserve_in_uow_def split: sum.splits if_splits)
  from body show ?thesis
  proof (cases rule: reserve_body_cases)
    case (Replayed s1 s2 req b')
    with assms(4) show ?thesis by simp
  next
    case (Fresh s1 s2 req b')
    note f = reserve_fenced_run [OF Fresh(1)] work_mutate_run [OF Fresh(4)]
    have b': "b' = b" using Fresh(5) f assms(5) by simp
    have ok: "dict_ok req" using amounts_of_dict_ok [OF Fresh(2)] assms(2) by simp
    from Fresh(7) show ?thesis
    proof (cases rule: reserve_rows_cases)
      case (1 exceeded)
      have n: "(d, n) \<in> set req" using assms(7) 1(3) by simp
      have "exceeded = []" using 1(2) assms(6) b' by auto
      with 1(1) b' obtain l where l: "map_of (b_limits b) d = Some l"
          "dget (b_used b) d 0 + dget (b_reserved b) d 0 + n \<le> max 0 (l - protected_amount b fr d)"
        using exceeded_dims_Nil [of b fr req, OF _ n] by auto
      have "run_inv s'" by (rule reserve_body_books [OF body _ assms(2)]) (use assms(1) in \<open>simp add: budget_inv_def\<close>)
      moreover have "run_budgets s' run = Some (b\<lparr>b_reserved := dict_add req (b_reserved b), b_status :=
          (if exceeded \<noteq> [] then ''exhausted'' else b_status b)\<rparr>)" using 1(5) b' by simp
      ultimately have "run_held run d (run_usage s') = dget (b_reserved b) d 0 + n"
          "run_spent run d (run_usage s') = dget (b_used b) d 0"
        using run_booksD(1) [of "run_budgets s'" "run_usage s'" run _ d] run_booksD(2) [of "run_budgets s'" "run_usage s'" run _ d]
          dget_dict_add [OF ok, of "b_reserved b" d] dget_mem [OF ok n, of 0] by fastforce+
      with l show ?thesis by (auto simp: algebra_simps)
    qed
  qed
qed

definition demo_reserved :: budget_db where
  "demo_reserved = snd (reserve demo_db None ''r'' ''op1'' [(''model_calls'', JInt 2)] False False 5)"

definition demo_mutation :: budget_mutation where
  "demo_mutation = \<lparr>bm_run_id = ''r'', bm_operation_id = ''op1'', bm_values = [(''model_calls'', 2)],
     bm_state = Reserved, bm_replayed = False\<rparr>"

lemma demo_reserve: "reserve demo_db None ''r'' ''op1'' [(''model_calls'', JInt 2)] False False 5 = (Inr demo_mutation, demo_reserved)"
proof (rule prod_eqI)
  show "fst (reserve demo_db None ''r'' ''op1'' [(''model_calls'', JInt 2)] False False 5) = fst (Inr demo_mutation :: budget_mutation res, demo_reserved)"
    by code_simp
qed (simp add: demo_reserved_def)

theorem enforced_reservation_within_limit_witness:
  "run_spent ''r'' ''model_calls'' (run_usage demo_reserved) + run_held ''r'' ''model_calls'' (run_usage demo_reserved) \<le> 3"
  using enforced_reservation_within_limit [OF demo_budget_inv _ demo_reserve, of demo_budget "''model_calls''" 2]
  by (simp add: demo_mutation_def demo_budget_def demo_db_def dict_ok_def protected_amount_def)


section \<open>Replays\<close>

lemma work_mutate_budget:
  assumes "work_mutate s run op am act src = Inr s1" "run_work s run = Some k"
  shows "work_budgets s1 k \<noteq> None"
  using assms(1)
proof (cases rule: work_mutate_cases)
  case NoWork
  with assms(2) show ?thesis by (auto simp: run_work_def split: option.splits)
next
  case (Replay r w b vals)
  with find_run_work [OF Replay(1,2)] assms(2) show ?thesis by auto
next
  case (Hold r w b vals)
  with find_run_work [OF Hold(1,2)] assms(2) show ?thesis by (auto simp: work_hold_rows)
next
  case (Close r w b vals)
  with find_run_work [OF Close(1,2)] assms(2) show ?thesis by (auto simp: work_close_rows)
qed

lemma dict_eq_Some:
  "dict_eq (map (\<lambda>e. (f e, g e)) xs) d \<Longrightarrow>
   dict_eq (map (\<lambda>e. (f e, Some (g e))) xs) (map (\<lambda>(k, v). (k, Some v)) d)"
proof -
  assume "dict_eq (map (\<lambda>e. (f e, g e)) xs) d"
  then have "(\<lambda>(k, v). (k, Some v)) ` set (map (\<lambda>e. (f e, g e)) xs) = (\<lambda>(k, v). (k, Some v)) ` set d"
    by (simp only: dict_eq_def)
  then show ?thesis by (simp add: dict_eq_def image_image)
qed

lemma mirrored_amounts:
  assumes "mirrored s" "run_work s run = Some (acc, w)"
  shows "map (\<lambda>r. (u_dimension r, u_reserved_amount r)) (filter (run_row_of run op) (run_usage s))
       = map (\<lambda>r. (wu_dimension r, wu_reserved_amount r)) (filter (work_row_of acc w run op) (work_usage s))"
proof -
  have "map (\<lambda>e. (fst e, fst (snd (snd e)))) (run_entries run op (run_usage s))
      = map (\<lambda>e. (fst e, fst (snd (snd e)))) (work_entries acc w run op (work_usage s))"
    using mirroredD [OF assms] by simp
  then show ?thesis by (simp add: run_entries_def work_entries_def comp_def)
qed

lemma work_mutate_replays:
  assumes d: "amounts_of (jints d) = Inr d" and m: "mirrored s"
    and bud: "\<And>k. run_work s run = Some k \<Longrightarrow> work_budgets s k \<noteq> None"
    and rows: "filter (run_row_of run op) (run_usage s) \<noteq> []"
      "dict_eq (map (\<lambda>r. (u_dimension r, u_reserved_amount r)) (filter (run_row_of run op) (run_usage s))) d"
  shows "work_mutate s run op (Some (jints d)) Act_Reserve src = Inr s"
proof (cases "find (\<lambda>r. r_run_id r = run) (runs s)")
  case None
  then show ?thesis by (simp add: work_mutate_def)
next
  case (Some r)
  note r = this
  show ?thesis
  proof (cases "r_work_id r")
    case None
    with r show ?thesis by (simp add: work_mutate_def)
  next
    case (Some w)
    note rw = find_run_work [OF r this]
    obtain b where b: "work_budgets s (r_account_id r, w) = Some b"
      using bud [OF rw] by auto
    let ?rows = "filter (work_row_of (r_account_id r) w run op) (work_usage s)"
    have ne: "?rows \<noteq> []" using mirrored_empty [OF m rw, of op] rows(1) by simp
    have "dict_eq (map (\<lambda>r. (wu_dimension r, wu_reserved_amount r)) ?rows) d"
      using rows(2) mirrored_amounts [OF m rw, of op] by simp
    then have "work_replay ?rows d Act_Reserve src = Inr True"
      using ne dict_eq_Some by (simp add: work_replay_def Let_def)
    then show ?thesis
      using r Some b d by (simp add: work_mutate_def work_values_def)
  qed
qed

lemma reserve_body_replays:
  assumes "amounts_of am = Inr req" "op \<noteq> [] \<and> length op \<le> 200" "mirrored s"
    and "reserve_fenced s fnc run now = Inr s"
    and "\<And>k. run_work s run = Some k \<Longrightarrow> work_budgets s k \<noteq> None" "run_budgets s run \<noteq> None"
    and rows: "filter (run_row_of run op) (run_usage s) \<noteq> []"
      "dict_eq (map (\<lambda>r. (u_dimension r, u_reserved_amount r)) (filter (run_row_of run op) (run_usage s))) req"
  shows "reserve s fnc run op am fr el now = (Inr \<lparr>bm_run_id = run, bm_operation_id = op, bm_values = req,
     bm_state = u_state (hd (filter (run_row_of run op) (run_usage s))), bm_replayed = True\<rparr>, s)"
proof -
  obtain b where b: "run_budgets s run = Some b" using assms(6) by auto
  note w = work_mutate_replays [OF amounts_of_jints [OF assms(1)] assms(3,5) rows, of None]
  have "reserve_body s fnc run op am fr el now = Inr (\<lparr>bm_run_id = run, bm_operation_id = op, bm_values = req,
     bm_state = u_state (hd (filter (run_row_of run op) (run_usage s))), bm_replayed = True\<rparr>, s)"
    using assms(1,2,4) b rows w by (simp add: reserve_body_def)
  then show ?thesis by (simp add: reserve_def reserve_in_uow_def)
qed

lemma reserved_facts:
  assumes "reserve s fnc run op am fr el now = (Inr m, s')" "budget_inv s"
  obtains req where "amounts_of am = Inr req" "op \<noteq> [] \<and> length op \<le> 200" "mirrored s'"
    "\<And>k. run_work s' run = Some k \<Longrightarrow> work_budgets s' k \<noteq> None" "run_budgets s' run \<noteq> None"
    "filter (run_row_of run op) (run_usage s') \<noteq> []"
    "dict_eq (map (\<lambda>r. (u_dimension r, u_reserved_amount r)) (filter (run_row_of run op) (run_usage s'))) req"
    "bm_run_id m = run" "bm_operation_id m = op" "bm_values m = req"
    "bm_state m = u_state (hd (filter (run_row_of run op) (run_usage s')))"
proof -
  have body: "reserve_body s fnc run op am fr el now = Inr (m, s')"
    using assms(1) by (auto simp: reserve_def reserve_in_uow_def split: sum.splits if_splits)
  have m: "mirrored s'" "runs s' = runs s"
    using reserve_body_mirrored [OF body] assms(2) by (simp_all add: budget_inv_def)
  from body show ?thesis
  proof (cases rule: reserve_body_cases)
    case (Replayed s1 s2 req b)
    note f = reserve_fenced_run [OF Replayed(1)] work_mutate_run [OF Replayed(4)]
    have "run_work s2 = run_work s1" by (rule run_work_runs) (simp add: f)
    with work_mutate_budget [OF Replayed(4)] m Replayed
    show ?thesis by (intro that [OF Replayed(2,3)]) simp_all
  next
    case (Fresh s1 s2 req b)
    note f = reserve_fenced_run [OF Fresh(1)] work_mutate_run [OF Fresh(4)]
    have rw: "run_work s' = run_work s1" by (rule run_work_runs) (simp add: f m(2))
    from Fresh(7) show ?thesis
    proof (cases rule: reserve_rows_cases)
      case (1 exceeded)
      have rows: "filter (run_row_of run op) (run_usage s') = new_usage_rows fnc run op req"
        using Fresh(6) by (simp add: 1(5)) (simp add: new_usage_rows_def run_row_of_def case_prod_unfold)
      have ne: "req \<noteq> []" by (rule amounts_of_ok(3) [OF Fresh(2)])
      have am: "map (\<lambda>r. (u_dimension r, u_reserved_amount r)) (new_usage_rows fnc run op req) = req"
        by (simp add: new_usage_rows_def comp_def case_prod_unfold)
      have "u_state (hd (new_usage_rows fnc run op req)) = Reserved"
        using ne by (cases req) (auto simp: new_usage_rows_def)
      with work_mutate_budget [OF Fresh(4)] m rows ne am rw show ?thesis
        by (intro that [OF Fresh(2,3)]) (simp_all add: 1(3,5) new_usage_rows_def)
    qed
  qed
qed

text \<open>Reserving is idempotent: after a granted reservation, reserving the same amounts for the same
  operation again (whatever the limits say now, under a fence that still holds) answers the recorded
  reservation, marked as replayed, and changes nothing.\<close>

theorem reserve_idempotent:
  assumes "budget_inv s" and "reserve s fnc run op am fr el now = (Inr m, s')"
    and "reserve_fenced s' fnc' run now' = Inr s'"
  shows "reserve s' fnc' run op am fr' el' now' = (Inr (m\<lparr>bm_replayed := True\<rparr>), s')"
proof (rule reserved_facts [OF assms(2,1)])
  fix req
  assume a: "amounts_of am = Inr req" "op \<noteq> [] \<and> length op \<le> 200" "mirrored s'"
    "\<And>k. run_work s' run = Some k \<Longrightarrow> work_budgets s' k \<noteq> None" "run_budgets s' run \<noteq> None"
    "filter (run_row_of run op) (run_usage s') \<noteq> []"
    "dict_eq (map (\<lambda>r. (u_dimension r, u_reserved_amount r)) (filter (run_row_of run op) (run_usage s'))) req"
    "bm_run_id m = run" "bm_operation_id m = op" "bm_values m = req"
    "bm_state m = u_state (hd (filter (run_row_of run op) (run_usage s')))"
  from reserve_body_replays [OF a(1-3) assms(3) a(4-7)] a(8-11) show ?thesis
    by (cases m) simp
qed

theorem reserve_idempotent_witness:
  "reserve demo_reserved None ''r'' ''op1'' [(''model_calls'', JInt 2)] False True 7
     = (Inr (demo_mutation\<lparr>bm_replayed := True\<rparr>), demo_reserved)"
  by (rule reserve_idempotent [OF demo_budget_inv demo_reserve]) (simp add: reserve_fenced_def)

lemma settled_facts:
  assumes "settle s run op raw src = Inr (m, s')" "budget_inv s" "dict_ok raw"
  obtains actual where "amounts_of raw = Inr actual" "src \<in> set USAGE_SOURCES" "mirrored s'"
    "\<And>k. run_work s' run = Some k \<Longrightarrow> work_budgets s' k \<noteq> None" "run_budgets s' run \<noteq> None"
    "filter (run_row_of run op) (run_usage s') \<noteq> []"
    "list_all (\<lambda>r. u_state r = Settled \<and> u_usage_source r = Some src) (filter (run_row_of run op) (run_usage s'))"
    "dict_eq (map (\<lambda>r. (u_dimension r, u_actual_amount r)) (filter (run_row_of run op) (run_usage s')))
       (map (\<lambda>(k, v). (k, Some v)) actual)"
proof -
  have st: "settle_in_uow s run op raw src = Inr (m, s')" using assms(1) by (simp add: settle_eq)
  have m: "mirrored s'" "runs s' = runs s"
    using settle_in_uow_mirrored [OF st] assms(2) by (simp_all add: budget_inv_def)
  have rw: "run_work s' = run_work s" by (rule run_work_runs) (rule m(2))
  from st show ?thesis
  proof (cases rule: settle_in_uow_cases)
    case (Replayed actual s1 b)
    with work_mutate_budget [OF Replayed(3)] m rw show ?thesis
      by (intro that [OF Replayed(2,1)]) (simp_all add: list_all_iff)
  next
    case (Settling actual s1 b)
    note f = work_mutate_run [OF Settling(3)]
    let ?L = "run_usage s"
    have L: "run_usage s' = update_where (run_row_of run op) (\<lambda>r. settle_usage (dget actual (u_dimension r) 0) src r) ?L"
      and w: "work_budgets s' = work_budgets s1" "run_budgets s' run \<noteq> None"
      using Settling(9) f by auto
    have rows: "filter (run_row_of run op) (run_usage s')
        = map (\<lambda>r. settle_usage (dget actual (u_dimension r) 0) src r) (filter (run_row_of run op) ?L)"
      unfolding L by (rule filter_update_where_same) (simp add: run_row_of_def settle_usage_def)
    have ok: "dict_ok actual" using amounts_of_dict_ok [OF Settling(2)] assms(3) by simp
    have "dict_eq (map (\<lambda>r. (u_dimension r, u_actual_amount r)) (filter (run_row_of run op) (run_usage s')))
       (map (\<lambda>(k, v). (k, Some v)) actual)"
    proof -
      have "(\<lambda>d. (d, Some (dget actual d 0))) ` (fst ` set actual) = (\<lambda>(k, v). (k, Some v)) ` set actual"
        unfolding image_image by (rule image_cong) (auto simp: dget_mem [OF ok])
      moreover have "set (map (\<lambda>r. (u_dimension r, u_actual_amount r)) (filter (run_row_of run op) (run_usage s')))
          = (\<lambda>d. (d, Some (dget actual d 0))) ` (u_dimension ` set (filter (run_row_of run op) ?L))"
        unfolding rows by (simp add: image_image settle_usage_def)
      ultimately show ?thesis
        using Settling(7) f unfolding dict_eq_def by simp
    qed
    then show ?thesis
      using work_mutate_budget [OF Settling(3)] m rw w Settling(5) f rows
      by (intro that [OF Settling(2,1)]) (simp_all add: list_all_iff settle_usage_def)
  qed
qed


lemma mirrored_actuals:
  assumes "mirrored s" "run_work s run = Some (acc, w)"
  shows "map (\<lambda>r. (u_dimension r, u_actual_amount r)) (filter (run_row_of run op) (run_usage s))
       = map (\<lambda>r. (wu_dimension r, wu_actual_amount r)) (filter (work_row_of acc w run op) (work_usage s))"
    and "map u_usage_source (filter (run_row_of run op) (run_usage s))
       = map wu_usage_source (filter (work_row_of acc w run op) (work_usage s))"
proof -
  have "map (\<lambda>e. (fst e, fst (snd (snd (snd e))))) (run_entries run op (run_usage s))
      = map (\<lambda>e. (fst e, fst (snd (snd (snd e))))) (work_entries acc w run op (work_usage s))"
    "map (\<lambda>e. snd (snd (snd (snd e)))) (run_entries run op (run_usage s))
      = map (\<lambda>e. snd (snd (snd (snd e)))) (work_entries acc w run op (work_usage s))"
    using mirroredD [OF assms] by simp_all
  then show "map (\<lambda>r. (u_dimension r, u_actual_amount r)) (filter (run_row_of run op) (run_usage s))
       = map (\<lambda>r. (wu_dimension r, wu_actual_amount r)) (filter (work_row_of acc w run op) (work_usage s))"
    "map u_usage_source (filter (run_row_of run op) (run_usage s))
       = map wu_usage_source (filter (work_row_of acc w run op) (work_usage s))"
    by (simp_all add: run_entries_def work_entries_def comp_def)
qed



lemma work_mutate_settle_replays:
  assumes d: "amounts_of (jints d) = Inr d" and m: "mirrored s"
    and bud: "\<And>k. run_work s run = Some k \<Longrightarrow> work_budgets s k \<noteq> None"
    and ne: "filter (run_row_of run op) (run_usage s) \<noteq> []"
    and rows: "list_all (\<lambda>r. u_state r = Settled \<and> u_usage_source r = Some src) (filter (run_row_of run op) (run_usage s))"
      "dict_eq (map (\<lambda>r. (u_dimension r, u_actual_amount r)) (filter (run_row_of run op) (run_usage s)))
         (map (\<lambda>(k, v). (k, Some v)) d)"
  shows "work_mutate s run op (Some (jints d)) Act_Settle (Some src) = Inr s"
proof (cases "find (\<lambda>r. r_run_id r = run) (runs s)")
  case None
  then show ?thesis by (simp add: work_mutate_def)
next
  case (Some r)
  note r = this
  show ?thesis
  proof (cases "r_work_id r")
    case None
    with r show ?thesis by (simp add: work_mutate_def)
  next
    case (Some w)
    note rw = find_run_work [OF r this]
    obtain b where b: "work_budgets s (r_account_id r, w) = Some b"
      using bud [OF rw] by auto
    let ?rows = "filter (work_row_of (r_account_id r) w run op) (work_usage s)"
    have 1: "?rows \<noteq> []" using mirrored_empty [OF m rw, of op] ne by simp
    have 2: "list_all (\<lambda>r. wu_state r = Settled) ?rows"
      using mirrored_states [OF m rw, of Settled op] rows(1) by (simp add: list_all_iff)
    have "list_all (\<lambda>x. x = Some src) (map u_usage_source (filter (run_row_of run op) (run_usage s)))"
      using rows(1) by (simp add: list_all_iff)
    then have 3: "\<not> list_ex (\<lambda>r. wu_usage_source r \<noteq> Some src) ?rows"
      unfolding mirrored_actuals(2) [OF m rw] by (simp add: list_all_iff list_ex_iff)
    have 4: "dict_eq (map (\<lambda>r. (wu_dimension r, wu_actual_amount r)) ?rows) (map (\<lambda>(k, v). (k, Some v)) d)"
      using rows(2) unfolding mirrored_actuals(1) [OF m rw] .
    have "work_replay ?rows d Act_Settle (Some src) = Inr True"
      using 1 2 3 4 by (simp add: work_replay_def Let_def)
    then show ?thesis
      using r Some b d by (simp add: work_mutate_def work_values_def)
  qed
qed

lemma settle_again:
  assumes "settle s' run op raw2 src2 = Inr (m2, s2)" "mirrored s'"
    and ne: "filter (run_row_of run op) (run_usage s') \<noteq> []"
    and rows: "list_all (\<lambda>r. u_state r = Settled \<and> u_usage_source r = Some src) (filter (run_row_of run op) (run_usage s'))"
      "dict_eq (map (\<lambda>r. (u_dimension r, u_actual_amount r)) (filter (run_row_of run op) (run_usage s')))
         (map (\<lambda>(k, v). (k, Some v)) actual)"
  shows "s2 = s' \<and> src2 = src \<and> (\<exists>actual2. amounts_of raw2 = Inr actual2 \<and> dict_eq actual2 actual)"
proof -
  have st: "settle_in_uow s' run op raw2 src2 = Inr (m2, s2)" using assms(1) by (simp add: settle_eq)
  from st show ?thesis
  proof (cases rule: settle_in_uow_cases)
    case (Settling actual2 s1 b)
    with work_mutate_run [OF Settling(3)] rows(1) ne show ?thesis
      by (auto simp: all_reserved_def list_all_iff filter_empty_conv)
  next
    case (Replayed actual2 s1 b)
    note f = work_mutate_run [OF Replayed(3)]
    have "s1 = s'"
      using Replayed(3)
    proof (cases rule: work_mutate_entries)
      case (Closed acc w vs)
      have "list_all (\<lambda>r. u_state r = Reserved) (filter (run_row_of run op) (run_usage s'))"
        using mirrored_states [OF assms(2) Closed(1), of Reserved op] Closed(5) by simp
      with rows(1) ne show ?thesis by (auto simp: list_all_iff filter_empty_conv)
    qed simp_all
    moreover have "src2 = src"
      using Replayed(8) rows(1) ne f by (cases "filter (run_row_of run op) (run_usage s')") auto
    moreover have "dict_eq actual2 actual"
    proof -
      have "(\<lambda>(k, v). (k, Some v)) ` set actual2 = (\<lambda>(k, v). (k, Some v)) ` set actual"
        using Replayed(7) rows(2) f by (simp add: dict_eq_def)
      then have "set actual2 = set actual"
        by (rule inj_image_eq_iff [THEN iffD1, rotated]) (auto simp: inj_def)
      then show ?thesis by (simp add: dict_eq_def)
    qed
    ultimately show ?thesis using Replayed(2,10) by simp
  qed
qed

lemma release_settled:
  assumes "mirrored s" "\<And>k. run_work s run = Some k \<Longrightarrow> work_budgets s k \<noteq> None" "run_budgets s run \<noteq> None"
    and ne: "filter (run_row_of run op) (run_usage s) \<noteq> []"
    and rows: "list_all (\<lambda>r. u_state r = Settled) (filter (run_row_of run op) (run_usage s))"
  shows "\<exists>msg. release s run op = Inl (RunBudgetConflict msg)"
proof (cases "run_work s run")
  case None
  then have "work_mutate s run op None Act_Release None = Inr s"
    by (auto simp: work_mutate_def run_work_def split: option.splits)
  moreover have "\<not> list_all (\<lambda>r. u_state r = Released) (filter (run_row_of run op) (run_usage s))"
    "list_ex (\<lambda>r. u_state r \<noteq> Reserved) (filter (run_row_of run op) (run_usage s))"
    using rows ne by (cases "filter (run_row_of run op) (run_usage s)"; simp)+
  ultimately show ?thesis
    using assms(3) ne by (auto simp: release_def release_in_uow_def)
next
  case (Some k)
  obtain acc w where k: "run_work s run = Some (acc, w)" using Some by (cases k) auto
  then obtain r where r: "find (\<lambda>r. r_run_id r = run) (runs s) = Some r" "r_work_id r = Some w" "r_account_id r = acc"
    by (auto simp: run_work_def split: option.splits)
  obtain b where b: "work_budgets s (acc, w) = Some b" using assms(2) [OF k] by auto
  let ?rows = "filter (work_row_of acc w run op) (work_usage s)"
  have 1: "?rows \<noteq> []" using mirrored_empty [OF assms(1) k, of op] ne by simp
  have 2: "list_all (\<lambda>r. wu_state r = Settled) ?rows"
    using mirrored_states [OF assms(1) k, of Settled op] rows by simp
  have "\<not> list_all (\<lambda>r. wu_state r = Released) ?rows" "list_ex (\<lambda>r. wu_state r \<noteq> Reserved) ?rows"
    using 1 2 by (cases ?rows; simp)+
  then have "work_mutate s run op None Act_Release None
      = Inl (RunBudgetConflict ''Work settlement does not match reservation'')"
    using 1 r b by (simp add: work_mutate_def work_values_def work_replay_def Let_def)
  then show ?thesis by (simp add: release_def release_in_uow_def)
qed


text \<open>C15. A settled operation is final: settling it again with the same amounts and source answers a
  replay; any settlement of it that succeeds changes nothing and had the same amounts and source; and
  releasing it is a conflict.\<close>

theorem settled_operation_is_final:
  assumes "budget_inv s" and "dict_ok raw" and "settle s run op raw src = Inr (m, s')"
  shows "(\<exists>mu. settle s' run op raw src = Inr (mu, s') \<and> bm_replayed mu) \<and>
    (\<forall>raw2 src2 m2 s2. settle s' run op raw2 src2 = Inr (m2, s2) \<longrightarrow>
       s2 = s' \<and> src2 = src \<and> dict_eq raw2 raw) \<and>
    (\<exists>msg. release s' run op = Inl (RunBudgetConflict msg))"
proof (rule settled_facts [OF assms(3,1,2)])
  fix actual
  assume a: "amounts_of raw = Inr actual" "src \<in> set USAGE_SOURCES" "mirrored s'"
    "\<And>k. run_work s' run = Some k \<Longrightarrow> work_budgets s' k \<noteq> None" "run_budgets s' run \<noteq> None"
    "filter (run_row_of run op) (run_usage s') \<noteq> []"
    "list_all (\<lambda>r. u_state r = Settled \<and> u_usage_source r = Some src) (filter (run_row_of run op) (run_usage s'))"
    "dict_eq (map (\<lambda>r. (u_dimension r, u_actual_amount r)) (filter (run_row_of run op) (run_usage s')))
       (map (\<lambda>(k, v). (k, Some v)) actual)"
  obtain b where b: "run_budgets s' run = Some b" using a(5) by auto
  have w: "work_mutate s' run op (Some (jints actual)) Act_Settle (Some src) = Inr s'"
    by (rule work_mutate_settle_replays [OF amounts_of_jints [OF a(1)] a(3,4,6-8)])
  have all: "list_all (\<lambda>r. u_state r = Settled) (filter (run_row_of run op) (run_usage s'))"
    and src: "\<not> list_ex (\<lambda>r. u_usage_source r \<noteq> Some src) (filter (run_row_of run op) (run_usage s'))"
    using a(7) by (auto simp: list_all_iff list_ex_iff)
  have dims: "set (map fst (map (\<lambda>r. (u_dimension r, u_reserved_amount r)) (filter (run_row_of run op) (run_usage s'))))
      = set (map fst actual)"
  proof -
    have "fst ` set (map (\<lambda>r. (u_dimension r, u_actual_amount r)) (filter (run_row_of run op) (run_usage s')))
        = fst ` set (map (\<lambda>(k, v). (k, Some v)) actual)"
      using a(8) by (simp only: dict_eq_def)
    then show ?thesis by (simp add: image_image case_prod_unfold)
  qed
  have 1: "\<exists>mu. settle s' run op raw src = Inr (mu, s') \<and> bm_replayed mu"
    unfolding settle_eq settle_in_uow_def
    by (simp only: a(1,2,6,8) w b all src dims ensure_simps ebind.simps need_simps Let_def simp_thms if_True if_False) simp
  have 2: "s2 = s' \<and> src2 = src \<and> dict_eq raw2 raw"
    if again: "settle s' run op raw2 src2 = Inr (m2, s2)" for raw2 src2 m2 s2
  proof -
    from settle_again [OF again a(3,6,7,8)] obtain actual2 where
      *: "s2 = s'" "src2 = src" "amounts_of raw2 = Inr actual2" "dict_eq actual2 actual" by blast
    have "dict_eq (jints actual2) (jints actual)"
      using *(4) by (simp add: dict_eq_def jints_def)
    with * a(1) show ?thesis by (simp add: amounts_of_Inr_jints)
  qed
  have 3: "\<exists>msg. release s' run op = Inl (RunBudgetConflict msg)"
    by (rule release_settled [OF a(3-6) all])
  from 1 2 3 show ?thesis by blast
qed

definition demo_settled :: budget_db where
  "demo_settled = committed (settle demo_reserved ''r'' ''op1'' [(''model_calls'', JInt 1)] ''provider'') demo_reserved"

lemma demo_settle: "settle demo_reserved ''r'' ''op1'' [(''model_calls'', JInt 1)] ''provider''
    = Inr (\<lparr>bm_run_id = ''r'', bm_operation_id = ''op1'', bm_values = [(''model_calls'', 1)], bm_state = Settled,
         bm_replayed = False\<rparr>, demo_settled)"
proof (cases "settle demo_reserved ''r'' ''op1'' [(''model_calls'', JInt 1)] ''provider''")
  case (Inl e)
  have "\<not> isl (settle demo_reserved ''r'' ''op1'' [(''model_calls'', JInt 1)] ''provider'')"
    unfolding demo_reserved_def by code_simp
  with Inl show ?thesis by simp
next
  case (Inr x)
  have "fst (projr (settle demo_reserved ''r'' ''op1'' [(''model_calls'', JInt 1)] ''provider''))
    = \<lparr>bm_run_id = ''r'', bm_operation_id = ''op1'', bm_values = [(''model_calls'', 1)], bm_state = Settled,
         bm_replayed = False\<rparr>"
    unfolding demo_reserved_def by code_simp
  with Inr show ?thesis by (cases x) (simp add: demo_settled_def)
qed

lemma demo_reserved_inv: "budget_inv demo_reserved"
  unfolding demo_reserved_def by (rule reserve_inv [OF demo_budget_inv]) (simp add: dict_ok_def)

theorem settled_operation_is_final_witness:
  "\<exists>msg. release demo_settled ''r'' ''op1'' = Inl (RunBudgetConflict msg)"
  using settled_operation_is_final [OF demo_reserved_inv _ demo_settle] by (simp add: dict_ok_def)

text \<open>C16. Recovery of a terminal Run whose budgets exist never fails: it settles exactly the rows still
  reserved, each at its reserved amount and as an estimate, so nothing stays held and what was held is
  now used; rows of other Runs and closed rows are as before.\<close>

theorem recovery_charges_everything_held:
  assumes "budget_inv s" and "budgeted s run"
    and "find (\<lambda>r. r_run_id r = run) (runs s) = Some row" and "r_status row \<in> {Succeeded, Failed, Cancelled}"
  shows "\<exists>s'. recover_terminal_in_uow s run = Inr s' \<and>
    run_usage s' = update_where (\<lambda>r. u_run_id r = run \<and> u_state r = Reserved) estimate (run_usage s) \<and>
    run_held run d (run_usage s') = 0 \<and>
    run_spent run d (run_usage s') = run_spent run d (run_usage s) + run_held run d (run_usage s)"
proof -
  have I: "run_ledger_ok (run_usage s)" "shaped (run_usage s)" "mirrored s"
    using assms(1) by (auto simp: budget_inv_def run_books_def)
  have "run_held run d (update_where (\<lambda>r. u_run_id r = run \<and> u_state r = Reserved) estimate L) = 0" for L
    by (induction L) (auto simp: run_held_def)
  moreover have "run_spent run d (update_where (\<lambda>r. u_run_id r = run \<and> u_state r = Reserved) estimate L)
      = run_spent run d L + run_held run d L" for L
    by (induction L) (auto simp: run_held_def run_spent_def)
  ultimately show ?thesis using recover_terminal_settles [OF I assms(2-4)] by metis
qed

definition demo_ended :: budget_db where
  "demo_ended = demo_reserved\<lparr>runs := map (\<lambda>r. r\<lparr>r_status := Failed\<rparr>) (runs demo_reserved)\<rparr>"

lemma find_map_f: "find P (map f xs) = map_option f (find (\<lambda>x. P (f x)) xs)"
  by (induction xs) auto

lemma demo_ended_inv: "budget_inv demo_ended"
proof -
  have "run_work demo_ended = run_work demo_reserved"
    by (auto simp: run_work_def demo_ended_def find_map_f fun_eq_iff split: option.splits)
  with demo_reserved_inv show ?thesis
    by (simp add: budget_inv_def mirrored_def all_within_def) (simp add: demo_ended_def)
qed


theorem recovery_charges_everything_held_witness:
  "\<exists>s'. recover_terminal_in_uow demo_ended ''r'' = Inr s' \<and> run_held ''r'' ''model_calls'' (run_usage s') = 0 \<and>
     run_spent ''r'' ''model_calls'' (run_usage s') = 2"
proof -
  have b: "budgeted demo_ended ''r''" 
    unfolding budgeted_def
  proof (intro conjI allI impI)
    show "run_budgets demo_ended ''r'' \<noteq> None"
      unfolding demo_ended_def demo_reserved_def by code_simp
    fix acc w assume "run_work demo_ended ''r'' = Some (acc, w)"
    moreover have "run_work demo_ended ''r'' = Some (''acc'', ''w'')"
      unfolding demo_ended_def demo_reserved_def by code_simp
    moreover have "work_budgets demo_ended (''acc'', ''w'') \<noteq> None"
      unfolding demo_ended_def demo_reserved_def by code_simp
    ultimately show "work_budgets demo_ended (acc, w) \<noteq> None" by simp
  qed
  have r: "map_option r_status (find (\<lambda>r. r_run_id r = ''r'') (runs demo_ended)) = Some Failed"
    unfolding demo_ended_def demo_reserved_def by code_simp
  then obtain row where row: "find (\<lambda>r. r_run_id r = ''r'') (runs demo_ended) = Some row" "r_status row = Failed"
    by auto
  have "run_spent ''r'' ''model_calls'' (run_usage demo_ended) = 0" "run_held ''r'' ''model_calls'' (run_usage demo_ended) = 2"
    unfolding demo_ended_def demo_reserved_def by code_simp+
  with recovery_charges_everything_held [OF demo_ended_inv b row(1), of "''model_calls''"] row(2)
  show ?thesis by auto
qed

text \<open>C17. A reservation newly granted to the Run of a Work was made by the Work's current coordinator,
  queued or running, for the current requirement revision and control epoch of an active Work of an
  active account; and in every requested dimension the whole Work has used and holds at most its
  cumulative limit, whatever Runs the amounts belong to.\<close>

theorem work_reservation_within_cumulative_limit:
  assumes "budget_inv s" and "dict_ok am" and "reserve s fnc run op am fr el now = (Inr m, s')"
    and "\<not> bm_replayed m" and "run_work s run = Some (acc, w)"
  shows "\<exists>row. find (\<lambda>r. r_run_id r = run) (runs s) = Some row \<and> work_permits s row w \<and>
    (\<exists>b. work_budgets s (acc, w) = Some b \<and>
      (\<forall>(d, n) \<in> set (bm_values m). \<exists>l. map_of (wb_limits b) d = Some l \<and>
         work_spent (acc, w) d (work_usage s') + work_held (acc, w) d (work_usage s') \<le> l))"
proof -
  have body: "reserve_body s fnc run op am fr el now = Inr (m, s')"
    using assms(3) by (auto simp: reserve_def reserve_in_uow_def split: sum.splits if_splits)
  have I: "work_inv s" "mirrored s" using assms(1) by (simp_all add: budget_inv_def)
  from body show ?thesis
  proof (cases rule: reserve_body_cases)
    case (Replayed s1 s2 req b)
    with assms(4) show ?thesis by simp
  next
    case (Fresh s1 s2 req b)
    note f = reserve_fenced_run [OF Fresh(1)] work_mutate_run [OF Fresh(4)]
    note g = same_but_executions_run [OF reserve_fenced_frame [OF Fresh(1)]]
    have ok: "dict_ok req" using amounts_of_dict_ok [OF Fresh(2)] assms(2) by simp
    have m1: "mirrored s1" by (rule mirrored_cong [OF I(2)]) (simp_all add: f)
    have rw: "run_work s1 run = Some (acc, w)"
      using assms(5) run_work_runs [of s1 s] f by simp
    have s': "work_usage s' = work_usage s2" "bm_values m = req"
      using Fresh(7) by (auto elim!: reserve_rows_cases)
    from Fresh(4) show ?thesis
    proof (cases rule: work_mutate_cases)
      case NoWork
      with rw show ?thesis by (auto simp: run_work_def split: option.splits)
    next
      case (Replay r w' b' vals)
      have "filter (work_row_of acc w run op) (work_usage s1) = []"
        using mirrored_empty [OF m1 rw, of op] Fresh(6) f by simp
      with Replay(5) find_run_work [OF Replay(1,2)] rw show ?thesis
        by (auto simp: work_replay_def split: if_splits)
    next
      case (Hold r w' b' vals)
      have k: "w' = w" "r_account_id r = acc" using find_run_work [OF Hold(1,2)] rw by auto
      have vals: "vals = req" using Hold(4) amounts_of_jints [OF Fresh(2)] by (simp add: work_values_def)
      have perm: "work_permits s r w" using Hold(7) g k by (simp add: work_permits_def account_active_def)
      have b: "work_budgets s (acc, w) = Some b'" using Hold(3) g k by simp
      have "\<exists>l. map_of (wb_limits b') d = Some l \<and>
          work_spent (acc, w) d (work_usage s') + work_held (acc, w) d (work_usage s') \<le> l"
        if n: "(d, n) \<in> set req" for d n
      proof -
        obtain l where l: "map_of (wb_limits b') d = Some l" "dget (wb_used b') d 0 + dget (wb_reserved b') d 0 + n \<le> l"
          using Hold(8) n vals by (fastforce simp: work_over_limit_def list_ex_iff split: option.splits)
        have u: "work_usage s' = work_usage s @ new_work_rows acc w run op req"
          using s' k vals g by (simp add: Hold(9) work_hold_rows)
        from l show ?thesis
          unfolding u work_held_new [OF ok] work_spent_new
          using work_booksD(1) [OF I(1) b] work_booksD(2) [OF I(1) b] dget_mem [OF ok n, of 0] by simp
      qed
      with perm b Hold(1) g s'(2) show ?thesis by auto
    next
      case (Close r w' b' vals)
      then show ?thesis by simp
    qed
  qed
qed

theorem work_reservation_within_cumulative_limit_witness:
  "\<exists>row. find (\<lambda>r. r_run_id r = ''r'') (runs demo_db) = Some row \<and> work_permits demo_db row ''w''"
proof -
  have "run_work demo_db ''r'' = Some (''acc'', ''w'')" by code_simp
  from work_reservation_within_cumulative_limit [OF demo_budget_inv _ demo_reserve _ this]
  show ?thesis by (auto simp: dict_ok_def demo_mutation_def)
qed


text \<open>What the rows of an Execution count towards an invocation's call limit.\<close>

definition execution_calls :: "uuid \<Rightarrow> string \<Rightarrow> usage_row list \<Rightarrow> int" where
  "execution_calls ex dim L = sum_where (\<lambda>r. u_execution_id r = Some ex \<and> u_dimension r = dim \<and> u_state r \<in> {Reserved, Settled})
     (\<lambda>r. if u_state r = Settled then (case u_actual_amount r of None \<Rightarrow> 0 | Some a \<Rightarrow> a) else u_reserved_amount r) L"

lemma execution_calls_append: "execution_calls ex dim (L @ L') = execution_calls ex dim L + execution_calls ex dim L'"
  by (simp add: execution_calls_def)

lemma execution_calls_other:
  "dim \<notin> u_dimension ` set L \<Longrightarrow> execution_calls ex dim L = 0"
  by (induction L) (auto simp: execution_calls_def)

lemma insert_usage_rows_cap:
  assumes "insert_usage_rows rs s = Inr s'" "r \<in> set rs" "distinct (map u_dimension rs)"
    and "u_execution_id r = Some ex" "u_state r = Reserved" "u_dimension r \<in> {''model_calls'', ''tool_calls''}"
    and "find (\<lambda>c. ci_child_execution_id c = ex) (invocation_limits s) = Some i"
  shows "u_run_id r = ci_run_id i \<and> execution_calls ex (u_dimension r) (run_usage s')
    \<le> (if u_dimension r = ''model_calls'' then ci_max_model_calls i else ci_max_tool_calls i)"
  using assms
proof (induction rs s rule: insert_usage_rows.induct)
  case (2 q rs s)
  from 2(2) have chk: "capability_usage_check q s = Inr ()"
      "insert_usage_rows rs (s\<lparr>run_usage := run_usage s @ [q]\<rparr>) = Inr s'"
    by (auto simp: res_simps)
  show ?case
  proof (cases "r \<in> set rs")
    case True
    from 2(1) [OF chk(2) True] 2(4-8) show ?thesis by simp
  next
    case False
    with 2(3) have q: "r = q" by simp
    have s': "run_usage s' = (run_usage s @ [q]) @ rs"
      using insert_usage_rows_eq [OF chk(2)] by simp
    have "execution_calls ex (u_dimension r) rs = 0"
      by (rule execution_calls_other) (use 2(4) q in auto)
    moreover have "execution_calls ex (u_dimension r) [q] = u_reserved_amount q"
      using 2(5,6) q by (simp add: execution_calls_def)
    moreover have "u_run_id q = ci_run_id i \<and> execution_calls ex (u_dimension q) (run_usage s) + u_reserved_amount q
        \<le> (if u_dimension q = ''model_calls'' then ci_max_model_calls i else ci_max_tool_calls i)"
      using chk(1) 2(5-8) q
      by (simp add: capability_usage_check_def execution_calls_def Let_def ensure_def split: if_splits)
    ultimately show ?thesis unfolding s' execution_calls_append q by simp
  qed
qed simp

text \<open>A capability Execution never gets a call reservation beyond its invocation's limit: when a
  new reservation under its fence names model calls or tool calls, all its settled and reserved calls of
  that kind together are within the invocation's maximum, and the Run is the invocation's.\<close>

theorem capability_call_limit:
  assumes "dict_ok am" and "reserve s (Some (acc, frun, ex, token)) run op am fr el now = (Inr m, s')"
    and "\<not> bm_replayed m" and "(d, n) \<in> set (bm_values m)" and "d \<in> {''model_calls'', ''tool_calls''}"
    and "find (\<lambda>c. ci_child_execution_id c = ex) (invocation_limits s) = Some i"
  shows "run = ci_run_id i \<and> execution_calls ex d (run_usage s')
    \<le> (if d = ''model_calls'' then ci_max_model_calls i else ci_max_tool_calls i)"
proof -
  have body: "reserve_body s (Some (acc, frun, ex, token)) run op am fr el now = Inr (m, s')"
    using assms(2) by (auto simp: reserve_def reserve_in_uow_def split: sum.splits if_splits)
  from body show ?thesis
  proof (cases rule: reserve_body_cases)
    case (Replayed s1 s2 req b)
    with assms(3) show ?thesis by simp
  next
    case (Fresh s1 s2 req b)
    have inv: "invocation_limits s2 = invocation_limits s"
      using same_but_executions_run [OF reserve_fenced_frame [OF Fresh(1)]]
        same_but_work_run [OF work_mutate_frame [OF Fresh(4)]] by simp
    have ok: "dict_ok req" using amounts_of_dict_ok [OF Fresh(2)] assms(1) by simp
    from Fresh(7) show ?thesis
    proof (cases rule: reserve_rows_cases)
      case (1 exceeded)
      let ?rs = "new_usage_rows (Some (acc, frun, ex, token)) run op req"
      let ?r = "\<lparr>u_run_id = run, u_operation_id = op, u_dimension = d, u_state = Reserved, u_reserved_amount = n,
         u_actual_amount = None, u_usage_source = None, u_execution_id = Some ex\<rparr>"
      have r: "?r \<in> set ?rs" using assms(4) 1(3) by (force simp: new_usage_rows_def)
      have d: "distinct (map u_dimension ?rs)"
        using ok by (simp add: new_usage_rows_def dict_ok_def comp_def case_prod_unfold)
      from insert_usage_rows_cap [OF 1(4) r d, of ex i] assms(5,6) inv show ?thesis by (auto simp: 1(5))
    qed
  qed
qed

definition demo_fenced :: budget_db where
  "demo_fenced = snd (reserve demo_db (Some (''acc'', ''r'', ''e'', 1)) ''r'' ''op1'' [(''model_calls'', JInt 2)] False False 5)"

lemma demo_fenced_reserve:
  "reserve demo_db (Some (''acc'', ''r'', ''e'', 1)) ''r'' ''op1'' [(''model_calls'', JInt 2)] False False 5 = (Inr demo_mutation, demo_fenced)"
proof (rule prod_eqI)
  show "fst (reserve demo_db (Some (''acc'', ''r'', ''e'', 1)) ''r'' ''op1'' [(''model_calls'', JInt 2)] False False 5)
      = fst (Inr demo_mutation :: budget_mutation res, demo_fenced)"
    by code_simp
qed (simp add: demo_fenced_def)

theorem capability_call_limit_witness:
  "execution_calls ''e'' ''model_calls'' (run_usage demo_fenced) \<le> 2"
  using capability_call_limit [OF _ demo_fenced_reserve, of "''model_calls''" 2]
  by (simp add: dict_ok_def demo_mutation_def demo_db_def)

text \<open>A refused reservation holds nothing: whatever the reason, both ledgers, the Work budgets and the
  Executions are as before; the only trace is that exhaustion of the Run budget marks it exhausted.\<close>

theorem refused_reservation_holds_nothing:
  assumes "reserve s fnc run op am fr el now = (Inl e, s')"
  shows "run_usage s' = run_usage s \<and> work_usage s' = work_usage s \<and> work_budgets s' = work_budgets s \<and>
    executions s' = executions s \<and>
    run_budgets s' = (if e = RunBudgetExhausted then (\<lambda>x. if x = run
      then map_option (\<lambda>b. b\<lparr>b_status := ''exhausted''\<rparr>) (run_budgets s x) else run_budgets s x) else run_budgets s)"
  using assms by (auto simp: reserve_def reserve_in_uow_def split: sum.splits if_splits)

theorem refused_reservation_holds_nothing_witness:
  "run_usage (snd (reserve demo_db None ''r'' ''op1'' [(''model_output_tokens'', JInt 70)] False False 5)) = []"
proof -
  have "fst (reserve demo_db None ''r'' ''op1'' [(''model_output_tokens'', JInt 70)] False False 5) = Inl RunBudgetExhausted"
    by code_simp
  then obtain s' where s': "reserve demo_db None ''r'' ''op1'' [(''model_output_tokens'', JInt 70)] False False 5 = (Inl RunBudgetExhausted, s')"
    by (metis prod.collapse)
  from refused_reservation_holds_nothing [OF this] s' show ?thesis by (simp add: demo_db_def)
qed

end
