(* ===== verification/Account_Laws.thy ===== *)
theory Account_Laws
  imports Budget_Coordinator Budget_Properties
begin

text \<open>
  The books of the Account's day, kept by every coordinated call, and what a dispatched request means
  for its reservation: the properties of the model budget coordinator and their witnesses.
\<close>

section \<open>The Account ledger as an instance of the shared contract\<close>

interpretation account_led: usage_ledger "\<lambda>r. (au_account_id r, au_quota_date r)" au_state
    au_reserved_tokens au_actual_tokens settle_account_row release_account_row
  by unfold_locales (simp_all add: settle_account_row_def release_account_row_def)

definition account_held :: "uuid \<times> int \<Rightarrow> account_usage_row list \<Rightarrow> int" where
  "account_held k L = sum_where (\<lambda>r. (au_account_id r, au_quota_date r) = k \<and> au_state r = Reserved)
     au_reserved_tokens L"

definition account_spent :: "uuid \<times> int \<Rightarrow> account_usage_row list \<Rightarrow> int" where
  "account_spent k L = sum_where (\<lambda>r. (au_account_id r, au_quota_date r) = k \<and> au_state r = Settled)
     (\<lambda>r. case au_actual_tokens r of None \<Rightarrow> 0 | Some a \<Rightarrow> a) L"

definition account_ledger_ok :: "(uuid \<times> int \<Rightarrow> daily_row option) \<Rightarrow> account_usage_row list \<Rightarrow> bool" where
  "account_ledger_ok D L \<longleftrightarrow>
     distinct (map (\<lambda>r. (au_account_id r, au_quota_date r, au_operation_id r)) L) \<and>
     list_all (\<lambda>r. D (au_account_id r, au_quota_date r) \<noteq> None) L"

definition account_books :: "(uuid \<times> int \<Rightarrow> daily_row option) \<Rightarrow> account_usage_row list \<Rightarrow> bool" where
  "account_books D L \<longleftrightarrow> account_ledger_ok D L \<and>
     (\<forall>k d. D k = Some d \<longrightarrow> d_reserved_tokens d = account_held k L \<and> d_used_tokens d = account_spent k L)"

lemma account_booksD:
  "account_books D L \<Longrightarrow> D k = Some d \<Longrightarrow> d_reserved_tokens d = account_held k L"
  "account_books D L \<Longrightarrow> D k = Some d \<Longrightarrow> d_used_tokens d = account_spent k L"
  "account_books D L \<Longrightarrow> account_ledger_ok D L"
  unfolding account_books_def by blast+

abbreviation account_inv :: "'a account_db_scheme \<Rightarrow> bool" where
  "account_inv s \<equiv> account_books (daily_budgets s) (account_usage s)"

lemma account_books_update:
  assumes "account_books D L" "account_ledger_ok (D(k \<mapsto> d)) L'"
    and "d_reserved_tokens d = account_held k L'" "d_used_tokens d = account_spent k L'"
    and "\<And>k'. k' \<noteq> k \<Longrightarrow> account_held k' L' = account_held k' L"
    and "\<And>k'. k' \<noteq> k \<Longrightarrow> account_spent k' L' = account_spent k' L"
  shows "account_books (D(k \<mapsto> d)) L'"
  using assms unfolding account_books_def fun_upd_apply by (metis option.inject)

text \<open>With the primary key distinct, an operation of a day is one row.\<close>

lemma account_row_unique:
  assumes "distinct (map (\<lambda>r. (au_account_id r, au_quota_date r, au_operation_id r)) L)"
    and "find (account_row_of acc day op) L = Some row"
  shows "filter (account_row_of acc day op) L = [row]"
  using assms
proof (induction L)
  case (Cons r L)
  show ?case
  proof (cases "account_row_of acc day op r")
    case True
    have "filter (account_row_of acc day op) L = []"
    proof (rule filter_False, rule ballI)
      fix x assume "x \<in> set L"
      with Cons.prems(1) have "(au_account_id r, au_quota_date r, au_operation_id r)
          \<noteq> (au_account_id x, au_quota_date x, au_operation_id x)"
        by (auto simp: image_iff)
      with True show "\<not> account_row_of acc day op x" by (auto simp: account_row_of_def)
    qed
    with Cons.prems(2) True show ?thesis by simp
  next
    case False
    with Cons show ?thesis by simp
  qed
qed simp

lemma sum_where_filter1:
  "filter P L = [x] \<Longrightarrow> sum_where (\<lambda>r. P r \<and> Q r) f L = (if Q x then f x else 0)"
proof (induction L)
  case (Cons r L)
  then show ?case
  proof (cases "P r")
    case True
    with Cons.prems have "r = x" "filter P L = []" by auto
    moreover from this have "sum_where (\<lambda>r. P r \<and> Q r) f L = sum_where (\<lambda>_. False) f L"
      by (intro sum_where_cong) (auto simp: filter_empty_conv)
    ultimately show ?thesis using True by simp
  qed simp
qed simp

lemma account_op_row:
  assumes "filter (account_row_of acc day op) L = [row]" "au_state row = Reserved"
  shows "((au_account_id row, au_quota_date row) = k) = (k = (acc, day))"
    and "\<And>r. r \<in> set L \<Longrightarrow> account_row_of acc day op r \<Longrightarrow> au_state r = Reserved"
    and "sum_where (\<lambda>r. account_row_of acc day op r \<and> (au_account_id r, au_quota_date r) = k) f L
           = (if k = (acc, day) then f row else 0)"
proof -
  show k: "((au_account_id row, au_quota_date row) = k) = (k = (acc, day))"
    using assms(1) by (auto simp: filter_eq_Cons_iff account_row_of_def)
  fix r assume "r \<in> set L" "account_row_of acc day op r"
  then have "r \<in> set (filter (account_row_of acc day op) L)" by simp
  with assms show "au_state r = Reserved" by simp
next
  have k: "((au_account_id row, au_quota_date row) = k) = (k = (acc, day))"
    using assms(1) by (auto simp: filter_eq_Cons_iff account_row_of_def)
  show "sum_where (\<lambda>r. account_row_of acc day op r \<and> (au_account_id r, au_quota_date r) = k) f L
           = (if k = (acc, day) then f row else 0)"
    using sum_where_filter1 [OF assms(1), of "\<lambda>r. (au_account_id r, au_quota_date r) = k" f] unfolding k .
qed

lemma account_held_settle:
  assumes "filter (account_row_of acc day op) L = [row]" "au_state row = Reserved"
  shows "account_held k (update_where (account_row_of acc day op) (settle_account_row a src) L)
      = account_held k L - (if k = (acc, day) then au_reserved_tokens row else 0)"
  using account_led.settle_holding [where rs = L and P = "account_row_of acc day op" and k = k
      and amt = "\<lambda>_. a" and src = src, OF account_op_row(2) [OF assms]]
    account_op_row(3) [OF assms, of k au_reserved_tokens]
  unfolding account_held_def by simp

lemma account_spent_settle:
  assumes "filter (account_row_of acc day op) L = [row]" "au_state row = Reserved"
  shows "account_spent k (update_where (account_row_of acc day op) (settle_account_row a src) L)
      = account_spent k L + (if k = (acc, day) then a else 0)"
  using account_led.settle_spent [where rs = L and P = "account_row_of acc day op" and k = k
      and amt = "\<lambda>_. a" and src = src, OF account_op_row(2) [OF assms]]
    account_op_row(3) [OF assms, of k "\<lambda>_. a"]
  unfolding account_spent_def by simp

lemma account_held_release:
  assumes "filter (account_row_of acc day op) L = [row]" "au_state row = Reserved"
  shows "account_held k (update_where (account_row_of acc day op) release_account_row L)
      = account_held k L - (if k = (acc, day) then au_reserved_tokens row else 0)"
  using account_led.release_holding [where rs = L and P = "account_row_of acc day op" and k = k,
      OF account_op_row(2) [OF assms]] account_op_row(3) [OF assms, of k au_reserved_tokens]
  unfolding account_held_def by simp

lemma account_spent_release:
  assumes "filter (account_row_of acc day op) L = [row]" "au_state row = Reserved"
  shows "account_spent k (update_where (account_row_of acc day op) release_account_row L) = account_spent k L"
  using account_led.release_spent [where rs = L and P = "account_row_of acc day op" and k = k,
      OF account_op_row(2) [OF assms]]
  unfolding account_spent_def by simp

lemma account_new_row:
  assumes "au_state r = Reserved"
  shows "account_held k (L @ [r]) = account_held k L + (if (au_account_id r, au_quota_date r) = k then au_reserved_tokens r else 0)"
    and "account_spent k (L @ [r]) = account_spent k L"
  using assms by (simp_all add: account_held_def account_spent_def)

section \<open>Operations keep the books\<close>

lemma account_ledger_ok_close:
  assumes "account_ledger_ok D L" "D k \<noteq> None"
    "\<And>r. au_account_id (f r) = au_account_id r \<and> au_quota_date (f r) = au_quota_date r \<and> au_operation_id (f r) = au_operation_id r"
  shows "account_ledger_ok (D(k \<mapsto> d)) (update_where P f L)"
proof -
  have "map (\<lambda>r. (au_account_id r, au_quota_date r, au_operation_id r)) (update_where P f L)
      = map (\<lambda>r. (au_account_id r, au_quota_date r, au_operation_id r)) L"
    using assms(3) by (auto simp: update_where_def)
  moreover have "list_all (\<lambda>r. (D(k \<mapsto> d)) (au_account_id r, au_quota_date r) \<noteq> None) (update_where P f L)"
    using assms by (auto simp: account_ledger_ok_def list_all_iff update_where_def)
  ultimately show ?thesis using assms(1) by (simp add: account_ledger_ok_def)
qed

lemma account_reserve_rows_cases:
  assumes "account_reserve_rows s e acc day op req snap = Inr (m, s')"
  obtains (Replayed) r where "find (account_row_of acc day op) (account_usage s) = Some r"
      "au_reserved_tokens r = req" "au_snapshot_id r = snap" "am_replayed m"
      "s' = s\<lparr>daily_budgets := (daily_budgets s)((acc, day) \<mapsto> daily_of s acc day)\<rparr>"
  | (Fresh) "find (account_row_of acc day op) (account_usage s) = None"
      "m = \<lparr>am_account_id = acc, am_quota_date = day, am_operation_id = op, am_tokens = req,
            am_state = Reserved, am_replayed = False\<rparr>"
      "\<And>l. en_daily_token_limit e = Some l \<Longrightarrow>
         d_used_tokens (daily_of s acc day) + d_reserved_tokens (daily_of s acc day) + req \<le> l"
      "s' = s\<lparr>account_usage := account_usage s @ [\<lparr>au_account_id = acc, au_quota_date = day, au_operation_id = op,
                au_snapshot_id = snap, au_state = Reserved, au_reserved_tokens = req, au_actual_tokens = None,
                au_usage_source = None\<rparr>],
              daily_budgets := (daily_budgets s)((acc, day) \<mapsto> (daily_of s acc day)\<lparr>d_reserved_tokens :=
                d_reserved_tokens (daily_of s acc day) + req\<rparr>)\<rparr>"
proof (cases "find (account_row_of acc day op) (account_usage s)")
  case None
  with assms Fresh show ?thesis
    by (auto simp: account_reserve_rows_def Let_def split: option.splits if_splits)
next
  case (Some r)
  with assms Replayed show ?thesis
    by (auto simp: account_reserve_rows_def Let_def split: if_splits)
qed

lemma daily_of_books:
  assumes "account_inv s"
  shows "d_reserved_tokens (daily_of s acc day) = account_held (acc, day) (account_usage s)"
    "d_used_tokens (daily_of s acc day) = account_spent (acc, day) (account_usage s)"
proof -
  have z: "account_held (acc, day) (account_usage s) = 0 \<and> account_spent (acc, day) (account_usage s) = 0"
    if "daily_budgets s (acc, day) = None"
  proof -
    have "r \<in> set (account_usage s) \<Longrightarrow> (au_account_id r, au_quota_date r) \<noteq> (acc, day)" for r
      using account_booksD(3) [OF assms] that by (auto simp: account_ledger_ok_def list_all_iff)
    then have "account_held (acc, day) (account_usage s) = sum_where (\<lambda>_. False) au_reserved_tokens (account_usage s)"
      "account_spent (acc, day) (account_usage s) = sum_where (\<lambda>_. False) (\<lambda>_. 0) (account_usage s)"
      unfolding account_held_def account_spent_def by (intro sum_where_cong; auto)+
    then show ?thesis by simp
  qed
  show "d_reserved_tokens (daily_of s acc day) = account_held (acc, day) (account_usage s)"
    "d_used_tokens (daily_of s acc day) = account_spent (acc, day) (account_usage s)"
    using z account_booksD(1,2) [OF assms] by (auto simp: daily_of_def split: option.splits)
qed

lemma account_reserve_rows_books:
  assumes "account_reserve_rows s e acc day op req snap = Inr (m, s')" "account_inv s"
  shows "account_inv s'"
  using assms(1)
proof (cases rule: account_reserve_rows_cases)
  case (Replayed r)
  show ?thesis
    unfolding Replayed(5) using daily_of_books [OF assms(2), of acc day] account_booksD(3) [OF assms(2)]
    by (simp, intro account_books_update [OF assms(2)]) (auto simp: account_ledger_ok_def list_all_iff)
next
  case Fresh
  note ok = account_booksD(3) [OF assms(2)]
  have "(acc, day, op) \<notin> (\<lambda>r. (au_account_id r, au_quota_date r, au_operation_id r)) ` set (account_usage s)"
    using Fresh(1) by (auto simp: find_None_iff account_row_of_def)
  then show ?thesis
    unfolding Fresh(4) using daily_of_books [OF assms(2), of acc day] ok
    by (simp, intro account_books_update [OF assms(2)])
       (auto simp: account_ledger_ok_def list_all_iff account_new_row)
qed

lemma account_close_books:
  assumes "account_inv s" "find (account_row_of acc day op) (account_usage s) = Some row" "au_state row = Reserved"
  shows "account_books (update_daily acc day (\<lambda>d. d\<lparr>d_reserved_tokens := d_reserved_tokens d - au_reserved_tokens row,
            d_used_tokens := d_used_tokens d + a\<rparr>) (daily_budgets s))
      (update_where (account_row_of acc day op) (settle_account_row a src) (account_usage s))"
    and "account_books (update_daily acc day (\<lambda>d. d\<lparr>d_reserved_tokens := d_reserved_tokens d - au_reserved_tokens row\<rparr>)
            (daily_budgets s))
      (update_where (account_row_of acc day op) release_account_row (account_usage s))"
proof -
  note ok = account_booksD(3) [OF assms(1)]
  have one: "filter (account_row_of acc day op) (account_usage s) = [row]"
    by (rule account_row_unique [OF _ assms(2)]) (use ok in \<open>simp add: account_ledger_ok_def\<close>)
  have "row \<in> set (account_usage s)" "account_row_of acc day op row"
    using find_SomeD [OF assms(2)] by auto
  then obtain d where d: "daily_budgets s (acc, day) = Some d"
    using ok by (auto simp: account_ledger_ok_def list_all_iff account_row_of_def)
  note b = account_booksD(1) [OF assms(1) d] account_booksD(2) [OF assms(1) d]
  have nn: "daily_budgets s (acc, day) \<noteq> None" using d by simp
  show "account_books (update_daily acc day (\<lambda>d. d\<lparr>d_reserved_tokens := d_reserved_tokens d - au_reserved_tokens row,
            d_used_tokens := d_used_tokens d + a\<rparr>) (daily_budgets s))
      (update_where (account_row_of acc day op) (settle_account_row a src) (account_usage s))"
    unfolding update_daily_def d option.map
    by (rule account_books_update [OF assms(1) account_ledger_ok_close [OF ok nn]])
       (simp_all add: account_held_settle [OF one assms(3)] account_spent_settle [OF one assms(3)] b settle_account_row_def)
  show "account_books (update_daily acc day (\<lambda>d. d\<lparr>d_reserved_tokens := d_reserved_tokens d - au_reserved_tokens row\<rparr>)
            (daily_budgets s))
      (update_where (account_row_of acc day op) release_account_row (account_usage s))"
    unfolding update_daily_def d option.map
    by (rule account_books_update [OF assms(1) account_ledger_ok_close [OF ok nn]])
       (simp_all add: account_held_release [OF one assms(3)] account_spent_release [OF one assms(3)] b release_account_row_def)
qed


section \<open>Frames\<close>

text \<open>The Run and Work budgets, the fence and the memory check leave the Account's tables alone.\<close>

definition same_account :: "'a account_db_scheme \<Rightarrow> 'a account_db_scheme \<Rightarrow> bool" where
  "same_account s s' \<longleftrightarrow> daily_budgets s' = daily_budgets s \<and> account_usage s' = account_usage s
     \<and> snapshots s' = snapshots s \<and> dispatches s' = dispatches s \<and> entitlements s' = entitlements s"

lemma same_account_refl [simp]: "same_account s s"
  by (simp add: same_account_def)

lemma same_account_trans: "same_account s s' \<Longrightarrow> same_account s' s'' \<Longrightarrow> same_account s s''"
  by (simp add: same_account_def)

lemma same_account_budget [simp]:
  "same_account s (s\<lparr>executions := a\<rparr>)" "same_account s (s\<lparr>run_usage := b, run_budgets := c\<rparr>)"
  "same_account s (s\<lparr>work_usage := d, work_budgets := e\<rparr>)" "same_account s (s\<lparr>run_budgets := c\<rparr>)"
  by (simp_all add: same_account_def)

lemma same_but_executions_account:
  fixes s :: "'a account_db_scheme"
  assumes "same_but_executions s s'"
  shows "same_account s s'"
  by (subst assms [unfolded same_but_executions_def]) simp

lemma same_but_work_account:
  fixes s :: "'a account_db_scheme"
  assumes "same_but_work s s'"
  shows "same_account s s'"
  by (subst assms [unfolded same_but_work_def]) simp

lemma reserve_in_uow_account:
  fixes s :: "'a account_db_scheme"
  assumes "reserve_in_uow s fnc run op am fr el df now = Inr (x, s')"
  shows "same_account s s'"
proof (cases x)
  case (Reservation m)
  then have "reserve_body s fnc run op am fr el now = Inr (m, s')"
    using assms by (simp add: reserve_in_uow_reservation)
  then show ?thesis
  proof (cases rule: reserve_body_cases)
    case (Replayed s1 s2 req b)
    then show ?thesis
      using same_but_executions_account [OF reserve_fenced_frame [OF Replayed(1)]]
        same_but_work_account [OF work_mutate_frame [OF Replayed(4)]] same_account_trans by blast
  next
    case (Fresh s1 s2 req b)
    have "same_account s2 s'" using Fresh(7) by (auto elim!: reserve_rows_cases)
    then show ?thesis
      using same_but_executions_account [OF reserve_fenced_frame [OF Fresh(1)]]
        same_but_work_account [OF work_mutate_frame [OF Fresh(4)]] same_account_trans by blast
  qed
next
  case Exhaustion_Deferred
  then show ?thesis using assms by (auto simp: reserve_in_uow_def split: sum.splits if_splits)
qed

lemma settle_in_uow_account:
  fixes s :: "'a account_db_scheme"
  assumes "settle_in_uow s run op raw src = Inr (m, s')"
  shows "same_account s s'"
  using assms
proof (cases rule: settle_in_uow_cases)
  case (Replayed actual s1 b)
  then show ?thesis using same_but_work_account [OF work_mutate_frame [OF Replayed(3)]] by simp
next
  case (Settling actual s1 b)
  have "same_account s1 s'" using Settling(9) by auto
  then show ?thesis
    using same_but_work_account [OF work_mutate_frame [OF Settling(3)]] same_account_trans by blast
qed

lemma release_in_uow_account:
  fixes s :: "'a account_db_scheme"
  assumes "release_in_uow s run op = Inr (m, s')"
  shows "same_account s s'"
  using assms
proof (cases rule: release_in_uow_cases)
  case (Replayed s1 b)
  then show ?thesis using same_but_work_account [OF work_mutate_frame [OF Replayed(1)]] by simp
next
  case (Releasing s1 b)
  have "same_account s1 s'" using Releasing(6) by auto
  then show ?thesis
    using same_but_work_account [OF work_mutate_frame [OF Releasing(1)]] same_account_trans by blast
qed

section \<open>Coordinated calls by their effect on the Account ledger\<close>

lemma locked_ledger_row:
  assumes "locked_ledger s acc op qd = Inr (day, row)"
  shows "find (account_row_of acc day op) (account_usage s) = Some row" "daily_budgets s (acc, day) \<noteq> None"
    "qd = Some d \<Longrightarrow> day = d"
  using assms by (auto simp: locked_ledger_def res_simps split: option.splits list.splits)

lemma account_settle_in_uow_cases:
  assumes "account_settle_in_uow s acc op tk src qd = Inr (m, s')"
  obtains (Replayed) "s' = s"
  | (Settling) day row a where "locked_ledger s acc op qd = Inr (day, row)" "au_state row = Reserved"
      "s' = s\<lparr>account_usage := update_where (account_row_of acc day op) (settle_account_row a src) (account_usage s),
              daily_budgets := update_daily acc day (\<lambda>d. d\<lparr>d_reserved_tokens := d_reserved_tokens d - au_reserved_tokens row,
                d_used_tokens := d_used_tokens d + a\<rparr>) (daily_budgets s)\<rparr>"
proof -
  obtain a where a: "tokens_of tk = Inr a"
    using assms by (cases "tokens_of tk") (simp_all add: account_settle_in_uow_def)
  obtain dr where dr: "locked_ledger s acc op qd = Inr dr"
    using assms a by (cases "locked_ledger s acc op qd")
      (auto simp: account_settle_in_uow_def operation_of_def ensure_def split: if_splits)
  obtain day row where d: "dr = (day, row)" by (cases dr)
  have step: "account_settle_row s acc op a src day row = Inr (m, s')"
    using assms a dr d by (auto simp: account_settle_in_uow_def operation_of_def ensure_def split: if_splits)
  show ?thesis
  proof (cases "au_state row")
    case Reserved
    have "s' = s\<lparr>account_usage := update_where (account_row_of acc day op) (settle_account_row a src) (account_usage s),
              daily_budgets := update_daily acc day (\<lambda>d. d\<lparr>d_reserved_tokens := d_reserved_tokens d - au_reserved_tokens row,
                d_used_tokens := d_used_tokens d + a\<rparr>) (daily_budgets s)\<rparr>"
      using step Reserved by (simp add: account_settle_row_def)
    with Settling dr d Reserved show ?thesis by blast
  next
    case Settled
    then have "s' = s" using step by (simp add: account_settle_row_def Let_def split: if_splits)
    with Replayed show ?thesis by blast
  next
    case Released
    with step show ?thesis by (simp add: account_settle_row_def)
  qed
qed

lemma account_release_in_uow_cases:
  assumes "account_release_in_uow s acc op qd = Inr (m, s')"
  obtains (Replayed) "s' = s"
  | (Releasing) day row where "locked_ledger s acc op qd = Inr (day, row)" "au_state row = Reserved"
      "s' = s\<lparr>account_usage := update_where (account_row_of acc day op) release_account_row (account_usage s),
              daily_budgets := update_daily acc day (\<lambda>d. d\<lparr>d_reserved_tokens := d_reserved_tokens d - au_reserved_tokens row\<rparr>)
                (daily_budgets s)\<rparr>"
proof -
  obtain dr where dr: "locked_ledger s acc op qd = Inr dr"
    using assms by (cases "locked_ledger s acc op qd")
      (auto simp: account_release_in_uow_def operation_of_def ensure_def split: if_splits)
  obtain day row where d: "dr = (day, row)" by (cases dr)
  have step: "account_release_row s acc op day row = Inr (m, s')"
    using assms dr d by (auto simp: account_release_in_uow_def operation_of_def ensure_def split: if_splits)
  show ?thesis
  proof (cases "au_state row")
    case Reserved
    have "s' = s\<lparr>account_usage := update_where (account_row_of acc day op) release_account_row (account_usage s),
              daily_budgets := update_daily acc day (\<lambda>d. d\<lparr>d_reserved_tokens := d_reserved_tokens d - au_reserved_tokens row\<rparr>)
                (daily_budgets s)\<rparr>"
      using step Reserved by (simp add: account_release_row_def Let_def)
    with Releasing dr d Reserved show ?thesis by blast
  next
    case Settled
    with step show ?thesis by (simp add: account_release_row_def Let_def)
  next
    case Released
    then have "s' = s" using step by (simp add: account_release_row_def Let_def)
    with Replayed show ?thesis by blast
  qed
qed

lemma account_settle_in_uow_books:
  assumes "account_settle_in_uow s acc op tk src qd = Inr (m, s')" "account_inv s"
  shows "account_inv s'"
  using assms(1)
proof (cases rule: account_settle_in_uow_cases)
  case (Settling day row a)
  from account_close_books(1) [OF assms(2) locked_ledger_row(1) [OF Settling(1)] Settling(2)]
  show ?thesis by (simp add: Settling(3))
qed (use assms in simp)

lemma account_release_in_uow_books:
  assumes "account_release_in_uow s acc op qd = Inr (m, s')" "account_inv s"
  shows "account_inv s'"
  using assms(1)
proof (cases rule: account_release_in_uow_cases)
  case (Releasing day row)
  from account_close_books(2) [OF assms(2) locked_ledger_row(1) [OF Releasing(1)] Releasing(2)]
  show ?thesis by (simp add: Releasing(3))
qed (use assms in simp)

lemma account_reserve_in_uow_rows:
  assumes "account_reserve_in_uow s acc op tk at snap ex tier qd now = Inr (m, s')"
  obtains req e where "tokens_of tk = Inr req"
    "entitled (entitlement_get_in_uow s acc at now) ex tier = Inr e"
    "account_reserve_rows s e acc (case qd of Some d \<Rightarrow> d | None \<Rightarrow> quota_date at now) op req snap = Inr (m, s')"
  using assms by (auto simp: account_reserve_in_uow_def operation_of_def ebind_Inr_iff ensure_Inr_iff)

lemma coordinator_reserve_parts:
  assumes "coordinator_reserve s fnc acc run op tk am fr at snap ex tier now = Inr ((a, x), s')"
  obtains s1 day where "prior_quota_date s acc op snap = Inr day"
    "account_reserve_in_uow s acc op tk at snap ex tier day now = Inr (a, s1)"
    "reserve_in_uow s1 fnc run op am fr False False now = Inr (x, s')"
  using assms
  by (auto simp: coordinator_reserve_def require_matching_total_def ebind_Inr_iff ensure_Inr_iff)

lemma coordinator_settle_parts:
  assumes "coordinator_settle s acc run op tk am src qd = Inr ((a, m), s')"
  obtains s1 where "account_settle_in_uow s acc op tk src qd = Inr (a, s1)" "settle_in_uow s1 run op am src = Inr (m, s')"
  using assms
  by (auto simp: coordinator_settle_def require_matching_total_def ebind_Inr_iff ensure_Inr_iff)

lemma coordinator_release_parts:
  assumes "coordinator_release s acc run op qd = Inr ((a, m), s')"
  obtains s1 where "\<not> dispatched_operation s acc run op" "account_release_in_uow s acc op qd = Inr (a, s1)"
    "release_in_uow s1 run op = Inr (m, s')"
  using assms by (auto simp: coordinator_release_def ebind_Inr_iff ensure_Inr_iff)

lemma mark_dispatched_parts:
  assumes "mark_dispatched s fnc acc snap now = Inr ((), s')"
  obtains q s2 day row where "same_account s s2"
    "find (\<lambda>q. sn_account_id q = acc \<and> sn_snapshot_id q = snap) (snapshots s2) = Some q"
    "locked_ledger s2 acc (sn_operation_id q) None = Inr (day, row)" "au_state row = Reserved"
    "(acc, snap) \<notin> set (dispatches s)" "s' = s2\<lparr>dispatches := dispatches s2 @ [(acc, snap)]\<rparr>"
proof -
  obtain s1 q s2 x day row where 1: "assert_execution_fence s fnc now = Inr s1"
    "find (\<lambda>q. sn_account_id q = acc \<and> sn_snapshot_id q = snap) (snapshots s1) = Some q"
    "check_execution s1 acc (sn_run_id q) (sn_execution_id q) True = Inr (x, s2)"
    "locked_ledger s2 acc (sn_operation_id q) None = Inr (day, row)" "au_state row = Reserved"
    "(acc, snap) \<notin> set (dispatches s2)" "s' = s2\<lparr>dispatches := dispatches s2 @ [(acc, snap)]\<rparr>"
    using assms unfolding mark_dispatched_def
    by (auto simp: ebind_Inr_iff ensure_Inr_iff need_Inr_iff simp del: split_paired_Ex)
  have "same_account s s1" using same_but_executions_account [OF assert_execution_fence_frame [OF 1(1)]] .
  moreover have 2: "same_account s1 s2" using same_but_executions_account [OF check_execution_frame [OF 1(3)]] .
  ultimately have 3: "same_account s s2" by (rule same_account_trans)
  show ?thesis
    by (rule that [OF 3 _ 1(4,5) _ 1(7)]) (use 1 2 3 in \<open>simp_all add: same_account_def\<close>)
qed

lemma snapshot_insert_parts:
  assumes "snapshot_insert s fnc new = Inr (row, s')"
  obtains s1 where "same_account s s1" "s' = s1"
  | s1 where "same_account s s1" "s' = s1\<lparr>snapshots := snapshots s1 @ [row]\<rparr>"
proof -
  from assms obtain x s1 where 1: "check_execution s (sn_account_id new) (sn_run_id new) (map_option (\<lambda>(_, _, e, _). e) fnc) True
      = Inr (x, s1)" "s' = s1 \<or> s' = s1\<lparr>snapshots := snapshots s1 @ [row]\<rparr>"
    by (auto simp: snapshot_insert_def ebind_Inr_iff Let_def split: if_splits option.splits)
  from that same_but_executions_account [OF check_execution_frame [OF 1(1)]] 1(2) show ?thesis by blast
qed


section \<open>Sequences of coordinated calls\<close>

datatype model_call =
    MC_Reserve fence uuid uuid string json "(string \<times> json) list" bool "int option" "uuid option" "int option" "string option" int
  | MC_Settle uuid uuid string json "(string \<times> json) list" string "int option"
  | MC_Release uuid uuid string "int option"
  | MC_Freeze fence snapshot_row
  | MC_Dispatch fence uuid uuid int
  | MC_Recover run_row

fun model_step :: "model_call \<Rightarrow> 'a account_db_scheme \<Rightarrow> 'a account_db_scheme" where
  "model_step (MC_Reserve fnc acc run op tk am fr at snap ex tier now) s =
     committed (coordinator_reserve s fnc acc run op tk am fr at snap ex tier now) s"
| "model_step (MC_Settle acc run op tk am src qd) s = committed (coordinator_settle s acc run op tk am src qd) s"
| "model_step (MC_Release acc run op qd) s = committed (coordinator_release s acc run op qd) s"
| "model_step (MC_Freeze fnc new) s = committed (snapshot_insert s fnc new) s"
| "model_step (MC_Dispatch fnc acc snap now) s = committed (mark_dispatched s fnc acc snap now) s"
| "model_step (MC_Recover run) s = (case coordinator_recover s run of Inl _ \<Rightarrow> s | Inr s' \<Rightarrow> s')"

fun model_steps :: "model_call list \<Rightarrow> 'a account_db_scheme \<Rightarrow> 'a account_db_scheme" where
  "model_steps [] s = s"
| "model_steps (c # cs) s = model_steps cs (model_step c s)"

text \<open>An invariant of the Account's tables is kept by every call when it is kept by the three ways a call
  changes them: a reservation's row, a settlement and a release; the rest are frames.\<close>

lemma recover_hold_parts:
  assumes "recover_hold run (l, f) s = Inr s'"
  obtains (Skipped) "s' = s"
  | (Settling) m s1 where "f" "account_settle_in_uow s (r_account_id run) (au_operation_id l)
        (JInt (au_reserved_tokens l)) ''estimated'' (Some (au_quota_date l)) = Inr (m, s1)" "same_account s1 s'"
  | (Releasing) m s1 where "\<not> f" "account_release_in_uow s (r_account_id run) (au_operation_id l)
        (Some (au_quota_date l)) = Inr (m, s1)" "same_account s1 s'"
proof -
  obtain d row where d: "locked_ledger s (r_account_id run) (au_operation_id l) (Some (au_quota_date l)) = Inr (d, row)"
    using assms by (cases "locked_ledger s (r_account_id run) (au_operation_id l) (Some (au_quota_date l))")
      (auto simp: recover_hold_def Let_def)
  show ?thesis
  proof (cases "au_state row = Reserved")
    case False
    with assms d Skipped show ?thesis by (simp add: recover_hold_def Let_def)
  next
    case r: True
    show ?thesis
    proof (cases f)
      case True
      let ?am = "map (\<lambda>r. (u_dimension r, JInt (u_reserved_amount r)))
          (filter (run_row_of (r_run_id run) (au_operation_id l)) (run_usage s))"
      from assms d r True obtain m s1 m2 where
        "account_settle_in_uow s (r_account_id run) (au_operation_id l) (JInt (au_reserved_tokens l)) ''estimated''
           (Some (au_quota_date l)) = Inr (m, s1)"
        "settle_in_uow s1 (r_run_id run) (au_operation_id l) ?am ''estimated'' = Inr (m2, s')"
        by (auto simp: recover_hold_def Let_def require_matching_total_def ebind_Inr_iff ensure_Inr_iff)
      with settle_in_uow_account Settling True show ?thesis by blast
    next
      case False
      from assms d r False obtain m s1 m2 where
        "account_release_in_uow s (r_account_id run) (au_operation_id l) (Some (au_quota_date l)) = Inr (m, s1)"
        "release_in_uow s1 (r_run_id run) (au_operation_id l) = Inr (m2, s')"
        by (auto simp: recover_hold_def Let_def ebind_Inr_iff)
      with release_in_uow_account Releasing False show ?thesis by blast
    qed
  qed
qed

lemma same_account_inv: "same_account s s' \<Longrightarrow> account_inv s \<Longrightarrow> account_inv s'"
  by (simp add: same_account_def)

lemma recover_hold_books:
  assumes "recover_hold run h s = Inr s'" "account_inv s"
  shows "account_inv s'"
proof -
  obtain l f where h: "h = (l, f)" by (cases h)
  from assms(1)[unfolded h] show ?thesis
    using assms(2) account_settle_in_uow_books account_release_in_uow_books same_account_inv
    by (cases rule: recover_hold_parts) blast+
qed

lemma recover_holds_books: "recover_holds hs run s = Inr s' \<Longrightarrow> account_inv s \<Longrightarrow> account_inv s'"
proof (induction hs run s rule: recover_holds.induct)
  case (2 h hs run s)
  then obtain s1 where "recover_hold run h s = Inr s1" "recover_holds hs run s1 = Inr s'"
    by (auto simp: ebind_Inr_iff)
  with 2 recover_hold_books show ?case by blast
qed simp

lemma committed_cases:
  obtains "committed r s = s" | x s' where "r = Inr (x, s')" "committed r s = s'"
  by (cases r) auto

lemma coordinator_recover_books:
  assumes "coordinator_recover s run = Inr s'" "account_inv s"
  shows "account_inv s'"
  using assms recover_holds_books by (auto simp: coordinator_recover_def split: if_splits)

lemma model_step_books: "account_inv s \<Longrightarrow> account_inv (model_step c s)"
proof (cases c)
  case (MC_Reserve fnc acc run op tk am fr at snap ex tier now)
  assume inv: "account_inv s"
  show ?thesis
  proof (cases "coordinator_reserve s fnc acc run op tk am fr at snap ex tier now")
    case (Inr y)
    obtain a x s' where y: "y = ((a, x), s')" by (metis prod.exhaust)
    from Inr [unfolded y] obtain s1 day where
      1: "account_reserve_in_uow s acc op tk at snap ex tier day now = Inr (a, s1)"
         "reserve_in_uow s1 fnc run op am fr False False now = Inr (x, s')"
      by (rule coordinator_reserve_parts)
    from 1(1) have "account_inv s1"
      by (rule account_reserve_in_uow_rows) (erule account_reserve_rows_books [OF _ inv])
    with same_account_inv [OF reserve_in_uow_account [OF 1(2)]] Inr y MC_Reserve show ?thesis by simp
  qed (use inv MC_Reserve in simp)
next
  case (MC_Settle acc run op tk am src qd)
  assume inv: "account_inv s"
  show ?thesis
  proof (cases "coordinator_settle s acc run op tk am src qd")
    case (Inr y)
    obtain a m s' where y: "y = ((a, m), s')" by (metis prod.exhaust)
    from Inr [unfolded y] obtain s1 where
      1: "account_settle_in_uow s acc op tk src qd = Inr (a, s1)" "settle_in_uow s1 run op am src = Inr (m, s')"
      by (rule coordinator_settle_parts)
    from same_account_inv [OF settle_in_uow_account [OF 1(2)] account_settle_in_uow_books [OF 1(1) inv]]
    show ?thesis using Inr y MC_Settle by simp
  qed (use inv MC_Settle in simp)
next
  case (MC_Release acc run op qd)
  assume inv: "account_inv s"
  show ?thesis
  proof (cases "coordinator_release s acc run op qd")
    case (Inr y)
    obtain a m s' where y: "y = ((a, m), s')" by (metis prod.exhaust)
    from Inr [unfolded y] obtain s1 where
      1: "account_release_in_uow s acc op qd = Inr (a, s1)" "release_in_uow s1 run op = Inr (m, s')"
      by (rule coordinator_release_parts)
    from same_account_inv [OF release_in_uow_account [OF 1(2)] account_release_in_uow_books [OF 1(1) inv]]
    show ?thesis using Inr y MC_Release by simp
  qed (use inv MC_Release in simp)
next
  case (MC_Freeze fnc new)
  assume inv: "account_inv s"
  show ?thesis
  proof (cases "snapshot_insert s fnc new")
    case (Inr y)
    obtain row s' where y: "y = (row, s')" by (cases y)
    from Inr [unfolded y] show ?thesis
      by (cases rule: snapshot_insert_parts) (use inv Inr y MC_Freeze in \<open>simp_all add: same_account_def\<close>)
  qed (use inv MC_Freeze in simp)
next
  case (MC_Dispatch fnc acc snap now)
  assume inv: "account_inv s"
  show ?thesis
  proof (cases "mark_dispatched s fnc acc snap now")
    case (Inr y)
    then obtain s' where y: "mark_dispatched s fnc acc snap now = Inr ((), s')" by (cases y) auto
    then show ?thesis
      by (rule mark_dispatched_parts) (use inv y MC_Dispatch in \<open>simp add: same_account_def\<close>)
  qed (use inv MC_Dispatch in simp)
next
  case (MC_Recover run)
  assume "account_inv s"
  with coordinator_recover_books [of s run] MC_Recover show ?thesis by (auto split: sum.splits)
qed

lemma model_steps_books: "account_inv s \<Longrightarrow> account_inv (model_steps cs s)"
  by (induction cs s rule: model_steps.induct) (simp_all add: model_step_books)


section \<open>A dispatched request keeps its reservation\<close>

text \<open>The rows of an Account's operation on a day belong to a snapshot and none of them is released.\<close>

definition kept_row :: "uuid \<Rightarrow> int \<Rightarrow> string \<Rightarrow> uuid \<Rightarrow> account_usage_row list \<Rightarrow> bool" where
  "kept_row acc day op snap L \<longleftrightarrow>
     list_ex (account_row_of acc day op) L \<and>
     list_all (\<lambda>r. account_row_of acc day op r \<longrightarrow> au_state r \<noteq> Released \<and> au_snapshot_id r = Some snap) L"

definition bound_dispatch :: "'a account_db_scheme \<Rightarrow> uuid \<Rightarrow> uuid \<Rightarrow> string \<Rightarrow> uuid \<Rightarrow> bool" where
  "bound_dispatch s acc run op snap \<longleftrightarrow> (acc, snap) \<in> set (dispatches s) \<and>
     list_ex (\<lambda>q. sn_account_id q = acc \<and> sn_run_id q = run \<and> sn_operation_id q = op \<and> sn_snapshot_id q = snap)
       (snapshots s)"

lemma bound_dispatch_operation: "bound_dispatch s acc run op snap \<Longrightarrow> dispatched_operation s acc run op"
  by (auto simp: bound_dispatch_def dispatched_operation_def list_ex_iff)

lemma kept_row_append: "kept_row acc day op snap L \<Longrightarrow> \<not> account_row_of acc day op r \<Longrightarrow> kept_row acc day op snap (L @ [r])"
  by (simp add: kept_row_def)

lemma kept_row_settle:
  "kept_row acc day op snap L \<Longrightarrow>
   kept_row acc day op snap (update_where (account_row_of acc' day' op') (settle_account_row a src) L)"
  by (simp add: kept_row_def list_ex_update_where list_all_update_where settle_account_row_def account_row_of_def)
     (auto simp: list_all_iff)

lemma kept_row_release:
  "kept_row acc day op snap L \<Longrightarrow> (acc', day', op') \<noteq> (acc, day, op) \<Longrightarrow>
   kept_row acc day op snap (update_where (account_row_of acc' day' op') release_account_row L)"
  by (simp add: kept_row_def list_ex_update_where list_all_update_where release_account_row_def account_row_of_def)
     (auto simp: list_all_iff)

definition kept :: "uuid \<Rightarrow> uuid \<Rightarrow> int \<Rightarrow> string \<Rightarrow> uuid \<Rightarrow> 'a account_db_scheme \<Rightarrow> bool" where
  "kept acc run day op snap s \<longleftrightarrow> kept_row acc day op snap (account_usage s) \<and> bound_dispatch s acc run op snap"

lemma kept_same: "same_account s s' \<Longrightarrow> kept acc run day op snap s \<Longrightarrow> kept acc run day op snap s'"
  by (simp add: kept_def same_account_def bound_dispatch_def)

lemma kept_settle:
  assumes "account_settle_in_uow s acc' op' tk src qd = Inr (m, s')" "kept acc run day op snap s"
  shows "kept acc run day op snap s'"
  using assms(1)
  by (cases rule: account_settle_in_uow_cases)
     (use assms(2) in \<open>simp_all add: kept_def bound_dispatch_def kept_row_settle\<close>)

lemma kept_release:
  assumes "account_release_in_uow s acc' op' qd = Inr (m, s')" "kept acc run day op snap s"
    and "acc' = acc \<and> op' = op \<longrightarrow> qd \<noteq> None \<and> qd \<noteq> Some day"
  shows "kept acc run day op snap s'"
  using assms(1)
proof (cases rule: account_release_in_uow_cases)
  case (Releasing day' row)
  have "(acc', day', op') \<noteq> (acc, day, op)"
    using assms(3) locked_ledger_row(3) [OF Releasing(1)] by (cases qd) auto
  with assms(2) show ?thesis by (simp add: Releasing(3) kept_def bound_dispatch_def kept_row_release)
qed (use assms in simp)

lemma kept_reserve:
  assumes "account_reserve_rows s e acc' day' op' req snap' = Inr (m, s')" "kept acc run day op snap s"
  shows "kept acc run day op snap s'"
  using assms(1)
proof (cases rule: account_reserve_rows_cases)
  case Fresh
  have "(acc', day', op') \<noteq> (acc, day, op)"
    using Fresh(1) assms(2) by (auto simp: kept_def kept_row_def find_None_iff list_ex_iff)
  with assms(2) kept_row_append show ?thesis
    by (auto simp: Fresh(4) kept_def bound_dispatch_def account_row_of_def)
qed (use assms in \<open>simp add: kept_def bound_dispatch_def\<close>)

text \<open>Recovery decides by the dispatch mark of the hold's own snapshot.\<close>

lemma kept_recover_hold:
  assumes "recover_hold run' (l, f) s = Inr s'" "kept acc run day op snap s"
    and "account_row_of acc day op l \<longrightarrow> f" "au_account_id l = r_account_id run'"
  shows "kept acc run day op snap s'"
  using assms(1)
proof (cases rule: recover_hold_parts)
  case Skipped
  with assms(2) show ?thesis by simp
next
  case (Settling m s1)
  from kept_same [OF Settling(3) kept_settle [OF Settling(2) assms(2)]] show ?thesis .
next
  case (Releasing m s1)
  have "r_account_id run' = acc \<and> au_operation_id l = op \<longrightarrow>
      Some (au_quota_date l) \<noteq> None \<and> Some (au_quota_date l) \<noteq> Some day"
    using assms(3,4) Releasing(1) by (auto simp: account_row_of_def)
  from kept_same [OF Releasing(3) kept_release [OF Releasing(2) assms(2) this]] show ?thesis .
qed

lemma kept_recover_holds:
  assumes "recover_holds hs run' s = Inr s'" "kept acc run day op snap s"
    and "list_all (\<lambda>(l, f). (account_row_of acc day op l \<longrightarrow> f) \<and> au_account_id l = r_account_id run') hs"
  shows "kept acc run day op snap s'"
  using assms
proof (induction hs run' s rule: recover_holds.induct)
  case (2 h hs run' s)
  obtain l f where h: "h = (l, f)" by (cases h)
  from 2(2) obtain s1 where s1: "recover_hold run' h s = Inr s1" "recover_holds hs run' s1 = Inr s'"
    by (auto simp: ebind_Inr_iff)
  have "kept acc run day op snap s1"
    using kept_recover_hold [OF s1(1)[unfolded h] 2(3)] 2(4) h by simp
  from 2(1) [OF s1(2) this] 2(4) show ?case by simp
qed simp

lemma model_holds_flags:
  assumes "kept acc run day op snap s"
  shows "list_all (\<lambda>(l, f). (account_row_of acc day op l \<longrightarrow> f) \<and> au_account_id l = r_account_id run') (model_holds s run')"
  using assms
  by (auto simp: model_holds_def list_all_iff kept_def kept_row_def bound_dispatch_def account_row_of_def)

lemma kept_coordinator_recover:
  assumes "coordinator_recover s run' = Inr s'" "kept acc run day op snap s"
  shows "kept acc run day op snap s'"
  using assms kept_recover_holds [OF _ assms(2) model_holds_flags [OF assms(2)]]
  by (auto simp: coordinator_recover_def split: if_splits)

text \<open>A release of the operation names the operation's own Run.\<close>

fun releases_own_run :: "uuid \<Rightarrow> uuid \<Rightarrow> string \<Rightarrow> model_call \<Rightarrow> bool" where
  "releases_own_run acc run op (MC_Release acc' run' op' _) = (acc' = acc \<and> op' = op \<longrightarrow> run' = run)"
| "releases_own_run acc run op _ = True"

lemma kept_model_step:
  assumes "kept acc run day op snap s" "releases_own_run acc run op c"
  shows "kept acc run day op snap (model_step c s)"
proof (cases c)
  case (MC_Reserve fnc acc' run' op' tk am fr at snap' ex tier now)
  show ?thesis
  proof (cases "coordinator_reserve s fnc acc' run' op' tk am fr at snap' ex tier now")
    case (Inr y)
    obtain a x s' where y: "y = ((a, x), s')" by (metis prod.exhaust)
    from Inr [unfolded y] obtain s1 day' where
      1: "account_reserve_in_uow s acc' op' tk at snap' ex tier day' now = Inr (a, s1)"
         "reserve_in_uow s1 fnc run' op' am fr False False now = Inr (x, s')"
      by (rule coordinator_reserve_parts)
    from 1(1) have "kept acc run day op snap s1"
      by (rule account_reserve_in_uow_rows) (erule kept_reserve [OF _ assms(1)])
    with kept_same [OF reserve_in_uow_account [OF 1(2)]] Inr y MC_Reserve show ?thesis by simp
  qed (use assms MC_Reserve in simp)
next
  case (MC_Settle acc' run' op' tk am src qd)
  show ?thesis
  proof (cases "coordinator_settle s acc' run' op' tk am src qd")
    case (Inr y)
    obtain a m s' where y: "y = ((a, m), s')" by (metis prod.exhaust)
    from Inr [unfolded y] obtain s1 where
      1: "account_settle_in_uow s acc' op' tk src qd = Inr (a, s1)" "settle_in_uow s1 run' op' am src = Inr (m, s')"
      by (rule coordinator_settle_parts)
    from kept_same [OF settle_in_uow_account [OF 1(2)] kept_settle [OF 1(1) assms(1)]]
    show ?thesis using Inr y MC_Settle by simp
  qed (use assms MC_Settle in simp)
next
  case (MC_Release acc' run' op' qd)
  show ?thesis
  proof (cases "coordinator_release s acc' run' op' qd")
    case (Inr y)
    obtain a m s' where y: "y = ((a, m), s')" by (metis prod.exhaust)
    from Inr [unfolded y] obtain s1 where
      1: "\<not> dispatched_operation s acc' run' op'" "account_release_in_uow s acc' op' qd = Inr (a, s1)"
        "release_in_uow s1 run' op' = Inr (m, s')"
      by (rule coordinator_release_parts)
    have "\<not> (acc' = acc \<and> op' = op)"
      using 1(1) assms bound_dispatch_operation [of s acc run op snap] MC_Release by (auto simp: kept_def)
    then have "acc' = acc \<and> op' = op \<longrightarrow> qd \<noteq> None \<and> qd \<noteq> Some day" by blast
    from kept_same [OF release_in_uow_account [OF 1(3)] kept_release [OF 1(2) assms(1) this]]
    show ?thesis using Inr y MC_Release by simp
  qed (use assms MC_Release in simp)
next
  case (MC_Freeze fnc new)
  show ?thesis
  proof (cases "snapshot_insert s fnc new")
    case (Inr y)
    obtain row s' where y: "y = (row, s')" by (cases y)
    from Inr [unfolded y] show ?thesis
      by (cases rule: snapshot_insert_parts)
         (use assms Inr y MC_Freeze in \<open>simp_all add: same_account_def kept_def bound_dispatch_def\<close>)
  qed (use assms MC_Freeze in simp)
next
  case (MC_Dispatch fnc acc' snap' now)
  show ?thesis
  proof (cases "mark_dispatched s fnc acc' snap' now")
    case (Inr y)
    then obtain s' where y: "mark_dispatched s fnc acc' snap' now = Inr ((), s')" by (cases y) auto
    then show ?thesis
      by (rule mark_dispatched_parts)
         (use assms y MC_Dispatch in \<open>simp add: same_account_def kept_def bound_dispatch_def\<close>)
  qed (use assms MC_Dispatch in simp)
next
  case (MC_Recover run')
  with assms kept_coordinator_recover [of s run'] show ?thesis by (auto split: sum.splits)
qed

lemma kept_model_steps:
  "kept acc run day op snap s \<Longrightarrow> list_all (releases_own_run acc run op) cs \<Longrightarrow> kept acc run day op snap (model_steps cs s)"
  by (induction cs s rule: model_steps.induct) (simp_all add: kept_model_step)

lemma dispatched_again:
  "(acc, snap) \<in> set (dispatches s) \<Longrightarrow> mark_dispatched s fnc acc snap now \<noteq> Inr ((), s')"
  using mark_dispatched_parts by metis


section \<open>The properties\<close>

definition demo_snapshot :: snapshot_row where
  "demo_snapshot = \<lparr>sn_account_id = ''acc'', sn_snapshot_id = ''snap'', sn_run_id = ''r'', sn_model_call_id = ''c'',
     sn_fallback_attempt = 1, sn_operation_id = ''op1'', sn_content_hash = ''h'', sn_entitlement_version = 1,
     sn_execution_id = Some ''e'', sn_memory_context = None\<rparr>"

definition demo_account :: account_db where
  "demo_account =
    \<lparr>accounts = accounts demo_db, conversations = [], works = works demo_db, runs = runs demo_db,
     executions = executions demo_db, leases = leases demo_db, waits = [], memory_actions = [], memory_sources = [],
     run_budgets = (\<lambda>x. if x = ''r'' then Some \<lparr>b_mode = ''enforce'', b_status = ''active'',
        b_limits = [(''model_total_tokens'', 100)], b_used = [], b_reserved = [],
        b_final_response_reserve_tokens = 0\<rparr> else None),
     run_usage = [],
     work_budgets = (\<lambda>x. if x = (''acc'', ''w'') then Some \<lparr>wb_limits = [(''model_total_tokens'', 90)],
        wb_used = [], wb_reserved = [], wb_version = 1\<rparr> else None),
     work_usage = [], invocation_limits = [],
     entitlements = (\<lambda>x. if x = ''acc'' then Some \<lparr>en_model_access_tier = ''basic'', en_daily_token_limit = Some 60,
        en_prompt_visibility = ''none'', en_expires_at = Some 1000000, en_version = 1\<rparr> else None),
     daily_budgets = (\<lambda>_. None), account_usage = [], snapshots = [demo_snapshot], dispatches = []\<rparr>"

definition demo_reserve_call :: "((account_mutation \<times> reserve_outcome) \<times> account_db) res" where
  "demo_reserve_call = coordinator_reserve demo_account None ''acc'' ''r'' ''op1'' (JInt 50)
     [(''model_total_tokens'', JInt 50)] False (Some 90000) (Some ''snap'') (Some 1) (Some ''basic'') 90000"

definition demo_paid :: account_db where
  "demo_paid = committed demo_reserve_call demo_account"

lemma demo_account_inv: "account_inv demo_account"
  by (simp add: account_books_def account_ledger_ok_def demo_account_def)

lemma demo_paid_eq: "\<exists>x. coordinator_reserve demo_account None ''acc'' ''r'' ''op1'' (JInt 50)
     [(''model_total_tokens'', JInt 50)] False (Some 90000) (Some ''snap'') (Some 1) (Some ''basic'') 90000
   = Inr ((\<lparr>am_account_id = ''acc'', am_quota_date = 1, am_operation_id = ''op1'', am_tokens = 50, am_state = Reserved,
           am_replayed = False\<rparr>, x), demo_paid)"
proof (cases demo_reserve_call)
  case (Inl e)
  moreover have "\<not> isl demo_reserve_call" by code_simp
  ultimately show ?thesis by (metis sum.disc(1))
next
  case (Inr y)
  obtain a x s' where y: "y = ((a, x), s')" by (metis prod.exhaust)
  have "fst (fst (projr demo_reserve_call)) = \<lparr>am_account_id = ''acc'', am_quota_date = 1, am_operation_id = ''op1'',
      am_tokens = 50, am_state = Reserved, am_replayed = False\<rparr>" by code_simp
  then have "a = \<lparr>am_account_id = ''acc'', am_quota_date = 1, am_operation_id = ''op1'',
      am_tokens = 50, am_state = Reserved, am_replayed = False\<rparr>" "s' = demo_paid"
    unfolding demo_paid_def Inr y by simp_all
  then show ?thesis using Inr y unfolding demo_reserve_call_def by blast
qed

text \<open>C18. A model reservation newly granted to an Account is covered by an unexpired entitlement of the
  expected version whose tier admits the endpoint, and keeps everything the Account has used and holds
  on that quota date within the daily token limit.\<close>

theorem account_daily_limit:
  assumes "account_inv s" and "\<not> am_replayed a"
    and "coordinator_reserve s fnc acc run op tk am fr at snap ex tier now = Inr ((a, x), s')"
  shows "account_active s acc \<and> (\<exists>e. entitlements s acc = Some e \<and>
    (\<forall>t. en_expires_at e = Some t \<longrightarrow> (case at of None \<Rightarrow> now | Some t' \<Rightarrow> t') < t) \<and>
    (ex = None \<or> ex = Some (en_version e)) \<and>
    (tier = None \<or> en_model_access_tier e = ''owner'' \<or> tier = Some (en_model_access_tier e)) \<and>
    (\<forall>l. en_daily_token_limit e = Some l \<longrightarrow>
       account_spent (acc, am_quota_date a) (account_usage s') + account_held (acc, am_quota_date a) (account_usage s') \<le> l))"
proof -
  obtain s1 day where 1: "account_reserve_in_uow s acc op tk at snap ex tier day now = Inr (a, s1)"
      "reserve_in_uow s1 fnc run op am fr False False now = Inr (x, s')"
    using assms(3) by (rule coordinator_reserve_parts)
  obtain req e where 2: "entitled (entitlement_get_in_uow s acc at now) ex tier = Inr e"
      "account_reserve_rows s e acc (case day of Some d \<Rightarrow> d | None \<Rightarrow> quota_date at now) op req snap = Inr (a, s1)"
    using 1(1) by (rule account_reserve_in_uow_rows)
  have 3: "account_usage s' = account_usage s1"
    using reserve_in_uow_account [OF 1(2)] by (simp add: same_account_def)
  have ent: "account_active s acc" "entitlements s acc = Some e"
    "\<forall>t. en_expires_at e = Some t \<longrightarrow> (case at of None \<Rightarrow> now | Some t' \<Rightarrow> t') < t"
    "ex = None \<or> ex = Some (en_version e)"
    "tier = None \<or> en_model_access_tier e = ''owner'' \<or> tier = Some (en_model_access_tier e)"
    using 2(1) by (auto simp: entitled_def entitlement_get_in_uow_def split: option.splits if_splits)
  from 2(2) have "\<forall>l. en_daily_token_limit e = Some l \<longrightarrow>
       account_spent (acc, am_quota_date a) (account_usage s') + account_held (acc, am_quota_date a) (account_usage s') \<le> l"
  proof (cases rule: account_reserve_rows_cases)
    case (Replayed r)
    with assms(2) show ?thesis by simp
  next
    case Fresh
    have "account_usage s1 = account_usage s @ [\<lparr>au_account_id = acc, au_quota_date = am_quota_date a, au_operation_id = op,
                au_snapshot_id = snap, au_state = Reserved, au_reserved_tokens = req, au_actual_tokens = None,
                au_usage_source = None\<rparr>]"
      by (simp add: Fresh(2,4))
    then have "account_spent (acc, am_quota_date a) (account_usage s') = account_spent (acc, am_quota_date a) (account_usage s)"
      "account_held (acc, am_quota_date a) (account_usage s') = account_held (acc, am_quota_date a) (account_usage s) + req"
      by (simp_all add: 3 account_new_row)
    with Fresh(2,3) daily_of_books [OF assms(1), of acc "am_quota_date a"] show ?thesis by force
  qed
  with ent show ?thesis by blast
qed

theorem account_daily_limit_witness:
  "account_spent (''acc'', 1) (account_usage demo_paid) + account_held (''acc'', 1) (account_usage demo_paid) \<le> 60"
proof -
  from demo_paid_eq obtain x where "coordinator_reserve demo_account None ''acc'' ''r'' ''op1'' (JInt 50)
     [(''model_total_tokens'', JInt 50)] False (Some 90000) (Some ''snap'') (Some 1) (Some ''basic'') 90000
   = Inr ((\<lparr>am_account_id = ''acc'', am_quota_date = 1, am_operation_id = ''op1'', am_tokens = 50, am_state = Reserved,
           am_replayed = False\<rparr>, x), demo_paid)" by blast
  from account_daily_limit [OF demo_account_inv _ this] show ?thesis by (simp add: demo_account_def)
qed

text \<open>C19. After any sequence of coordinated reservations, settlements, releases, freezes, dispatches and
  recoveries, the two columns of an Account's day are what its ledger rows of that day hold and have used.\<close>

theorem account_columns_are_ledger_sums:
  assumes "account_inv s" and "daily_budgets (model_steps calls s) (acc, day) = Some d"
  shows "d_reserved_tokens d = account_held (acc, day) (account_usage (model_steps calls s)) \<and>
         d_used_tokens d = account_spent (acc, day) (account_usage (model_steps calls s))"
  using account_booksD(1,2) [OF model_steps_books [OF assms(1)] assms(2)] by simp

definition demo_model_calls :: "model_call list" where
  "demo_model_calls = [MC_Reserve None ''acc'' ''r'' ''op1'' (JInt 50) [(''model_total_tokens'', JInt 50)] False (Some 90000)
       (Some ''snap'') (Some 1) (Some ''basic'') 90000,
     MC_Dispatch None ''acc'' ''snap'' 90001, MC_Release ''acc'' ''r'' ''op1'' None,
     MC_Settle ''acc'' ''r'' ''op1'' (JInt 40) [(''model_total_tokens'', JInt 40)] ''provider'' None]"

theorem account_columns_are_ledger_sums_witness:
  "account_spent (''acc'', 1) (account_usage (model_steps demo_model_calls demo_account)) = 40"
proof -
  have "daily_budgets (model_steps demo_model_calls demo_account) (''acc'', 1) = Some \<lparr>d_used_tokens = 40, d_reserved_tokens = 0\<rparr>"
    by code_simp
  from account_columns_are_ledger_sums [OF demo_account_inv this] show ?thesis by simp
qed

text \<open>C20. A model request is dispatched at most once, and only against a reservation; from then on no
  sequence of coordinated calls, recovery included, releases that reservation (releases of the operation
  naming its own Run): it stays held or is settled.\<close>

theorem dispatched_hold_is_never_released:
  assumes "account_inv s" and "mark_dispatched s fnc acc snap now = Inr ((), s1)"
    and "find (\<lambda>q. sn_account_id q = acc \<and> sn_snapshot_id q = snap) (snapshots s) = Some q"
    and "row \<in> set (account_usage s)" and "account_row_of acc day (sn_operation_id q) row"
    and "au_snapshot_id row = Some snap"
    and "list_all (releases_own_run acc (sn_run_id q) (sn_operation_id q)) calls"
  shows "au_state row = Reserved \<and>
    (\<forall>r \<in> set (account_usage (model_steps calls s1)).
       account_row_of acc day (sn_operation_id q) r \<longrightarrow> au_state r \<in> {Reserved, Settled}) \<and>
    (\<forall>fnc2 now2 s2. mark_dispatched (model_steps calls s1) fnc2 acc snap now2 \<noteq> Inr ((), s2))"
proof -
  let ?op = "sn_operation_id q"
  obtain q' s2 day' row' where 1: "same_account s s2"
    "find (\<lambda>q. sn_account_id q = acc \<and> sn_snapshot_id q = snap) (snapshots s2) = Some q'"
    "locked_ledger s2 acc (sn_operation_id q') None = Inr (day', row')" "au_state row' = Reserved"
    "s1 = s2\<lparr>dispatches := dispatches s2 @ [(acc, snap)]\<rparr>"
    using assms(2) by (rule mark_dispatched_parts)
  have q': "q' = q" using 1(1,2) assms(3) by (simp add: same_account_def)
  obtain x where x: "filter (\<lambda>r. au_account_id r = acc \<and> au_operation_id r = ?op) (account_usage s) = [x]"
      "day' = au_quota_date x"
    using 1(1,3) q' by (auto simp: locked_ledger_def same_account_def ebind_Inr_iff ensure_Inr_iff split: list.splits option.splits)
  have "row \<in> set (filter (\<lambda>r. au_account_id r = acc \<and> au_operation_id r = ?op) (account_usage s))"
    using assms(4,5) by (simp add: account_row_of_def)
  then have row: "row = x" using x by simp
  have day: "day' = day" using assms(5) row x by (simp add: account_row_of_def)
  have au: "account_usage s2 = account_usage s" using 1(1) by (simp add: same_account_def)
  have "find (account_row_of acc day ?op) (account_usage s) = Some row'"
    using locked_ledger_row(1) [OF 1(3)] unfolding q' day au .
  from find_SomeD [OF this] have "row' \<in> set (account_usage s)" "account_row_of acc day ?op row'" by auto
  then have "row' \<in> set (filter (\<lambda>r. au_account_id r = acc \<and> au_operation_id r = ?op) (account_usage s))"
    by (simp add: account_row_of_def)
  then have row': "row' = row" unfolding x row by simp
  have only: "\<forall>r \<in> set (account_usage s). account_row_of acc day ?op r \<longrightarrow> r = row"
  proof (intro ballI impI)
    fix r assume "r \<in> set (account_usage s)" "account_row_of acc day ?op r"
    then have "r \<in> set (filter (\<lambda>r. au_account_id r = acc \<and> au_operation_id r = ?op) (account_usage s))"
      by (simp add: account_row_of_def)
    with x row show "r = row" by simp
  qed
  have "kept_row acc day ?op snap (account_usage s)"
    unfolding kept_row_def list_ex_iff list_all_iff
  proof (intro conjI ballI impI)
    show "\<exists>r \<in> set (account_usage s). account_row_of acc day ?op r" using assms(4,5) by blast
    fix r assume "r \<in> set (account_usage s)" "account_row_of acc day ?op r"
    with only have "r = row" by blast
    then show "au_state r \<noteq> Released" "au_snapshot_id r = Some snap"
      using 1(4) row' assms(6) by simp_all
  qed
  moreover have "bound_dispatch s1 acc (sn_run_id q) ?op snap"
    using find_SomeD [OF 1(2)] q' by (auto simp: bound_dispatch_def 1(5) list_ex_iff)
  ultimately have "kept acc (sn_run_id q) day ?op snap s1"
    using 1(1) by (simp add: kept_def 1(5) same_account_def)
  from kept_model_steps [OF this assms(7)]
  have k: "kept acc (sn_run_id q) day ?op snap (model_steps calls s1)" .
  have "au_state r \<in> {Reserved, Settled}"
    if "r \<in> set (account_usage (model_steps calls s1))" "account_row_of acc day ?op r" for r
    using k that by (cases "au_state r") (auto simp: kept_def kept_row_def list_all_iff)
  moreover have "mark_dispatched (model_steps calls s1) fnc2 acc snap now2 \<noteq> Inr ((), s2)" for fnc2 now2 s2
    using k by (intro dispatched_again) (simp add: kept_def bound_dispatch_def)
  ultimately show ?thesis using 1(4) row' by blast
qed


definition demo_dispatch :: "(unit \<times> account_db) res" where
  "demo_dispatch = mark_dispatched demo_paid None ''acc'' ''snap'' 90001"

lemma demo_dispatch_ok: "\<exists>s1. mark_dispatched demo_paid None ''acc'' ''snap'' 90001 = Inr ((), s1)"
proof -
  have "\<not> isl demo_dispatch" by code_simp
  then show ?thesis unfolding demo_dispatch_def
    by (cases "mark_dispatched demo_paid None ''acc'' ''snap'' 90001") auto
qed

lemma demo_paid_inv: "account_inv demo_paid"
proof -
  have "demo_paid = model_step (MC_Reserve None ''acc'' ''r'' ''op1'' (JInt 50) [(''model_total_tokens'', JInt 50)] False
      (Some 90000) (Some ''snap'') (Some 1) (Some ''basic'') 90000) demo_account" (is "_ = model_step ?c _")
    by (simp add: demo_paid_def demo_reserve_call_def)
  then show ?thesis by (metis model_step_books [OF demo_account_inv, of ?c])
qed

theorem dispatched_hold_is_never_released_witness:
  "\<exists>s1. mark_dispatched demo_paid None ''acc'' ''snap'' 90001 = Inr ((), s1) \<and>
    (\<forall>r \<in> set (account_usage (model_steps [MC_Release ''acc'' ''r'' ''op1'' None] s1)).
       account_row_of ''acc'' 1 ''op1'' r \<longrightarrow> au_state r \<in> {Reserved, Settled})"
proof -
  obtain s1 where s1: "mark_dispatched demo_paid None ''acc'' ''snap'' 90001 = Inr ((), s1)"
    using demo_dispatch_ok by blast
  let ?row = "\<lparr>au_account_id = ''acc'', au_quota_date = 1, au_operation_id = ''op1'', au_snapshot_id = Some ''snap'',
      au_state = Reserved, au_reserved_tokens = 50, au_actual_tokens = None, au_usage_source = None\<rparr>"
  have rows: "account_usage demo_paid = [?row]" by code_simp
  have q: "find (\<lambda>q. sn_account_id q = ''acc'' \<and> sn_snapshot_id q = ''snap'') (snapshots demo_paid) = Some demo_snapshot"
    by code_simp
  have op: "sn_operation_id demo_snapshot = ''op1''" "sn_run_id demo_snapshot = ''r''"
    by (simp_all add: demo_snapshot_def)
  from dispatched_hold_is_never_released [OF demo_paid_inv s1 q, of ?row 1 "[MC_Release ''acc'' ''r'' ''op1'' None]"]
  have "\<forall>r \<in> set (account_usage (model_steps [MC_Release ''acc'' ''r'' ''op1'' None] s1)).
       account_row_of ''acc'' 1 ''op1'' r \<longrightarrow> au_state r \<in> {Reserved, Settled}"
    unfolding op rows by (simp add: account_row_of_def)
  with s1 show ?thesis by blast
qed

end
