(* ===== verification/Lease_Store.thy ===== *)
theory Lease_Store
  imports Authority
begin

text \<open>
  Who drives an Execution: attempt leases with their fencing tokens, execution segments and durable
  waits. Models the lease, segment and wait operations of \<open>agent_activities/store.py\<close>, their
  Activities in \<open>agent_activities/segments.py\<close> and the contracts of
  \<open>agent_workflows/lifecycle_contracts.py\<close>. \<open>ttl\<close> is \<open>lease_ttl_seconds\<close>, \<open>now\<close> the database clock.
\<close>

section \<open>Data\<close>

definition LIFECYCLE_SCHEMA_VERSION :: int where
  "LIFECYCLE_SCHEMA_VERSION = 2"

record segment_input =
  si_schema_version :: int
  si_run_id :: uuid
  si_account_id :: uuid
  si_segment_id :: string
  si_execution_id :: uuid

record segment_lease =
  sl_acquired :: bool
  sl_fencing_token :: int

record wait_input =
  wi_schema_version :: int
  wi_run_id :: uuid
  wi_account_id :: uuid
  wi_wait_id :: string
  wi_operation_id :: string
  wi_reason :: string
  wi_resume_ref :: string
  wi_deadline :: string
  wi_execution_id :: uuid

record finish_wait_input =
  fw_wait :: wait_input
  fw_state :: wait_state

datatype segment_state = Requested | Active | Segment_Released

record segment_row =
  sg_run_id :: uuid
  sg_account_id :: uuid
  sg_execution_id :: uuid
  sg_fencing_token :: "int option"
  sg_state :: segment_state

record execution_lease =
  xl_account_id :: uuid
  xl_run_id :: uuid
  xl_fencing_token :: int
  xl_lease_expires_at :: int
  xl_execution_id :: uuid

record lease_db = authority_db +
  segments :: "string \<Rightarrow> segment_row option"

section \<open>Leases\<close>

definition store_init :: "int \<Rightarrow> int res" where
  "store_init lease_ttl_seconds =
     ensure (lease_ttl_seconds > 0) (ValueError ''lease_ttl_seconds must be positive'') (Inr lease_ttl_seconds)"

definition lease_active :: "lease_row \<Rightarrow> int \<Rightarrow> bool" where
  "lease_active l now = (case l_lease_expires_at l of None \<Rightarrow> False | Some t \<Rightarrow> t > now)"

text \<open>\<open>_acquire\<close>: only an active lease of the same segment keeps its token.\<close>

definition acquire_row ::
  "'a lease_db_scheme \<Rightarrow> uuid \<Rightarrow> uuid \<Rightarrow> uuid \<Rightarrow> string option \<Rightarrow> int \<Rightarrow> int \<Rightarrow>
   (execution_lease \<times> 'a lease_db_scheme) res" where
  "acquire_row s acc run ex segment_id ttl now =
     (let l = (case leases s ex of
                 Some l \<Rightarrow> l
               | None \<Rightarrow> \<lparr>l_account_id = acc, l_run_id = run, l_owner_segment_id = None,
                          l_fencing_token = 0, l_lease_expires_at = None\<rparr>);
          same = (lease_active l now \<and> l_owner_segment_id l = segment_id) in
      if lease_active l now \<and> \<not> same then Inl LeaseConflict
      else
        (let token = l_fencing_token l + (if same then 0 else 1) in
         Inr (\<lparr>xl_account_id = acc, xl_run_id = run, xl_fencing_token = token,
               xl_lease_expires_at = now + ttl, xl_execution_id = ex\<rparr>,
              s\<lparr>leases := (leases s)(ex \<mapsto> l\<lparr>l_owner_segment_id := segment_id, l_fencing_token := token,
                   l_lease_expires_at := Some (now + ttl)\<rparr>),
                executions := update_where (\<lambda>e. e_execution_id e = ex)
                  (\<lambda>e. e\<lparr>e_attempt_no := token, e_status := Running\<rparr>) (executions s)\<rparr>)))"

definition acquire ::
  "'a lease_db_scheme \<Rightarrow> fence \<Rightarrow> uuid \<Rightarrow> uuid \<Rightarrow> uuid \<Rightarrow> string option \<Rightarrow> int \<Rightarrow> int \<Rightarrow>
   (execution_lease \<times> 'a lease_db_scheme) res" where
  "acquire s fnc acc run ex segment_id ttl now =
     ebind (lock_execution s fnc acc run (Some ex)) (\<lambda>e.
     ensure (e_status e \<in> {Queued, Running}) RunNotExecutable (acquire_row s acc run ex segment_id ttl now))"

definition acquire_lease ::
  "'a lease_db_scheme \<Rightarrow> fence \<Rightarrow> uuid \<Rightarrow> uuid \<Rightarrow> uuid option \<Rightarrow> int \<Rightarrow> int \<Rightarrow>
   (execution_lease \<times> 'a lease_db_scheme) res" where
  "acquire_lease s fnc acc run ex ttl now =
     ebind (require_active_run s acc run) (\<lambda>_.
     ebind (lock_execution s fnc acc run ex) (\<lambda>e. acquire s fnc acc run (e_execution_id e) None ttl now))"

text \<open>\<open>UPDATE execution_attempt_leases \<dots> WHERE account, run, execution, token RETURNING\<close>.\<close>

definition lease_matches :: "'a authority_db_scheme \<Rightarrow> uuid \<Rightarrow> uuid \<Rightarrow> uuid \<Rightarrow> int \<Rightarrow> bool" where
  "lease_matches s acc run ex token =
     (case leases s ex of None \<Rightarrow> False
      | Some l \<Rightarrow> l_account_id l = acc \<and> l_run_id l = run \<and> l_fencing_token l = token)"

definition validate_and_renew_lease ::
  "'a lease_db_scheme \<Rightarrow> fence \<Rightarrow> uuid \<Rightarrow> uuid \<Rightarrow> int \<Rightarrow> uuid option \<Rightarrow> int \<Rightarrow> int \<Rightarrow>
   (execution_lease \<times> 'a lease_db_scheme) res" where
  "validate_and_renew_lease s fnc acc run token ex ttl now =
     (case require_active_run s acc run of
        Inl e \<Rightarrow> Inl (if e = RunNotExecutable then StaleFencingToken else e)
      | Inr _ \<Rightarrow>
          ebind (lock_execution s fnc acc run ex) (\<lambda>e.
          ensure (e_status e \<in> {Queued, Running}) StaleFencingToken
          (ensure (lease_live s acc run (e_execution_id e) token now) StaleFencingToken
            (Inr (\<lparr>xl_account_id = acc, xl_run_id = run, xl_fencing_token = token,
                   xl_lease_expires_at = now + ttl, xl_execution_id = e_execution_id e\<rparr>,
                  s\<lparr>leases := (leases s)(e_execution_id e := map_option
                      (\<lambda>l. l\<lparr>l_lease_expires_at := Some (now + ttl)\<rparr>) (leases s (e_execution_id e)))\<rparr>)))))"

definition release_lease ::
  "'a lease_db_scheme \<Rightarrow> fence \<Rightarrow> uuid \<Rightarrow> uuid \<Rightarrow> int \<Rightarrow> uuid option \<Rightarrow> (bool \<times> 'a lease_db_scheme) res" where
  "release_lease s fnc acc run token ex =
     ebind (lock_execution s fnc acc run ex) (\<lambda>e.
       if lease_matches s acc run (e_execution_id e) token
       then Inr (True, s\<lparr>leases := (leases s)(e_execution_id e := map_option
                  (\<lambda>l. l\<lparr>l_owner_segment_id := None, l_lease_expires_at := None\<rparr>) (leases s (e_execution_id e)))\<rparr>)
       else Inr (False, s))"

section \<open>Segments\<close>

definition new_segment :: "segment_input \<Rightarrow> segment_state \<Rightarrow> segment_row" where
  "new_segment request st = \<lparr>sg_run_id = si_run_id request, sg_account_id = si_account_id request,
     sg_execution_id = si_execution_id request, sg_fencing_token = None, sg_state = st\<rparr>"

definition insert_segment ::
  "segment_input \<Rightarrow> segment_state \<Rightarrow> 'a lease_db_scheme \<Rightarrow> 'a lease_db_scheme" where
  "insert_segment request st s =
     (case segments s (si_segment_id request) of
        Some _ \<Rightarrow> s
      | None \<Rightarrow> s\<lparr>segments := (segments s)(si_segment_id request \<mapsto> new_segment request st)\<rparr>)"

definition segment_owned :: "segment_input \<Rightarrow> segment_row \<Rightarrow> bool" where
  "segment_owned request g \<longleftrightarrow> sg_run_id g = si_run_id request \<and> sg_account_id g = si_account_id request
     \<and> sg_execution_id g = si_execution_id request"

definition acquire_segment ::
  "'a lease_db_scheme \<Rightarrow> fence \<Rightarrow> segment_input \<Rightarrow> int \<Rightarrow> int \<Rightarrow> (int \<times> 'a lease_db_scheme) res" where
  "acquire_segment s fnc request ttl now =
     ebind (require_active_run s (si_account_id request) (si_run_id request)) (\<lambda>_.
     ebind (lock_execution s fnc (si_account_id request) (si_run_id request) (Some (si_execution_id request))) (\<lambda>_.
       if list_ex (\<lambda>w. wt_execution_id w = si_execution_id request \<and> wt_state w = Waiting) (waits s)
       then Inl LeaseConflict
       else
         (let s1 = insert_segment request Requested s in
          case segments s1 (si_segment_id request) of
            None \<Rightarrow> Inl (RuntimeError ''NoneType'')
          | Some g \<Rightarrow>
              if \<not> segment_owned request g \<or> sg_state g = Segment_Released then Inl SegmentClosed
              else
                ebind (acquire s1 fnc (si_account_id request) (si_run_id request) (si_execution_id request)
                         (Some (si_segment_id request)) ttl now) (\<lambda>(lease, s2).
                Inr (xl_fencing_token lease,
                     s2\<lparr>segments := (segments s2)(si_segment_id request \<mapsto>
                         g\<lparr>sg_state := Active, sg_fencing_token := Some (xl_fencing_token lease)\<rparr>)\<rparr>)))))"

definition release_segment ::
  "'a lease_db_scheme \<Rightarrow> fence \<Rightarrow> segment_input \<Rightarrow> (unit \<times> 'a lease_db_scheme) res" where
  "release_segment s fnc request =
     ebind (lock s (si_account_id request) (si_run_id request)) (\<lambda>_.
     ebind (lock_execution s fnc (si_account_id request) (si_run_id request) (Some (si_execution_id request))) (\<lambda>_.
       let s1 = insert_segment request Segment_Released s in
       Inr ((), s1\<lparr>segments := (segments s1)(si_segment_id request := map_option
                    (\<lambda>g. if segment_owned request g then g\<lparr>sg_state := Segment_Released\<rparr> else g)
                    (segments s1 (si_segment_id request))),
                  leases := (leases s1)(si_execution_id request := map_option
                    (\<lambda>l. if l_account_id l = si_account_id request \<and> l_run_id l = si_run_id request
                            \<and> l_owner_segment_id l = Some (si_segment_id request)
                         then l\<lparr>l_owner_segment_id := None, l_lease_expires_at := None\<rparr> else l)
                    (leases s1 (si_execution_id request)))\<rparr>)))"

section \<open>Durable waits\<close>

definition begin_wait ::
  "'a lease_db_scheme \<Rightarrow> fence \<Rightarrow> wait_input \<Rightarrow> int \<Rightarrow> (unit \<times> 'a lease_db_scheme) res" where
  "begin_wait s fnc request now =
     ebind (require_active_run s (wi_account_id request) (wi_run_id request)) (\<lambda>_.
     ebind (lock_execution s fnc (wi_account_id request) (wi_run_id request) (Some (wi_execution_id request))) (\<lambda>_.
       if (case leases s (wi_execution_id request) of None \<Rightarrow> False | Some l \<Rightarrow> lease_active l now)
       then Inl LeaseConflict
       else if list_ex (\<lambda>w. wt_wait_id w = wi_wait_id request) (waits s) then Inr ((), s)
       else Inr ((), s\<lparr>waits := waits s @
              [\<lparr>wt_wait_id = wi_wait_id request, wt_run_id = wi_run_id request, wt_account_id = wi_account_id request,
                wt_execution_id = wi_execution_id request, wt_operation_id = wi_operation_id request,
                wt_reason = wi_reason request, wt_resume_ref = wi_resume_ref request,
                wt_deadline = wi_deadline request, wt_state = Waiting\<rparr>]\<rparr>)))"

definition finish_wait ::
  "'a lease_db_scheme \<Rightarrow> fence \<Rightarrow> finish_wait_input \<Rightarrow> (bool \<times> 'a lease_db_scheme) res" where
  "finish_wait s fnc request =
     (let w = fw_wait request in
      ebind (case ebind (require_active_run s (wi_account_id w) (wi_run_id w)) (\<lambda>_.
                   lock_execution s fnc (wi_account_id w) (wi_run_id w) (Some (wi_execution_id w))) of
               Inr _ \<Rightarrow> Inr True
             | Inl e \<Rightarrow> if e = RunNotExecutable then Inr False else Inl e) (\<lambda>active.
        Inr (active, s\<lparr>waits := update_where
          (\<lambda>r. wt_wait_id r = wi_wait_id w \<and> wt_account_id r = wi_account_id w \<and> wt_run_id r = wi_run_id w
               \<and> wt_execution_id r = wi_execution_id w \<and> wt_state r = Waiting)
          (\<lambda>r. r\<lparr>wt_state := (if active then fw_state request else WaitCancelled)\<rparr>) (waits s)\<rparr>)))"

section \<open>The Activities\<close>

definition check_schema :: "int \<Rightarrow> 'b res \<Rightarrow> 'b res" where
  "check_schema v k = ensure (v = LIFECYCLE_SCHEMA_VERSION) (ApplicationError ''unsupported lifecycle schema'' True) k"

fun exn_code :: "exn \<Rightarrow> string" where
  "exn_code LeaseConflict = ''execution_lease_conflict''"
| "exn_code StaleFencingToken = ''stale_fencing_token''"
| "exn_code RunNotExecutable = ''run_not_executable''"
| "exn_code SegmentClosed = ''execution_segment_closed''"
| "exn_code TranscriptVersionConflict = ''transcript_version_conflict''"
| "exn_code OperationUncertain = ''tool_side_effect_uncertain''"
| "exn_code MemoryContextRevoked = ''memory_context_revoked''"
| "exn_code RunBudgetExhausted = ''run_budget_exhausted''"
| "exn_code WorkBudgetExhausted = ''work_budget_exhausted''"
| "exn_code CapabilityBudgetExhausted = ''capability_budget_exhausted''"
| "exn_code AccountDailyBudgetExhausted = ''account_daily_model_budget_exhausted''"
| "exn_code _ = ''''"

definition segment_acquire_activity ::
  "'a lease_db_scheme \<Rightarrow> segment_input \<Rightarrow> int \<Rightarrow> int \<Rightarrow> (segment_lease \<times> 'a lease_db_scheme) res" where
  "segment_acquire_activity s request ttl now =
     check_schema (si_schema_version request)
       (case acquire_segment s None request ttl now of
          Inr (token, s') \<Rightarrow> Inr (\<lparr>sl_acquired = True, sl_fencing_token = token\<rparr>, s')
        | Inl e \<Rightarrow>
            if e = LeaseConflict then Inr (\<lparr>sl_acquired = False, sl_fencing_token = 0\<rparr>, s)
            else if e \<in> {RunNotExecutable, SegmentClosed} then Inl (ApplicationError (exn_code e) True)
            else Inl e)"

definition segment_release_activity ::
  "'a lease_db_scheme \<Rightarrow> segment_input \<Rightarrow> (unit \<times> 'a lease_db_scheme) res" where
  "segment_release_activity s request = check_schema (si_schema_version request) (release_segment s None request)"

definition begin_wait_activity ::
  "'a lease_db_scheme \<Rightarrow> wait_input \<Rightarrow> int \<Rightarrow> (unit \<times> 'a lease_db_scheme) res" where
  "begin_wait_activity s request now =
     check_schema (wi_schema_version request)
       (case begin_wait s None request now of
          Inl e \<Rightarrow> if e \<in> {RunNotExecutable, LeaseConflict} then Inl (ApplicationError (exn_code e) True) else Inl e
        | Inr r \<Rightarrow> Inr r)"

definition finish_wait_activity ::
  "'a lease_db_scheme \<Rightarrow> finish_wait_input \<Rightarrow> (bool \<times> 'a lease_db_scheme) res" where
  "finish_wait_activity s request = check_schema (wi_schema_version (fw_wait request)) (finish_wait s None request)"

end
