(* ===== verification/Lease_Laws.thy ===== *)
theory Lease_Laws
  imports Lease_Store
begin

text \<open>
  What fencing promises. The locale \<open>fenced\<close> states the contract of a fenced resource (a token that
  never goes back, holders that hold the current token, no token that is held again once it was
  lost) and proves its consequences over any sequence of steps. The step relations \<open>segment_step\<close>
  and \<open>lease_step\<close> interleave every operation of \<open>Lease_Store\<close> with the Run transitions, the passing
  of time and arbitrary other transactions; the contract is proved for them.
\<close>

section \<open>The contract\<close>

locale fenced =
  fixes token :: "'s \<Rightarrow> 'x \<Rightarrow> int"
    and held :: "'s \<Rightarrow> 'x \<Rightarrow> int \<Rightarrow> bool"
    and step :: "'s \<Rightarrow> 's \<Rightarrow> bool"
  assumes token_mono: "step s s' \<Longrightarrow> token s x \<le> token s' x"
    and held_current: "held s x t \<Longrightarrow> token s x = t"
    and no_revival: "step s s' \<Longrightarrow> held s' x t \<Longrightarrow> held s x t \<or> token s x < t"
begin

lemma token_mono_star: "step\<^sup>*\<^sup>* s s' \<Longrightarrow> token s x \<le> token s' x"
  by (induction rule: rtranclp_induct) (auto dest: token_mono [where x = x] intro: order_trans)

lemma dead_stays_dead:
  assumes "step\<^sup>*\<^sup>* s s'" "t \<le> token s x" "\<not> held s x t"
  shows "\<not> held s' x t"
  using assms
proof (induction rule: rtranclp_induct)
  case (step u v)
  then have "token s x \<le> token u x" "\<not> held u x t"
    by (auto intro: token_mono_star)
  with step no_revival [of u v x t] show ?case by fastforce
qed simp

lemma one_holder: "held s x t \<Longrightarrow> held s x t' \<Longrightarrow> t = t'"
  using held_current by metis

lemma superseded:
  assumes "step\<^sup>*\<^sup>* s s'" "t < token s x"
  shows "\<not> held s' x t"
proof
  assume "held s' x t"
  with held_current token_mono_star [OF assms(1), of x] assms(2) show False by fastforce
qed

end

section \<open>How one lease row evolves\<close>

definition tok :: "lease_row option \<Rightarrow> int" where
  "tok l = (case l of None \<Rightarrow> 0 | Some r \<Rightarrow> l_fencing_token r)"

definition lease_evolves :: "int \<Rightarrow> lease_row option \<Rightarrow> lease_row option \<Rightarrow> bool" where
  "lease_evolves now l l' \<longleftrightarrow> l' = l \<or>
     (\<exists>r'. l' = Some r' \<and> (tok l < l_fencing_token r' \<or>
        (\<exists>r. l = Some r \<and> l_fencing_token r' = l_fencing_token r \<and>
             (l_lease_expires_at r' = None \<or>
              lease_active r now \<and> l_owner_segment_id r' = l_owner_segment_id r))))"

named_theorems evolves "how the operations change the leases"

lemma evolves_refl [evolves]: "lease_evolves now l l"
  by (simp add: lease_evolves_def)

lemma evolves_same [evolves]: "leases s' = leases s \<Longrightarrow> lease_evolves now (leases s x) (leases s' x)"
  by (simp add: lease_evolves_def)

lemma evolves_upd:
  "leases s e = Some r \<Longrightarrow> leases s' = (leases s)(e \<mapsto> r') \<Longrightarrow> l_fencing_token r' = l_fencing_token r \<Longrightarrow>
   l_lease_expires_at r' = None \<or> lease_active r now \<and> l_owner_segment_id r' = l_owner_segment_id r \<Longrightarrow>
   lease_evolves now (leases s x) (leases s' x)"
  by (simp add: lease_evolves_def)

lemma evolves_closed [evolves]:
  "lease_evolves now l (map_option (\<lambda>r. if c r then r\<lparr>l_owner_segment_id := None, l_lease_expires_at := None\<rparr> else r) l)"
  by (cases l) (auto simp: lease_evolves_def)

lemma acquire_row_cases:
  assumes "acquire_row s acc run ex sid ttl now = Inr (l, s')"
  obtains r r' where
    "r = (case leases s ex of Some r \<Rightarrow> r
          | None \<Rightarrow> \<lparr>l_account_id = acc, l_run_id = run, l_owner_segment_id = None,
                     l_fencing_token = 0, l_lease_expires_at = None\<rparr>)"
    "lease_active r now \<Longrightarrow> l_owner_segment_id r = sid"
    "l_fencing_token r' = l_fencing_token r + (if lease_active r now then 0 else 1)"
    "l_owner_segment_id r' = sid" "l_lease_expires_at r' = Some (now + ttl)"
    "l_account_id r' = l_account_id r" "l_run_id r' = l_run_id r"
    "xl_fencing_token l = l_fencing_token r'" "leases s' = (leases s)(ex \<mapsto> r')"
    "s' = s\<lparr>leases := leases s', executions := update_where (\<lambda>e. e_execution_id e = ex)
                  (\<lambda>e. e\<lparr>e_attempt_no := xl_fencing_token l, e_status := Running\<rparr>) (executions s)\<rparr>"
proof -
  define r where "r = (case leases s ex of Some r \<Rightarrow> r
          | None \<Rightarrow> \<lparr>l_account_id = acc, l_run_id = run, l_owner_segment_id = None,
                     l_fencing_token = 0, l_lease_expires_at = None\<rparr>)"
  show ?thesis
    using assms that [of r "r\<lparr>l_owner_segment_id := sid,
        l_fencing_token := l_fencing_token r + (if lease_active r now then 0 else 1),
        l_lease_expires_at := Some (now + ttl)\<rparr>", OF r_def]
    unfolding acquire_row_def r_def [symmetric]
    by (auto simp: Let_def split: if_splits)
qed

lemma acquire_row_evolves:
  assumes "acquire_row s acc run ex sid ttl now = Inr (l, s')"
  shows "lease_evolves now (leases s x) (leases s' x)"
  using assms
  by (rule acquire_row_cases)
     (cases "leases s ex"; auto simp: lease_evolves_def tok_def lease_active_def split: if_splits option.splits)

lemma acquire_cases:
  assumes "acquire s fnc acc run ex sid ttl now = Inr (l, s')"
  obtains "acquire_row s acc run ex sid ttl now = Inr (l, s')"
  using assms by (auto simp: acquire_def res_simps)

lemma acquire_evolves:
  "acquire s fnc acc run ex sid ttl now = Inr (l, s') \<Longrightarrow> lease_evolves now (leases s x) (leases s' x)"
  by (erule acquire_cases) (rule acquire_row_evolves)

lemma acquire_lease_evolves:
  "acquire_lease s fnc acc run ex ttl now = Inr (l, s') \<Longrightarrow> lease_evolves now (leases s x) (leases s' x)"
  by (auto simp: acquire_lease_def res_simps intro: acquire_evolves)

lemma renew_cases:
  assumes "validate_and_renew_lease s fnc acc run token ex ttl now = Inr (l, s')"
  obtains e :: execution_row and r where "lock_execution s fnc acc run ex = Inr e"
    "leases s (e_execution_id e) = Some r" "lease_active r now" "l_fencing_token r = token"
    "s' = s\<lparr>leases := (leases s)(e_execution_id e \<mapsto> r\<lparr>l_lease_expires_at := Some (now + ttl)\<rparr>)\<rparr>"
proof (cases "lock_execution s fnc acc run ex")
  case (Inl a)
  then show ?thesis using assms by (auto simp: validate_and_renew_lease_def split: sum.splits)
next
  case (Inr e)
  then show ?thesis
    using assms that [OF Inr] unfolding validate_and_renew_lease_def
    by (cases "leases s (e_execution_id e)")
       (auto simp: res_simps lease_live_def lease_active_def split: sum.splits option.splits)
qed

lemma renew_evolves:
  "validate_and_renew_lease s fnc acc run token ex ttl now = Inr (l, s') \<Longrightarrow>
   lease_evolves now (leases s x) (leases s' x)"
  by (erule renew_cases) (rule evolves_upd, assumption, simp, simp_all)

lemma release_lease_cases:
  assumes "release_lease s fnc acc run token ex = Inr (b, s')"
  obtains (absent) "\<not> b" "s' = s"
  | (closed) e :: execution_row and r where "b" "leases s (e_execution_id e) = Some r" "l_fencing_token r = token"
     "s' = s\<lparr>leases := (leases s)(e_execution_id e \<mapsto>
         r\<lparr>l_owner_segment_id := None, l_lease_expires_at := None\<rparr>)\<rparr>"
proof -
  obtain e where e: "lock_execution s fnc acc run ex = Inr e"
    using assms by (cases "lock_execution s fnc acc run ex") (simp_all add: release_lease_def)
  show ?thesis
  proof (cases "lease_matches s acc run (e_execution_id e) token")
    case True
    then obtain r where "leases s (e_execution_id e) = Some r" "l_fencing_token r = token"
      by (auto simp: lease_matches_def split: option.splits)
    with True assms e show ?thesis by (intro closed [of e r]) (simp_all add: release_lease_def)
  next
    case False
    with assms e show ?thesis by (intro absent) (simp_all add: release_lease_def)
  qed
qed

lemma release_lease_evolves:
  "release_lease s fnc acc run token ex = Inr (b, s') \<Longrightarrow> lease_evolves now (leases s x) (leases s' x)"
  by (erule release_lease_cases; hypsubst) (rule evolves_refl, rule evolves_upd, assumption, simp, simp_all)

lemma insert_segment_frame [simp]:
  "leases (insert_segment q st s) = leases s" "waits (insert_segment q st s) = waits s"
  "runs (insert_segment q st s) = runs s" "accounts (insert_segment q st s) = accounts s"
  "works (insert_segment q st s) = works s" "executions (insert_segment q st s) = executions s"
  "conversations (insert_segment q st s) = conversations s"
  by (auto simp: insert_segment_def split: option.splits)

text \<open>A successful acquisition: the Execution is not waiting, the segment is open and owned, and the
  lease is acquired for it.\<close>

lemma acquire_segment_cases:
  assumes "acquire_segment s fnc q ttl now = Inr (t, s')"
  obtains r e g l s2 where
    "require_active_run s (si_account_id q) (si_run_id q) = Inr r"
    "lock_execution s fnc (si_account_id q) (si_run_id q) (Some (si_execution_id q)) = Inr e"
    "\<not> list_ex (\<lambda>w. wt_execution_id w = si_execution_id q \<and> wt_state w = Waiting) (waits s)"
    "segments (insert_segment q Requested s) (si_segment_id q) = Some g"
    "segment_owned q g" "sg_state g \<noteq> Segment_Released"
    "acquire_row (insert_segment q Requested s) (si_account_id q) (si_run_id q) (si_execution_id q)
       (Some (si_segment_id q)) ttl now = Inr (l, s2)"
    "t = xl_fencing_token l"
    "s' = s2\<lparr>segments := (segments s2)(si_segment_id q \<mapsto> g\<lparr>sg_state := Active, sg_fencing_token := Some t\<rparr>)\<rparr>"
  using assms unfolding acquire_segment_def
  by (auto simp: Let_def res_simps split: if_splits option.splits elim!: acquire_cases)

lemma acquire_segment_evolves:
  assumes "acquire_segment s fnc q ttl now = Inr (t, s')"
  shows "lease_evolves now (leases s x) (leases s' x)"
  using assms by (rule acquire_segment_cases) (auto dest: acquire_row_evolves [where x = x])

lemma release_segment_cases:
  assumes "release_segment s fnc q = Inr (u, s')"
  obtains s1 where "s1 = insert_segment q Segment_Released s"
    "s' = s1\<lparr>segments := (segments s1)(si_segment_id q := map_option
                    (\<lambda>g. if segment_owned q g then g\<lparr>sg_state := Segment_Released\<rparr> else g)
                    (segments s1 (si_segment_id q))),
             leases := (leases s1)(si_execution_id q := map_option
                    (\<lambda>l. if l_account_id l = si_account_id q \<and> l_run_id l = si_run_id q
                            \<and> l_owner_segment_id l = Some (si_segment_id q)
                         then l\<lparr>l_owner_segment_id := None, l_lease_expires_at := None\<rparr> else l)
                    (leases s1 (si_execution_id q)))\<rparr>"
  using assms unfolding release_segment_def by (auto simp: Let_def res_simps)

lemma release_segment_evolves:
  "release_segment s fnc q = Inr (u, s') \<Longrightarrow> lease_evolves now (leases s x) (leases s' x)"
  by (erule release_segment_cases) (simp add: evolves)

lemma begin_wait_cases:
  assumes "begin_wait s fnc q now = Inr (u, s')"
  obtains (old) "s' = s"
  | (fresh) r where "r = \<lparr>wt_wait_id = wi_wait_id q, wt_run_id = wi_run_id q, wt_account_id = wi_account_id q,
                wt_execution_id = wi_execution_id q, wt_operation_id = wi_operation_id q,
                wt_reason = wi_reason q, wt_resume_ref = wi_resume_ref q,
                wt_deadline = wi_deadline q, wt_state = Waiting\<rparr>"
      "\<not> (case leases s (wi_execution_id q) of None \<Rightarrow> False | Some l \<Rightarrow> lease_active l now)"
      "s' = s\<lparr>waits := waits s @ [r]\<rparr>"
  using assms unfolding begin_wait_def by (auto simp: res_simps split: if_splits)

lemma finish_wait_cases:
  assumes "finish_wait s fnc q = Inr (b, s')"
  obtains w where "w = fw_wait q"
    "s' = s\<lparr>waits := update_where
          (\<lambda>r. wt_wait_id r = wi_wait_id w \<and> wt_account_id r = wi_account_id w \<and> wt_run_id r = wi_run_id w
               \<and> wt_execution_id r = wi_execution_id w \<and> wt_state r = Waiting)
          (\<lambda>r. r\<lparr>wt_state := (if b then fw_state q else WaitCancelled)\<rparr>) (waits s)\<rparr>"
  using assms unfolding finish_wait_def by (auto simp: res_simps Let_def)

text \<open>An UPDATE of the Run changes the leases only through the trigger.\<close>

definition revoke_leases :: "uuid \<Rightarrow> 'a authority_db_scheme \<Rightarrow> uuid \<Rightarrow> lease_row option" where
  "revoke_leases run s = (\<lambda>x. map_option (\<lambda>l. if l_run_id l = run
     then l\<lparr>l_owner_segment_id := None, l_lease_expires_at := None, l_fencing_token := l_fencing_token l + 1\<rparr>
     else l) (leases s x))"

lemma update_run_cases:
  assumes "update_run run P f s = Inr s'"
  obtains (none) "find (\<lambda>r. r_run_id r = run \<and> P r) (runs s) = None" "s' = s"
  | (quiet) r where "find (\<lambda>r. r_run_id r = run \<and> P r) (runs s) = Some r"
      "r_status r \<in> set TERMINAL \<longrightarrow> f r = r" "r_status (f r) = r_status r"
      "s' = s\<lparr>runs := update_where (\<lambda>x. r_run_id x = run \<and> P x) f (runs s)\<rparr>"
  | (moved) r where "find (\<lambda>r. r_run_id r = run \<and> P r) (runs s) = Some r"
      "r_status r \<notin> set TERMINAL" "run_transition_ok (r_status r) (r_status (f r))"
      "s' = project_execution_status run (r_status (f r))
              (s\<lparr>runs := update_where (\<lambda>x. r_run_id x = run \<and> P x) f (runs s)\<rparr>)"
proof (cases "find (\<lambda>r. r_run_id r = run \<and> P r) (runs s)")
  case None
  then show ?thesis using assms by (intro none) (simp_all add: update_run_def)
next
  case (Some r)
  show ?thesis
  proof (cases "r_status r \<in> set TERMINAL \<and> f r \<noteq> r")
    case True
    then show ?thesis using assms Some by (simp add: update_run_def)
  next
    case fine: False
    show ?thesis
    proof (cases "r_status (f r) = r_status r")
      case True
      with fine show ?thesis using assms Some by (intro quiet [OF Some]) (simp_all add: update_run_def Let_def split: if_splits)
    next
      case moves: False
      show ?thesis
      proof (cases "run_transition_ok (r_status r) (r_status (f r))")
        case True
        from moves fine have "r_status r \<notin> set TERMINAL" by metis
        with fine moves True show ?thesis
          using assms Some by (intro moved [OF Some]) (simp_all add: update_run_def Let_def)
      next
        case False
        with fine moves show ?thesis using assms Some by (simp add: update_run_def Let_def split: if_splits)
      qed
    qed
  qed
qed

lemma project_leases:
  "leases (project_execution_status run new s) =
     (if new \<in> {Cancelling, Succeeded, Failed, Cancelled} then revoke_leases run s else leases s)"
  by (simp add: project_execution_status_def Let_def revoke_leases_def)

lemma project_frame [simp]:
  "runs (project_execution_status run new s) = runs s"
  "accounts (project_execution_status run new s) = accounts s"
  by (simp_all add: project_execution_status_def Let_def)

lemma revoke_evolves: "lease_evolves now (leases s x) (revoke_leases run s x)"
  by (cases "leases s x") (auto simp: lease_evolves_def revoke_leases_def tok_def)

lemma update_run_leases:
  "update_run run P f s = Inr s' \<Longrightarrow> leases s' = leases s \<or> leases s' = revoke_leases run s"
  by (erule update_run_cases) (auto simp: project_leases revoke_leases_def)

lemma update_run_evolves:
  "update_run run P f s = Inr s' \<Longrightarrow> lease_evolves now (leases s x) (leases s' x)"
  by (drule update_run_leases) (auto intro: revoke_evolves evolves)

lemma update_run_runs:
  assumes "update_run run P f s = Inr s'"
  shows "runs s' = update_where (\<lambda>x. r_run_id x = run \<and> P x) f (runs s)"
  using assms
proof (cases rule: update_run_cases)
  case none
  then show ?thesis by (auto simp: find_None_iff update_where_id)
next
  case quiet
  then show ?thesis by (elim ssubst) simp
next
  case moved
  then show ?thesis by (elim ssubst) simp
qed

lemma update_run_waits:
  "update_run run P f s = Inr s' \<Longrightarrow> waits s' = waits s \<or>
     waits s' = update_where (\<lambda>w. wt_run_id w = run \<and> wt_state w = Waiting) (\<lambda>w. w\<lparr>wt_state := WaitCancelled\<rparr>) (waits s)"
  by (erule update_run_cases) (simp_all add: project_execution_status_def Let_def)

lemma start_cases:
  assumes "start s acc run now = Inr (b, s')"
  obtains "s' = s" | "mark_running_locked run now s = Inr s'"
  using assms by (auto simp: start_def res_simps split: if_splits)

section \<open>Every interleaving\<close>

text \<open>One committed transaction, or time passing: the state is the clock and the database. A segment
  drives its Execution with \<open>segment_step\<close>; \<open>lease_step\<close> adds the acquisition without a segment.
  \<open>other\<close> is any transaction of the rest of the system: it does not write these tables.\<close>

type_synonym 'a timed = "int \<times> 'a lease_db_scheme"

definition lease_frame :: "'a lease_db_scheme \<Rightarrow> 'a lease_db_scheme \<Rightarrow> bool" where
  "lease_frame s s' \<longleftrightarrow> leases s' = leases s \<and> segments s' = segments s \<and> waits s' = waits s \<and> runs s' = runs s"

inductive segment_step :: "int \<Rightarrow> 'a timed \<Rightarrow> 'a timed \<Rightarrow> bool" for ttl :: int where
  tick: "now \<le> now' \<Longrightarrow> segment_step ttl (now, s) (now', s)"
| other: "lease_frame s s' \<Longrightarrow> segment_step ttl (now, s) (now, s')"
| renew: "validate_and_renew_lease s fnc acc run token ex ttl now = Inr (l, s') \<Longrightarrow>
    segment_step ttl (now, s) (now, s')"
| release: "release_lease s fnc acc run token ex = Inr (b, s') \<Longrightarrow> segment_step ttl (now, s) (now, s')"
| acquire_sg: "acquire_segment s fnc q ttl now = Inr (t, s') \<Longrightarrow> segment_step ttl (now, s) (now, s')"
| release_sg: "release_segment s fnc q = Inr (u, s') \<Longrightarrow> segment_step ttl (now, s) (now, s')"
| begin_w: "begin_wait s fnc w now = Inr (u, s') \<Longrightarrow> segment_step ttl (now, s) (now, s')"
| finish_w: "finish_wait s fnc fw = Inr (b, s') \<Longrightarrow> segment_step ttl (now, s) (now, s')"
| start_run: "start s acc run now = Inr (b, s') \<Longrightarrow> segment_step ttl (now, s) (now, s')"
| cancel_run: "set_cancelling run s = Inr s' \<Longrightarrow> segment_step ttl (now, s) (now, s')"
| finish_run: "set_result_terminal st code msg result run now s = Inr s' \<Longrightarrow>
    segment_step ttl (now, s) (now, s')"

inductive lease_step :: "int \<Rightarrow> 'a timed \<Rightarrow> 'a timed \<Rightarrow> bool" for ttl :: int where
  by_segment: "segment_step ttl u v \<Longrightarrow> lease_step ttl u v"
| acquire_ls: "acquire_lease s fnc acc run ex ttl now = Inr (l, s') \<Longrightarrow> lease_step ttl (now, s) (now, s')"

inductive_cases segment_stepE: "segment_step ttl (now, s) (now', s')"
inductive_cases lease_stepE: "lease_step ttl (now, s) (now', s')"

lemma segment_step_clock: "segment_step ttl u v \<Longrightarrow> fst u \<le> fst v"
  by (erule segment_step.cases) simp_all

lemma lease_step_clock: "lease_step ttl u v \<Longrightarrow> fst u \<le> fst v"
  by (erule lease_step.cases) (auto dest: segment_step_clock)

lemma start_evolves:
  "start s acc run now = Inr (b, s') \<Longrightarrow> lease_evolves n (leases s x) (leases s' x)"
  by (erule start_cases) (auto simp: mark_running_locked_def intro: evolves update_run_evolves)

lemma segment_step_evolves:
  "segment_step ttl u v \<Longrightarrow> lease_evolves (fst u) (leases (snd u) x) (leases (snd v) x)"
proof (induction rule: segment_step.induct)
  case (begin_w s fnc w now u s')
  then show ?case by (cases rule: begin_wait_cases) (auto intro: evolves)
next
  case (finish_w s fnc fw b s' now)
  then show ?case by (cases rule: finish_wait_cases) (auto intro: evolves)
qed (auto simp: lease_frame_def set_cancelling_def set_result_terminal_def
     intro: evolves renew_evolves release_lease_evolves acquire_segment_evolves release_segment_evolves
       start_evolves update_run_evolves)

lemma lease_step_evolves:
  "lease_step ttl u v \<Longrightarrow> lease_evolves (fst u) (leases (snd u) x) (leases (snd v) x)"
  by (erule lease_step.cases) (auto intro: segment_step_evolves acquire_lease_evolves)

section \<open>The contract holds\<close>

definition held_by :: "'a timed \<Rightarrow> uuid \<Rightarrow> int \<Rightarrow> bool" where
  "held_by u x t = (case leases (snd u) x of None \<Rightarrow> False
     | Some r \<Rightarrow> l_fencing_token r = t \<and> lease_active r (fst u))"

definition token_of :: "'a timed \<Rightarrow> uuid \<Rightarrow> int" where
  "token_of u x = tok (leases (snd u) x)"

lemma lease_active_mono: "lease_active r n' \<Longrightarrow> n \<le> n' \<Longrightarrow> lease_active r n"
  by (auto simp: lease_active_def split: option.splits)

lemma evolves_token: "lease_evolves now l l' \<Longrightarrow> tok l \<le> tok l'"
  by (auto simp: lease_evolves_def tok_def split: option.splits)

interpretation fencing: fenced token_of held_by "lease_step ttl"
proof unfold_locales
  fix u v :: "'a timed" and x t
  show "held_by u x t \<Longrightarrow> token_of u x = t"
    by (auto simp: held_by_def token_of_def tok_def split: option.splits)
  assume st: "lease_step ttl u v"
  note ev = lease_step_evolves [OF st, of x] and ck = lease_step_clock [OF st]
  show "token_of u x \<le> token_of v x" using evolves_token [OF ev] by (simp add: token_of_def)
  assume "held_by v x t"
  then show "held_by u x t \<or> token_of u x < t"
    using ev ck
    by (auto simp: held_by_def token_of_def lease_evolves_def tok_def lease_active_def split: option.splits)
qed

lemma lease_live_held: "lease_live s acc run ex t now \<Longrightarrow> held_by (now, s) ex t"
  by (auto simp: lease_live_def held_by_def lease_active_def split: option.splits)

section \<open>Consequences\<close>

lemma fence_needs_held:
  "assert_execution_fence s (Some (acc, run, x, t)) now = Inr s' \<Longrightarrow> held_by (now, s) x t"
  by (rule lease_live_held, rule assert_execution_fence_lease)

lemma lock_execution_id: "lock_execution s fnc acc run (Some x) = Inr e \<Longrightarrow> e_execution_id e = x"
  by (auto simp: lock_execution_def find_execution_def res_simps dest: find_SomeD)

lemma renew_needs_held:
  "validate_and_renew_lease s fnc acc run t (Some x) ttl now = Inr r \<Longrightarrow> held_by (now, s) x t"
  by (cases r, simp, erule renew_cases)
     (simp add: held_by_def lock_execution_id)

lemma acquire_segment_lease:
  assumes "acquire_segment s fnc q ttl now = Inr (t, s')"
  obtains r where "leases s' (si_execution_id q) = Some r" "l_owner_segment_id r = Some (si_segment_id q)"
    "l_fencing_token r = t" "l_lease_expires_at r = Some (now + ttl)"
  using assms
  by (rule acquire_segment_cases) (erule acquire_row_cases, simp)

text \<open>Between two acquisitions, an owner's token is superseded unless it is still the owner.\<close>

definition owned_or_passed :: "uuid \<Rightarrow> string \<Rightarrow> int \<Rightarrow> 'a timed \<Rightarrow> bool" where
  "owned_or_passed x sg t u \<longleftrightarrow> t < token_of u x \<or>
     (\<exists>r. leases (snd u) x = Some r \<and> l_fencing_token r = t \<and>
          (l_lease_expires_at r = None \<or> l_owner_segment_id r = Some sg))"

lemma owned_or_passed_step:
  assumes "lease_step ttl u v" "owned_or_passed x sg t u"
  shows "owned_or_passed x sg t v"
  using lease_step_evolves [OF assms(1), of x] assms(2)
  by (auto simp: owned_or_passed_def lease_evolves_def token_of_def tok_def lease_active_def
           split: option.splits)

lemma owned_or_passed_star:
  "(lease_step ttl)\<^sup>*\<^sup>* u v \<Longrightarrow> owned_or_passed x sg t u \<Longrightarrow> owned_or_passed x sg t v"
  by (induction rule: rtranclp_induct) (auto intro: owned_or_passed_step)

lemma acquire_after:
  assumes "acquire_segment s fnc q ttl now = Inr (t', s')"
    and "owned_or_passed (si_execution_id q) sg t (now, s)" "sg \<noteq> si_segment_id q"
  shows "t < t'"
  using assms(1)
proof (rule acquire_segment_cases)
  fix g l s2
  assume "acquire_row (insert_segment q Requested s) (si_account_id q) (si_run_id q) (si_execution_id q)
       (Some (si_segment_id q)) ttl now = Inr (l, s2)" and t': "t' = xl_fencing_token l"
  from this(1) show "t < t'"
  proof (rule acquire_row_cases)
    fix r r'
    assume r: "r = (case leases (insert_segment q Requested s) (si_execution_id q) of
          None \<Rightarrow> \<lparr>l_account_id = si_account_id q, l_run_id = si_run_id q, l_owner_segment_id = None,
                     l_fencing_token = 0, l_lease_expires_at = None\<rparr> | Some r \<Rightarrow> r)"
      and own: "lease_active r now \<Longrightarrow> l_owner_segment_id r = Some (si_segment_id q)"
      and tk: "l_fencing_token r' = l_fencing_token r + (if lease_active r now then 0 else 1)"
      and l: "xl_fencing_token l = l_fencing_token r'"
    have "token_of (now, s) (si_execution_id q) = l_fencing_token r"
      using r by (simp add: token_of_def tok_def split: option.splits)
    then show "t < t'"
      using assms(2,3) r own tk l t'
      by (auto simp: owned_or_passed_def lease_active_def split: option.splits if_splits)
  qed
qed

text \<open>A released segment stays released, and a foreign one stays foreign.\<close>

definition segment_shut :: "segment_input \<Rightarrow> 'a lease_db_scheme \<Rightarrow> bool" where
  "segment_shut q s \<longleftrightarrow> (\<exists>g. segments s (si_segment_id q) = Some g \<and>
     (\<not> segment_owned q g \<or> sg_state g = Segment_Released))"

lemma acquire_row_segments: "acquire_row s acc run ex sid ttl now = Inr (l, s') \<Longrightarrow> segments s' = segments s"
  by (auto simp: acquire_row_def Let_def split: if_splits)

lemma shut_acquire_segment:
  assumes "acquire_segment s fnc q' ttl now = Inr (t, s')" "segment_shut q s"
  shows "segment_shut q s'"
  using assms(1)
proof (rule acquire_segment_cases)
  fix g l s2
  assume g: "segments (insert_segment q' Requested s) (si_segment_id q') = Some g" "segment_owned q' g"
      "sg_state g \<noteq> Segment_Released"
    and "acquire_row (insert_segment q' Requested s) (si_account_id q') (si_run_id q') (si_execution_id q')
       (Some (si_segment_id q')) ttl now = Inr (l, s2)"
    and s': "s' = s2\<lparr>segments := (segments s2)(si_segment_id q' \<mapsto>
                g\<lparr>sg_state := Active, sg_fencing_token := Some t\<rparr>)\<rparr>"
  then have s2: "segments s2 = segments (insert_segment q' Requested s)"
    by (blast dest: acquire_row_segments)
  from assms(2) obtain h where h: "segments s (si_segment_id q) = Some h"
    "\<not> segment_owned q h \<or> sg_state h = Segment_Released"
    by (auto simp: segment_shut_def)
  show ?thesis
  proof (cases "si_segment_id q' = si_segment_id q")
    case True
    with g h have "h = g" by (simp add: insert_segment_def)
    with g h True s' show ?thesis by (simp add: segment_shut_def segment_owned_def)
  next
    case False
    with h s' s2 show ?thesis by (simp add: segment_shut_def insert_segment_def split: option.splits)
  qed
qed

lemma shut_release_segment:
  assumes "release_segment s fnc q' = Inr (u, s')" "segment_shut q s"
  shows "segment_shut q s'"
  using assms(1)
proof (rule release_segment_cases)
  fix s1
  assume "s1 = insert_segment q' Segment_Released s" and s':
    "s' = s1\<lparr>segments := (segments s1)(si_segment_id q' := map_option
                    (\<lambda>g. if segment_owned q' g then g\<lparr>sg_state := Segment_Released\<rparr> else g)
                    (segments s1 (si_segment_id q'))),
             leases := (leases s1)(si_execution_id q' := map_option
                    (\<lambda>l. if l_account_id l = si_account_id q' \<and> l_run_id l = si_run_id q'
                            \<and> l_owner_segment_id l = Some (si_segment_id q')
                         then l\<lparr>l_owner_segment_id := None, l_lease_expires_at := None\<rparr> else l)
                    (leases s1 (si_execution_id q')))\<rparr>"
  with assms(2) have s1: "segment_shut q s1"
    by (auto simp: segment_shut_def insert_segment_def split: option.splits)
  then obtain h where h: "segments s1 (si_segment_id q) = Some h"
    "\<not> segment_owned q h \<or> sg_state h = Segment_Released"
    by (auto simp: segment_shut_def)
  then show ?thesis using s'
    by (cases "si_segment_id q' = si_segment_id q") (simp_all add: segment_shut_def segment_owned_def)
qed

lemma release_segment_shuts:
  assumes "release_segment s fnc q = Inr (u, s')"
  shows "segment_shut q s'"
proof -
  have "\<exists>g. segments (insert_segment q Segment_Released s) (si_segment_id q) = Some g"
    by (auto simp: insert_segment_def split: option.splits)
  then show ?thesis
    using assms by (elim exE release_segment_cases) (auto simp: segment_shut_def)
qed

lemma segment_shut_frame: "segments s' = segments s \<Longrightarrow> segment_shut q s' = segment_shut q s"
  by (simp add: segment_shut_def)

lemma update_run_segments:
  "update_run run P f (s :: 'a lease_db_scheme) = Inr s' \<Longrightarrow> segments s' = segments s"
  by (erule update_run_cases) (simp_all add: project_execution_status_def Let_def)

lemma start_segments: "start s acc run now = Inr (b, s') \<Longrightarrow> segments s' = segments s"
  by (erule start_cases) (auto simp: mark_running_locked_def dest: update_run_segments)

lemma renew_segments: "validate_and_renew_lease s fnc acc run t ex ttl now = Inr (l, s') \<Longrightarrow> segments s' = segments s"
  by (erule renew_cases) simp

lemma release_lease_segments: "release_lease s fnc acc run t ex = Inr (b, s') \<Longrightarrow> segments s' = segments s"
  by (erule release_lease_cases) simp_all

lemma acquire_lease_row:
  assumes "acquire_lease s fnc acc run ex ttl now = Inr (l, s')"
  obtains e :: execution_row where "acquire_row s acc run (e_execution_id e) None ttl now = Inr (l, s')"
  using assms by (auto simp: acquire_lease_def acquire_def res_simps)

lemma begin_wait_segments: "begin_wait s fnc w now = Inr (u, s') \<Longrightarrow> segments s' = segments s"
  by (erule begin_wait_cases) simp_all

lemma finish_wait_segments: "finish_wait s fnc w = Inr (u, s') \<Longrightarrow> segments s' = segments s"
  by (erule finish_wait_cases) simp

lemmas segments_kept = update_run_segments start_segments renew_segments release_lease_segments
  begin_wait_segments finish_wait_segments

text \<open>Only the two segment operations write the segments.\<close>

lemma segment_step_segments:
  assumes "segment_step ttl u v"
  obtains (kept) "segments (snd v) = segments (snd u)"
  | (acq) fnc q t where "acquire_segment (snd u) fnc q ttl (fst u) = Inr (t, snd v)"
  | (rel) fnc q w where "release_segment (snd u) fnc q = Inr (w, snd v)"
  using assms
proof (cases rule: segment_step.cases)
  case (other s s' now)
  then show ?thesis by (intro kept) (simp add: lease_frame_def)
next
  case (renew s fnc acc run token ex now l s')
  then show ?thesis by (intro kept) (simp add: segments_kept)
next
  case (release s fnc acc run token ex b s' now)
  then show ?thesis by (intro kept) (simp add: segments_kept)
next
  case (begin_w s fnc w now u s')
  then show ?thesis by (intro kept) (simp add: segments_kept)
next
  case (finish_w s fnc fw b s' now)
  then show ?thesis by (intro kept) (simp add: segments_kept)
next
  case (start_run s acc run now b s')
  then show ?thesis by (intro kept) (simp add: segments_kept)
next
  case (cancel_run run s s' now)
  then show ?thesis by (intro kept) (simp add: set_cancelling_def update_run_segments)
next
  case (finish_run st code msg result run now s s')
  then show ?thesis by (intro kept) (simp add: set_result_terminal_def update_run_segments)
next
  case (acquire_sg s fnc q now t s')
  then show ?thesis by (intro acq) simp
next
  case (release_sg s fnc q u s' now)
  then show ?thesis by (intro rel) simp
qed (intro kept, simp)

lemma shut_segment_step:
  assumes "segment_step ttl u v" "segment_shut q (snd u)"
  shows "segment_shut q (snd v)"
  using assms(1)
proof (cases rule: segment_step_segments)
  case kept
  then show ?thesis using assms(2) by (simp only: segment_shut_frame [OF kept])
next
  case acq
  then show ?thesis using assms(2) by (rule shut_acquire_segment)
next
  case rel
  then show ?thesis using assms(2) by (rule shut_release_segment)
qed

lemma shut_lease_step:
  assumes "lease_step ttl u v" "segment_shut q (snd u)"
  shows "segment_shut q (snd v)"
  using assms(1)
proof (cases rule: lease_step.cases)
  case by_segment
  then show ?thesis using assms(2) by (rule shut_segment_step)
next
  case (acquire_ls s fnc acc run ex now l s')
  then have "segments s' = segments s" by (elim acquire_lease_row) (rule acquire_row_segments)
  from segment_shut_frame [OF this] acquire_ls assms(2) show ?thesis by simp
qed

lemma shut_star:
  "(lease_step ttl)\<^sup>*\<^sup>* u v \<Longrightarrow> segment_shut q (snd u) \<Longrightarrow> segment_shut q (snd v)"
  by (induction rule: rtranclp_induct) (assumption, rule shut_lease_step)

lemma shut_not_acquired: "segment_shut q s \<Longrightarrow> acquire_segment s fnc q ttl now \<noteq> Inr (t, s')"
  by (rule notI, erule acquire_segment_cases) (auto simp: segment_shut_def insert_segment_def)

section \<open>Closed Runs\<close>

definition run_closed :: "uuid \<Rightarrow> 'a authority_db_scheme \<Rightarrow> bool" where
  "run_closed run s \<longleftrightarrow> list_all (\<lambda>r. r_run_id r = run \<longrightarrow> r_status r \<notin> {Queued, Running}) (runs s)"

lemma closed_not_active: "run_closed run s \<Longrightarrow> require_active_run s acc run = Inr r \<Longrightarrow> False"
  by (fastforce simp: require_active_run_def run_closed_def lock_def res_simps find_run_def list_all_iff
           split: sum.splits if_splits option.splits dest: find_SomeD)

lemma closed_inactive: "run_closed run s \<Longrightarrow> \<exists>e. require_active_run s acc run = Inl e"
  by (cases "require_active_run s acc run") (simp, blast dest: closed_not_active)

lemma closed_update_run:
  assumes "update_run run P f s = Inr s'" "run_closed run' s" "\<And>r. r_status (f r) = c \<and> r_run_id (f r) = r_run_id r"
  shows "run_closed run' s'"
  using assms(1)
proof (cases rule: update_run_cases)
  case none
  with assms(2) show ?thesis by simp
next
  case (quiet r)
  from quiet(1) have r: "r \<in> set (runs s)" "r_run_id r = run" by (auto dest: find_SomeD)
  have "run' = run \<Longrightarrow> c \<notin> {Queued, Running}"
    using r assms(2) quiet(3) assms(3) [of r] by (auto simp: run_closed_def list_all_iff)
  with assms(2,3) quiet(4) show ?thesis
    by (auto simp: run_closed_def list_all_iff set_update_where)
next
  case (moved r)
  from moved(1) have r: "r \<in> set (runs s)" "r_run_id r = run" by (auto dest: find_SomeD)
  have "run' = run \<Longrightarrow> c \<notin> {Queued, Running}"
    using r assms(2) moved(2,3) assms(3) [of r]
    by (cases "r_status r") (auto simp: run_closed_def list_all_iff TERMINAL_def)
  with assms(2,3) moved(4) show ?thesis
    by (auto simp: run_closed_def list_all_iff set_update_where)
qed

lemma closed_frame: "runs s' = runs s \<Longrightarrow> run_closed run s \<Longrightarrow> run_closed run s'"
  by (simp add: run_closed_def)

lemma acquire_row_runs: "acquire_row s acc run ex sid ttl now = Inr (l, s') \<Longrightarrow> runs s' = runs s \<and> waits s' = waits s"
  by (auto simp: acquire_row_def Let_def split: if_splits)

lemma acquire_segment_runs: "acquire_segment s fnc q ttl now = Inr (t, s') \<Longrightarrow> runs s' = runs s \<and> waits s' = waits s"
  by (erule acquire_segment_cases) (drule acquire_row_runs, simp)

lemma release_segment_runs: "release_segment s fnc q = Inr (u, s') \<Longrightarrow> runs s' = runs s \<and> waits s' = waits s"
  by (erule release_segment_cases) simp

lemma begin_wait_runs: "begin_wait s fnc w now = Inr (u, s') \<Longrightarrow> runs s' = runs s \<and> leases s' = leases s"
  by (erule begin_wait_cases) simp_all

lemma finish_wait_runs: "finish_wait s fnc w = Inr (u, s') \<Longrightarrow> runs s' = runs s \<and> leases s' = leases s"
  by (erule finish_wait_cases) simp

lemma renew_runs: "validate_and_renew_lease s fnc acc run t ex ttl now = Inr (l, s') \<Longrightarrow> runs s' = runs s \<and> waits s' = waits s"
  by (erule renew_cases) simp

lemma release_lease_runs: "release_lease s fnc acc run t ex = Inr (b, s') \<Longrightarrow> runs s' = runs s \<and> waits s' = waits s"
  by (erule release_lease_cases) simp_all

lemmas runs_kept = acquire_segment_runs release_segment_runs begin_wait_runs finish_wait_runs renew_runs
  release_lease_runs

lemma mark_running_closed: "mark_running_locked run now s = Inr s' \<Longrightarrow> run_closed x s \<Longrightarrow> run_closed x s'"
  unfolding mark_running_locked_def by (erule closed_update_run) simp_all

lemma closed_segment_step:
  assumes "segment_step ttl u v" "run_closed x (snd u)"
  shows "run_closed x (snd v)"
  using assms(1)
proof (cases rule: segment_step.cases)
  case (other s s' now)
  with assms(2) show ?thesis by (simp add: lease_frame_def run_closed_def)
next
  case (start_run s acc run now b s')
  then show ?thesis using assms(2) by (elim start_cases) (simp_all add: mark_running_closed)
next
  case (cancel_run run s s' now)
  then show ?thesis using assms(2) closed_update_run [of run _ _ s s' x Cancelling]
    by (simp add: set_cancelling_def)
next
  case (finish_run st code msg result run now s s')
  then show ?thesis using assms(2) closed_update_run [of run _ _ s s' x st]
    by (simp add: set_result_terminal_def)
qed (use assms(2) in \<open>simp_all add: run_closed_def runs_kept\<close>)

lemma acquire_lease_runs:
  "acquire_lease s fnc acc run ex ttl now = Inr (l, s') \<Longrightarrow> runs s' = runs s"
  by (erule acquire_lease_row) (simp add: acquire_row_runs)

lemma closed_lease_step:
  assumes "lease_step ttl u v" "run_closed x (snd u)"
  shows "run_closed x (snd v)"
  using assms(1)
proof (cases rule: lease_step.cases)
  case by_segment
  then show ?thesis using assms(2) by (rule closed_segment_step)
next
  case (acquire_ls s fnc acc run ex now l s')
  with assms(2) show ?thesis by (simp add: run_closed_def acquire_lease_runs)
qed

lemma closed_star: "(lease_step ttl)\<^sup>*\<^sup>* u v \<Longrightarrow> run_closed x (snd u) \<Longrightarrow> run_closed x (snd v)"
  by (induction rule: rtranclp_induct) (assumption, rule closed_lease_step)

lemma set_cancelling_closes: "set_cancelling run s = Inr s' \<Longrightarrow> run_closed run s'"
  unfolding set_cancelling_def
  by (drule update_run_runs) (simp add: run_closed_def list_all_update_where, simp add: list_all_iff)

lemma set_terminal_closes:
  "set_result_terminal st code msg res run now s = Inr s' \<Longrightarrow> st \<in> set TERMINAL \<Longrightarrow> run_closed run s'"
  unfolding set_result_terminal_def
  by (drule update_run_runs) (simp add: run_closed_def list_all_update_where, auto simp: list_all_iff TERMINAL_def)

lemma closed_refuses:
  assumes "run_closed run s"
  shows "assert_execution_fence s (Some (acc, run, x, t)) now \<noteq> Inr s'"
    "validate_and_renew_lease s fnc acc run t ex ttl now \<noteq> Inr r"
    "acquire_segment s fnc q ttl now = Inr y \<Longrightarrow> si_run_id q \<noteq> run"
proof -
  obtain e where e: "require_active_run s acc run = Inl e"
    using closed_inactive [OF assms] by blast
  show "assert_execution_fence s (Some (acc, run, x, t)) now \<noteq> Inr s'"
    by (simp add: assert_execution_fence_def e)
  show "validate_and_renew_lease s fnc acc run t ex ttl now \<noteq> Inr r"
    by (simp add: validate_and_renew_lease_def e)
  show "acquire_segment s fnc q ttl now = Inr y \<Longrightarrow> si_run_id q \<noteq> run"
    using closed_not_active [OF assms]
    by (cases y, simp, elim acquire_segment_cases) blast
qed

section \<open>Suspended Executions\<close>

definition waiting_on :: "'a lease_db_scheme \<Rightarrow> uuid \<Rightarrow> bool" where
  "waiting_on s x \<longleftrightarrow> list_ex (\<lambda>w. wt_execution_id w = x \<and> wt_state w = Waiting) (waits s)"

definition busy :: "'a timed \<Rightarrow> uuid \<Rightarrow> bool" where
  "busy u x \<longleftrightarrow> (case leases (snd u) x of None \<Rightarrow> False | Some r \<Rightarrow> lease_active r (fst u))"

lemma busy_iff: "busy (now, s) x \<longleftrightarrow> (\<exists>r. leases s x = Some r \<and> lease_active r now)"
  by (simp add: busy_def split: option.splits)

lemma busy_iff_snd: "busy u x \<longleftrightarrow> (\<exists>r. leases (snd u) x = Some r \<and> lease_active r (fst u))"
  by (simp add: busy_def split: option.splits)

definition suspended_ok :: "'a timed \<Rightarrow> bool" where
  "suspended_ok u \<longleftrightarrow> (\<forall>x. waiting_on (snd u) x \<longrightarrow> \<not> busy u x)"

definition calmer :: "'a timed \<Rightarrow> 'a timed \<Rightarrow> bool" where
  "calmer u v \<longleftrightarrow> (\<forall>x. waiting_on (snd v) x \<longrightarrow> waiting_on (snd u) x) \<and> (\<forall>x. busy v x \<longrightarrow> busy u x)"

lemma calmer_ok: "calmer u v \<Longrightarrow> suspended_ok u \<Longrightarrow> suspended_ok v"
  by (auto simp: calmer_def suspended_ok_def)

lemma calmer_tables:
  assumes "list_all (\<lambda>w. wt_state w = Waiting \<longrightarrow> waiting_on s (wt_execution_id w)) (waits s')"
    "\<And>x r. leases s' x = Some r \<Longrightarrow> lease_active r now \<Longrightarrow> busy (now, s) x"
  shows "calmer (now, s) (now, s')"
proof -
  have "busy (now, s) x" if "busy (now, s') x" for x
    using that assms(2) [of x] by (auto simp: busy_def [of "(now, s')"] split: option.splits)
  with assms(1) show ?thesis
    by (auto simp: calmer_def waiting_on_def list_ex_iff list_all_iff)
qed

lemma calmer_update_run:
  fixes s s' :: "'a lease_db_scheme"
  assumes "update_run run P f s = Inr s'"
  shows "calmer (now, s) (now, s')"
proof (rule calmer_tables)
  show "list_all (\<lambda>w. wt_state w = Waiting \<longrightarrow> waiting_on s (wt_execution_id w)) (waits s')"
    using update_run_waits [OF assms]
    by (auto simp: waiting_on_def list_ex_iff list_all_iff set_update_where)
  fix x r
  assume "leases s' x = Some r" "lease_active r now"
  then show "busy (now, s) x"
    using update_run_leases [OF assms]
    by (auto simp: busy_def revoke_leases_def lease_active_def split: option.splits if_splits)
qed

lemma calmer_refl [simp]: "calmer u u"
  by (simp add: calmer_def)

lemma waiting_on_frame: "waits s' = waits s \<Longrightarrow> waiting_on s' = waiting_on s"
  by (simp add: waiting_on_def fun_eq_iff)

lemma calmer_same_waits:
  assumes "waits s' = waits s" "\<And>x r. leases s' x = Some r \<Longrightarrow> lease_active r now \<Longrightarrow> busy (now, s) x"
  shows "calmer (now, s) (now, s')"
  using assms(2) by (rule calmer_tables [rotated]) (auto simp: assms(1) waiting_on_def list_all_iff list_ex_iff)

lemma busy_intro: "leases s x = Some r \<Longrightarrow> lease_active r now \<Longrightarrow> busy (now, s) x"
  by (simp add: busy_def)

text \<open>Apart from acquiring a segment and suspending, no step makes an Execution busy or waiting.\<close>

lemma segment_step_calm:
  assumes "segment_step ttl u v"
  obtains (calm) "calmer u v"
  | (acq) fnc q t where "acquire_segment (snd u) fnc q ttl (fst u) = Inr (t, snd v)" "fst v = fst u"
  | (wait) fnc w n where "begin_wait (snd u) fnc w (fst u) = Inr (n, snd v)" "fst v = fst u"
  using assms
proof (cases rule: segment_step.cases)
  case (tick now now' s)
  then show ?thesis
    by (intro calm) (auto simp: calmer_def busy_iff_snd lease_active_def split: option.splits)
next
  case (other s s' now)
  then show ?thesis by (intro calm) (simp add: calmer_def lease_frame_def waiting_on_def busy_iff_snd)
next
  case (renew s fnc acc run token ex now l s')
  from renew(3) show ?thesis
  proof (cases rule: renew_cases)
    case (1 e r)
    have "calmer (now, s) (now, s')"
      using 1(2,3) by (intro calmer_same_waits) (auto simp: 1(5) busy_iff_snd split: if_splits)
    with renew(1,2) show ?thesis by (intro calm) simp
  qed
next
  case (release s fnc acc run token ex b s' now)
  from release(3) have "calmer (now, s) (now, s')"
  proof (cases rule: release_lease_cases)
    case (closed e r)
    then show ?thesis
      by (intro calmer_same_waits) (auto simp: closed(4) busy_iff_snd lease_active_def split: if_splits)
  qed simp
  with release(1,2) show ?thesis by (intro calm) simp
next
  case (acquire_sg s fnc q now t s')
  then show ?thesis by (intro acq) simp_all
next
  case (release_sg s fnc q n s' now)
  from release_sg(3) have "calmer (now, s) (now, s')"
  proof (rule calmer_same_waits [OF conjunct2 [OF release_segment_runs]])
    fix x r
    assume "leases s' x = Some r" "lease_active r now"
    then show "busy (now, s) x"
      using release_sg(3)
      by (elim release_segment_cases) (auto simp: busy_iff_snd lease_active_def split: if_splits)
  qed
  with release_sg(1,2) show ?thesis by (intro calm) simp
next
  case (begin_w s fnc w now n s')
  then show ?thesis by (intro wait) simp_all
next
  case (finish_w s fnc fw b s' now)
  from finish_w(3) have "calmer (now, s) (now, s')"
    by (cases rule: finish_wait_cases)
       (auto simp: calmer_def busy_iff_snd waiting_on_def list_ex_iff set_update_where split: if_splits)
  with finish_w(1,2) show ?thesis by (intro calm) simp
next
  case (start_run s acc run now b s')
  from start_run(3) have "calmer (now, s) (now, s')"
    by (cases rule: start_cases) (auto simp: mark_running_locked_def intro: calmer_update_run)
  with start_run(1,2) show ?thesis by (intro calm) simp
next
  case (cancel_run run s s' now)
  then show ?thesis by (intro calm) (simp add: set_cancelling_def calmer_update_run)
next
  case (finish_run st code msg result run now s s')
  then show ?thesis by (intro calm) (simp add: set_result_terminal_def calmer_update_run)
qed

lemma suspended_step:
  assumes "segment_step ttl u v" "suspended_ok u"
  shows "suspended_ok v"
  using assms(1)
proof (cases rule: segment_step_calm)
  case calm
  then show ?thesis using assms(2) by (rule calmer_ok)
next
  case (acq fnc q t)
  have "waits (snd v) = waits (snd u)" using acquire_segment_runs [OF acq(1)] by simp
  moreover from acq(1) have "\<not> waiting_on (snd u) (si_execution_id q)"
    by (rule acquire_segment_cases) (simp add: waiting_on_def)
  moreover have "x \<noteq> si_execution_id q \<Longrightarrow> leases (snd v) x = leases (snd u) x" for x
    using acq(1) by (rule acquire_segment_cases) (erule acquire_row_cases, simp)
  ultimately show ?thesis
    using assms(2) acq(2) by (auto simp: suspended_ok_def waiting_on_def busy_iff_snd) metis
next
  case (wait fnc w n)
  from wait(1) show ?thesis
  proof (cases rule: begin_wait_cases)
    case old
    with wait(2) assms(2) show ?thesis by (metis prod.collapse)
  next
    case (fresh r)
    from fresh(2) have "\<not> busy u (wi_execution_id w)" by (simp add: busy_def)
    moreover have "leases (snd v) = leases (snd u)" using fresh(3) by simp
    moreover have "waiting_on (snd v) x \<Longrightarrow> waiting_on (snd u) x \<or> x = wi_execution_id w" for x
      using fresh(1,3) by (auto simp: waiting_on_def)
    ultimately show ?thesis
      using assms(2) wait(2) by (auto simp: suspended_ok_def busy_iff_snd)
  qed
qed

lemma suspended_star: "(segment_step ttl)\<^sup>*\<^sup>* u v \<Longrightarrow> suspended_ok u \<Longrightarrow> suspended_ok v"
  by (induction rule: rtranclp_induct) (assumption, rule suspended_step)

end
