(* ===== verification/Lease_Properties.thy ===== *)
theory Lease_Properties
  imports Lease_Laws
begin

text \<open>
  The properties of leases, segments and waits, each about arbitrary interleavings (\<open>lease_step\<close>,
  \<open>segment_step\<close>), and a small database on which they are applied.
\<close>

text \<open>C21. A fencing token that its Execution has reached and that does not hold the lease now (it expired,
  was released, revoked or superseded) never passes the execution fence again and is never renewed,
  whatever transactions commit and however much time passes.\<close>

theorem dead_token_is_refused_forever:
  assumes "(lease_step ttl)\<^sup>*\<^sup>* (now, s) (now', s')"
    and "t \<le> token_of (now, s) x" and "\<not> held_by (now, s) x t"
  shows "(\<forall>r. assert_execution_fence s' (Some (acc, run, x, t)) now' \<noteq> Inr r) \<and>
         (\<forall>r. validate_and_renew_lease s' fnc acc run t (Some x) ttl' now' \<noteq> Inr r)"
proof -
  have "\<not> held_by (now', s') x t"
    using fencing.dead_stays_dead [OF assms] .
  then show ?thesis by (blast dest: fence_needs_held renew_needs_held)
qed

text \<open>C22. Two segments never act under the same fencing token: a segment that acquires an Execution after
  another one gets a strictly larger token, and the older token is refused from then on.\<close>

theorem segments_get_increasing_tokens:
  assumes "acquire_segment s fnc q ttl now = Inr (t, s1)"
    and "(lease_step ttl)\<^sup>*\<^sup>* (now, s1) (now2, s2)"
    and "acquire_segment s2 fnc2 q2 ttl now2 = Inr (t2, s3)"
    and "si_execution_id q2 = si_execution_id q" and "si_segment_id q2 \<noteq> si_segment_id q"
    and "(lease_step ttl)\<^sup>*\<^sup>* (now2, s3) (now4, s4)"
  shows "t < t2 \<and> (\<forall>acc run r. assert_execution_fence s4 (Some (acc, run, si_execution_id q, t)) now4 \<noteq> Inr r)"
proof
  have "owned_or_passed (si_execution_id q) (si_segment_id q) t (now, s1)"
    using assms(1) by (rule acquire_segment_lease) (simp add: owned_or_passed_def)
  from owned_or_passed_star [OF assms(2) this] show less: "t < t2"
    using acquire_after [OF assms(3), of "si_segment_id q" t] assms(4,5) by simp
  have "token_of (now2, s3) (si_execution_id q) = t2"
    using assms(3) by (rule acquire_segment_lease) (simp add: token_of_def tok_def assms(4))
  with less fencing.superseded [OF assms(6)]
  have "\<not> held_by (now4, s4) (si_execution_id q) t" by simp
  then show "\<forall>acc run r. assert_execution_fence s4 (Some (acc, run, si_execution_id q, t)) now4 \<noteq> Inr r"
    by (blast dest: fence_needs_held)
qed

text \<open>A released segment is closed for good: whatever happens afterwards, acquiring it again fails,
  also when the release came first and the delayed acquisition arrives later.\<close>

theorem released_segment_never_runs_again:
  assumes "release_segment s fnc q = Inr ((), s1)" and "(lease_step ttl)\<^sup>*\<^sup>* (now, s1) (now2, s2)"
  shows "acquire_segment s2 fnc2 q ttl' now2 \<noteq> Inr r"
proof -
  have "segment_shut q s2"
    using shut_star [OF assms(2)] release_segment_shuts [OF assms(1)] by simp
  then show ?thesis by (cases r) (simp add: shut_not_acquired)
qed

text \<open>C23. Once a Run is cancelling or terminal, no fence of any of its Executions passes, no lease of it is
  renewed and no segment of it is acquired, in any later state.\<close>

theorem closed_run_refuses_all_progress:
  assumes "set_cancelling run s = Inr s1 \<or>
           st \<in> set TERMINAL \<and> set_result_terminal st code msg res run now s = Inr s1"
    and "(lease_step ttl)\<^sup>*\<^sup>* (now, s1) (now2, s2)"
  shows "assert_execution_fence s2 (Some (acc, run, x, t)) now2 \<noteq> Inr s' \<and>
         validate_and_renew_lease s2 fnc acc run t ex ttl' now2 \<noteq> Inr r \<and>
         (si_run_id q = run \<longrightarrow> acquire_segment s2 fnc q ttl' now2 \<noteq> Inr y)"
proof -
  have "run_closed run s1"
    using assms(1) set_cancelling_closes set_terminal_closes by blast
  then have "run_closed run s2" using closed_star [OF assms(2)] by simp
  from closed_refuses [OF this] show ?thesis by blast
qed

text \<open>C24. Durable waits and leases exclude each other: with segments as the only way to acquire an
  Execution, an Execution with a pending wait never has a live lease, so no fence of it passes.\<close>

theorem suspended_execution_has_no_live_lease:
  assumes "suspended_ok (now, s)" and "(segment_step ttl)\<^sup>*\<^sup>* (now, s) (now2, s2)"
    and "waiting_on s2 x"
  shows "assert_execution_fence s2 (Some (acc, run, x, t)) now2 \<noteq> Inr s' \<and>
         (si_execution_id q = x \<longrightarrow> acquire_segment s2 fnc q ttl' now2 \<noteq> Inr y)"
proof
  have "\<not> busy (now2, s2) x"
    using suspended_star [OF assms(2,1)] assms(3) by (simp add: suspended_ok_def)
  then have "\<not> held_by (now2, s2) x t"
    by (auto simp: held_by_def busy_iff split: option.splits)
  then show "assert_execution_fence s2 (Some (acc, run, x, t)) now2 \<noteq> Inr s'"
    using fence_needs_held by blast
  show "si_execution_id q = x \<longrightarrow> acquire_segment s2 fnc q ttl' now2 \<noteq> Inr y"
    using assms(3) by (cases y) (auto simp: waiting_on_def elim: acquire_segment_cases)
qed

section \<open>The properties applied\<close>

definition demo_lease :: lease_db where
  "demo_lease =
    \<lparr>accounts = [''acc'' \<mapsto> \<lparr>a_status = ''active'', a_memory_epoch = 0\<rparr>], conversations = [(''acc'', ''conv'')],
     works = (\<lambda>_. None),
     runs = [\<lparr>r_run_id = ''r'', r_account_id = ''acc'', r_source_kind = Chat, r_conversation_id = Some ''conv'',
        r_session_id = Some ''s'', r_work_id = None, r_requirement_revision = None, r_work_control_epoch = None,
        r_status = Running, r_failure_code = None, r_failure_message = None, r_result_json = None,
        r_created_at = 0, r_started_at = Some 0, r_finished_at = None, r_version = 1\<rparr>],
     executions = [\<lparr>e_execution_id = ''x'', e_account_id = ''acc'', e_run_id = ''r'', e_role = Root,
        e_status = Running, e_attempt_no = 0, e_memory_context = None\<rparr>],
     leases = (\<lambda>_. None), waits = [], memory_actions = [], memory_sources = [], segments = (\<lambda>_. None)\<rparr>"

definition demo_segment :: "string \<Rightarrow> segment_input" where
  "demo_segment sg = \<lparr>si_schema_version = 2, si_run_id = ''r'', si_account_id = ''acc'', si_segment_id = sg,
     si_execution_id = ''x''\<rparr>"

definition demo_wait :: wait_input where
  "demo_wait = \<lparr>wi_schema_version = 2, wi_run_id = ''r'', wi_account_id = ''acc'', wi_wait_id = ''w'',
     wi_operation_id = ''op'', wi_reason = ''approval'', wi_resume_ref = ''ref'', wi_deadline = ''d'', wi_execution_id = ''x''\<rparr>"

definition demo_first :: "(int \<times> lease_db) res" where
  "demo_first = acquire_segment demo_lease None (demo_segment ''s1'') 10 0"

definition demo_owned :: lease_db where
  "demo_owned = committed demo_first demo_lease"

definition demo_second :: "(int \<times> lease_db) res" where
  "demo_second = acquire_segment demo_owned None (demo_segment ''s2'') 10 20"

definition demo_taken :: lease_db where
  "demo_taken = committed demo_second demo_owned"

definition demo_released :: "(unit \<times> lease_db) res" where
  "demo_released = release_segment demo_owned None (demo_segment ''s1'')"

definition demo_cancelled :: "lease_db res" where
  "demo_cancelled = set_cancelling ''r'' demo_owned"

definition demo_suspended :: "(unit \<times> lease_db) res" where
  "demo_suspended = begin_wait demo_lease None demo_wait 0"

lemma demo_owned_eq: "acquire_segment demo_lease None (demo_segment ''s1'') 10 0 = Inr (1, demo_owned)"
proof -
  have "\<not> isl demo_first" "fst (projr demo_first) = 1" by code_simp+
  then show ?thesis
    using committed_result [of demo_first demo_lease] by (simp add: demo_owned_def demo_first_def)
qed

lemma demo_taken_eq: "acquire_segment demo_owned None (demo_segment ''s2'') 10 20 = Inr (2, demo_taken)"
proof -
  have "\<not> isl demo_second" "fst (projr demo_second) = 2" by code_simp+
  then show ?thesis
    using committed_result [of demo_second demo_owned] by (simp add: demo_taken_def demo_second_def)
qed

theorem dead_token_is_refused_forever_witness:
  "\<forall>r. assert_execution_fence demo_taken (Some (''acc'', ''r'', ''x'', 1)) 20 \<noteq> Inr r"
proof -
  have "lease_step 10 (20, demo_owned) (20, demo_taken)"
    using demo_taken_eq by (intro by_segment acquire_sg)
  moreover have "(1::int) \<le> token_of (20, demo_owned) ''x''" "\<not> held_by (20, demo_owned) ''x'' 1"
    by code_simp+
  ultimately show ?thesis
    using dead_token_is_refused_forever [of 10 20 demo_owned 20 demo_taken 1 "''x''" "''acc''" "''r''"] by blast
qed

theorem segments_get_increasing_tokens_witness:
  "(1::int) < 2 \<and> (\<forall>r. assert_execution_fence demo_taken (Some (''acc'', ''r'', ''x'', 1)) 20 \<noteq> Inr r)"
proof -
  have "(lease_step 10)\<^sup>*\<^sup>* (0, demo_owned) (20, demo_owned)"
    by (intro r_into_rtranclp by_segment tick) simp
  from segments_get_increasing_tokens [OF demo_owned_eq this demo_taken_eq _ _ rtranclp.rtrancl_refl]
  show ?thesis by (simp add: demo_segment_def)
qed

theorem released_segment_never_runs_again_witness:
  "\<exists>s1. release_segment demo_owned None (demo_segment ''s1'') = Inr ((), s1) \<and>
     acquire_segment s1 None (demo_segment ''s1'') 10 30 \<noteq> Inr (3, s1)"
proof -
  have "\<not> isl demo_released" by code_simp
  then obtain s1 where s1: "release_segment demo_owned None (demo_segment ''s1'') = Inr ((), s1)"
    by (cases demo_released) (auto simp: demo_released_def)
  have "(lease_step 10)\<^sup>*\<^sup>* (0, s1) (30, s1)"
    by (intro r_into_rtranclp by_segment tick) simp
  from released_segment_never_runs_again [OF s1 this] s1 show ?thesis by blast
qed

theorem closed_run_refuses_all_progress_witness:
  "\<exists>s1. set_cancelling ''r'' demo_owned = Inr s1 \<and>
     assert_execution_fence s1 (Some (''acc'', ''r'', ''x'', 2)) 0 \<noteq> Inr s1"
proof -
  have "\<not> isl demo_cancelled" by code_simp
  then obtain s1 where s1: "set_cancelling ''r'' demo_owned = Inr s1"
    by (cases demo_cancelled) (auto simp: demo_cancelled_def)
  from closed_run_refuses_all_progress [OF disjI1 [OF s1] rtranclp.rtrancl_refl [of "lease_step 10" "(0, s1)"]] s1
  show ?thesis by blast
qed

theorem suspended_execution_has_no_live_lease_witness:
  "\<exists>s1. begin_wait demo_lease None demo_wait 0 = Inr ((), s1) \<and> waiting_on s1 ''x'' \<and>
     (\<forall>y. acquire_segment s1 None (demo_segment ''s1'') 10 0 \<noteq> Inr y)"
proof -
  have "\<not> isl demo_suspended" "waiting_on (committed demo_suspended demo_lease) ''x''" by code_simp+
  then obtain s1 where s1: "begin_wait demo_lease None demo_wait 0 = Inr ((), s1)" and w: "waiting_on s1 ''x''"
    by (cases demo_suspended) (auto simp: demo_suspended_def)
  have "suspended_ok (0, demo_lease)"
    by (simp add: suspended_ok_def waiting_on_def demo_lease_def)
  moreover have "(segment_step 10)\<^sup>*\<^sup>* (0, demo_lease) (0, s1)"
    using s1 by (intro r_into_rtranclp begin_w)
  ultimately show ?thesis
    using suspended_execution_has_no_live_lease [of 0 demo_lease 10 0 s1 "''x''" _ _ _ _ "demo_segment ''s1''"] w s1
    by (auto simp: demo_segment_def)
qed

end
