(* ===== verification/Operation_Store.thy ===== *)
theory Operation_Store
  imports Lease_Store
begin

text \<open>
  Durable operations: every model call, tool call and planning step of a Run is one row of
  \<open>execution_operations\<close>, entered under a fence, completed at most once, with one registered attempt per
  fencing token and at most one receipt per attempt. Models \<open>run_domain/results.py\<close>, the operation part
  of \<open>agent_activities/store.py\<close> and the triggers of migrations 055 and 058 on these tables.
  \<open>digest\<close> stands for \<open>result_digest\<close> (SHA-256 of the canonical JSON text), \<open>now\<close> for the clock.
  The CHECK constraints that list the admitted types of operations and events are left out: the callers
  pass literals from those lists.
\<close>

section \<open>Tables\<close>

datatype op_status = Op_Started | Op_Failed | Op_Completed | Intent_Recorded | Op_Uncertain

record operation_row =
  o_operation_id :: string
  o_account_id :: uuid
  o_run_id :: uuid
  o_execution_id :: uuid
  o_operation_type :: string
  o_status :: op_status
  o_attempt_count :: int
  o_result_ref :: "string option"
  o_result_payload :: "json option"
  o_error_code :: "string option"
  o_work_id :: "uuid option"
  o_requirement_revision :: "int option"
  o_effect_key :: "string option"
  o_parameters_digest :: "string option"
  o_started_at :: int

record attempt_row =
  at_account_id :: uuid
  at_run_id :: uuid
  at_execution_id :: uuid
  at_operation_id :: string
  at_attempt_no :: int
  at_fencing_token :: int
  at_receipt_ref :: string

datatype disposition = Current | Stale | Receipt_Cancelled

record receipt_row =
  rc_account_id :: uuid
  rc_run_id :: uuid
  rc_execution_id :: uuid
  rc_operation_id :: string
  rc_attempt_no :: int
  rc_requirement_revision :: "int option"
  rc_result_ref :: string
  rc_digest :: string
  rc_disposition :: disposition

record effect_reference_row =
  ef_account_id :: uuid
  ef_run_id :: uuid
  ef_execution_id :: uuid
  ef_operation_id :: string
  ef_producing_run_id :: uuid
  ef_producing_execution_id :: uuid
  ef_requirement_revision :: "int option"

record transcript_row =
  tr_transcript_id :: string
  tr_account_id :: uuid
  tr_run_id :: uuid
  tr_execution_id :: uuid
  tr_conversation_id :: "uuid option"
  tr_session_id :: "uuid option"
  tr_version :: int

record event_row =
  ev_transcript_id :: string
  ev_sequence :: int
  ev_event_type :: string
  ev_operation_id :: string
  ev_payload :: "(string \<times> json) list"

record op_db = lease_db +
  operations :: "operation_row list"
  attempts :: "attempt_row list"
  receipts :: "receipt_row list"
  effect_references :: "effect_reference_row list"
  transcripts :: "transcript_row list"
  events :: "event_row list"

section \<open>Rows\<close>

definition find_operation :: "'a op_db_scheme \<Rightarrow> string \<Rightarrow> operation_row option" where
  "find_operation s op = find (\<lambda>d. o_operation_id d = op) (operations s)"

definition operation_owners :: "'a op_db_scheme \<Rightarrow> string \<Rightarrow> (uuid \<times> uuid \<times> uuid) list" where
  "operation_owners s op = map (\<lambda>d. (o_account_id d, o_run_id d, o_execution_id d))
     (filter (\<lambda>d. o_operation_id d = op) (operations s))"

definition result_owners :: "'a op_db_scheme \<Rightarrow> string \<Rightarrow> (uuid \<times> uuid \<times> uuid) list" where
  "result_owners s ref = map (\<lambda>d. (o_account_id d, o_run_id d, o_execution_id d))
     (filter (\<lambda>d. o_result_ref d = Some ref) (operations s))"

definition provenance ::
  "operation_row \<Rightarrow> string \<times> uuid \<times> uuid \<times> uuid \<times> string \<times> uuid option \<times> int option \<times> string option \<times> string option" where
  "provenance d = (o_operation_id d, o_account_id d, o_run_id d, o_execution_id d, o_operation_type d, o_work_id d,
     o_requirement_revision d, o_effect_key d, o_parameters_digest d)"

text \<open>\<open>UPDATE execution_operations SET \<dots>, updated_at=now() WHERE operation_id=\<dots> AND P\<close> under the trigger
  \<open>bind_execution_operation\<close> (a completed row and the provenance of any row are immutable) and the
  unique index on \<open>result_ref\<close>.\<close>

definition update_operation ::
  "string \<Rightarrow> (operation_row \<Rightarrow> bool) \<Rightarrow> (operation_row \<Rightarrow> operation_row) \<Rightarrow> 'a op_db_scheme \<Rightarrow> 'a op_db_scheme res" where
  "update_operation op P f s =
     (case find (\<lambda>d. o_operation_id d = op \<and> P d) (operations s) of
        None \<Rightarrow> Inr s
      | Some d \<Rightarrow>
          ensure (o_status d \<noteq> Op_Completed \<and> provenance (f d) = provenance d)
            (DbError ''immutable operation provenance/result'')
          (ensure (o_result_ref (f d) = None
                   \<or> \<not> list_ex (\<lambda>x. o_operation_id x \<noteq> op \<and> o_result_ref x = o_result_ref (f d)) (operations s))
            (DbError ''uq_agent_operations__result_ref'')
          (Inr (s\<lparr>operations := update_where (\<lambda>d. o_operation_id d = op \<and> P d) f (operations s)\<rparr>))))"

text \<open>INSERT with the same trigger: the account falls back to the Run's, the Execution to its root, and
  the work and requirement revision are the Run's.\<close>

definition insert_operation ::
  "'a op_db_scheme \<Rightarrow> string \<Rightarrow> uuid option \<Rightarrow> uuid \<Rightarrow> uuid option \<Rightarrow> string \<Rightarrow> string option \<Rightarrow> string option \<Rightarrow> int \<Rightarrow>
   'a op_db_scheme res" where
  "insert_operation s op account run ex ty effect_key digest now =
     ebind (need (DbError ''null account_id'') (find (\<lambda>r. r_run_id r = run) (runs s))) (\<lambda>r.
     ebind (need (DbError ''null execution_id'') (case ex of Some x \<Rightarrow> Some x
              | None \<Rightarrow> map_option e_execution_id (find (\<lambda>e. e_run_id e = run \<and> e_role e = Root) (executions s)))) (\<lambda>x.
       let acc = (case account of Some a \<Rightarrow> a | None \<Rightarrow> r_account_id r) in
       ensure (list_ex (\<lambda>e. e_account_id e = acc \<and> e_run_id e = run \<and> e_execution_id e = x) (executions s))
         (DbError ''execution_operations foreign key'')
       (ensure (find_operation s op = None) (DbError ''execution_operations primary key'')
       (Inr (s\<lparr>operations := operations s @
          [\<lparr>o_operation_id = op, o_account_id = acc, o_run_id = run, o_execution_id = x, o_operation_type = ty,
            o_status = Op_Started, o_attempt_count = 1, o_result_ref = None, o_result_payload = None,
            o_error_code = None, o_work_id = r_work_id r, o_requirement_revision = r_requirement_revision r,
            o_effect_key = effect_key, o_parameters_digest = digest, o_started_at = now\<rparr>]\<rparr>)))))"

section \<open>Attempts\<close>

definition register_attempt :: "'a op_db_scheme \<Rightarrow> string \<Rightarrow> fence \<Rightarrow> 'a op_db_scheme res" where
  "register_attempt s op fnc =
     (case fnc of None \<Rightarrow> Inr s
      | Some (acc, run, ex, token) \<Rightarrow>
          ebind (need (RuntimeError ''NoneType'') (find_operation s op)) (\<lambda>d.
            if list_ex (\<lambda>a. at_operation_id a = op \<and> at_fencing_token a = token) (attempts s) then Inr s
            else
              ensure (\<not> list_ex (\<lambda>a. at_operation_id a = op \<and> at_attempt_no a = o_attempt_count d) (attempts s))
                (DbError ''execution_operation_attempts primary key'')
              (ensure (o_account_id d = acc \<and> o_run_id d = run \<and> o_execution_id d = ex)
                (DbError ''execution_operation_attempts foreign key'')
              (ensure (token \<ge> 1 \<and> o_attempt_count d \<ge> 1) (DbError ''execution_operation_attempts check'')
              (Inr (s\<lparr>attempts := attempts s @
                [\<lparr>at_account_id = acc, at_run_id = run, at_execution_id = ex, at_operation_id = op,
                  at_attempt_no = o_attempt_count d, at_fencing_token = token,
                  at_receipt_ref = ''operation:'' @ op\<rparr>]\<rparr>))))))"

definition attempt_registered :: "'a op_db_scheme \<Rightarrow> string \<Rightarrow> fence \<Rightarrow> bool" where
  "attempt_registered s op fnc = (case fnc of None \<Rightarrow> False
     | Some (_, _, _, token) \<Rightarrow> list_ex (\<lambda>a. at_operation_id a = op \<and> at_fencing_token a = token) (attempts s))"

text \<open>Reentry of an operation that exists.\<close>

definition reenter_operation ::
  "'a op_db_scheme \<Rightarrow> fence \<Rightarrow> operation_row \<Rightarrow> bool \<Rightarrow> ((op_status \<times> json option) \<times> 'a op_db_scheme) res" where
  "reenter_operation s fnc row allow_unresolved =
     (let op = o_operation_id row; unresolved = o_status row \<in> {Intent_Recorded, Op_Uncertain} in
      if o_status row = Op_Completed then Inr ((Op_Completed, o_result_payload row), s)
      else
        ensure (\<not> (unresolved \<and> \<not> allow_unresolved)) OperationUncertain
        (ebind (update_operation op (\<lambda>_. True)
                 (\<lambda>d. d\<lparr>o_attempt_count := o_attempt_count d + (if attempt_registered s op fnc then 0 else 1)\<rparr>) s) (\<lambda>s1.
         ebind (if unresolved then Inr s1
                else update_operation op (\<lambda>_. True)
                  (\<lambda>d. d\<lparr>o_status := Op_Started, o_error_code := None, o_result_payload := None\<rparr>) s1) (\<lambda>s2.
         ebind (register_attempt s2 op fnc) (\<lambda>s3.
         Inr (if unresolved then (o_status row, o_result_payload row) else (Op_Started, None), s3))))))"

definition begin_operation ::
  "'a op_db_scheme \<Rightarrow> fence \<Rightarrow> string \<Rightarrow> uuid \<Rightarrow> string \<Rightarrow> bool \<Rightarrow> int \<Rightarrow>
   ((op_status \<times> json option) \<times> 'a op_db_scheme) res" where
  "begin_operation s fnc op run ty allow_unresolved now =
     ebind (assert_execution_fence s fnc now) (\<lambda>s1.
     ensure (case fnc of None \<Rightarrow> True | Some (_, r, _, _) \<Rightarrow> r = run) StaleFencingToken
     (case find_operation s1 op of
        None \<Rightarrow>
          ebind (insert_operation s1 op None run (map_option (\<lambda>(_, _, x, _). x) fnc) ty None None now) (\<lambda>s2.
          ebind (register_attempt s2 op fnc) (\<lambda>s3. Inr ((Op_Started, None), s3)))
      | Some row \<Rightarrow>
          ebind (require_owned_record fnc (operation_owners s1 op)) (\<lambda>_.
          ensure (o_run_id row = run \<and> o_operation_type row = ty) (ValueError ''operation_id identity mismatch'')
            (reenter_operation s1 fnc row allow_unresolved))))"

section \<open>Receipts\<close>

text \<open>\<open>validate_execution_receipt\<close>: what the database demands of a current receipt.\<close>

definition receipt_admissible :: "'a op_db_scheme \<Rightarrow> receipt_row \<Rightarrow> int \<Rightarrow> bool" where
  "receipt_admissible s r now =
     (case (find_operation s (rc_operation_id r),
            find (\<lambda>a. at_operation_id a = rc_operation_id r \<and> at_attempt_no a = rc_attempt_no r) (attempts s)) of
        (Some d, Some a) \<Rightarrow>
          rc_result_ref r = at_receipt_ref a \<and> rc_requirement_revision r = o_requirement_revision d \<and>
          (rc_disposition r \<noteq> Current \<or>
             (case find (\<lambda>x. r_run_id x = rc_run_id r) (runs s) of None \<Rightarrow> False
              | Some run \<Rightarrow>
                  r_status run \<in> {Queued, Running} \<and> account_active s (rc_account_id r) \<and>
                  (case leases s (rc_execution_id r) of None \<Rightarrow> False
                   | Some l \<Rightarrow> l_fencing_token l = at_fencing_token a \<and> lease_active l now) \<and>
                  (r_source_kind run \<noteq> Work \<or>
                     (case r_work_id run of None \<Rightarrow> False
                      | Some wid \<Rightarrow> (case works s wid of None \<Rightarrow> False
                          | Some w \<Rightarrow> w_status w = WActive \<and> w_active_coordinator_run_id w = Some (r_run_id run) \<and>
                              Some (w_current_requirement_revision w) = r_requirement_revision run \<and>
                              Some (w_control_epoch w) = r_work_control_epoch run)))))
      | _ \<Rightarrow> False)"

definition insert_receipt :: "'a op_db_scheme \<Rightarrow> receipt_row \<Rightarrow> int \<Rightarrow> 'a op_db_scheme res" where
  "insert_receipt s r now =
     ensure (receipt_admissible s r now) (DbError ''validate_execution_receipt'')
     (ensure (\<not> list_ex (\<lambda>x. rc_operation_id x = rc_operation_id r \<and> rc_attempt_no x = rc_attempt_no r) (receipts s))
       (DbError ''execution_result_receipts primary key'')
     (Inr (s\<lparr>receipts := receipts s @ [r]\<rparr>)))"

definition find_receipt :: "'a op_db_scheme \<Rightarrow> string \<Rightarrow> int \<Rightarrow> receipt_row option" where
  "find_receipt s op attempt = find (\<lambda>r. rc_operation_id r = op \<and> rc_attempt_no r = attempt) (receipts s)"

text \<open>\<open>ResultReceiptService.receive\<close>: how a result that arrives now is to be regarded.\<close>

definition work_disposition :: "work_row \<Rightarrow> run_row \<Rightarrow> disposition \<Rightarrow> disposition" where
  "work_disposition w run d =
     (if Some (w_current_requirement_revision w) \<noteq> r_requirement_revision run then Stale
      else if w_status w \<noteq> WActive then Receipt_Cancelled
      else if Some (w_control_epoch w) \<noteq> r_work_control_epoch run then Stale
      else if w_active_coordinator_run_id w \<noteq> Some (r_run_id run) then Stale
      else d)"

definition receipt_disposition ::
  "'a op_db_scheme \<Rightarrow> uuid \<Rightarrow> run_row \<Rightarrow> execution_row \<Rightarrow> uuid \<Rightarrow> int \<Rightarrow> int \<Rightarrow> disposition res" where
  "receipt_disposition s acc run execution ex token now =
     (let d0 = (if account_active s acc then Current else Stale) in
      ebind (if r_source_kind run = Work
             then ebind (need (RuntimeError ''NoneType'') (case r_work_id run of None \<Rightarrow> None | Some wid \<Rightarrow> works s wid))
                    (\<lambda>w. Inr (work_disposition w run d0))
             else Inr d0) (\<lambda>d1.
       let d2 = (if d1 = Current \<and> r_status run \<in> {Cancelling, Cancelled} then Receipt_Cancelled else d1);
           d3 = (if d2 = Current \<and> e_status execution \<in> {Cancelling, Cancelled} then Receipt_Cancelled else d2);
           live = (case leases s ex of None \<Rightarrow> False | Some l \<Rightarrow> l_fencing_token l = token \<and> lease_active l now) in
       Inr (if d3 = Current \<and> (\<not> live \<or> r_status run \<notin> {Queued, Running} \<or> e_status execution \<notin> {Queued, Running})
            then Stale else d3)))"

definition find_attempt :: "'a op_db_scheme \<Rightarrow> uuid \<Rightarrow> uuid \<Rightarrow> uuid \<Rightarrow> string \<Rightarrow> int \<Rightarrow> attempt_row option" where
  "find_attempt s acc run ex op token =
     find (\<lambda>a. at_account_id a = acc \<and> at_run_id a = run \<and> at_execution_id a = ex \<and> at_operation_id a = op
               \<and> at_fencing_token a = token) (attempts s)"

text \<open>The result of a Run or Execution that is over is kept with its operation, unless a later attempt
  took the operation over.\<close>

definition keep_late_result ::
  "'a op_db_scheme \<Rightarrow> run_row \<Rightarrow> execution_row \<Rightarrow> attempt_row \<Rightarrow> operation_row \<Rightarrow> disposition \<Rightarrow> json \<Rightarrow> 'a op_db_scheme res" where
  "keep_late_result s run execution a d disp payload =
     (if disp \<noteq> Current
         \<and> (r_status run \<in> {Cancelling, Cancelled, Failed, Succeeded} \<or> e_status execution \<in> {Cancelling, Cancelled, Failed})
         \<and> at_attempt_no a = o_attempt_count d \<and> o_status d \<noteq> Op_Completed
      then update_operation (o_operation_id d) (\<lambda>_. True)
             (\<lambda>d. d\<lparr>o_status := Op_Completed, o_result_ref := Some (at_receipt_ref a),
                    o_result_payload := Some payload, o_error_code := None\<rparr>) s
      else Inr s)"

definition receive ::
  "(json \<Rightarrow> string) \<Rightarrow> 'a op_db_scheme \<Rightarrow> fence \<Rightarrow> uuid \<Rightarrow> uuid \<Rightarrow> uuid \<Rightarrow> string \<Rightarrow> int \<Rightarrow> json \<Rightarrow> int \<Rightarrow>
   (disposition \<times> 'a op_db_scheme) res" where
  "receive digest s fnc acc run_id ex op token payload now =
     ebind (lock s acc run_id) (\<lambda>run.
     ebind (lock_execution s fnc acc run_id (Some ex)) (\<lambda>execution.
     ebind (need (ValueError ''receipt has no registered producing attempt'')
             (case (find_attempt s acc run_id ex op token, find_operation s op) of
                (Some a, Some d) \<Rightarrow> Some (a, d) | _ \<Rightarrow> None)) (\<lambda>(a, d).
     ebind (receipt_disposition s acc run execution ex token now) (\<lambda>disp.
       case find_receipt s op (at_attempt_no a) of
         Some prior \<Rightarrow>
           ensure (rc_digest prior = digest payload) (ValueError ''receipt payload conflict'')
             (Inr (rc_disposition prior, s))
       | None \<Rightarrow>
           ebind (insert_receipt s
               \<lparr>rc_account_id = acc, rc_run_id = run_id, rc_execution_id = ex, rc_operation_id = op,
                rc_attempt_no = at_attempt_no a, rc_requirement_revision = o_requirement_revision d,
                rc_result_ref = at_receipt_ref a, rc_digest = digest payload, rc_disposition = disp\<rparr> now) (\<lambda>s1.
           ebind (keep_late_result s1 run execution a d disp payload) (\<lambda>s2. Inr (disp, s2)))))))"

section \<open>Cross-Run effects\<close>

definition find_effect :: "'a op_db_scheme \<Rightarrow> uuid \<Rightarrow> uuid option \<Rightarrow> string \<Rightarrow> operation_row option" where
  "find_effect s acc wid effect_key =
     find (\<lambda>d. o_account_id d = acc \<and> wid \<noteq> None \<and> o_work_id d = wid \<and> o_effect_key d = Some effect_key) (operations s)"

definition add_reference ::
  "'a op_db_scheme \<Rightarrow> uuid \<Rightarrow> run_row \<Rightarrow> uuid \<Rightarrow> operation_row \<Rightarrow> 'a op_db_scheme" where
  "add_reference s acc run ex prior =
     (if o_run_id prior \<noteq> r_run_id run
         \<and> \<not> list_ex (\<lambda>f. ef_execution_id f = ex \<and> ef_operation_id f = o_operation_id prior) (effect_references s)
      then s\<lparr>effect_references := effect_references s @
        [\<lparr>ef_account_id = acc, ef_run_id = r_run_id run, ef_execution_id = ex, ef_operation_id = o_operation_id prior,
          ef_producing_run_id = o_run_id prior, ef_producing_execution_id = o_execution_id prior,
          ef_requirement_revision = r_requirement_revision run\<rparr>]\<rparr>
      else s)"

definition register_effect ::
  "(json \<Rightarrow> string) \<Rightarrow> 'a op_db_scheme \<Rightarrow> fence \<Rightarrow> uuid \<Rightarrow> uuid \<Rightarrow> uuid \<Rightarrow> string \<Rightarrow> string \<Rightarrow> json \<Rightarrow> int \<Rightarrow>
   (operation_row \<times> 'a op_db_scheme) res" where
  "register_effect digest s fnc acc run_id ex op effect_key parameters now =
     ebind (require_active_run s acc run_id) (\<lambda>run.
     ebind (lock_execution s fnc acc run_id (Some ex)) (\<lambda>_.
     ebind (assert_execution_fence s fnc now) (\<lambda>s1.
     ensure (r_source_kind run = Work) (ValueError ''cross-Run effects require Work ownership'')
     (case find_effect s1 acc (r_work_id run) effect_key of
        Some prior \<Rightarrow>
          ensure (o_parameters_digest prior = Some (digest parameters)) (ValueError ''effect key parameter conflict'')
            (Inr (prior, add_reference s1 acc run ex prior))
      | None \<Rightarrow>
          ebind (insert_operation s1 op (Some acc) run_id (Some ex) ''tool'' (Some effect_key)
                   (Some (digest parameters)) now) (\<lambda>s2.
          ebind (need (RuntimeError ''NoneType'') (find_operation s2 op)) (\<lambda>d. Inr (d, s2)))))))"

section \<open>Completion\<close>

text \<open>The receipt of the attempt that completes: it must be registered, and a receipt it already has must
  be the current one of the same payload.\<close>

definition receipt_for_completion ::
  "(json \<Rightarrow> string) \<Rightarrow> 'a op_db_scheme \<Rightarrow> fence \<Rightarrow> operation_row \<Rightarrow> json \<Rightarrow> int \<Rightarrow> 'a op_db_scheme res" where
  "receipt_for_completion digest s fnc d payload now =
     (case fnc of None \<Rightarrow> Inr s
      | Some (_, _, _, token) \<Rightarrow>
          ebind (need (ValueError ''result attempt was not registered'')
                  (find (\<lambda>a. at_operation_id a = o_operation_id d \<and> at_fencing_token a = token) (attempts s))) (\<lambda>a.
            case find_receipt s (o_operation_id d) (at_attempt_no a) of
              Some r \<Rightarrow>
                ensure (rc_digest r = digest payload) (ValueError ''receipt payload conflict'')
                (ensure (rc_disposition r = Current) StaleFencingToken (Inr s))
            | None \<Rightarrow>
                insert_receipt s
                  \<lparr>rc_account_id = o_account_id d, rc_run_id = o_run_id d, rc_execution_id = o_execution_id d,
                   rc_operation_id = o_operation_id d, rc_attempt_no = at_attempt_no a,
                   rc_requirement_revision = o_requirement_revision d, rc_result_ref = at_receipt_ref a,
                   rc_digest = digest payload, rc_disposition = Current\<rparr> now))"

definition complete_operation ::
  "(json \<Rightarrow> string) \<Rightarrow> 'a op_db_scheme \<Rightarrow> fence \<Rightarrow> string \<Rightarrow> string \<Rightarrow> json \<Rightarrow> int \<Rightarrow> (unit \<times> 'a op_db_scheme) res" where
  "complete_operation digest s fnc op result_ref payload now =
     ebind (assert_execution_fence s fnc now) (\<lambda>s1.
     ebind (require_owned_record fnc (operation_owners s1 op)) (\<lambda>_.
     ebind (need (ValueError ''operation not found'') (find_operation s1 op)) (\<lambda>d.
       if o_status d = Op_Completed
       then ensure (o_result_ref d = Some result_ref
                    \<and> (case o_result_payload d of None \<Rightarrow> False | Some p \<Rightarrow> json_eq p payload))
              (ValueError ''completed operation result conflict'') (Inr ((), s1))
       else
         ebind (receipt_for_completion digest s1 fnc d payload now) (\<lambda>s2.
         ebind (update_operation op (\<lambda>_. True)
                  (\<lambda>d. d\<lparr>o_status := Op_Completed, o_result_ref := Some result_ref, o_result_payload := Some payload,
                         o_error_code := None\<rparr>) s2) (\<lambda>s3. Inr ((), s3))))))"

end
