(* ===== verification/Agent_Contracts.thy ===== *)
theory Agent_Contracts
  imports Lease_Store
begin

text \<open>
  The contracts that cross the boundary between Workflows and Activities (\<open>agent_workflows/contracts.py\<close>)
  and the identities of the Workflows (\<open>agent_workflows/ids.py\<close>). What every Activity input that runs in a
  segment carries (identity, operation, fencing token and attempt) is the base record \<open>activity_input\<close>;
  the inputs extend it.
\<close>

definition AGENT_SCHEMA_VERSION :: int where
  "AGENT_SCHEMA_VERSION = 4"

definition AGENT_STRATEGY_REACT :: string where
  "AGENT_STRATEGY_REACT = ''react''"

definition AGENT_STRATEGY_PLAN :: string where
  "AGENT_STRATEGY_PLAN = ''plan_and_execute''"

section \<open>Sources and contexts\<close>

record run_source =
  rs_source_kind :: string
  rs_source_ref :: string

definition make_run_source :: "string \<Rightarrow> string \<Rightarrow> run_source res" where
  "make_run_source kind ref =
     ensure (kind \<noteq> [] \<and> ref \<noteq> []) (ValueError ''Run source kind and reference are required'')
       (Inr \<lparr>rs_source_kind = kind, rs_source_ref = ref\<rparr>)"

record chat_context =
  cc_conversation_id :: string
  cc_session_id :: "string option"
  cc_trigger_message_id :: "string option"

definition make_chat_context :: "string \<Rightarrow> string option \<Rightarrow> string option \<Rightarrow> chat_context res" where
  "make_chat_context conversation session trigger =
     ensure (conversation \<noteq> []) (ValueError ''Chat context requires Conversation'')
       (Inr \<lparr>cc_conversation_id = conversation, cc_session_id = session, cc_trigger_message_id = trigger\<rparr>)"

record run_context =
  rx_context_ref :: "string option"
  rx_chat :: "chat_context option"
  rx_surface :: "string option"

definition require_chat :: "run_context \<Rightarrow> chat_context res" where
  "require_chat c = need (ValueError ''Current Chat adapter requires Chat context'') (rx_chat c)"

record agent_run_input =
  ar_schema_version :: int
  ar_run_id :: uuid
  ar_account_id :: uuid
  ar_source :: run_source
  ar_context :: run_context
  ar_strategy :: string
  ar_max_turns :: int
  ar_execution_id :: uuid

section \<open>Activities that run in a segment\<close>

record activity_input =
  ai_schema_version :: int
  ai_run_id :: uuid
  ai_account_id :: uuid
  ai_operation_id :: string
  ai_lease_token :: int
  ai_execution_id :: uuid
  ai_execution_attempt :: int

record context_bootstrap_input = activity_input +
  cb_source :: run_source
  cb_context :: run_context
  cb_strategy :: string

record context_bootstrap_result =
  cr_schema_version :: int
  cr_transcript_id :: string
  cr_transcript_version :: int
  cr_context_ref :: string

record compact_tool_call =
  tc_tool_call_id :: string
  tc_name :: string
  tc_arguments_ref :: string

record model_decision_input = activity_input +
  md_source :: run_source
  md_context :: run_context
  md_strategy :: string
  md_transcript_id :: string
  md_transcript_version :: int
  md_turn :: int
  md_objective :: "string option"
  md_final_only :: bool
  md_plan_id :: "string option"
  md_plan_version :: "int option"
  md_step_id :: "string option"

datatype decision_type = Final | Tool_Calls

record model_decision_result =
  mr_schema_version :: int
  mr_operation_id :: string
  mr_decision_type :: decision_type
  mr_decision_ref :: string
  mr_tool_calls :: "compact_tool_call list"
  mr_transcript_version :: int
  mr_stop_reason :: string
  mr_display_summary :: string

record tool_execution_input = activity_input +
  te_source :: run_source
  te_context :: run_context
  te_strategy :: string
  te_transcript_id :: string
  te_transcript_version :: int
  te_turn :: int
  te_tool_call :: compact_tool_call
  te_plan_id :: "string option"
  te_plan_version :: "int option"
  te_step_id :: "string option"

record tool_execution_result =
  tx_schema_version :: int
  tx_operation_id :: string
  tx_result_ref :: string
  tx_transcript_version :: int
  tx_display_summary :: string
  tx_approval_id :: "string option"
  tx_approval_status :: string
  tx_approval_expires_at :: "string option"
  tx_tool_success :: "bool option"

section \<open>Approvals\<close>

record approval_status_input =
  as_schema_version :: int
  as_account_id :: uuid
  as_run_id :: uuid
  as_operation_id :: string
  as_approval_id :: string

datatype approval_status = Pending | Approved | Rejected | Approval_Expired | Approval_Cancelled

fun approval_status_text :: "approval_status \<Rightarrow> string" where
  "approval_status_text Pending = ''pending''"
| "approval_status_text Approved = ''approved''"
| "approval_status_text Rejected = ''rejected''"
| "approval_status_text Approval_Expired = ''expired''"
| "approval_status_text Approval_Cancelled = ''cancelled''"

record approval_status_result =
  ax_schema_version :: int
  ax_approval_id :: string
  ax_operation_id :: string
  ax_status :: approval_status

record approval_decision_signal =
  ad_schema_version :: int
  ad_approval_id :: string
  ad_operation_id :: string

record approved_tool_execution_input = activity_input +
  ap_approval_id :: string
  ap_transcript_id :: string
  ap_transcript_version :: int
  ap_tool_call_id :: string
  ap_tool_name :: string

record approved_tool_execution_result =
  ay_schema_version :: int
  ay_operation_id :: string
  ay_result_ref :: string
  ay_display_summary :: string
  ay_transcript_version :: int

section \<open>Plans and results\<close>

record agent_result =
  re_schema_version :: int
  re_run_id :: uuid
  re_result_ref :: string
  re_transcript_id :: string
  re_transcript_version :: int
  re_tool_turns :: int

record plan_step =
  ps_step_id :: string
  ps_ordinal :: int
  ps_title :: string
  ps_objective :: string

record planning_input = activity_input +
  pi_source :: run_source
  pi_context :: run_context
  pi_transcript_id :: string
  pi_transcript_version :: int
  pi_plan_id :: string
  pi_plan_version :: int
  pi_previous_plan_ref :: "string option"
  pi_previous_plan_version :: "int option"
  pi_completed_step_refs :: "string list"
  pi_trigger_step_id :: "string option"
  pi_evaluation_reason :: "string option"

record planning_result =
  pr_schema_version :: int
  pr_operation_id :: string
  pr_plan_id :: string
  pr_plan_version :: int
  pr_steps :: "plan_step list"
  pr_transcript_version :: int

record plan_evaluation_input = activity_input +
  pe_source :: run_source
  pe_context :: run_context
  pe_transcript_id :: string
  pe_transcript_version :: int
  pe_plan_id :: string
  pe_plan_version :: int
  pe_step_id :: string
  pe_step_index :: int
  pe_step_count :: int

datatype plan_decision = Continue | Replan | Complete | Fail

record plan_evaluation_result =
  pv_schema_version :: int
  pv_operation_id :: string
  pv_decision :: plan_decision
  pv_reason :: string

record agent_step_input =
  st_schema_version :: int
  st_agent :: agent_run_input
  st_transcript_id :: string
  st_transcript_version :: int
  st_plan_id :: string
  st_plan_version :: int
  st_step :: plan_step
  st_max_turns :: int

record agent_step_result =
  sr_schema_version :: int
  sr_step_id :: string
  sr_result_ref :: string
  sr_transcript_version :: int
  sr_tool_turns :: int

section \<open>Decimal text\<close>

text \<open>\<open>str\<close> of an integer, as the f-strings of the operation identities use it, and its inverse.\<close>

definition digit :: "nat \<Rightarrow> char" where
  "digit n = char_of (48 + n)"

fun show_nat :: "nat \<Rightarrow> string" where
  "show_nat n = (if n < 10 then [digit n] else show_nat (n div 10) @ [digit (n mod 10)])"

declare show_nat.simps [simp del]

definition show_int :: "int \<Rightarrow> string" where
  "show_int i = (if i < 0 then CHR ''-'' # show_nat (nat (- i)) else show_nat (nat i))"

definition digit_value :: "char \<Rightarrow> nat" where
  "digit_value c = of_char c - 48"

definition parse_nat :: "string \<Rightarrow> nat" where
  "parse_nat s = foldl (\<lambda>n c. 10 * n + digit_value c) 0 s"

lemma digit_value_digit [simp]: "n < 10 \<Longrightarrow> digit_value (digit n) = n"
  by (simp add: digit_value_def digit_def)

lemma parse_nat_snoc: "parse_nat (s @ [c]) = 10 * parse_nat s + digit_value c"
  by (simp add: parse_nat_def)

lemma parse_show_nat [simp]: "parse_nat (show_nat n) = n"
proof (induction n rule: show_nat.induct)
  case (1 n)
  show ?case
  proof (cases "n < 10")
    case True
    then show ?thesis by (subst show_nat.simps) (simp add: parse_nat_def)
  next
    case False
    with 1 have "parse_nat (show_nat n) = 10 * (n div 10) + n mod 10"
      by (subst show_nat.simps) (simp add: parse_nat_snoc)
    then show ?thesis by simp
  qed
qed

lemma show_nat_inject [simp]: "show_nat m = show_nat n \<longleftrightarrow> m = n"
  by (metis parse_show_nat)

lemma digit_ascii: "n < 10 \<Longrightarrow> of_char (digit n) \<in> {48..57::nat}"
  by (simp add: digit_def)

lemma show_nat_digits: "c \<in> set (show_nat n) \<Longrightarrow> of_char c \<in> {48..57::nat}"
proof (induction n rule: show_nat.induct)
  case (1 n)
  then show ?case
  proof (cases "n < 10")
    case True
    with 1(2) show ?thesis using digit_ascii [of n] by (subst (asm) show_nat.simps) simp
  next
    case False
    with 1 show ?thesis using digit_ascii [of "n mod 10"] by (subst (asm) (2) show_nat.simps) auto
  qed
qed

lemma show_int_no_colon: "CHR '':'' \<notin> set (show_int i)"
proof
  assume "CHR '':'' \<in> set (show_int i)"
  then have "CHR '':'' \<in> set (show_nat (nat i)) \<or> CHR '':'' \<in> set (show_nat (nat (- i)))"
    by (auto simp: show_int_def split: if_splits)
  then show False using show_nat_digits [of "CHR '':''"] by auto
qed

lemma show_nat_no_minus: "show_nat n \<noteq> CHR ''-'' # s"
proof
  assume "show_nat n = CHR ''-'' # s"
  then have "CHR ''-'' \<in> set (show_nat n)" by simp
  from show_nat_digits [OF this] show False by simp
qed

lemma show_int_inject [simp]: "show_int i = show_int j \<longleftrightarrow> i = j"
proof
  assume eq: "show_int i = show_int j"
  show "i = j"
  proof (cases "i < 0"; cases "j < 0")
    assume "i < 0" "j < 0"
    with eq have "nat (- i) = nat (- j)" by (simp add: show_int_def)
    with \<open>i < 0\<close> \<open>j < 0\<close> show ?thesis by simp
  next
    assume "i < 0" "\<not> j < 0"
    with eq have "show_nat (nat j) = CHR ''-'' # show_nat (nat (- i))" by (simp add: show_int_def)
    then show ?thesis using show_nat_no_minus by blast
  next
    assume "\<not> i < 0" "j < 0"
    with eq have "show_nat (nat i) = CHR ''-'' # show_nat (nat (- j))" by (simp add: show_int_def)
    then show ?thesis using show_nat_no_minus by blast
  next
    assume "\<not> i < 0" "\<not> j < 0"
    with eq have "nat i = nat j" by (simp add: show_int_def)
    with \<open>\<not> i < 0\<close> \<open>\<not> j < 0\<close> show ?thesis by simp
  qed
qed simp

text \<open>Fields separated by colons can be read back when the first one has none.\<close>

lemma colon_split:
  assumes "CHR '':'' \<notin> set a" "CHR '':'' \<notin> set b" "a @ CHR '':'' # x = b @ CHR '':'' # y"
  shows "a = b \<and> x = y"
  using assms
proof (induction a arbitrary: b)
  case Nil
  then show ?case by (cases b) auto
next
  case (Cons c a)
  then show ?case by (cases b) auto
qed

section \<open>Workflow identities\<close>

text \<open>\<open>hex\<close> stands for \<open>hashlib.sha256(\<dots>).hexdigest()\<close>, \<open>md5_uuid\<close> for the UUID of an MD5 digest.\<close>

definition tool_execution_workflow_id :: "(string \<Rightarrow> string) \<Rightarrow> string \<Rightarrow> string \<Rightarrow> string" where
  "tool_execution_workflow_id hex run_id operation_id =
     (let identity = take 32 (hex (run_id @ '':'' @ operation_id))
      in ''hpagent-tool-'' @ run_id @ ''-'' @ identity)"

definition root_execution_id :: "(string \<Rightarrow> uuid) \<Rightarrow> string \<Rightarrow> uuid" where
  "root_execution_id md5_uuid run_id = md5_uuid (''hpagent:execution:root:'' @ run_id)"

end
