(* ===== verification/Transcript_Store.thy ===== *)
theory Transcript_Store
  imports Operation_Store Agent_Contracts
begin

text \<open>
  The data plane of an Agent: the operation methods of \<open>AgentDataStore\<close> (\<open>agent_activities/store.py\<close>),
  the append-only transcript of an Execution with its optimistic version, and the decorator that turns a
  fenced-off result into a late receipt.
\<close>

section \<open>Operation methods\<close>

definition store_begin_operation ::
  "'a op_db_scheme \<Rightarrow> fence \<Rightarrow> string \<Rightarrow> uuid \<Rightarrow> string \<Rightarrow> int \<Rightarrow> (json option \<times> 'a op_db_scheme) res" where
  "store_begin_operation s fnc op run ty now =
     ebind (begin_operation s fnc op run ty False now) (\<lambda>((status, payload), s').
       Inr (if status = Op_Completed then payload else None, s'))"

record tool_operation_state =
  to_status :: op_status
  to_result_payload :: "json option"

definition begin_tool_operation ::
  "'a op_db_scheme \<Rightarrow> fence \<Rightarrow> string \<Rightarrow> uuid \<Rightarrow> int \<Rightarrow> (tool_operation_state \<times> 'a op_db_scheme) res" where
  "begin_tool_operation s fnc op run now =
     ebind (begin_operation s fnc op run ''tool'' True now) (\<lambda>((status, payload), s').
       Inr (\<lparr>to_status = status, to_result_payload = payload\<rparr>, s'))"

text \<open>The common prologue: the fence, then the ownership of the row that is named.\<close>

definition owned_operation ::
  "'a op_db_scheme \<Rightarrow> fence \<Rightarrow> string \<Rightarrow> int \<Rightarrow> 'a op_db_scheme res" where
  "owned_operation s fnc op now =
     ebind (assert_execution_fence s fnc now) (\<lambda>s1.
     ebind (require_owned_record fnc (operation_owners s1 op)) (\<lambda>_. Inr s1))"

definition owned_result :: "'a op_db_scheme \<Rightarrow> fence \<Rightarrow> string \<Rightarrow> int \<Rightarrow> 'a op_db_scheme res" where
  "owned_result s fnc ref now =
     ebind (assert_execution_fence s fnc now) (\<lambda>s1.
     ebind (require_owned_record fnc (result_owners s1 ref)) (\<lambda>_. Inr s1))"

definition operation_result ::
  "'a op_db_scheme \<Rightarrow> fence \<Rightarrow> string \<Rightarrow> int \<Rightarrow> (json option \<times> 'a op_db_scheme) res" where
  "operation_result s fnc op now =
     ebind (owned_operation s fnc op now) (\<lambda>s1.
       Inr (case find (\<lambda>d. o_operation_id d = op \<and> o_status d = Op_Completed) (operations s1) of
              None \<Rightarrow> None | Some d \<Rightarrow> o_result_payload d, s1))"

definition completed_payload :: "'a op_db_scheme \<Rightarrow> (operation_row \<Rightarrow> bool) \<Rightarrow> (string \<times> json) list option" where
  "completed_payload s P =
     (case find (\<lambda>d. P d \<and> o_status d = Op_Completed) (operations s) of
        None \<Rightarrow> None
      | Some d \<Rightarrow> (case o_result_payload d of Some (JObj kvs) \<Rightarrow> Some kvs | _ \<Rightarrow> None))"

text \<open>\<open>str.rpartition\<close>: the text before and after the last occurrence of the separator.\<close>

definition rpartition :: "char \<Rightarrow> string \<Rightarrow> (string \<times> string) option" where
  "rpartition c s =
     (if c \<in> set s
      then Some (rev (tl (dropWhile (\<lambda>x. x \<noteq> c) (rev s))), rev (takeWhile (\<lambda>x. x \<noteq> c) (rev s)))
      else None)"

definition tool_call_arguments ::
  "'a op_db_scheme \<Rightarrow> fence \<Rightarrow> string \<Rightarrow> string \<Rightarrow> int \<Rightarrow> ((string \<times> json) list \<times> 'a op_db_scheme) res" where
  "tool_call_arguments s fnc arguments_ref call_id now =
     (case rpartition (CHR ''#'') arguments_ref of
        None \<Rightarrow> Inl (ValueError ''invalid tool arguments reference'')
      | Some (decision_ref, referenced) \<Rightarrow>
          ensure (referenced = call_id) (ValueError ''invalid tool arguments reference'')
          (ebind (owned_result s fnc decision_ref now) (\<lambda>s1.
           ebind (need (ValueError ''model decision reference not found'')
                   (completed_payload s1 (\<lambda>d. o_result_ref d = Some decision_ref))) (\<lambda>payload.
             case dget payload ''tool_call_arguments'' (JObj []) of
               JObj by_call \<Rightarrow>
                 (case map_of by_call call_id of
                    Some (JObj arguments) \<Rightarrow> Inr (arguments, s1)
                  | _ \<Rightarrow> Inl (ValueError ''tool call arguments not found''))
             | _ \<Rightarrow> Inl (RuntimeError ''AttributeError''))))
        )"

definition context_started_at ::
  "'a op_db_scheme \<Rightarrow> fence \<Rightarrow> string \<Rightarrow> int \<Rightarrow> (int \<times> 'a op_db_scheme) res" where
  "context_started_at s fnc op now =
     ebind (owned_operation s fnc op now) (\<lambda>s1.
     ebind (need (ValueError ''context operation not found'')
             (find (\<lambda>d. o_operation_id d = op \<and> o_operation_type d = ''context'') (operations s1))) (\<lambda>d.
       Inr (o_started_at d, s1)))"

definition result_content ::
  "'a op_db_scheme \<Rightarrow> fence \<Rightarrow> string \<Rightarrow> uuid \<Rightarrow> int \<Rightarrow> (string \<times> 'a op_db_scheme) res" where
  "result_content s fnc result_ref run now =
     ebind (owned_result s fnc result_ref now) (\<lambda>s1.
     ebind (need (ValueError ''agent result reference not found'')
             (completed_payload s1 (\<lambda>d. o_result_ref d = Some result_ref \<and> o_run_id d = run))) (\<lambda>payload.
       case map_of payload ''content'' of
         Some (JStr content) \<Rightarrow> ensure (content \<noteq> []) (ValueError ''agent result has no content'') (Inr (content, s1))
       | _ \<Rightarrow> Inl (ValueError ''agent result has no content'')))"

definition fail_operation ::
  "'a op_db_scheme \<Rightarrow> fence \<Rightarrow> string \<Rightarrow> string \<Rightarrow> int \<Rightarrow> (unit \<times> 'a op_db_scheme) res" where
  "fail_operation s fnc op error_code now =
     ebind (owned_operation s fnc op now) (\<lambda>s1.
     ebind (update_operation op (\<lambda>d. o_status d \<noteq> Op_Completed)
              (\<lambda>d. d\<lparr>o_status := Op_Failed, o_error_code := Some error_code\<rparr>) s1) (\<lambda>s2. Inr ((), s2)))"

definition record_operation_intent ::
  "'a op_db_scheme \<Rightarrow> fence \<Rightarrow> string \<Rightarrow> json \<Rightarrow> int \<Rightarrow> (unit \<times> 'a op_db_scheme) res" where
  "record_operation_intent s fnc op intent now =
     ebind (owned_operation s fnc op now) (\<lambda>s1.
     ensure (list_ex (\<lambda>d. o_operation_id d = op \<and> o_status d = Op_Started) (operations s1))
       (ValueError ''tool intent operation is not active'')
     (ebind (update_operation op (\<lambda>d. o_status d = Op_Started)
              (\<lambda>d. d\<lparr>o_status := Intent_Recorded, o_result_payload := Some intent\<rparr>) s1) (\<lambda>s2. Inr ((), s2))))"

definition mark_operation_uncertain ::
  "'a op_db_scheme \<Rightarrow> fence \<Rightarrow> string \<Rightarrow> string \<Rightarrow> int \<Rightarrow> (unit \<times> 'a op_db_scheme) res" where
  "mark_operation_uncertain s fnc op error_code now =
     ebind (owned_operation s fnc op now) (\<lambda>s1.
     ebind (update_operation op (\<lambda>d. o_status d \<in> {Intent_Recorded, Op_Uncertain})
              (\<lambda>d. d\<lparr>o_status := Op_Uncertain, o_error_code := Some error_code\<rparr>) s1) (\<lambda>s2. Inr ((), s2)))"

section \<open>Late results\<close>

text \<open>\<open>preserve_late_result\<close>: the body ran in its own transaction and raised; the receipt is written in
  another one, and the original exception continues unless the receipt itself raises.\<close>

definition preserve_late_result ::
  "(json \<Rightarrow> string) \<Rightarrow> fence \<Rightarrow> string \<Rightarrow> json option \<Rightarrow> int \<Rightarrow> ('r \<times> 'a op_db_scheme) res \<Rightarrow> 'a op_db_scheme \<Rightarrow>
   'r res \<times> 'a op_db_scheme" where
  "preserve_late_result digest fnc op payload now out s =
     (case out of
        Inr (r, s') \<Rightarrow> (Inr r, s')
      | Inl e \<Rightarrow>
          (if e = StaleFencingToken then
             (case (fnc, payload) of
                (Some (acc, run, ex, token), Some p) \<Rightarrow>
                  if op = '''' then (Inl StaleFencingToken, s)
                  else (case receive digest s fnc acc run ex op token p now of
                          Inl e' \<Rightarrow> (Inl e', s)
                        | Inr (_, s') \<Rightarrow> (Inl StaleFencingToken, s'))
              | _ \<Rightarrow> (Inl StaleFencingToken, s))
           else (Inl e, s)))"

section \<open>Transcripts\<close>

definition find_transcript :: "'a op_db_scheme \<Rightarrow> string \<Rightarrow> transcript_row option" where
  "find_transcript s tid = find (\<lambda>t. tr_transcript_id t = tid) (transcripts s)"

definition transcript_owners :: "'a op_db_scheme \<Rightarrow> string \<Rightarrow> (uuid \<times> uuid \<times> uuid) list" where
  "transcript_owners s tid = map (\<lambda>t. (tr_account_id t, tr_run_id t, tr_execution_id t))
     (filter (\<lambda>t. tr_transcript_id t = tid) (transcripts s))"

text \<open>Appending an event under its primary key and the uniqueness of an operation, and moving the version.\<close>

definition append_event ::
  "string \<Rightarrow> int \<Rightarrow> string \<Rightarrow> string \<Rightarrow> (string \<times> json) list \<Rightarrow> 'a op_db_scheme \<Rightarrow> 'a op_db_scheme res" where
  "append_event tid version event_type op payload s =
     ensure (\<not> list_ex (\<lambda>e. ev_transcript_id e = tid \<and> (ev_sequence e = version \<or> ev_operation_id e = op)) (events s))
       (DbError ''agent_transcript_events unique'')
     (Inr (s\<lparr>events := events s @ [\<lparr>ev_transcript_id = tid, ev_sequence = version, ev_event_type = event_type,
               ev_operation_id = op, ev_payload = payload\<rparr>],
             transcripts := update_where (\<lambda>t. tr_transcript_id t = tid) (\<lambda>t. t\<lparr>tr_version := version\<rparr>) (transcripts s)\<rparr>))"

definition context_ref :: "string \<Rightarrow> string" where
  "context_ref tid = ''transcript:'' @ tid @ '':1''"

definition context_payload :: "string \<Rightarrow> json" where
  "context_payload tid = JObj [(''schema_version'', JInt AGENT_SCHEMA_VERSION), (''transcript_id'', JStr tid),
     (''transcript_version'', JInt 1), (''context_ref'', JStr (context_ref tid))]"

text \<open>\<open>INSERT INTO agent_transcripts \<dots> ON CONFLICT (execution_id) DO NOTHING\<close>.\<close>

definition ensure_transcript ::
  "string \<Rightarrow> uuid \<Rightarrow> uuid \<Rightarrow> uuid option \<Rightarrow> uuid option \<Rightarrow> uuid \<Rightarrow> 'a op_db_scheme \<Rightarrow> 'a op_db_scheme res" where
  "ensure_transcript tid run acc conv session ex s =
     (if list_ex (\<lambda>t. tr_execution_id t = ex) (transcripts s) then Inr s
      else ensure (find_transcript s tid = None) (DbError ''agent_transcripts primary key'')
        (Inr (s\<lparr>transcripts := transcripts s @ [\<lparr>tr_transcript_id = tid, tr_account_id = acc, tr_run_id = run,
                tr_execution_id = ex, tr_conversation_id = conv, tr_session_id = session, tr_version = 0\<rparr>]\<rparr>)))"

definition create_transcript ::
  "(json \<Rightarrow> string) \<Rightarrow> 'a op_db_scheme \<Rightarrow> fence \<Rightarrow> string \<Rightarrow> uuid \<Rightarrow> uuid \<Rightarrow> uuid option \<Rightarrow> uuid option \<Rightarrow> uuid \<Rightarrow>
   json list \<Rightarrow> string \<Rightarrow> int \<Rightarrow> (int \<times> 'a op_db_scheme) res" where
  "create_transcript digest s fnc tid run acc conv session ex messages op now =
     ebind (assert_execution_fence s fnc now) (\<lambda>s1.
     ebind (lock_execution s1 fnc acc run (Some ex)) (\<lambda>_.
     ensure (case find (\<lambda>r. r_run_id r = run) (runs s1) of None \<Rightarrow> False
             | Some owner \<Rightarrow> r_account_id owner = acc \<and> r_conversation_id owner = conv \<and> r_session_id owner = session)
       (ValueError ''transcript context does not match Run ownership'')
     (ebind (ensure_transcript tid run acc conv session ex s1) (\<lambda>s2.
      ebind (need (RuntimeError ''NoneType'') (find (\<lambda>t. tr_execution_id t = ex) (transcripts s2))) (\<lambda>t.
      ebind (if tr_version t = 0
             then append_event (tr_transcript_id t) 1 ''context'' op [(''messages'', JList messages)] s2
             else Inr s2) (\<lambda>s3.
      ebind (complete_operation digest s3 fnc op (context_ref (tr_transcript_id t))
               (context_payload (tr_transcript_id t)) now) (\<lambda>(_, s4). Inr (1, s4))))))))"

text \<open>The messages of a transcript, in the order of the sequence.\<close>

definition event_messages :: "event_row \<Rightarrow> (string \<times> json) list list res" where
  "event_messages e =
     (if ev_event_type e = ''context''
      then (case dget (ev_payload e) ''messages'' (JList []) of
              JList ms \<Rightarrow>
                (if list_all (\<lambda>m. case m of JObj _ \<Rightarrow> True | _ \<Rightarrow> False) ms
                 then Inr (map (\<lambda>m. case m of JObj kvs \<Rightarrow> kvs | _ \<Rightarrow> []) ms) else Inl (ValueError ''dict''))
            | _ \<Rightarrow> Inl (ValueError ''dict''))
      else if ev_event_type e \<in> {''model_decision'', ''tool_result'', ''system''}
      then (case map_of (ev_payload e) ''message'' of Some (JObj m) \<Rightarrow> Inr [m] | _ \<Rightarrow> Inr [])
      else Inr [])"

fun collect_messages :: "event_row list \<Rightarrow> (string \<times> json) list list res" where
  "collect_messages [] = Inr []"
| "collect_messages (e # es) =
     ebind (event_messages e) (\<lambda>ms. ebind (collect_messages es) (\<lambda>rest. Inr (ms @ rest)))"

definition transcript_events :: "'a op_db_scheme \<Rightarrow> string \<Rightarrow> event_row list" where
  "transcript_events s tid = sort_key ev_sequence (filter (\<lambda>e. ev_transcript_id e = tid) (events s))"

definition load_messages ::
  "'a op_db_scheme \<Rightarrow> fence \<Rightarrow> string \<Rightarrow> int \<Rightarrow> (((string \<times> json) list list \<times> int) \<times> 'a op_db_scheme) res" where
  "load_messages s fnc tid now =
     ebind (assert_execution_fence s fnc now) (\<lambda>s1.
     ebind (require_owned_record fnc (transcript_owners s1 tid)) (\<lambda>_.
     ebind (need (ValueError ''transcript not found'') (find_transcript s1 tid)) (\<lambda>t.
     ebind (collect_messages (transcript_events s1 tid)) (\<lambda>ms. Inr ((ms, tr_version t), s1)))))"

text \<open>\<open>result_payload["transcript_version"] = version\<close>.\<close>

definition versioned :: "(string \<times> json) list \<Rightarrow> int \<Rightarrow> json" where
  "versioned payload version = JObj (dset ''transcript_version'' (JInt version) payload)"

definition complete_with_event ::
  "(json \<Rightarrow> string) \<Rightarrow> 'a op_db_scheme \<Rightarrow> fence \<Rightarrow> string \<Rightarrow> int \<Rightarrow> string \<Rightarrow> string \<Rightarrow> (string \<times> json) list \<Rightarrow> string \<Rightarrow>
   (string \<times> json) list \<Rightarrow> int \<Rightarrow> (int \<times> 'a op_db_scheme) res" where
  "complete_with_event digest s fnc tid expected event_type op event_payload result_ref result_payload now =
     ebind (assert_execution_fence s fnc now) (\<lambda>s1.
     ebind (require_owned_record fnc (transcript_owners s1 tid)) (\<lambda>_.
     ebind (require_owned_record fnc (operation_owners s1 op)) (\<lambda>_.
     ebind (need (ValueError ''transcript not found'') (find_transcript s1 tid)) (\<lambda>t.
       if tr_version t \<noteq> expected
       then (case find (\<lambda>e. ev_transcript_id e = tid \<and> ev_operation_id e = op) (events s1) of
               Some e \<Rightarrow> Inr (ev_sequence e, s1)
             | None \<Rightarrow> Inl TranscriptVersionConflict)
       else
         (let version = tr_version t + 1 in
          ebind (append_event tid version event_type op event_payload s1) (\<lambda>s2.
          ebind (complete_operation digest s2 fnc op result_ref (versioned result_payload version) now) (\<lambda>(_, s3).
          Inr (version, s3))))))))"

text \<open>The two decorated methods. The payload the decorator sees is the one the body may have changed: the
  version is set after the checks that can raise \<open>StaleFencingToken\<close> for the transcript, and before
  \<open>complete_operation\<close> raises it for a late receipt.\<close>

definition complete_operation_with_event ::
  "(json \<Rightarrow> string) \<Rightarrow> 'a op_db_scheme \<Rightarrow> fence \<Rightarrow> string \<Rightarrow> int \<Rightarrow> string \<Rightarrow> string \<Rightarrow> (string \<times> json) list \<Rightarrow> string \<Rightarrow>
   (string \<times> json) list \<Rightarrow> int \<Rightarrow> int res \<times> 'a op_db_scheme" where
  "complete_operation_with_event digest s fnc tid expected event_type op event_payload result_ref result_payload now =
     preserve_late_result digest fnc op
       (Some (case ebind (assert_execution_fence s fnc now) (\<lambda>s1.
                   ebind (require_owned_record fnc (transcript_owners s1 tid)) (\<lambda>_.
                   ebind (require_owned_record fnc (operation_owners s1 op)) (\<lambda>_. Inr s1))) of
                Inl _ \<Rightarrow> JObj result_payload
              | Inr _ \<Rightarrow> versioned result_payload (expected + 1))) now
       (complete_with_event digest s fnc tid expected event_type op event_payload result_ref result_payload now) s"

definition store_complete_operation ::
  "(json \<Rightarrow> string) \<Rightarrow> 'a op_db_scheme \<Rightarrow> fence \<Rightarrow> string \<Rightarrow> string \<Rightarrow> json \<Rightarrow> int \<Rightarrow> unit res \<times> 'a op_db_scheme" where
  "store_complete_operation digest s fnc op result_ref payload now =
     preserve_late_result digest fnc op (Some payload) now
       (ebind (assert_execution_fence s fnc now) (\<lambda>s1. complete_operation digest s1 fnc op result_ref payload now)) s"

end
