(* ===== verification/Operation_Laws.thy ===== *)
theory Operation_Laws
  imports Transcript_Store "HOL-Library.Sublist"
begin

text \<open>
  How operations, attempts, receipts and transcript events evolve. Every method of the data plane changes
  an operation row only in the ways \<open>row_evolves\<close> allows and only appends to the other tables
  (\<open>op_evolves\<close>, a preorder), so facts about any sequence of methods follow from facts about one.
  The locale \<open>write_once\<close> is the contract of a table whose entries never change.
\<close>

section \<open>The contract of write-once facts\<close>

locale write_once =
  fixes entry :: "'s \<Rightarrow> 'k \<Rightarrow> 'v option" and evolves :: "'s \<Rightarrow> 's \<Rightarrow> bool"
  assumes kept: "evolves s s' \<Longrightarrow> entry s k = Some v \<Longrightarrow> entry s' k = Some v"
begin

lemma kept_star: "evolves\<^sup>*\<^sup>* s s' \<Longrightarrow> entry s k = Some v \<Longrightarrow> entry s' k = Some v"
  by (induction rule: rtranclp_induct) (auto dest: kept)

lemma agree: "evolves\<^sup>*\<^sup>* s s' \<Longrightarrow> entry s k = Some v \<Longrightarrow> entry s' k = Some w \<Longrightarrow> v = w"
  using kept_star by fastforce

end

section \<open>One operation row\<close>

definition unresolved :: "operation_row \<Rightarrow> bool" where
  "unresolved d \<longleftrightarrow> o_status d \<in> {Intent_Recorded, Op_Uncertain}"

text \<open>\<open>F\<close>: the row may be marked failed.\<close>

definition row_step :: "bool \<Rightarrow> operation_row \<Rightarrow> operation_row \<Rightarrow> bool" where
  "row_step F x y \<longleftrightarrow> o_status x \<noteq> Op_Completed \<and> provenance y = provenance x \<and>
     o_attempt_count x \<le> o_attempt_count y \<and> (o_status y = Op_Completed \<or> o_result_ref y = o_result_ref x) \<and>
     (unresolved x \<longrightarrow> unresolved y \<or> o_status y = Op_Completed \<or> F) \<and>
     (unresolved x \<and> o_status y \<noteq> Op_Completed \<and> \<not> F \<longrightarrow> o_result_payload y = o_result_payload x)"

definition row_evolves :: "bool \<Rightarrow> operation_row option \<Rightarrow> operation_row option \<Rightarrow> bool" where
  "row_evolves F d d' \<longleftrightarrow> d' = d \<or>
     (case (d, d') of (None, _) \<Rightarrow> True | (Some x, Some y) \<Rightarrow> row_step F x y | _ \<Rightarrow> False)"

lemma row_evolves_refl [simp]: "row_evolves F d d"
  by (simp add: row_evolves_def)

lemma row_step_trans: "row_step F x y \<Longrightarrow> row_step F y z \<Longrightarrow> row_step F x z"
  by (auto simp: row_step_def)

lemma row_evolves_trans: "row_evolves F a b \<Longrightarrow> row_evolves F b c \<Longrightarrow> row_evolves F a c"
  by (auto simp: row_evolves_def split: option.splits intro: row_step_trans)

section \<open>Frames\<close>

definition same_op_tables :: "'a op_db_scheme \<Rightarrow> 'a op_db_scheme \<Rightarrow> bool" where
  "same_op_tables s s' \<longleftrightarrow> operations s' = operations s \<and> attempts s' = attempts s \<and> receipts s' = receipts s \<and>
     effect_references s' = effect_references s \<and> events s' = events s \<and> transcripts s' = transcripts s"

lemma same_op_tables_refl [simp]: "same_op_tables s s"
  by (simp add: same_op_tables_def)

lemma same_but_executions_op: "same_but_executions s s' \<Longrightarrow> same_op_tables s s'"
  unfolding same_but_executions_def same_op_tables_def by (erule ssubst) simp

lemma fence_op_tables: "assert_execution_fence s fnc now = Inr s' \<Longrightarrow> same_op_tables s s'"
  by (blast intro: same_but_executions_op assert_execution_fence_frame)

section \<open>The primitive updates\<close>

lemma update_operation_cases:
  assumes "update_operation op P f s = Inr s'"
  obtains (none) "find (\<lambda>d. o_operation_id d = op \<and> P d) (operations s) = None" "s' = s"
  | (some) d where "find (\<lambda>d. o_operation_id d = op \<and> P d) (operations s) = Some d"
      "o_status d \<noteq> Op_Completed" "provenance (f d) = provenance d"
      "s' = s\<lparr>operations := update_where (\<lambda>d. o_operation_id d = op \<and> P d) f (operations s)\<rparr>"
proof (cases "find (\<lambda>d. o_operation_id d = op \<and> P d) (operations s)")
  case None
  with assms show ?thesis by (intro none) (simp_all add: update_operation_def)
next
  case (Some d)
  with assms show ?thesis by (intro some [OF Some]) (simp_all add: update_operation_def ensure_Inr_iff)
qed

lemma find_operation_id: "find_operation s k = Some d \<Longrightarrow> o_operation_id d = k \<and> d \<in> set (operations s)"
  unfolding find_operation_def by (drule find_SomeD) simp

lemma find_first: "find Q xs = Some d \<Longrightarrow> P d \<Longrightarrow> find (\<lambda>x. Q x \<and> P x) xs = Some d"
  by (induction xs) (auto split: if_splits)

lemma provenance_id: "provenance x = provenance y \<Longrightarrow> o_operation_id x = o_operation_id y"
  by (simp add: provenance_def)

text \<open>What an update does to the row found under a key.\<close>

lemma update_operation_find:
  assumes "update_operation op P f s = Inr s'" "\<And>d. o_operation_id (f d) = o_operation_id d"
  shows "find_operation s' k = map_option (\<lambda>d. if o_operation_id d = op \<and> P d then f d else d) (find_operation s k)"
  using assms(1)
proof (cases rule: update_operation_cases)
  case none
  have "map_option (\<lambda>d. if o_operation_id d = op \<and> P d then f d else d) (find_operation s k) = find_operation s k"
    using none(1) by (cases "find_operation s k") (auto simp: find_None_iff dest!: find_operation_id)
  then show ?thesis by (simp add: none(2))
next
  case (some d)
  show ?thesis
    unfolding find_operation_def some(4)
    using assms(2) by (simp add: find_update_where)
qed

lemma insert_operation_cases:
  assumes "insert_operation s op account run ex ty key dg now = Inr s'"
  obtains d where "o_operation_id d = op" "o_run_id d = run" "o_operation_type d = ty" "o_status d = Op_Started"
    "o_attempt_count d = 1" "o_effect_key d = key" "o_parameters_digest d = dg"
    "\<And>a. account = Some a \<Longrightarrow> o_account_id d = a" "\<And>x. ex = Some x \<Longrightarrow> o_execution_id d = x"
    "\<exists>r. find (\<lambda>r. r_run_id r = run) (runs s) = Some r \<and> o_work_id d = r_work_id r \<and>
         (account = None \<longrightarrow> o_account_id d = r_account_id r)"
    "find_operation s op = None" "s' = s\<lparr>operations := operations s @ [d]\<rparr>" "o_result_ref d = None"
proof -
  obtain r where r: "find (\<lambda>r. r_run_id r = run) (runs s) = Some r"
    using assms by (cases "find (\<lambda>r. r_run_id r = run) (runs s)") (simp_all add: insert_operation_def)
  define x where "x = (case ex of Some x \<Rightarrow> Some x
     | None \<Rightarrow> map_option e_execution_id (find (\<lambda>e. e_run_id e = run \<and> e_role e = Root) (executions s)))"
  obtain x' where x': "x = Some x'"
    using assms r by (cases x) (simp_all add: insert_operation_def x_def [symmetric])
  have e: "ex = Some y \<Longrightarrow> y = x'" for y using x' by (simp add: x_def)
  show ?thesis
    using assms r x' e
    by (intro that [of "\<lparr>o_operation_id = op, o_account_id = (case account of Some a \<Rightarrow> a | None \<Rightarrow> r_account_id r),
            o_run_id = run, o_execution_id = x', o_operation_type = ty,
            o_status = Op_Started, o_attempt_count = 1, o_result_ref = None, o_result_payload = None,
            o_error_code = None, o_work_id = r_work_id r, o_requirement_revision = r_requirement_revision r,
            o_effect_key = key, o_parameters_digest = dg, o_started_at = now\<rparr>"])
       (simp_all add: insert_operation_def x_def [symmetric] Let_def ensure_Inr_iff)
qed

lemma register_attempt_cases:
  assumes "register_attempt s op fnc = Inr s'"
  obtains (kept) "s' = s" "fnc = None \<or> attempt_registered s op fnc"
  | (added) acc run ex t d a where "fnc = Some (acc, run, ex, t)" "find_operation s op = Some d"
      "\<not> attempt_registered s op fnc"
      "\<not> list_ex (\<lambda>a. at_operation_id a = op \<and> at_attempt_no a = o_attempt_count d) (attempts s)"
      "o_account_id d = acc" "o_run_id d = run" "o_execution_id d = ex"
      "a = \<lparr>at_account_id = acc, at_run_id = run, at_execution_id = ex, at_operation_id = op,
                  at_attempt_no = o_attempt_count d, at_fencing_token = t, at_receipt_ref = ''operation:'' @ op\<rparr>"
      "s' = s\<lparr>attempts := attempts s @ [a]\<rparr>"
proof (cases "fnc = None \<or> attempt_registered s op fnc")
  case True
  with assms show ?thesis
    by (intro kept) (auto simp: register_attempt_def attempt_registered_def res_simps split: option.splits)
next
  case False
  then obtain acc run ex t where "fnc = Some (acc, run, ex, t)" by (cases fnc) auto
  with False assms show ?thesis
    by (auto simp: register_attempt_def attempt_registered_def res_simps intro!: added)
qed

lemma insert_receipt_cases:
  assumes "insert_receipt s r now = Inr s'"
  obtains "receipt_admissible s r now" "find_receipt s (rc_operation_id r) (rc_attempt_no r) = None"
    "s' = s\<lparr>receipts := receipts s @ [r]\<rparr>"
  using assms unfolding insert_receipt_def find_receipt_def
  by (simp add: ensure_Inr_iff) (metis (mono_tags, lifting) find_None_iff list_ex_iff)

lemma append_event_cases:
  assumes "append_event tid v ty op p s = Inr s'"
  obtains "\<not> list_ex (\<lambda>e. ev_transcript_id e = tid \<and> (ev_sequence e = v \<or> ev_operation_id e = op)) (events s)"
    "s' = s\<lparr>events := events s @ [\<lparr>ev_transcript_id = tid, ev_sequence = v, ev_event_type = ty,
               ev_operation_id = op, ev_payload = p\<rparr>],
             transcripts := update_where (\<lambda>t. tr_transcript_id t = tid) (\<lambda>t. t\<lparr>tr_version := v\<rparr>) (transcripts s)\<rparr>"
  using assms unfolding append_event_def by (simp add: ensure_Inr_iff)

lemma update_operation_rows:
  assumes "update_operation op P f s = Inr s'" "\<And>d. o_operation_id (f d) = o_operation_id d"
    and "\<And>d. find_operation s op = Some d \<Longrightarrow> P d \<Longrightarrow> o_status d \<noteq> Op_Completed \<Longrightarrow>
           provenance (f d) = provenance d \<Longrightarrow> row_step (F op) d (f d)"
  shows "row_evolves (F k) (find_operation s k) (find_operation s' k)"
proof (cases "find_operation s k")
  case (Some d)
  then have id: "o_operation_id d = k" by (simp add: find_operation_id)
  show ?thesis
  proof (cases "k = op \<and> P d")
    case True
    with Some have f: "find (\<lambda>d. o_operation_id d = op \<and> P d) (operations s) = Some d"
      using find_first [of "\<lambda>d. o_operation_id d = op" "operations s" d P] by (simp add: find_operation_def)
    from assms(1) have "o_status d \<noteq> Op_Completed" "provenance (f d) = provenance d"
      by (cases rule: update_operation_cases; use f in simp)+
    with True Some assms(3) have "row_step (F op) d (f d)" by blast
    with True Some id show ?thesis
      by (simp add: update_operation_find [OF assms(1,2)] row_evolves_def)
  next
    case False
    with Some id show ?thesis by (auto simp: update_operation_find [OF assms(1,2)])
  qed
qed (simp add: row_evolves_def)

lemma ensure_transcript_cases:
  assumes "ensure_transcript tid run acc conv session ex s = Inr s'"
  obtains (there) "s' = s"
  | (fresh) t where "find_transcript s tid = None" "tr_transcript_id t = tid" "tr_execution_id t = ex" "tr_version t = 0"
      "s' = s\<lparr>transcripts := transcripts s @ [t]\<rparr>"
proof (cases "list_ex (\<lambda>t. tr_execution_id t = ex) (transcripts s)")
  case True
  with assms show ?thesis by (intro there) (simp add: ensure_transcript_def)
next
  case False
  with assms show ?thesis
    by (intro fresh [of "\<lparr>tr_transcript_id = tid, tr_account_id = acc, tr_run_id = run,
                tr_execution_id = ex, tr_conversation_id = conv, tr_session_id = session, tr_version = 0\<rparr>"])
       (simp_all add: ensure_transcript_def ensure_Inr_iff)
qed

section \<open>Evolution\<close>

text \<open>The primitive changes of the data plane; every method is a sequence of them.\<close>

inductive op_prim :: "(string \<Rightarrow> bool) \<Rightarrow> 'a op_db_scheme \<Rightarrow> 'a op_db_scheme \<Rightarrow> bool" for F :: "string \<Rightarrow> bool" where
  tables: "same_op_tables s s' \<Longrightarrow> op_prim F s s'"
| update: "update_operation op P f s = Inr s' \<Longrightarrow> \<forall>d. o_operation_id (f d) = o_operation_id d \<Longrightarrow>
    \<forall>d. find_operation s op = Some d \<longrightarrow> P d \<longrightarrow> o_status d \<noteq> Op_Completed \<longrightarrow>
        provenance (f d) = provenance d \<longrightarrow> row_step (F op) d (f d) \<Longrightarrow> op_prim F s s'"
| insert: "insert_operation s op account run ex ty key dg now = Inr s' \<Longrightarrow> op_prim F s s'"
| register: "register_attempt s op fnc = Inr s' \<Longrightarrow> op_prim F s s'"
| receipt: "insert_receipt s r now = Inr s' \<Longrightarrow> op_prim F s s'"
| reference: "s' = s\<lparr>effect_references := effect_references s @ [e]\<rparr> \<Longrightarrow> op_prim F s s'"
| transcript: "ensure_transcript tid run acc conv session ex s = Inr s' \<Longrightarrow> op_prim F s s'"
| append: "append_event tid (tr_version t + 1) ty op p s = Inr s' \<Longrightarrow> t \<in> set (transcripts s) \<Longrightarrow>
    tr_transcript_id t = tid \<Longrightarrow> op_prim F s s'"

definition op_evolves :: "(string \<Rightarrow> bool) \<Rightarrow> 'a op_db_scheme \<Rightarrow> 'a op_db_scheme \<Rightarrow> bool" where
  "op_evolves F s s' \<longleftrightarrow> (op_prim F)\<^sup>*\<^sup>* s s'"

lemma op_evolves_refl [simp]: "op_evolves F s s"
  by (simp add: op_evolves_def)

lemma op_evolves_trans: "op_evolves F s t \<Longrightarrow> op_evolves F t u \<Longrightarrow> op_evolves F s u"
  unfolding op_evolves_def by (rule rtranclp_trans)

lemma op_prim_evolves: "op_prim F s s' \<Longrightarrow> op_evolves F s s'"
  by (simp add: op_evolves_def)

text \<open>An invariant of the primitive changes is an invariant of every method.\<close>

lemma op_evolves_invariant:
  assumes "op_evolves F s s'" "I s" "\<And>u v. op_prim F u v \<Longrightarrow> I u \<Longrightarrow> I v"
  shows "I s'"
  using assms(1,2) unfolding op_evolves_def by (induction rule: rtranclp_induct) (auto intro: assms(3))

lemmas same_op_tables_evolves = tables [THEN op_prim_evolves]
  and fence_evolves = fence_op_tables [THEN tables, THEN op_prim_evolves]
  and insert_operation_evolves = insert [THEN op_prim_evolves]
  and register_attempt_evolves = register [THEN op_prim_evolves]
  and insert_receipt_evolves = receipt [THEN op_prim_evolves]
  and ensure_transcript_evolves = transcript [THEN op_prim_evolves]

lemma update_operation_evolves:
  assumes "update_operation op P f s = Inr s'" "\<And>d. o_operation_id (f d) = o_operation_id d"
    and "\<And>d. find_operation s op = Some d \<Longrightarrow> P d \<Longrightarrow> o_status d \<noteq> Op_Completed \<Longrightarrow>
           provenance (f d) = provenance d \<Longrightarrow> row_step (F op) d (f d)"
  shows "op_evolves F s s'"
  using assms by (intro op_prim_evolves update) auto

section \<open>What the evolution keeps\<close>

lemma op_prim_rows: "op_prim F s s' \<Longrightarrow> row_evolves (F k) (find_operation s k) (find_operation s' k)"
proof (induction rule: op_prim.induct)
  case (tables s s')
  then show ?case by (simp add: same_op_tables_def find_operation_def)
next
  case (update op P f s s')
  then show ?case by (intro update_operation_rows [where op = op and P = P and f = f]) auto
next
  case (insert s op account run ex ty key dg now s')
  then show ?case
    by (cases rule: insert_operation_cases; cases "find_operation s k")
       (simp_all add: find_operation_def find_append row_evolves_def)
next
  case (register s op fnc s')
  then show ?case by (cases rule: register_attempt_cases) (simp_all add: find_operation_def)
next
  case (receipt s r now s')
  then show ?case by (cases rule: insert_receipt_cases) (simp add: find_operation_def)
next
  case (reference s' s e)
  then show ?case by (simp add: find_operation_def)
next
  case (transcript tid run acc conv session ex s s')
  then show ?case by (cases rule: ensure_transcript_cases) (simp_all add: find_operation_def)
next
  case (append tid t ty op p s s')
  from append(1) show ?case by (cases rule: append_event_cases) (simp add: find_operation_def)
qed

lemma op_evolves_rows: "op_evolves F s s' \<Longrightarrow> row_evolves (F k) (find_operation s k) (find_operation s' k)"
  unfolding op_evolves_def by (induction rule: rtranclp_induct) (auto intro: row_evolves_trans op_prim_rows)

definition facts_grow :: "'a op_db_scheme \<Rightarrow> 'a op_db_scheme \<Rightarrow> bool" where
  "facts_grow s s' \<longleftrightarrow> prefix (attempts s) (attempts s') \<and> prefix (receipts s) (receipts s') \<and>
     prefix (effect_references s) (effect_references s') \<and> prefix (events s) (events s')"

lemma facts_grow_refl [simp]: "facts_grow s s"
  by (simp add: facts_grow_def)

lemma facts_grow_trans: "facts_grow s t \<Longrightarrow> facts_grow t u \<Longrightarrow> facts_grow s u"
  by (auto simp: facts_grow_def intro: prefix_order.trans)

lemma op_prim_facts: "op_prim F s s' \<Longrightarrow> facts_grow s s'"
proof (induction rule: op_prim.induct)
  case (update op P f s s')
  from update(1) show ?case by (cases rule: update_operation_cases) (simp_all add: facts_grow_def)
next
  case (insert s op account run ex ty key dg now s')
  then show ?case by (cases rule: insert_operation_cases) (simp add: facts_grow_def)
next
  case (register s op fnc s')
  then show ?case by (cases rule: register_attempt_cases) (simp_all add: facts_grow_def)
next
  case (receipt s r now s')
  then show ?case by (cases rule: insert_receipt_cases) (simp add: facts_grow_def)
next
  case (transcript tid run acc conv session ex s s')
  then show ?case by (cases rule: ensure_transcript_cases) (simp_all add: facts_grow_def)
next
  case (append tid t ty op p s s')
  from append(1) show ?case by (cases rule: append_event_cases) (simp add: facts_grow_def)
qed (simp_all add: same_op_tables_def facts_grow_def)

lemma op_evolves_facts: "op_evolves F s s' \<Longrightarrow> facts_grow s s'"
  unfolding op_evolves_def by (induction rule: rtranclp_induct) (auto intro: facts_grow_trans op_prim_facts)

section \<open>The operations\<close>

lemma reenter_operation_cases:
  assumes "reenter_operation s fnc row allow = Inr (r, s')"
  obtains (done_before) "o_status row = Op_Completed" "r = (Op_Completed, o_result_payload row)" "s' = s"
  | (again) s1 s2 where "o_status row \<noteq> Op_Completed" "unresolved row \<longrightarrow> allow"
      "update_operation (o_operation_id row) (\<lambda>_. True) (\<lambda>d. d\<lparr>o_attempt_count := o_attempt_count d
         + (if attempt_registered s (o_operation_id row) fnc then 0 else 1)\<rparr>) s = Inr s1"
      "if unresolved row then s2 = s1 else update_operation (o_operation_id row) (\<lambda>_. True)
         (\<lambda>d. d\<lparr>o_status := Op_Started, o_error_code := None, o_result_payload := None\<rparr>) s1 = Inr s2"
      "register_attempt s2 (o_operation_id row) fnc = Inr s'"
      "r = (if unresolved row then (o_status row, o_result_payload row) else (Op_Started, None))"
proof (cases "o_status row = Op_Completed")
  case True
  with assms show ?thesis by (intro done_before) (simp_all add: reenter_operation_def Let_def)
next
  case False
  with assms obtain s1 s2 where
    "unresolved row \<longrightarrow> allow"
    "update_operation (o_operation_id row) (\<lambda>_. True) (\<lambda>d. d\<lparr>o_attempt_count := o_attempt_count d
         + (if attempt_registered s (o_operation_id row) fnc then 0 else 1)\<rparr>) s = Inr s1"
    "(if unresolved row then Inr s1 else update_operation (o_operation_id row) (\<lambda>_. True)
         (\<lambda>d. d\<lparr>o_status := Op_Started, o_error_code := None, o_result_payload := None\<rparr>) s1) = Inr s2"
    "register_attempt s2 (o_operation_id row) fnc = Inr s'"
    "r = (if unresolved row then (o_status row, o_result_payload row) else (Op_Started, None))"
    unfolding reenter_operation_def Let_def unresolved_def [symmetric]
    by (auto simp: ebind_Inr_iff ensure_Inr_iff)
  with False show ?thesis by (intro again [of s1 s2]) (auto split: if_splits)
qed

lemma reenter_operation_evolves:
  assumes "reenter_operation s fnc row allow = Inr (r, s')" "find_operation s (o_operation_id row) = Some row"
  shows "op_evolves F s s'"
  using assms(1)
proof (cases rule: reenter_operation_cases)
  case (again s1 s2)
  have 1: "op_evolves F s s1"
    by (rule update_operation_evolves [OF again(3)])
       (auto simp: row_step_def provenance_def unresolved_def)
  have f1: "find_operation s1 (o_operation_id row) = Some (row\<lparr>o_attempt_count := o_attempt_count row
         + (if attempt_registered s (o_operation_id row) fnc then 0 else 1)\<rparr>)"
    by (simp add: update_operation_find [OF again(3)] assms(2))
  have 2: "op_evolves F s1 s2"
  proof (cases "unresolved row")
    case False
    with again(4) have "update_operation (o_operation_id row) (\<lambda>_. True)
         (\<lambda>d. d\<lparr>o_status := Op_Started, o_error_code := None, o_result_payload := None\<rparr>) s1 = Inr s2" by simp
    then show ?thesis
      by (rule update_operation_evolves) (use False f1 in \<open>auto simp: row_step_def provenance_def unresolved_def\<close>)
  qed (use again(4) in simp)
  from 1 2 register_attempt_evolves [OF again(5)] show ?thesis by (blast intro: op_evolves_trans)
qed simp

lemma begin_operation_cases:
  assumes "begin_operation s fnc op run ty allow now = Inr (r, s')"
  obtains (fresh) s1 s2 where "assert_execution_fence s fnc now = Inr s1" "find_operation s1 op = None"
      "insert_operation s1 op None run (map_option (\<lambda>(_, _, x, _). x) fnc) ty None None now = Inr s2"
      "register_attempt s2 op fnc = Inr s'" "r = (Op_Started, None)"
  | (old) s1 row where "assert_execution_fence s fnc now = Inr s1" "find_operation s1 op = Some row"
      "o_operation_id row = op" "o_run_id row = run" "o_operation_type row = ty"
      "require_owned_record fnc (operation_owners s1 op) = Inr ()"
      "reenter_operation s1 fnc row allow = Inr (r, s')"
proof -
  obtain s1 where s1: "assert_execution_fence s fnc now = Inr s1"
    using assms by (cases "assert_execution_fence s fnc now") (simp_all add: begin_operation_def)
  have run: "case fnc of None \<Rightarrow> True | Some (_, r, _, _) \<Rightarrow> r = run"
    using assms s1 by (simp add: begin_operation_def ensure_Inr_iff)
  show ?thesis
  proof (cases "find_operation s1 op")
    case None
    then show ?thesis using assms s1 run
      by (auto simp: begin_operation_def ebind_Inr_iff intro: fresh)
  next
    case (Some row)
    then show ?thesis using assms s1 run find_operation_id [OF Some]
      by (auto simp: begin_operation_def ebind_Inr_iff ensure_Inr_iff intro: old)
  qed
qed

lemma begin_operation_evolves:
  assumes "begin_operation s fnc op run ty allow now = Inr (r, s')"
  shows "op_evolves F s s'"
  using assms
proof (cases rule: begin_operation_cases)
  case (fresh s1 s2)
  then show ?thesis
    by (blast intro: op_evolves_trans fence_evolves insert_operation_evolves register_attempt_evolves)
next
  case (old s1 row)
  have "op_evolves F s1 s'"
    by (rule reenter_operation_evolves [OF old(7)]) (simp add: old(2,3))
  then show ?thesis using fence_evolves [OF old(1)] by (blast intro: op_evolves_trans)
qed

lemma keep_late_result_evolves:
  "keep_late_result s run e a d disp payload = Inr s' \<Longrightarrow> op_evolves F s s'"
  unfolding keep_late_result_def
  by (auto split: if_splits intro!: update_operation_evolves simp: row_step_def provenance_def)

lemma receive_cases:
  assumes "receive digest s fnc acc run_id ex op t payload now = Inr (disp, s')"
  obtains (again) a prior where "find_attempt s acc run_id ex op t = Some a"
      "find_receipt s op (at_attempt_no a) = Some prior" "rc_digest prior = digest payload"
      "disp = rc_disposition prior" "s' = s"
  | (first) run e a d s1 where "lock s acc run_id = Inr run" "lock_execution s fnc acc run_id (Some ex) = Inr e"
      "find_attempt s acc run_id ex op t = Some a" "find_operation s op = Some d"
      "receipt_disposition s acc run e ex t now = Inr disp"
      "find_receipt s op (at_attempt_no a) = None"
      "insert_receipt s
               \<lparr>rc_account_id = acc, rc_run_id = run_id, rc_execution_id = ex, rc_operation_id = op,
                rc_attempt_no = at_attempt_no a, rc_requirement_revision = o_requirement_revision d,
                rc_result_ref = at_receipt_ref a, rc_digest = digest payload, rc_disposition = disp\<rparr> now = Inr s1"
      "keep_late_result s1 run e a d disp payload = Inr s'"
proof -
  obtain run where run: "lock s acc run_id = Inr run"
    using assms by (cases "lock s acc run_id") (simp_all add: receive_def)
  obtain e where e: "lock_execution s fnc acc run_id (Some ex) = Inr e"
    using assms run by (cases "lock_execution s fnc acc run_id (Some ex)") (simp_all add: receive_def)
  obtain a where a: "find_attempt s acc run_id ex op t = Some a"
    using assms run e by (cases "find_attempt s acc run_id ex op t") (simp_all add: receive_def)
  obtain d where d: "find_operation s op = Some d"
    using assms run e a by (cases "find_operation s op") (simp_all add: receive_def)
  obtain ds where ds: "receipt_disposition s acc run e ex t now = Inr ds"
    using assms run e a d by (cases "receipt_disposition s acc run e ex t now") (simp_all add: receive_def)
  show ?thesis
  proof (cases "find_receipt s op (at_attempt_no a)")
    case None
    then show ?thesis using assms run e a d ds
      by (auto simp: receive_def ebind_Inr_iff intro!: first)
  next
    case (Some prior)
    then show ?thesis using assms run e a d ds
      by (intro again [OF a Some]) (simp_all add: receive_def ensure_Inr_iff)
  qed
qed

lemma receive_evolves:
  assumes "receive digest s fnc acc run ex op t payload now = Inr (disp, s')"
  shows "op_evolves F s s'"
  using assms
  by (cases rule: receive_cases) (simp, blast intro: op_evolves_trans insert_receipt_evolves keep_late_result_evolves)

lemma register_effect_cases:
  assumes "register_effect digest s fnc acc run_id ex op key ps now = Inr (d, s')"
  obtains (known) run s1 where "require_active_run s acc run_id = Inr run" "r_source_kind run = Work"
      "assert_execution_fence s fnc now = Inr s1" "find_effect s1 acc (r_work_id run) key = Some d"
      "o_parameters_digest d = Some (digest ps)" "s' = add_reference s1 acc run ex d"
  | (fresh) run s1 where "require_active_run s acc run_id = Inr run" "r_source_kind run = Work"
      "assert_execution_fence s fnc now = Inr s1" "find_effect s1 acc (r_work_id run) key = None"
      "insert_operation s1 op (Some acc) run_id (Some ex) ''tool'' (Some key) (Some (digest ps)) now = Inr s'"
      "find_operation s' op = Some d"
proof -
  obtain run where run: "require_active_run s acc run_id = Inr run"
    using assms by (cases "require_active_run s acc run_id") (simp_all add: register_effect_def)
  obtain e where e: "lock_execution s fnc acc run_id (Some ex) = Inr e"
    using assms run by (cases "lock_execution s fnc acc run_id (Some ex)") (simp_all add: register_effect_def)
  obtain s1 where s1: "assert_execution_fence s fnc now = Inr s1"
    using assms run e by (cases "assert_execution_fence s fnc now") (simp_all add: register_effect_def)
  have w: "r_source_kind run = Work"
    using assms run e s1 by (simp add: register_effect_def ensure_Inr_iff)
  show ?thesis
  proof (cases "find_effect s1 acc (r_work_id run) key")
    case None
    with assms run e s1 w show ?thesis
      by (intro fresh [OF run w s1 None]) (auto simp: register_effect_def ebind_Inr_iff need_Inr_iff)
  next
    case (Some prior)
    with assms run e s1 w have c: "o_parameters_digest prior = Some (digest ps) \<and> prior = d \<and> add_reference s1 acc run ex prior = s'"
      by (auto simp: register_effect_def ensure_Inr_iff)
    then have "prior = d" by blast
    with c Some show ?thesis by (intro known [OF run w s1]) simp_all
  qed
qed

lemma add_reference_evolves: "op_evolves F s (add_reference s acc run ex d)"
  unfolding add_reference_def
  by (cases "o_run_id d \<noteq> r_run_id run \<and> \<not> list_ex (\<lambda>f. ef_execution_id f = ex \<and> ef_operation_id f = o_operation_id d)
        (effect_references s)") (auto intro: op_prim_evolves reference)

lemma register_effect_evolves:
  assumes "register_effect digest s fnc acc run ex op key ps now = Inr (d, s')"
  shows "op_evolves F s s'"
  using assms
proof (cases rule: register_effect_cases)
  case (known r s1)
  then show ?thesis using op_evolves_trans [OF fence_evolves [OF known(3)] add_reference_evolves] by simp
next
  case (fresh r s1)
  then show ?thesis by (blast intro: op_evolves_trans fence_evolves insert_operation_evolves)
qed

lemma receipt_for_completion_evolves:
  "receipt_for_completion digest s fnc d payload now = Inr s' \<Longrightarrow> op_evolves F s s'"
  unfolding receipt_for_completion_def
  by (auto simp: ebind_Inr_iff ensure_Inr_iff split: option.splits intro: insert_receipt_evolves)

lemma complete_operation_cases:
  assumes "complete_operation digest s fnc op ref payload now = Inr (u, s')"
  obtains (replay) d p where "assert_execution_fence s fnc now = Inr s'" "find_operation s' op = Some d"
      "o_status d = Op_Completed" "o_result_ref d = Some ref" "o_result_payload d = Some p" "json_eq p payload"
  | (complete) s1 d s2 where "assert_execution_fence s fnc now = Inr s1" "find_operation s1 op = Some d"
      "o_status d \<noteq> Op_Completed" "require_owned_record fnc (operation_owners s1 op) = Inr ()"
      "receipt_for_completion digest s1 fnc d payload now = Inr s2"
      "update_operation op (\<lambda>_. True)
                  (\<lambda>d. d\<lparr>o_status := Op_Completed, o_result_ref := Some ref, o_result_payload := Some payload,
                         o_error_code := None\<rparr>) s2 = Inr s'"
proof -
  obtain s1 where s1: "assert_execution_fence s fnc now = Inr s1"
    using assms by (cases "assert_execution_fence s fnc now") (simp_all add: complete_operation_def)
  have own: "require_owned_record fnc (operation_owners s1 op) = Inr ()"
    using assms s1 by (cases "require_owned_record fnc (operation_owners s1 op)") (simp_all add: complete_operation_def)
  obtain d where d: "find_operation s1 op = Some d"
    using assms s1 own by (cases "find_operation s1 op") (simp_all add: complete_operation_def)
  show ?thesis
  proof (cases "o_status d = Op_Completed")
    case True
    then have "s1 = s'" "o_result_ref d = Some ref"
      "case o_result_payload d of None \<Rightarrow> False | Some p \<Rightarrow> json_eq p payload"
      using assms s1 own d by (simp_all add: complete_operation_def ensure_Inr_iff)
    with s1 d True show ?thesis by (cases "o_result_payload d") (auto intro: replay)
  next
    case False
    then show ?thesis using assms s1 own d
      by (auto simp: complete_operation_def ebind_Inr_iff intro!: complete)
  qed
qed

lemma complete_operation_evolves:
  assumes "complete_operation digest s fnc op ref payload now = Inr (u, s')"
  shows "op_evolves F s s'"
  using assms
proof (cases rule: complete_operation_cases)
  case (complete s1 d s2)
  have "op_evolves F s2 s'"
    using complete(6) by (rule update_operation_evolves) (auto simp: row_step_def provenance_def)
  then show ?thesis
    using fence_evolves [OF complete(1)] receipt_for_completion_evolves [OF complete(5)]
    by (blast intro: op_evolves_trans)
qed (blast intro: fence_evolves)

lemma owned_operation_evolves: "owned_operation s fnc op now = Inr s' \<Longrightarrow> op_evolves F s s'"
  by (auto simp: owned_operation_def ebind_Inr_iff intro: fence_evolves)

lemma owned_result_evolves: "owned_result s fnc ref now = Inr s' \<Longrightarrow> op_evolves F s s'"
  by (auto simp: owned_result_def ebind_Inr_iff intro: fence_evolves)

lemma record_intent_evolves:
  assumes "record_operation_intent s fnc op intent now = Inr (u, s')"
  shows "op_evolves F s s'"
proof -
  obtain s1 where s1: "owned_operation s fnc op now = Inr s1"
    and u: "update_operation op (\<lambda>d. o_status d = Op_Started)
              (\<lambda>d. d\<lparr>o_status := Intent_Recorded, o_result_payload := Some intent\<rparr>) s1 = Inr s'"
    using assms by (auto simp: record_operation_intent_def ebind_Inr_iff ensure_Inr_iff)
  from u have "op_evolves F s1 s'"
    by (rule update_operation_evolves) (auto simp: row_step_def provenance_def unresolved_def)
  with owned_operation_evolves [OF s1] show ?thesis by (rule op_evolves_trans)
qed

lemma mark_uncertain_evolves:
  assumes "mark_operation_uncertain s fnc op code now = Inr (u, s')"
  shows "op_evolves F s s'"
proof -
  obtain s1 where s1: "owned_operation s fnc op now = Inr s1"
    and u: "update_operation op (\<lambda>d. o_status d \<in> {Intent_Recorded, Op_Uncertain})
              (\<lambda>d. d\<lparr>o_status := Op_Uncertain, o_error_code := Some code\<rparr>) s1 = Inr s'"
    using assms by (auto simp: mark_operation_uncertain_def ebind_Inr_iff)
  from u have "op_evolves F s1 s'"
    by (rule update_operation_evolves) (auto simp: row_step_def provenance_def unresolved_def)
  with owned_operation_evolves [OF s1] show ?thesis by (rule op_evolves_trans)
qed

lemma fail_operation_evolves:
  assumes "fail_operation s fnc op code now = Inr (u, s')" "F op"
  shows "op_evolves F s s'"
proof -
  obtain s1 where s1: "owned_operation s fnc op now = Inr s1"
    and u: "update_operation op (\<lambda>d. o_status d \<noteq> Op_Completed)
              (\<lambda>d. d\<lparr>o_status := Op_Failed, o_error_code := Some code\<rparr>) s1 = Inr s'"
    using assms by (auto simp: fail_operation_def ebind_Inr_iff)
  from u have "op_evolves F s1 s'"
    by (rule update_operation_evolves) (use assms(2) in \<open>auto simp: row_step_def provenance_def\<close>)
  with owned_operation_evolves [OF s1] show ?thesis by (rule op_evolves_trans)
qed

lemma create_transcript_cases:
  assumes "create_transcript digest s fnc tid run acc conv session ex messages op now = Inr (v, s')"
  obtains s1 s2 t s3 where "assert_execution_fence s fnc now = Inr s1"
    "ensure_transcript tid run acc conv session ex s1 = Inr s2"
    "find (\<lambda>t. tr_execution_id t = ex) (transcripts s2) = Some t"
    "if tr_version t = 0
     then append_event (tr_transcript_id t) 1 ''context'' op [(''messages'', JList messages)] s2 = Inr s3 else s3 = s2"
    "complete_operation digest s3 fnc op (context_ref (tr_transcript_id t)) (context_payload (tr_transcript_id t)) now
       = Inr ((), s')" "v = 1"
proof -
  from assms obtain s1 e where s1: "assert_execution_fence s fnc now = Inr s1"
    "lock_execution s1 fnc acc run (Some ex) = Inr e"
    unfolding create_transcript_def ebind_Inr_iff by blast
  from assms s1 obtain s2 where s2: "ensure_transcript tid run acc conv session ex s1 = Inr s2"
    unfolding create_transcript_def by (simp add: ensure_Inr_iff ebind_Inr_iff) blast
  from assms s1 s2 obtain t where t: "find (\<lambda>t. tr_execution_id t = ex) (transcripts s2) = Some t"
    unfolding create_transcript_def by (simp add: ensure_Inr_iff ebind_Inr_iff need_Inr_iff) blast
  from assms s1 s2 t obtain s3 where s3:
    "(if tr_version t = 0 then append_event (tr_transcript_id t) 1 ''context'' op [(''messages'', JList messages)] s2
      else Inr s2) = Inr s3"
    "complete_operation digest s3 fnc op (context_ref (tr_transcript_id t)) (context_payload (tr_transcript_id t)) now
       = Inr ((), s')" "v = 1"
    unfolding create_transcript_def by (auto simp: ensure_Inr_iff ebind_Inr_iff)
  from s1(1) s2 t s3 show ?thesis by (intro that [of s1 s2 t s3]) (simp_all split: if_splits)
qed

lemma create_transcript_evolves:
  assumes "create_transcript digest s fnc tid run acc conv session ex messages op now = Inr (v, s')"
  shows "op_evolves F s s'"
  using assms
proof (cases rule: create_transcript_cases)
  case (1 s1 s2 t s3)
  have "op_evolves F s2 s3"
    using 1(4) find_SomeD [OF 1(3)] append [THEN op_prim_evolves, of "tr_transcript_id t" t _ _ _ s2 s3 F]
    by (cases "tr_version t = 0") auto
  with fence_evolves [OF 1(1)] ensure_transcript_evolves [OF 1(2)] complete_operation_evolves [OF 1(5)]
  show ?thesis by (blast intro: op_evolves_trans)
qed

lemma complete_with_event_cases:
  assumes "complete_with_event digest s fnc tid expected ty op ep ref rp now = Inr (v, s')"
  obtains (again) t e where "assert_execution_fence s fnc now = Inr s'" "find_transcript s' tid = Some t"
      "tr_version t \<noteq> expected" "find (\<lambda>e. ev_transcript_id e = tid \<and> ev_operation_id e = op) (events s') = Some e"
      "v = ev_sequence e"
  | (appended) s1 t s2 where "assert_execution_fence s fnc now = Inr s1" "find_transcript s1 tid = Some t"
      "tr_version t = expected" "v = expected + 1" "append_event tid v ty op ep s1 = Inr s2"
      "complete_operation digest s2 fnc op ref (versioned rp v) now = Inr ((), s')"
proof -
  obtain s1 where s1: "assert_execution_fence s fnc now = Inr s1"
    using assms by (cases "assert_execution_fence s fnc now") (simp_all add: complete_with_event_def)
  have own: "require_owned_record fnc (transcript_owners s1 tid) = Inr ()" "require_owned_record fnc (operation_owners s1 op) = Inr ()"
    using assms s1 by (auto simp: complete_with_event_def ebind_Inr_iff)
  obtain t where t: "find_transcript s1 tid = Some t"
    using assms s1 own by (cases "find_transcript s1 tid") (simp_all add: complete_with_event_def)
  show ?thesis
  proof (cases "tr_version t = expected")
    case True
    then show ?thesis using assms s1 own t
      by (auto simp: complete_with_event_def ebind_Inr_iff Let_def intro!: appended)
  next
    case False
    then show ?thesis using assms s1 own t
      by (cases "find (\<lambda>e. ev_transcript_id e = tid \<and> ev_operation_id e = op) (events s1)")
         (auto simp: complete_with_event_def intro: again)
  qed
qed

lemma complete_with_event_evolves:
  assumes "complete_with_event digest s fnc tid expected ty op ep ref rp now = Inr (v, s')"
  shows "op_evolves F s s'"
  using assms
proof (cases rule: complete_with_event_cases)
  case (appended s1 t s2)
  have "t \<in> set (transcripts s1)" "tr_transcript_id t = tid"
    using appended(2) by (auto simp: find_transcript_def dest: find_SomeD)
  with appended(3-5) have "op_evolves F s1 s2" by (intro op_prim_evolves append) auto
  then show ?thesis
    using fence_evolves [OF appended(1)] complete_operation_evolves [OF appended(6)]
    by (blast intro: op_evolves_trans)
qed (blast intro: fence_evolves)

lemma preserve_late_result_evolves:
  assumes "preserve_late_result digest fnc op payload now out s = (r, s')"
    and "\<And>v s2. out = Inr (v, s2) \<Longrightarrow> op_evolves F s s2"
  shows "op_evolves F s s'"
  using assms
  by (auto simp: preserve_late_result_def split: sum.splits if_splits option.splits prod.splits intro: receive_evolves)

section \<open>Every sequence of methods\<close>

text \<open>One committed transaction of the data plane, or of the rest of the system, which does not write its
  tables. Operations with \<open>F op\<close> may be marked failed.\<close>

inductive op_step :: "(json \<Rightarrow> string) \<Rightarrow> (string \<Rightarrow> bool) \<Rightarrow> 'a op_db_scheme \<Rightarrow> 'a op_db_scheme \<Rightarrow> bool"
  for digest :: "json \<Rightarrow> string" and F :: "string \<Rightarrow> bool" where
  other: "same_op_tables s s' \<Longrightarrow> op_step digest F s s'"
| enter: "begin_operation s fnc op run ty allow now = Inr (r, s') \<Longrightarrow> op_step digest F s s'"
| received: "receive digest s fnc acc run ex op t payload now = Inr (d, s') \<Longrightarrow> op_step digest F s s'"
| effect: "register_effect digest s fnc acc run ex op key ps now = Inr (w, s') \<Longrightarrow> op_step digest F s s'"
| intent: "record_operation_intent s fnc op i now = Inr (u, s') \<Longrightarrow> op_step digest F s s'"
| uncertain: "mark_operation_uncertain s fnc op code now = Inr (u, s') \<Longrightarrow> op_step digest F s s'"
| failed: "F op \<Longrightarrow> fail_operation s fnc op code now = Inr (u, s') \<Longrightarrow> op_step digest F s s'"
| created: "create_transcript digest s fnc tid run acc conv ses ex ms op now = Inr (v, s') \<Longrightarrow> op_step digest F s s'"
| event: "complete_operation_with_event digest s fnc tid expected ty op ep ref rp now = (v, s') \<Longrightarrow> op_step digest F s s'"
| completed: "store_complete_operation digest s fnc op ref p now = (v, s') \<Longrightarrow> op_step digest F s s'"

lemma store_complete_operation_evolves:
  assumes "store_complete_operation digest s fnc op ref p now = (v, s')"
  shows "op_evolves F s s'"
  using assms unfolding store_complete_operation_def
proof (rule preserve_late_result_evolves)
  fix v s2
  assume "ebind (assert_execution_fence s fnc now) (\<lambda>s1. complete_operation digest s1 fnc op ref p now) = Inr (v, s2)"
  then obtain s1 where "assert_execution_fence s fnc now = Inr s1"
    "complete_operation digest s1 fnc op ref p now = Inr (v, s2)"
    unfolding ebind_Inr_iff by blast
  then show "op_evolves F s s2" by (blast intro: op_evolves_trans fence_evolves complete_operation_evolves)
qed

lemma op_step_evolves: "op_step digest F s s' \<Longrightarrow> op_evolves F s s'"
proof (induction rule: op_step.induct)
  case (event s fnc tid expected ty op ep ref rp now v s')
  from event [unfolded complete_operation_with_event_def] show ?case
    by (rule preserve_late_result_evolves) (rule complete_with_event_evolves)
qed (simp_all add: same_op_tables_evolves begin_operation_evolves receive_evolves register_effect_evolves
      record_intent_evolves mark_uncertain_evolves fail_operation_evolves create_transcript_evolves
      store_complete_operation_evolves)

lemma op_steps_evolve: "(op_step digest F)\<^sup>*\<^sup>* s s' \<Longrightarrow> op_evolves F s s'"
  by (induction rule: rtranclp_induct) (auto intro: op_evolves_trans op_step_evolves)

end
