(* ===== verification/Operation_Keys.thy ===== *)
theory Operation_Keys
  imports Operation_Laws
begin

text \<open>
  The invariant of the keys: operation ids are unique, an attempt number is used once and never exceeds the
  operation's attempt count, and only completed rows carry a result reference. It holds after any sequence
  of methods, and under it the code's own checks keep it clear of the database's constraints.
\<close>

section \<open>The invariant\<close>

definition attempt_counted :: "'a op_db_scheme \<Rightarrow> attempt_row \<Rightarrow> bool" where
  "attempt_counted s a \<longleftrightarrow> (case find_operation s (at_operation_id a) of None \<Rightarrow> False
     | Some d \<Rightarrow> at_attempt_no a \<le> o_attempt_count d)"

definition keys_ok :: "'a op_db_scheme \<Rightarrow> bool" where
  "keys_ok s \<longleftrightarrow> distinct (map o_operation_id (operations s)) \<and>
     list_all (\<lambda>d. o_status d \<noteq> Op_Completed \<longrightarrow> o_result_ref d = None) (operations s) \<and>
     list_all (attempt_counted s) (attempts s) \<and>
     distinct (map (\<lambda>a. (at_operation_id a, at_attempt_no a)) (attempts s))"

lemma keys_ok_same: "same_op_tables s s' \<Longrightarrow> keys_ok s' = keys_ok s"
proof -
  assume a: "same_op_tables s s'"
  then have "attempt_counted s' = attempt_counted s"
    by (auto simp: attempt_counted_def same_op_tables_def find_operation_def fun_eq_iff)
  with a show ?thesis by (simp add: keys_ok_def same_op_tables_def)
qed

lemma attempt_counted_evolves:
  assumes "row_evolves F (find_operation s (at_operation_id a)) (find_operation s' (at_operation_id a))" "attempt_counted s a"
  shows "attempt_counted s' a"
  using assms by (auto simp: attempt_counted_def row_evolves_def row_step_def split: option.splits)

lemma attempts_counted_prim:
  assumes "op_prim F s s'" "list_all (attempt_counted s) xs"
  shows "list_all (attempt_counted s') xs"
  using assms(2) unfolding list_all_iff by (blast intro: attempt_counted_evolves op_prim_rows [OF assms(1)])

lemma distinct_ids_prim:
  assumes "op_prim F s s'" "distinct (map o_operation_id (operations s))"
  shows "distinct (map o_operation_id (operations s'))"
  using assms
proof (cases rule: op_prim.cases)
  case (update op P f)
  from update(1) show ?thesis
    by (cases rule: update_operation_cases)
       (use assms(2) update(2) in \<open>simp_all add: map_update_where\<close>)
next
  case (insert op account run ex ty key dg now)
  then show ?thesis
    by (cases rule: insert_operation_cases)
       (use assms(2) in \<open>auto simp: find_operation_def find_None_iff\<close>)
next
  case (register op fnc)
  then show ?thesis by (cases rule: register_attempt_cases) (use assms(2) in simp_all)
next
  case (receipt r now)
  then show ?thesis by (cases rule: insert_receipt_cases) (use assms(2) in simp)
next
  case (transcript tid run acc conv session ex)
  then show ?thesis by (cases rule: ensure_transcript_cases) (use assms(2) in simp_all)
next
  case (append tid t ty op p)
  from append(1) show ?thesis by (cases rule: append_event_cases) (use assms(2) in simp)
qed (simp_all add: same_op_tables_def)

lemma attempt_keys_prim:
  assumes "op_prim F s s'" "distinct (map (\<lambda>a. (at_operation_id a, at_attempt_no a)) (attempts s))"
    "list_all (attempt_counted s) (attempts s)"
  shows "distinct (map (\<lambda>a. (at_operation_id a, at_attempt_no a)) (attempts s')) \<and>
     list_all (attempt_counted s') (attempts s')"
proof -
  have old: "list_all (attempt_counted s') (attempts s)"
    using attempts_counted_prim [OF assms(1,3)] .
  from assms(1) show ?thesis
  proof (cases rule: op_prim.cases)
    case (update op P f)
    from update(1) have "attempts s' = attempts s" by (cases rule: update_operation_cases) simp_all
    with old assms(2) show ?thesis by simp
  next
    case (insert op account run ex ty key dg now)
    then have "attempts s' = attempts s" by (cases rule: insert_operation_cases) simp
    with old assms(2) show ?thesis by simp
  next
    case (register op fnc)
    then show ?thesis
    proof (cases rule: register_attempt_cases)
      case kept
      with assms(2,3) show ?thesis by simp
    next
      case (added acc run ex t d a)
      have "attempt_counted s' a"
        using added(2,8,9) by (simp add: attempt_counted_def find_operation_def)
      with old added(4,8,9) assms(2) show ?thesis by (auto simp: list_ex_iff)
    qed
  next
    case (receipt r now)
    then have "attempts s' = attempts s" by (cases rule: insert_receipt_cases) simp
    with old assms(2) show ?thesis by simp
  next
    case (transcript tid run acc conv session ex)
    then have "attempts s' = attempts s" by (cases rule: ensure_transcript_cases) simp_all
    with old assms(2) show ?thesis by simp
  next
    case (append tid t ty op p)
    from append(1) have "attempts s' = attempts s" by (cases rule: append_event_cases) simp
    with old assms(2) show ?thesis by simp
  qed (use old assms(2) in \<open>simp_all add: same_op_tables_def\<close>)
qed

lemma find_operation_mem:
  "distinct (map o_operation_id (operations s)) \<Longrightarrow> d \<in> set (operations s) \<Longrightarrow> find_operation s (o_operation_id d) = Some d"
proof -
  have "distinct (map o_operation_id xs) \<Longrightarrow> d \<in> set xs \<Longrightarrow> find (\<lambda>x. o_operation_id x = o_operation_id d) xs = Some d" for xs
    by (induction xs) force+
  then show "distinct (map o_operation_id (operations s)) \<Longrightarrow> d \<in> set (operations s) \<Longrightarrow>
      find_operation s (o_operation_id d) = Some d"
    by (simp add: find_operation_def)
qed

lemma open_refs_iff:
  "distinct (map o_operation_id (operations s)) \<Longrightarrow>
   list_all (\<lambda>d. o_status d \<noteq> Op_Completed \<longrightarrow> o_result_ref d = None) (operations s) \<longleftrightarrow>
   (\<forall>k d. find_operation s k = Some d \<longrightarrow> o_status d \<noteq> Op_Completed \<longrightarrow> o_result_ref d = None)"
  by (auto simp: list_all_iff dest: find_operation_mem find_operation_id)

lemma insert_result_ref: "insert_operation s op account run ex ty key dg now = Inr s' \<Longrightarrow>
    find_operation s' k = Some d \<Longrightarrow> find_operation s k = Some d \<or> o_result_ref d = None"
  by (erule insert_operation_cases) (auto simp: find_operation_def find_append split: option.splits if_splits)

lemma open_refs_prim:
  assumes "op_prim F s s'" "\<forall>k d. find_operation s k = Some d \<longrightarrow> o_status d \<noteq> Op_Completed \<longrightarrow> o_result_ref d = None"
  shows "\<forall>k d. find_operation s' k = Some d \<longrightarrow> o_status d \<noteq> Op_Completed \<longrightarrow> o_result_ref d = None"
proof (intro allI impI)
  fix k d assume d: "find_operation s' k = Some d" "o_status d \<noteq> Op_Completed"
  show "o_result_ref d = None"
  proof (cases "find_operation s k")
    case (Some x)
    then show ?thesis
      using op_prim_rows [OF assms(1), of k] d assms(2) by (auto simp: row_evolves_def row_step_def)
  next
    case None
    from assms(1) show ?thesis
    proof (cases rule: op_prim.cases)
      case tables
      with d None show ?thesis by (simp add: same_op_tables_def find_operation_def)
    next
      case (update op P f)
      with d None show ?thesis by (simp add: update_operation_find [where f = f])
    next
      case (insert op account run ex ty key dg now)
      from insert_result_ref [OF insert d(1)] None show ?thesis by simp
    next
      case (register op fnc)
      then show ?thesis by (cases rule: register_attempt_cases) (use d None in \<open>simp_all add: find_operation_def\<close>)
    next
      case (receipt r now)
      then show ?thesis by (cases rule: insert_receipt_cases) (use d None in \<open>simp add: find_operation_def\<close>)
    next
      case reference
      then show ?thesis using d None by (simp add: find_operation_def)
    next
      case (transcript tid run acc conv session ex)
      then show ?thesis by (cases rule: ensure_transcript_cases) (use d None in \<open>simp_all add: find_operation_def\<close>)
    next
      case (append tid t ty op p)
      from append(1) show ?thesis by (cases rule: append_event_cases) (use d None in \<open>simp add: find_operation_def\<close>)
    qed
  qed
qed

lemma keys_okD:
  assumes "keys_ok s"
  shows "distinct (map o_operation_id (operations s))"
    "find_operation s k = Some d \<Longrightarrow> o_status d \<noteq> Op_Completed \<Longrightarrow> o_result_ref d = None"
    "a \<in> set (attempts s) \<Longrightarrow> attempt_counted s a"
    "distinct (map (\<lambda>a. (at_operation_id a, at_attempt_no a)) (attempts s))"
proof -
  show d: "distinct (map o_operation_id (operations s))" using assms by (simp add: keys_ok_def)
  have "list_all (\<lambda>d. o_status d \<noteq> Op_Completed \<longrightarrow> o_result_ref d = None) (operations s)"
    using assms by (simp add: keys_ok_def)
  then show "find_operation s k = Some d \<Longrightarrow> o_status d \<noteq> Op_Completed \<Longrightarrow> o_result_ref d = None"
    unfolding open_refs_iff [OF d] by blast
  show "a \<in> set (attempts s) \<Longrightarrow> attempt_counted s a" using assms by (simp add: keys_ok_def list_all_iff)
  show "distinct (map (\<lambda>a. (at_operation_id a, at_attempt_no a)) (attempts s))" using assms by (simp add: keys_ok_def)
qed

lemma keys_ok_prim: "op_prim F s s' \<Longrightarrow> keys_ok s \<Longrightarrow> keys_ok s'"
proof -
  assume p: "op_prim F s s'" and k: "keys_ok s"
  then have d: "distinct (map o_operation_id (operations s'))" by (auto simp: keys_ok_def intro: distinct_ids_prim)
  have "\<forall>k d. find_operation s' k = Some d \<longrightarrow> o_status d \<noteq> Op_Completed \<longrightarrow> o_result_ref d = None"
    by (rule open_refs_prim [OF p]) (blast dest: keys_okD(2) [OF k])
  with d attempt_keys_prim [OF p] k show "keys_ok s'"
    by (simp add: keys_ok_def open_refs_iff)
qed

lemma keys_ok_evolves: "op_evolves F s s' \<Longrightarrow> keys_ok s \<Longrightarrow> keys_ok s'"
  by (rule op_evolves_invariant) (auto intro: keys_ok_prim)

section \<open>The errors of the fence\<close>

lemma lock_errors: "lock s acc run = Inl e \<Longrightarrow> e = ResourceNotFound"
  by (auto simp: lock_def account_epoch_def need_def ebind_Inl_iff ensure_Inl_iff work_get_def split: option.splits if_splits)

lemma check_work_errors: "check_work s r = Inl e \<Longrightarrow> e \<in> {ResourceNotFound, ConversationBusy}"
  by (auto simp: check_work_def ebind_Inl_iff ensure_Inl_iff work_get_def split: option.splits if_splits)

lemma require_active_run_errors: "require_active_run s acc run = Inl e \<Longrightarrow> e = RunNotExecutable"
  by (auto simp: require_active_run_def ebind_Inl_iff ensure_Inl_iff split: sum.splits if_splits
        dest!: lock_errors check_work_errors)

lemma check_manifest_errors: "check_manifest s acc mf (Some k) = Inl e \<Longrightarrow> e = MemoryContextRevoked"
  by (auto simp: check_manifest_def Let_def split: option.splits if_splits)

lemma check_execution_errors: "check_execution s acc run ex adv = Inl e \<Longrightarrow> e \<in> {ResourceNotFound, MemoryContextRevoked}"
  by (auto simp: check_execution_def account_epoch_def need_def ebind_Inl_iff split: option.splits dest: check_manifest_errors)

lemma lock_execution_errors: "lock_execution s fnc acc run ex = Inl e \<Longrightarrow> e = RunNotExecutable"
  by (auto simp: lock_execution_def need_def Let_def split: option.splits)

lemma fence_errors:
  assumes "assert_execution_fence s fnc now = Inl e"
  shows "e \<in> {StaleFencingToken, ResourceNotFound, MemoryContextRevoked}"
proof (cases fnc)
  case None
  with assms show ?thesis by (simp add: assert_execution_fence_def)
next
  case (Some f)
  obtain acc run x t where f: "fnc = Some (acc, run, x, t)" using Some by (cases f) auto
  show ?thesis
  proof (cases "require_active_run s acc run")
    case (Inl e1)
    with assms f require_active_run_errors [OF Inl] show ?thesis by (simp add: assert_execution_fence_def)
  next
    case run: (Inr r)
    show ?thesis
    proof (cases "check_execution s acc run (Some x) True")
      case (Inl e1)
      with assms f run check_execution_errors [OF Inl] show ?thesis by (auto simp: assert_execution_fence_def)
    next
      case chk: (Inr ms)
      obtain m s1 where ms: "ms = (m, s1)" by (cases ms)
      show ?thesis
      proof (cases "lock_execution s1 fnc acc run (Some x)")
        case (Inl e1)
        with assms f run chk ms lock_execution_errors [OF Inl] show ?thesis by (simp add: assert_execution_fence_def)
      next
        case (Inr e1)
        with assms f run chk ms show ?thesis
          by (cases "e_status e1 \<in> {Queued, Running}") (simp_all add: assert_execution_fence_def ensure_Inl_iff)
      qed
    qed
  qed
qed

section \<open>The constraints are never hit\<close>

lemma update_never_refused:
  assumes "update_operation op P f s = Inl e"
    and "\<And>d. find_operation s op = Some d \<Longrightarrow> P d \<Longrightarrow>
      o_status d \<noteq> Op_Completed \<and> provenance (f d) = provenance d \<and> o_result_ref (f d) = None"
    and "\<And>d. P d"
  shows False
proof -
  obtain d where d: "find (\<lambda>d. o_operation_id d = op \<and> P d) (operations s) = Some d"
    using assms(1) by (cases "find (\<lambda>d. o_operation_id d = op \<and> P d) (operations s)") (simp_all add: update_operation_def)
  then have "find_operation s op = Some d" using assms(3) by (simp add: find_operation_def)
  with assms(2,3) have "o_status d \<noteq> Op_Completed" "provenance (f d) = provenance d" "o_result_ref (f d) = None" by auto
  with assms(1) d show False by (simp add: update_operation_def)
qed

lemma register_attempt_errors:
  assumes "register_attempt s op fnc = Inl e"
    and "\<And>d. find_operation s op = Some d \<Longrightarrow> \<not> attempt_registered s op fnc \<Longrightarrow>
       \<not> list_ex (\<lambda>a. at_operation_id a = op \<and> at_attempt_no a = o_attempt_count d) (attempts s)"
  shows "e \<in> {RuntimeError ''NoneType'', DbError ''execution_operation_attempts foreign key'',
              DbError ''execution_operation_attempts check''}"
  using assms
  by (auto simp: register_attempt_def attempt_registered_def ebind_Inl_iff ensure_Inl_iff need_def
       split: option.splits if_splits)

lemma fresh_operation_no_attempts:
  "keys_ok s \<Longrightarrow> find_operation s op = None \<Longrightarrow> a \<in> set (attempts s) \<Longrightarrow> at_operation_id a \<noteq> op"
  by (drule keys_okD(3), assumption) (auto simp: attempt_counted_def)

lemma attempt_bound:
  "keys_ok s \<Longrightarrow> find_operation s op = Some d \<Longrightarrow> a \<in> set (attempts s) \<Longrightarrow> at_operation_id a = op \<Longrightarrow>
   at_attempt_no a \<le> o_attempt_count d"
  by (drule keys_okD(3), assumption) (auto simp: attempt_counted_def)

lemma reenter_operation_errors:
  assumes "keys_ok s" "find_operation s (o_operation_id row) = Some row"
    and "reenter_operation s fnc row allow = Inl e"
  shows "e \<in> {OperationUncertain, RuntimeError ''NoneType'', DbError ''execution_operation_attempts foreign key'',
              DbError ''execution_operation_attempts check''}"
proof (cases "o_status row = Op_Completed \<or> unresolved row \<and> \<not> allow")
  case True
  with assms(3) show ?thesis
    by (auto simp: reenter_operation_def Let_def unresolved_def ensure_Inl_iff)
next
  case False
  let ?op = "o_operation_id row"
  let ?f = "\<lambda>d :: operation_row. d\<lparr>o_attempt_count := o_attempt_count d + (if attempt_registered s ?op fnc then 0 else 1)\<rparr>"
  let ?g = "\<lambda>d :: operation_row. d\<lparr>o_status := Op_Started, o_error_code := None, o_result_payload := None\<rparr>"
  have ref: "o_result_ref row = None" using keys_okD(2) [OF assms(1,2)] False by simp
  from assms(2) False ref have "update_operation ?op (\<lambda>_. True) ?f s \<noteq> Inl x" for x
    by (intro notI, elim update_never_refused) (auto simp: provenance_def)
  then obtain s1 where s1: "update_operation ?op (\<lambda>_. True) ?f s = Inr s1"
    by (cases "update_operation ?op (\<lambda>_. True) ?f s") auto
  have f1: "find_operation s1 ?op = Some (?f row)"
    by (simp add: update_operation_find [OF s1] assms(2))
  have at1: "attempts s1 = attempts s" using s1 by (cases rule: update_operation_cases) simp_all
  obtain s2 where s2: "(if unresolved row then Inr s1 else update_operation ?op (\<lambda>_. True) ?g s1) = Inr s2"
  proof (cases "unresolved row")
    case False
    with f1 \<open>\<not> (o_status row = Op_Completed \<or> unresolved row \<and> \<not> allow)\<close> ref
    have "update_operation ?op (\<lambda>_. True) ?g s1 \<noteq> Inl x" for x
      by (intro notI, elim update_never_refused) (auto simp: provenance_def)
    with False that show ?thesis by (cases "update_operation ?op (\<lambda>_. True) ?g s1") auto
  qed (use that in simp)
  have f2: "\<exists>d. find_operation s2 ?op = Some d \<and> o_attempt_count d
      = o_attempt_count row + (if attempt_registered s ?op fnc then 0 else 1)" and at2: "attempts s2 = attempts s"
  proof -
    show "\<exists>d. find_operation s2 ?op = Some d \<and> o_attempt_count d
      = o_attempt_count row + (if attempt_registered s ?op fnc then 0 else 1)"
      using s2 f1 by (cases "unresolved row") (auto simp: update_operation_find)
    show "attempts s2 = attempts s"
      using s2 at1 by (cases "unresolved row") (auto elim: update_operation_cases)
  qed
  from False assms(3) s1 s2 have "register_attempt s2 ?op fnc = Inl e"
    by (auto simp: reenter_operation_def Let_def unresolved_def ebind_Inl_iff ensure_Inl_iff split: if_splits)
  then show ?thesis
  proof (rule register_attempt_errors [THEN subsetD [rotated]])
    fix d
    assume d: "find_operation s2 ?op = Some d" "\<not> attempt_registered s2 ?op fnc"
    then have "\<not> attempt_registered s ?op fnc"
      using at2 by (auto simp: attempt_registered_def split: option.splits)
    with f2 d have "o_attempt_count d = o_attempt_count row + 1" by simp
    with attempt_bound [OF assms(1,2)]
    show "\<not> list_ex (\<lambda>a. at_operation_id a = ?op \<and> at_attempt_no a = o_attempt_count d) (attempts s2)"
      by (fastforce simp: at2 list_ex_iff)
  qed auto
qed

lemma begin_operation_errors:
  assumes "keys_ok s" "begin_operation s fnc op run ty allow now = Inl e"
  shows "e \<in> {StaleFencingToken, ResourceNotFound, MemoryContextRevoked, OperationUncertain, RuntimeError ''NoneType'',
     ValueError ''operation_id identity mismatch'', DbError ''null account_id'', DbError ''null execution_id'',
     DbError ''execution_operations foreign key'', DbError ''execution_operation_attempts foreign key'',
     DbError ''execution_operation_attempts check''}"
proof (cases "assert_execution_fence s fnc now")
  case (Inl x)
  with assms(2) fence_errors [OF Inl] show ?thesis by (auto simp: begin_operation_def)
next
  case (Inr s1)
  have same: "same_op_tables s s1" by (rule fence_op_tables [OF Inr])
  then have k1: "keys_ok s1" using assms(1) by (simp add: keys_ok_same)
  show ?thesis
  proof (cases "case fnc of None \<Rightarrow> True | Some (_, r, _, _) \<Rightarrow> r = run")
    case False
    with assms(2) Inr show ?thesis by (simp add: begin_operation_def)
  next
    case run: True
    show ?thesis
    proof (cases "find_operation s1 op")
      case None
      let ?ins = "insert_operation s1 op None run (map_option (\<lambda>(_, _, x, _). x) fnc) ty None None now"
      show ?thesis
      proof (cases ?ins)
        case (Inl x)
        with None assms(2) Inr run show ?thesis
          by (auto simp: begin_operation_def insert_operation_def ebind_Inl_iff ensure_Inl_iff need_def Let_def
                split: option.splits)
      next
        case s2: (Inr s2)
        then have at2: "attempts s2 = attempts s1" by (cases rule: insert_operation_cases) simp
        from None assms(2) Inr run s2 have "register_attempt s2 op fnc = Inl e"
          by (auto simp: begin_operation_def ebind_Inl_iff)
        then have "e \<in> {RuntimeError ''NoneType'', DbError ''execution_operation_attempts foreign key'',
              DbError ''execution_operation_attempts check''}"
          by (rule register_attempt_errors)
             (use fresh_operation_no_attempts [OF k1 None] in \<open>auto simp: at2 list_ex_iff\<close>)
        then show ?thesis by auto
      qed
    next
      case (Some row)
      then have id: "o_operation_id row = op" by (simp add: find_operation_id)
      from Some assms(2) Inr run consider (owner) "require_owned_record fnc (operation_owners s1 op) = Inl e"
        | (ident) "e = ValueError ''operation_id identity mismatch''"
        | (again) "reenter_operation s1 fnc row allow = Inl e"
        by (auto simp: begin_operation_def ebind_Inl_iff ensure_Inl_iff)
      then show ?thesis
      proof cases
        case owner
        then show ?thesis by (auto simp: require_owned_record_def ensure_Inl_iff split: option.splits)
      next
        case again
        from reenter_operation_errors [OF k1 _ this] Some id show ?thesis by auto
      qed simp
    qed
  qed
qed

section \<open>A completing fence satisfies the receipt trigger\<close>

lemma require_active_run_facts:
  assumes "require_active_run s acc run = Inr r"
  shows "find_run s acc run = Some r" "r_status r \<in> {Queued, Running}" "account_active s acc"
    "r_source_kind r = Work \<Longrightarrow> \<exists>w. check_work s r = Inr w"
proof -
  have "lock s acc run = Inr r \<and> account_active s acc \<and> (r_source_kind r = Work \<longrightarrow> (\<exists>w. check_work s r = Inr w)) \<and>
      r_status r \<in> {Queued, Running}"
    using assms by (auto simp: require_active_run_def res_simps split: sum.splits if_splits)
  moreover have "lock s acc run = Inr r \<Longrightarrow> find_run s acc run = Some r"
    by (auto simp: lock_def res_simps split: if_splits option.splits)
  ultimately show "find_run s acc run = Some r" "r_status r \<in> {Queued, Running}" "account_active s acc"
    "r_source_kind r = Work \<Longrightarrow> \<exists>w. check_work s r = Inr w" by auto
qed

lemma fence_active_run:
  assumes "assert_execution_fence s (Some (acc, run, x, t)) now = Inr s1"
  obtains r where "require_active_run s acc run = Inr r"
  using assms by (cases "require_active_run s acc run") (auto simp: assert_execution_fence_def split: if_splits)

lemma find_run_by_id:
  assumes "distinct (map r_run_id (runs s))" "find_run s acc run = Some r"
  shows "find (\<lambda>x. r_run_id x = run) (runs s) = Some r \<and> r_account_id r = acc \<and> r_run_id r = run"
proof -
  have "distinct (map r_run_id xs) \<Longrightarrow> find (\<lambda>r. r_account_id r = acc \<and> r_run_id r = run) xs = Some r \<Longrightarrow>
    find (\<lambda>x. r_run_id x = run) xs = Some r" for xs
    by (induction xs) (auto split: if_splits dest!: find_SomeD)
  moreover have "r_account_id r = acc \<and> r_run_id r = run"
    using assms(2) by (auto simp: find_run_def dest: find_SomeD)
  ultimately show ?thesis using assms by (simp add: find_run_def)
qed

lemma find_distinct_key:
  "distinct (map k xs) \<Longrightarrow> a \<in> set xs \<Longrightarrow> find (\<lambda>x. k x = k a) xs = Some a"
  by (induction xs) force+

lemma same_but_executions_authority:
  "same_but_executions s s' \<Longrightarrow> runs s' = runs s \<and> accounts s' = accounts s \<and> works s' = works s \<and> leases s' = leases s"
  unfolding same_but_executions_def by (erule ssubst) simp

lemma completing_receipt_admissible:
  assumes "assert_execution_fence s (Some (acc, run, x, t)) now = Inr s1"
    and "keys_ok s1" "distinct (map r_run_id (runs s1))"
    and "find_operation s1 op = Some d" "o_account_id d = acc" "o_run_id d = run" "o_execution_id d = x"
    and "a \<in> set (attempts s1)" "at_operation_id a = op" "at_fencing_token a = t"
  shows "receipt_admissible s1 \<lparr>rc_account_id = acc, rc_run_id = run, rc_execution_id = x,
                   rc_operation_id = op, rc_attempt_no = at_attempt_no a,
                   rc_requirement_revision = o_requirement_revision d, rc_result_ref = at_receipt_ref a,
                   rc_digest = dg, rc_disposition = Current\<rparr> now"
proof -
  from assms(1) obtain r where r0: "require_active_run s acc run = Inr r" by (rule fence_active_run)
  have same: "runs s1 = runs s" "accounts s1 = accounts s" "works s1 = works s" "leases s1 = leases s"
    using same_but_executions_authority [OF assert_execution_fence_frame [OF assms(1)]] by auto
  have r: "find (\<lambda>x. r_run_id x = run) (runs s1) = Some r" "r_account_id r = acc" "r_run_id r = run"
    using find_run_by_id [of s acc run r] assms(3) require_active_run_facts(1) [OF r0] by (simp_all add: same)
  have live: "lease_live s acc run x t now" by (rule assert_execution_fence_lease [OF assms(1)])
  have at: "find (\<lambda>b. at_operation_id b = op \<and> at_attempt_no b = at_attempt_no a) (attempts s1) = Some a"
    using find_distinct_key [OF keys_okD(4) [OF assms(2)] assms(8)] assms(9) by simp
  have act: "account_active s1 acc" using require_active_run_facts(3) [OF r0] by (simp add: account_active_def same)
  have work: "r_source_kind r = Work \<Longrightarrow> \<exists>wid w. r_work_id r = Some wid \<and> works s1 wid = Some w \<and>
      w_status w = WActive \<and> w_active_coordinator_run_id w = Some (r_run_id r) \<and>
      Some (w_current_requirement_revision w) = r_requirement_revision r \<and>
      Some (w_control_epoch w) = r_work_control_epoch r"
    using require_active_run_facts(4) [OF r0]
    by (auto simp: check_work_def work_get_def res_simps same split: option.splits if_splits)
  have lease: "\<exists>l. leases s1 x = Some l \<and> l_fencing_token l = t \<and> lease_active l now"
    using live by (auto simp: lease_live_def lease_active_def same split: option.splits)
  show ?thesis
    using assms(4,10) at r require_active_run_facts(2) [OF r0] act work lease
    by (auto simp: receipt_admissible_def)
qed

lemma owned_row:
  assumes "keys_ok s" "find_operation s op = Some d" "require_owned_record (Some (acc, run, x, t)) (operation_owners s op) = Inr ()"
  shows "o_account_id d = acc \<and> o_run_id d = run \<and> o_execution_id d = x"
proof -
  from assms(3) obtain d' where d': "d' \<in> set (operations s)" "o_operation_id d' = op"
    "o_account_id d' = acc" "o_run_id d' = run" "o_execution_id d' = x"
    by (auto simp: require_owned_record_def operation_owners_def res_simps)
  with find_operation_mem [OF keys_okD(1) [OF assms(1)], of d'] assms(2) have "d' = d" by simp
  with d' show ?thesis by simp
qed

lemma receipt_for_completion_errors:
  assumes "assert_execution_fence s fnc now = Inr s1" "keys_ok s1" "distinct (map r_run_id (runs s1))"
    and "find_operation s1 op = Some d" "require_owned_record fnc (operation_owners s1 op) = Inr ()"
    and "receipt_for_completion digest s1 fnc d payload now = Inl e"
  shows "e \<in> {ValueError ''result attempt was not registered'', ValueError ''receipt payload conflict'', StaleFencingToken}"
proof (cases fnc)
  case None
  with assms(6) show ?thesis by (simp add: receipt_for_completion_def)
next
  case (Some f)
  obtain acc run x t where f: "fnc = Some (acc, run, x, t)" using Some by (cases f) auto
  have own: "o_account_id d = acc" "o_run_id d = run" "o_execution_id d = x"
    using owned_row [OF assms(2,4)] assms(5) f by auto
  have id: "o_operation_id d = op" using find_operation_id [OF assms(4)] by simp
  show ?thesis
  proof (cases "find (\<lambda>a. at_operation_id a = op \<and> at_fencing_token a = t) (attempts s1)")
    case None
    with assms(6) show ?thesis by (simp add: receipt_for_completion_def f id)
  next
    case a: (Some a)
    show ?thesis
    proof (cases "find_receipt s1 op (at_attempt_no a)")
      case None
      from find_SomeD [OF a] have am: "a \<in> set (attempts s1)" "at_operation_id a = op" "at_fencing_token a = t" by auto
      note adm = completing_receipt_admissible [OF assms(1) [unfolded f] assms(2-4) own am, of "digest payload"]
      from None adm have "insert_receipt s1 \<lparr>rc_account_id = acc, rc_run_id = run, rc_execution_id = x,
                   rc_operation_id = op, rc_attempt_no = at_attempt_no a,
                   rc_requirement_revision = o_requirement_revision d, rc_result_ref = at_receipt_ref a,
                   rc_digest = digest payload, rc_disposition = Current\<rparr> now \<noteq> Inl e"
        by (auto simp: insert_receipt_def find_receipt_def find_None_iff list_ex_iff ensure_Inl_iff)
      with assms(6) a None show ?thesis by (simp add: receipt_for_completion_def f id own)
    next
      case (Some r)
      with assms(6) a show ?thesis by (auto simp: receipt_for_completion_def f id ensure_Inl_iff)
    qed
  qed
qed

lemma complete_operation_errors:
  assumes "keys_ok s" "distinct (map r_run_id (runs s))"
    and "complete_operation digest s fnc op ref payload now = Inl e"
  shows "e \<in> {StaleFencingToken, ResourceNotFound, MemoryContextRevoked, ValueError ''operation not found'',
      ValueError ''completed operation result conflict'', ValueError ''result attempt was not registered'',
      ValueError ''receipt payload conflict'', DbError ''uq_agent_operations__result_ref''}"
proof (cases "assert_execution_fence s fnc now")
  case (Inl x)
  with assms(3) fence_errors [OF Inl] show ?thesis by (auto simp: complete_operation_def)
next
  case (Inr s1)
  have k1: "keys_ok s1" using assms(1) keys_ok_same [OF fence_op_tables [OF Inr]] by simp
  have runs1: "distinct (map r_run_id (runs s1))"
    using assms(2) same_but_executions_authority [OF assert_execution_fence_frame [OF Inr]] by simp
  show ?thesis
  proof (cases "require_owned_record fnc (operation_owners s1 op)")
    case own: (Inl x)
    with assms(3) Inr show ?thesis
      by (auto simp: complete_operation_def require_owned_record_def ensure_Inl_iff split: option.splits)
  next
    case own: (Inr u)
    show ?thesis
    proof (cases "find_operation s1 op")
      case None
      with assms(3) Inr own show ?thesis by (simp add: complete_operation_def)
    next
      case d: (Some d)
      show ?thesis
      proof (cases "o_status d = Op_Completed")
        case True
        with assms(3) Inr own d show ?thesis by (auto simp: complete_operation_def ensure_Inl_iff)
      next
        case False
        show ?thesis
        proof (cases "receipt_for_completion digest s1 fnc d payload now")
          case r: (Inl x)
          with assms(3) Inr own d False have "x = e" by (simp add: complete_operation_def)
          with receipt_for_completion_errors [OF Inr k1 runs1 d _ r] own show ?thesis by auto
        next
          case s2: (Inr s2)
          have "operations s2 = operations s1"
            using s2 unfolding receipt_for_completion_def
            by (auto simp: ebind_Inr_iff ensure_Inr_iff split: option.splits elim!: insert_receipt_cases)
          then have d2: "find (\<lambda>d. o_operation_id d = op \<and> True) (operations s2) = Some d"
            using d by (simp add: find_operation_def)
          from assms(3) Inr own d False s2 have "update_operation op (\<lambda>_. True)
                  (\<lambda>d. d\<lparr>o_status := Op_Completed, o_result_ref := Some ref, o_result_payload := Some payload,
                         o_error_code := None\<rparr>) s2 = Inl e"
            by (auto simp: complete_operation_def ebind_Inl_iff)
          with d2 False show ?thesis
            by (auto simp: update_operation_def ensure_Inl_iff provenance_def)
        qed
      qed
    qed
  qed
qed

end
