(* ===== verification/Transcript_Laws.thy ===== *)
theory Transcript_Laws
  imports Operation_Laws
begin

text \<open>
  Transcripts are append-only logs. The invariant: a transcript's version is the number of its events, which
  are numbered from one without gaps. Under it, completing an operation with an event refines a
  compare-and-append on the abstract log of the transcript.
\<close>

section \<open>The invariant\<close>

definition log_events :: "'a op_db_scheme \<Rightarrow> string \<Rightarrow> event_row list" where
  "log_events s tid = filter (\<lambda>e. ev_transcript_id e = tid) (events s)"

definition log_ok :: "'a op_db_scheme \<Rightarrow> transcript_row \<Rightarrow> bool" where
  "log_ok s t \<longleftrightarrow> tr_version t = int (length (log_events s (tr_transcript_id t))) \<and>
     map ev_sequence (log_events s (tr_transcript_id t)) =
       map (\<lambda>i. int i + 1) [0..<length (log_events s (tr_transcript_id t))]"

definition transcripts_ok :: "'a op_db_scheme \<Rightarrow> bool" where
  "transcripts_ok s \<longleftrightarrow> distinct (map tr_transcript_id (transcripts s)) \<and> list_all (log_ok s) (transcripts s) \<and>
     list_all (\<lambda>e. ev_transcript_id e \<in> tr_transcript_id ` set (transcripts s)) (events s)"

lemma transcripts_ok_frame:
  assumes "events s' = events s" "transcripts s' = transcripts s"
  shows "transcripts_ok s' = transcripts_ok s"
proof -
  have "log_ok s' = log_ok s" using assms by (simp add: log_ok_def log_events_def fun_eq_iff)
  with assms show ?thesis by (simp add: transcripts_ok_def)
qed

lemma transcripts_ok_create:
  assumes "transcripts_ok s" "find_transcript s (tr_transcript_id t) = None" "tr_version t = 0"
  shows "transcripts_ok (s\<lparr>transcripts := transcripts s @ [t]\<rparr>)"
proof -
  have new: "tr_transcript_id t \<notin> tr_transcript_id ` set (transcripts s)"
    using assms(2) by (auto simp: find_transcript_def find_None_iff)
  have "log_events s (tr_transcript_id t) = []"
    using assms(1) new unfolding transcripts_ok_def log_events_def filter_empty_conv list_all_iff by metis
  with assms(3) have "log_ok s t" by (simp add: log_ok_def)
  moreover have "log_ok (s\<lparr>transcripts := transcripts s @ [t]\<rparr>) = log_ok s"
    by (simp add: log_ok_def log_events_def fun_eq_iff)
  ultimately show ?thesis using assms(1) new by (auto simp: transcripts_ok_def list_all_iff)
qed

lemma transcripts_ok_append:
  assumes "transcripts_ok s" "t \<in> set (transcripts s)" "ev_transcript_id e = tr_transcript_id t"
    "ev_sequence e = tr_version t + 1" "events s' = events s @ [e]"
    "transcripts s' = update_where (\<lambda>x. tr_transcript_id x = tr_transcript_id t)
       (\<lambda>x. x\<lparr>tr_version := tr_version t + 1\<rparr>) (transcripts s)"
  shows "transcripts_ok s'"
proof -
  have ids: "map tr_transcript_id (transcripts s') = map tr_transcript_id (transcripts s)"
    unfolding assms(6) by (rule map_update_where) simp
  have log: "log_events s' k = log_events s k @ (if k = tr_transcript_id t then [e] else [])" for k
    using assms(3,5) by (simp add: log_events_def)
  have ok: "log_ok s y" if "y \<in> set (transcripts s)" for y
    using that assms(1) by (simp add: transcripts_ok_def list_all_iff)
  have "log_ok s' x" if "x \<in> set (transcripts s')" for x
  proof -
    from that obtain y where y: "y \<in> set (transcripts s)"
      "x = (if tr_transcript_id y = tr_transcript_id t then y\<lparr>tr_version := tr_version t + 1\<rparr> else y)"
      unfolding assms(6) set_update_where by blast
    have same: "tr_transcript_id y = tr_transcript_id t \<Longrightarrow> y = t"
      using y(1) assms(1,2) by (auto simp: transcripts_ok_def distinct_map dest: inj_onD)
    show ?thesis
    proof (cases "tr_transcript_id y = tr_transcript_id t")
      case True
      with y(2) same have x: "x = t\<lparr>tr_version := tr_version t + 1\<rparr>" by simp
      show ?thesis using ok [OF assms(2)] assms(4) by (simp add: log_ok_def log x)
    next
      case False
      with y ok [OF y(1)] show ?thesis by (simp add: log_ok_def log)
    qed
  qed
  moreover have "tr_transcript_id ` set (transcripts s') = tr_transcript_id ` set (transcripts s)"
    using ids by (metis image_set)
  ultimately show ?thesis
    using assms(1-3,5) ids by (simp add: transcripts_ok_def list_all_iff)
qed

lemma transcripts_ok_prim: "op_prim F s s' \<Longrightarrow> transcripts_ok s \<Longrightarrow> transcripts_ok s'"
proof (induction rule: op_prim.induct)
  case (tables s s')
  then show ?case using transcripts_ok_frame [of s' s] by (simp add: same_op_tables_def)
next
  case (update op P f s s')
  from update(1) have "events s' = events s" "transcripts s' = transcripts s"
    by (cases rule: update_operation_cases; simp)+
  with update show ?case using transcripts_ok_frame [of s' s] by simp
next
  case (insert s op account run ex ty key dg now s')
  then have "events s' = events s" "transcripts s' = transcripts s"
    by (auto elim: insert_operation_cases)
  with insert show ?case using transcripts_ok_frame [of s' s] by simp
next
  case (register s op fnc s')
  then have "events s' = events s" "transcripts s' = transcripts s"
    by (auto elim: register_attempt_cases)
  with register show ?case using transcripts_ok_frame [of s' s] by simp
next
  case (receipt s r now s')
  then have "events s' = events s" "transcripts s' = transcripts s"
    by (auto elim: insert_receipt_cases)
  with receipt show ?case using transcripts_ok_frame [of s' s] by simp
next
  case (reference s' s e)
  then show ?case using transcripts_ok_frame [of s' s] by simp
next
  case (transcript tid run acc conv session ex s s')
  then show ?case
    by (cases rule: ensure_transcript_cases) (auto intro: transcripts_ok_create)
next
  case (append tid t ty op p s s')
  from append(1) show ?case
    by (cases rule: append_event_cases) (rule transcripts_ok_append [OF append(4,2)], use append(3) in simp_all)
qed

lemma transcripts_ok_evolves: "op_evolves F s s' \<Longrightarrow> transcripts_ok s \<Longrightarrow> transcripts_ok s'"
  by (rule op_evolves_invariant) (auto intro: transcripts_ok_prim)

section \<open>The abstract log\<close>

type_synonym log_entry = "string \<times> string \<times> (string \<times> json) list"

definition transcript_log :: "'a op_db_scheme \<Rightarrow> string \<Rightarrow> log_entry list" where
  "transcript_log s tid = map (\<lambda>e. (ev_operation_id e, ev_event_type e, ev_payload e)) (transcript_events s tid)"

definition log_position :: "string \<Rightarrow> log_entry list \<Rightarrow> int option" where
  "log_position op log = (let i = length (takeWhile (\<lambda>x. fst x \<noteq> op) log) in
     if i < length log then Some (int i + 1) else None)"

text \<open>The specification: append when the caller has seen the whole log; an entry the caller already made is
  found again; otherwise the caller is behind.\<close>

definition compare_and_append :: "int \<Rightarrow> log_entry \<Rightarrow> log_entry list \<Rightarrow> (int \<times> log_entry list) res" where
  "compare_and_append expected x log =
     (if expected = int (length log) then Inr (expected + 1, log @ [x])
      else case log_position (fst x) log of Some i \<Rightarrow> Inr (i, log) | None \<Rightarrow> Inl TranscriptVersionConflict)"

lemma find_position:
  "find P xs = Some x \<Longrightarrow> length (takeWhile (\<lambda>y. \<not> P y) xs) < length xs \<and> xs ! length (takeWhile (\<lambda>y. \<not> P y) xs) = x"
  by (induction xs) (auto split: if_splits)

lemma find_None_position: "find P xs = None \<Longrightarrow> length (takeWhile (\<lambda>y. \<not> P y) xs) = length xs"
  by (induction xs) (auto split: if_splits)

lemma find_filter: "find P (filter Q xs) = find (\<lambda>x. Q x \<and> P x) xs"
  by (induction xs) auto

lemma log_ok_events:
  assumes "transcripts_ok s" "find_transcript s tid = Some t"
  shows "transcript_events s tid = log_events s tid" "tr_version t = int (length (log_events s tid))"
    "i < length (log_events s tid) \<Longrightarrow> ev_sequence (log_events s tid ! i) = int i + 1"
proof -
  from assms(2) have t: "t \<in> set (transcripts s)" "tr_transcript_id t = tid"
    by (auto simp: find_transcript_def dest: find_SomeD)
  with assms(1) have ok: "log_ok s t" by (simp add: transcripts_ok_def list_all_iff)
  then have seq: "map ev_sequence (log_events s tid) = map (\<lambda>i. int i + 1) [0..<length (log_events s tid)]"
    using t(2) by (simp add: log_ok_def)
  then have "sorted (map ev_sequence (log_events s tid))" by (simp add: sorted_iff_nth_mono)
  then show "transcript_events s tid = log_events s tid"
    by (simp add: transcript_events_def log_events_def sort_key_id_if_sorted)
  show "tr_version t = int (length (log_events s tid))" using ok t(2) by (simp add: log_ok_def)
  show "i < length (log_events s tid) \<Longrightarrow> ev_sequence (log_events s tid ! i) = int i + 1"
    using seq by (auto dest: arg_cong [where f = "\<lambda>xs. xs ! i"])
qed

lemma transcript_events_empty: "log_events s tid = [] \<Longrightarrow> transcript_events s tid = []"
  by (simp add: transcript_events_def log_events_def)

lemma receipt_for_completion_log:
  "receipt_for_completion digest s fnc d p now = Inr s' \<Longrightarrow> events s' = events s \<and> transcripts s' = transcripts s"
  unfolding receipt_for_completion_def
  by (auto simp: ebind_Inr_iff ensure_Inr_iff split: option.splits elim!: insert_receipt_cases)

lemma update_operation_log:
  "update_operation op P f s = Inr s' \<Longrightarrow> events s' = events s \<and> transcripts s' = transcripts s"
  by (erule update_operation_cases) simp_all

lemma complete_operation_log:
  "complete_operation digest s fnc op ref p now = Inr (u, s') \<Longrightarrow> events s' = events s \<and> transcripts s' = transcripts s"
  by (erule complete_operation_cases)
     (auto dest!: fence_op_tables receipt_for_completion_log update_operation_log simp: same_op_tables_def)

lemma same_log: "events s' = events s \<Longrightarrow> transcript_log s' tid = transcript_log s tid \<and> log_events s' tid = log_events s tid"
  by (simp add: transcript_log_def transcript_events_def log_events_def)

lemma log_position_find:
  assumes "transcripts_ok s" "find_transcript s tid = Some t"
  shows "log_position op (transcript_log s tid) =
    map_option ev_sequence (find (\<lambda>e. ev_transcript_id e = tid \<and> ev_operation_id e = op) (events s))"
proof -
  let ?es = "log_events s tid"
  have tw: "length (takeWhile (\<lambda>x. fst x \<noteq> op) (transcript_log s tid)) = length (takeWhile (\<lambda>e. \<not> ev_operation_id e = op) ?es)"
    by (simp add: transcript_log_def log_ok_events(1) [OF assms] takeWhile_map comp_def)
  have len: "length (transcript_log s tid) = length ?es"
    by (simp add: transcript_log_def log_ok_events(1) [OF assms])
  have fnd: "find (\<lambda>e. ev_transcript_id e = tid \<and> ev_operation_id e = op) (events s) = find (\<lambda>e. ev_operation_id e = op) ?es"
    by (simp add: log_events_def find_filter)
  show ?thesis
  proof (cases "find (\<lambda>e. ev_operation_id e = op) ?es")
    case None
    with find_None_position [OF None] show ?thesis by (simp add: log_position_def tw len fnd Let_def)
  next
    case (Some e)
    from find_position [OF Some] log_ok_events(3) [OF assms] show ?thesis
      by (auto simp: log_position_def tw len fnd Some Let_def)
  qed
qed

section \<open>Properties\<close>

text \<open>C30. Completing an operation with an event refines compare-and-append on the abstract log: a success
  returns what the specification returns and leaves the log it leaves, and no other transcript changes.\<close>

theorem complete_with_event_refines_append:
  assumes "transcripts_ok s"
    and "complete_with_event digest s fnc tid expected ty op ep ref rp now = Inr (v, s')"
  shows "compare_and_append expected (op, ty, ep) (transcript_log s tid) = Inr (v, transcript_log s' tid) \<and>
    (\<forall>k. k \<noteq> tid \<longrightarrow> transcript_log s' k = transcript_log s k)"
  using assms(2)
proof (cases rule: complete_with_event_cases)
  case (again t e)
  have same: "events s' = events s" "transcripts s' = transcripts s"
    using fence_op_tables [OF again(1)] by (simp_all add: same_op_tables_def)
  then have t: "find_transcript s tid = Some t" using again(2) by (simp add: find_transcript_def)
  have "log_position op (transcript_log s tid) = Some v"
    using log_position_find [OF assms(1) t] again(4,5) same by simp
  moreover have "expected \<noteq> int (length (transcript_log s tid))"
    using again(3) log_ok_events(1,2) [OF assms(1) t] by (simp add: transcript_log_def)
  ultimately show ?thesis using same_log [OF same(1)] by (simp add: compare_and_append_def)
next
  case (appended s1 t s2)
  have same: "events s1 = events s" "transcripts s1 = transcripts s"
    using fence_op_tables [OF appended(1)] by (simp_all add: same_op_tables_def)
  then have t: "find_transcript s tid = Some t" using appended(2) by (simp add: find_transcript_def)
  have ok1: "transcripts_ok s1" using assms(1) transcripts_ok_frame [OF same] by simp
  have mem: "t \<in> set (transcripts s1)" "tr_transcript_id t = tid"
    using appended(2) by (auto simp: find_transcript_def dest: find_SomeD)
  have p: "op_prim (\<lambda>_. False) s1 s2" using appended(3-5) mem by (intro append [of tid t]) auto
  have ok2: "transcripts_ok s2" using transcripts_ok_prim [OF p ok1] .
  define e where "e = \<lparr>ev_transcript_id = tid, ev_sequence = v, ev_event_type = ty, ev_operation_id = op, ev_payload = ep\<rparr>"
  have ev2: "events s2 = events s @ [e]" and tr2: "find_transcript s2 tid \<noteq> None"
    using appended(5) appended(2) same unfolding e_def
    by (auto elim!: append_event_cases simp: find_transcript_def find_update_where)
  have ev': "events s' = events s2" "transcripts s' = transcripts s2"
    using complete_operation_log [OF appended(6)] by auto
  from tr2 obtain t2 where t2: "find_transcript s2 tid = Some t2" by blast
  have "transcript_log s2 tid = transcript_log s tid @ [(op, ty, ep)]"
    using log_ok_events(1) [OF ok2 t2] log_ok_events(1) [OF assms(1) t] ev2
    by (simp add: transcript_log_def log_events_def e_def)
  moreover have "k \<noteq> tid \<Longrightarrow> transcript_log s2 k = transcript_log s k" for k
    by (simp add: transcript_log_def transcript_events_def ev2 e_def)
  moreover have "expected = int (length (transcript_log s tid))"
    using appended(3) log_ok_events(1,2) [OF assms(1) t] by (simp add: transcript_log_def)
  ultimately show ?thesis
    using same_log [OF ev'(1)] appended(4) by (simp add: compare_and_append_def)
qed

text \<open>Retrying a completion after an unknown outcome appends nothing: once an operation was completed
  with an event, the same call in any later state returns the same sequence number and leaves every log as it is.\<close>

theorem retried_completion_appends_nothing:
  assumes "complete_with_event digest s fnc tid expected ty op ep ref rp now = Inr (v, s1)"
    and "(op_step digest F)\<^sup>*\<^sup>* s1 s2"
    and "complete_with_event digest s2 fnc2 tid expected2 ty2 op ep2 ref2 rp2 now2 = Inr (v2, s3)"
  shows "v2 = v \<and> events s3 = events s2"
proof -
  have "\<exists>e. find (\<lambda>e. ev_transcript_id e = tid \<and> ev_operation_id e = op) (events s1) = Some e \<and> ev_sequence e = v"
    using assms(1)
  proof (cases rule: complete_with_event_cases)
    case (again t e)
    then show ?thesis by blast
  next
    case (appended s0 t s2)
    from appended(5) have "find (\<lambda>e. ev_transcript_id e = tid \<and> ev_operation_id e = op) (events s2)
       = Some \<lparr>ev_transcript_id = tid, ev_sequence = v, ev_event_type = ty, ev_operation_id = op, ev_payload = ep\<rparr>"
      by (cases rule: append_event_cases) (auto simp: find_append list_ex_iff find_Some_iff split: option.splits dest!: find_SomeD)
    with complete_operation_log [OF appended(6)] show ?thesis by simp
  qed
  then obtain e where e: "find (\<lambda>e. ev_transcript_id e = tid \<and> ev_operation_id e = op) (events s1) = Some e" "ev_sequence e = v"
    by blast
  have "prefix (events s1) (events s2)"
    using op_evolves_facts [OF op_steps_evolve [OF assms(2)]] by (simp add: facts_grow_def)
  then have e2: "find (\<lambda>e. ev_transcript_id e = tid \<and> ev_operation_id e = op) (events s2) = Some e"
    using e(1) by (auto simp: prefix_def find_append)
  from assms(3) show ?thesis
  proof (cases rule: complete_with_event_cases)
    case (again t e')
    then show ?thesis using fence_op_tables [OF again(1)] e e2 by (simp add: same_op_tables_def)
  next
    case (appended s0 t s4)
    from appended(5) fence_op_tables [OF appended(1)] find_SomeD [OF e2] have False
      by (auto elim!: append_event_cases simp: same_op_tables_def list_ex_iff)
    then show ?thesis ..
  qed
qed

end
