(* ===== verification/Operation_Properties.thy ===== *)
theory Operation_Properties
  imports Operation_Keys Transcript_Laws
begin

text \<open>
  Results are written once, unresolved effects are not repeated, late results never become current:
  the properties of operations, attempts and receipts over any sequence of methods.
\<close>

section \<open>What is written once\<close>

definition recorded_result :: "'a op_db_scheme \<Rightarrow> string \<Rightarrow> operation_row option" where
  "recorded_result s op = (case find_operation s op of None \<Rightarrow> None
     | Some d \<Rightarrow> if o_status d = Op_Completed then Some d else None)"

definition receipt_entry :: "'a op_db_scheme \<Rightarrow> string \<times> int \<Rightarrow> receipt_row option" where
  "receipt_entry s k = find_receipt s (fst k) (snd k)"


lemma find_prefix: "prefix xs ys \<Longrightarrow> find P xs = Some x \<Longrightarrow> find P ys = Some x"
  by (auto simp: prefix_def find_append)

lemma recorded_result_Some: "recorded_result s op = Some d \<longleftrightarrow> find_operation s op = Some d \<and> o_status d = Op_Completed"
  by (auto simp: recorded_result_def split: option.splits)

interpretation result: write_once recorded_result "op_step digest F"
proof
  fix s s' :: "'a op_db_scheme" and op d
  assume "op_step digest F s s'" "recorded_result s op = Some d"
  then show "recorded_result s' op = Some d"
    using op_evolves_rows [OF op_step_evolves, of digest F s s' op]
    by (auto simp: recorded_result_Some row_evolves_def row_step_def split: option.splits)
qed

interpretation receipt: write_once receipt_entry "op_step digest F"
  by unfold_locales (auto simp: receipt_entry_def find_receipt_def facts_grow_def dest!: op_step_evolves op_evolves_facts intro: find_prefix)


section \<open>Properties\<close>

text \<open>C27. A recorded result is final and is replayed: once an operation is completed, its row never changes
  again, and entering the operation returns the recorded payload instead of starting it again.\<close>

theorem completed_operation_is_final_and_replayed:
  assumes "find_operation s op = Some d" and "o_status d = Op_Completed"
    and "(op_step digest F)\<^sup>*\<^sup>* s s'"
  shows "find_operation s' op = Some d \<and>
    (\<forall>fnc run ty allow now r s''. begin_operation s' fnc op run ty allow now = Inr (r, s'')
       \<longrightarrow> r = (Op_Completed, o_result_payload d))"
proof (intro conjI allI impI)
  have "recorded_result s op = Some d" using assms(1,2) by (simp add: recorded_result_Some)
  from result.kept_star [OF assms(3) this] show row: "find_operation s' op = Some d"
    by (simp add: recorded_result_Some)
  fix fnc run ty allow now r s''
  assume "begin_operation s' fnc op run ty allow now = Inr (r, s'')"
  then show "r = (Op_Completed, o_result_payload d)"
  proof (cases rule: begin_operation_cases)
    case (fresh s1 s2)
    then show ?thesis using row fence_op_tables [OF fresh(1)] by (simp add: same_op_tables_def find_operation_def)
  next
    case (old s1 row')
    then have "row' = d" using row fence_op_tables [OF old(1)] by (simp add: same_op_tables_def find_operation_def)
    from old(7) show ?thesis
      by (cases rule: reenter_operation_cases) (use \<open>row' = d\<close> assms(2) in simp_all)
  qed
qed

text \<open>C28. An unresolved side effect is never started again: after its intent was recorded, and unless that
  very operation is marked failed, entering it never yields a fresh start; without the reconciliation flag
  it can only return the completed result.\<close>

theorem unresolved_effect_is_never_restarted:
  assumes "find_operation s op = Some d" and "unresolved d" and "\<not> F op"
    and "(op_step digest F)\<^sup>*\<^sup>* s s'"
    and "begin_operation s' fnc op run ty allow now = Inr ((status, payload), s'')"
  shows "status \<in> {Intent_Recorded, Op_Uncertain, Op_Completed} \<and> (allow \<or> status = Op_Completed)"
proof -
  have "row_evolves False (Some d) (find_operation s' op)"
    using op_evolves_rows [OF op_steps_evolve [OF assms(4)], of op] assms(1,3) by simp
  then obtain d' where d': "find_operation s' op = Some d'" "unresolved d' \<or> o_status d' = Op_Completed"
    using assms(2) by (auto simp: row_evolves_def row_step_def split: option.splits)
  from assms(5) show ?thesis
  proof (cases rule: begin_operation_cases)
    case (fresh s1 s2)
    then show ?thesis using d' fence_op_tables [OF fresh(1)] by (simp add: same_op_tables_def find_operation_def)
  next
    case (old s1 row)
    then have "row = d'" using d' fence_op_tables [OF old(1)] by (simp add: same_op_tables_def find_operation_def)
    from old(7) show ?thesis
      by (cases rule: reenter_operation_cases) (use \<open>row = d'\<close> d'(2) in \<open>auto simp: unresolved_def\<close>)
  qed
qed


text \<open>Receiving is idempotent: a result delivered again for the same attempt, in any later state, changes
  nothing and gets the disposition that was recorded first; a different payload (a different digest) is refused.\<close>

theorem redelivered_result_is_idempotent:
  assumes "receive digest s fnc acc run ex op t payload now = Inr (disp, s1)"
    and "(op_step digest F)\<^sup>*\<^sup>* s1 s2"
    and "receive digest s2 fnc2 acc run ex op t payload2 now2 = Inr (disp2, s3)"
  shows "disp2 = disp \<and> s3 = s2 \<and> digest payload2 = digest payload"
proof -
  obtain a r where a: "find_attempt s acc run ex op t = Some a" "find_receipt s1 op (at_attempt_no a) = Some r"
    "rc_disposition r = disp" "rc_digest r = digest payload"
    using assms(1)
  proof (cases rule: receive_cases)
    case (again a prior)
    then show ?thesis by (intro that) simp_all
  next
    case (first run' e a d s0)
    from first(7) have f0: "find_receipt s0 op (at_attempt_no a) = Some
         \<lparr>rc_account_id = acc, rc_run_id = run, rc_execution_id = ex, rc_operation_id = op,
                rc_attempt_no = at_attempt_no a, rc_requirement_revision = o_requirement_revision d,
                rc_result_ref = at_receipt_ref a, rc_digest = digest payload, rc_disposition = disp\<rparr>"
      by (cases rule: insert_receipt_cases) (use first(6) in \<open>simp add: find_receipt_def find_append\<close>)
    have "prefix (receipts s0) (receipts s1)"
      using op_evolves_facts [OF keep_late_result_evolves [OF first(8)]] by (simp add: facts_grow_def)
    with f0 have "find_receipt s1 op (at_attempt_no a) = Some
         \<lparr>rc_account_id = acc, rc_run_id = run, rc_execution_id = ex, rc_operation_id = op,
                rc_attempt_no = at_attempt_no a, rc_requirement_revision = o_requirement_revision d,
                rc_result_ref = at_receipt_ref a, rc_digest = digest payload, rc_disposition = disp\<rparr>"
      unfolding find_receipt_def by (rule find_prefix [rotated])
    with first(3) show ?thesis by (rule that) simp_all
  qed
  have pre: "prefix (attempts s) (attempts s2)"
    using op_evolves_facts [OF op_evolves_trans [OF receive_evolves [OF assms(1)] op_steps_evolve [OF assms(2)]]]
    by (simp add: facts_grow_def)
  have r2: "find_receipt s2 op (at_attempt_no a) = Some r"
    using receipt.kept_star [OF assms(2), of "(op, at_attempt_no a)" r] a(2) by (simp add: receipt_entry_def)
  have a2: "find_attempt s2 acc run ex op t = Some a"
    using a(1) pre unfolding find_attempt_def by (rule find_prefix [rotated])
  from assms(3) show ?thesis
    by (cases rule: receive_cases) (use a a2 r2 in simp_all)
qed

text \<open>The keys of operations and attempts hold after any sequence of methods, and entering an operation
  never runs into the database's uniqueness or immutability constraints: the errors it can get from the
  database are missing rows and the check on the token.\<close>

theorem operation_keys_are_invariant:
  assumes "keys_ok s0" and "(op_step digest F)\<^sup>*\<^sup>* s0 s"
  shows "keys_ok s \<and> (\<forall>c. begin_operation s fnc op run ty allow now = Inl (DbError c) \<longrightarrow>
     c \<in> {''null account_id'', ''null execution_id'', ''execution_operations foreign key'',
          ''execution_operation_attempts foreign key'', ''execution_operation_attempts check''})"
proof -
  have k: "keys_ok s" using keys_ok_evolves [OF op_steps_evolve [OF assms(2)] assms(1)] .
  with begin_operation_errors [OF k] show ?thesis by fastforce
qed

text \<open>A completion that passes its fence satisfies everything the database demands of a current receipt:
  in a state with the key invariant the only constraint it can violate is the uniqueness of the result reference.\<close>

theorem completion_satisfies_receipt_rules:
  assumes "keys_ok s" and "distinct (map r_run_id (runs s))"
    and "complete_operation digest s fnc op ref payload now = Inl (DbError c)"
  shows "c = ''uq_agent_operations__result_ref''"
  using complete_operation_errors [OF assms] by simp

section \<open>The properties applied\<close>

definition demo_op :: op_db where
  "demo_op =
    \<lparr>accounts = [''acc'' \<mapsto> \<lparr>a_status = ''active'', a_memory_epoch = 0\<rparr>], conversations = [(''acc'', ''conv'')],
     works = (\<lambda>_. None),
     runs = [\<lparr>r_run_id = ''r'', r_account_id = ''acc'', r_source_kind = Chat, r_conversation_id = Some ''conv'',
        r_session_id = Some ''s'', r_work_id = None, r_requirement_revision = None, r_work_control_epoch = None,
        r_status = Running, r_failure_code = None, r_failure_message = None, r_result_json = None,
        r_created_at = 0, r_started_at = Some 0, r_finished_at = None, r_version = 1\<rparr>],
     executions = [\<lparr>e_execution_id = ''x'', e_account_id = ''acc'', e_run_id = ''r'', e_role = Root,
        e_status = Running, e_attempt_no = 1, e_memory_context = None\<rparr>],
     leases = [''x'' \<mapsto> \<lparr>l_account_id = ''acc'', l_run_id = ''r'', l_owner_segment_id = Some ''s1'',
        l_fencing_token = 1, l_lease_expires_at = Some 100\<rparr>],
     waits = [], memory_actions = [], memory_sources = [], segments = (\<lambda>_. None),
     operations = [], attempts = [], receipts = [], effect_references = [], transcripts = [], events = []\<rparr>"

definition demo_fence :: fence where
  "demo_fence = Some (''acc'', ''r'', ''x'', 1)"

definition demo_digest :: "json \<Rightarrow> string" where
  "demo_digest p = (if p = JObj [] then ''d0'' else ''d1'')"

definition demo_entered :: op_db where
  "demo_entered = committed (begin_operation demo_op demo_fence ''op'' ''r'' ''tool'' False 5) demo_op"

definition demo_complete_call :: "(unit \<times> op_db) res" where
  "demo_complete_call = complete_operation demo_digest demo_entered demo_fence ''op'' ''ref'' (JObj []) 6"

definition demo_done :: op_db where
  "demo_done = committed demo_complete_call demo_entered"

definition demo_intended :: op_db where
  "demo_intended = committed (record_operation_intent demo_entered demo_fence ''op'' (JObj []) 6) demo_entered"





definition demo_operation :: operation_row where
  "demo_operation = \<lparr>o_operation_id = ''op'', o_account_id = ''acc'', o_run_id = ''r'', o_execution_id = ''x'',
     o_operation_type = ''tool'', o_status = Op_Started, o_attempt_count = 1, o_result_ref = None, o_result_payload = None,
     o_error_code = None, o_work_id = None, o_requirement_revision = None, o_effect_key = None,
     o_parameters_digest = None, o_started_at = 5\<rparr>"


theorem completed_operation_is_final_and_replayed_witness:
  "\<exists>s''. begin_operation demo_done demo_fence ''op'' ''r'' ''tool'' False 8 = Inr ((Op_Completed, Some (JObj [])), s'')"
proof -
  let ?d = "demo_operation\<lparr>o_status := Op_Completed, o_result_ref := Some ''ref'', o_result_payload := Some (JObj [])\<rparr>"
  have "find_operation demo_done ''op'' = Some ?d" "o_status ?d = Op_Completed" by code_simp+
  note final = completed_operation_is_final_and_replayed [OF this rtranclp.rtrancl_refl [of "op_step demo_digest (\<lambda>_. True)"]]
  have "\<not> isl (begin_operation demo_done demo_fence ''op'' ''r'' ''tool'' False 8)" by code_simp
  note c = committed_result [OF this, of demo_done]
  have p: "o_result_payload ?d = Some (JObj [])" by simp
  have e: "fst (projr (begin_operation demo_done demo_fence ''op'' ''r'' ''tool'' False 8)) = (Op_Completed, o_result_payload ?d)"
    using c by (rule final [THEN conjunct2, THEN spec, THEN spec, THEN spec, THEN spec, THEN spec, THEN spec, THEN spec, THEN mp])
  from c show ?thesis unfolding e p by (rule exI)
qed

theorem unresolved_effect_is_never_restarted_witness:
  "\<exists>status payload s''. begin_operation demo_intended demo_fence ''op'' ''r'' ''tool'' True 8 = Inr ((status, payload), s'') \<and>
     status \<in> {Intent_Recorded, Op_Uncertain, Op_Completed}"
proof -
  let ?d = "demo_operation\<lparr>o_status := Intent_Recorded, o_result_payload := Some (JObj [])\<rparr>"
  have d: "find_operation demo_intended ''op'' = Some ?d" "unresolved ?d" by code_simp+
  have "\<not> isl (begin_operation demo_intended demo_fence ''op'' ''r'' ''tool'' True 8)" by code_simp
  then obtain status payload s'' where
    b: "begin_operation demo_intended demo_fence ''op'' ''r'' ''tool'' True 8 = Inr ((status, payload), s'')"
    by (cases "begin_operation demo_intended demo_fence ''op'' ''r'' ''tool'' True 8") auto
  from unresolved_effect_is_never_restarted [OF d _ rtranclp.rtrancl_refl [of "op_step demo_digest (\<lambda>_. False)"] b] b
  show ?thesis by blast
qed


theorem redelivered_result_is_idempotent_witness:
  "\<exists>s1. receive demo_digest demo_entered None ''acc'' ''r'' ''x'' ''op'' 1 (JObj []) 7 = Inr (Current, s1) \<and>
     (\<exists>s3. receive demo_digest s1 None ''acc'' ''r'' ''x'' ''op'' 1 (JObj []) 200 = Inr (Current, s3) \<and> s3 = s1)"
proof -
  let ?c = "receive demo_digest demo_entered None ''acc'' ''r'' ''x'' ''op'' 1 (JObj []) 7"
  let ?c2 = "receive demo_digest (committed ?c demo_entered) None ''acc'' ''r'' ''x'' ''op'' 1 (JObj []) 200"
  have "\<not> isl ?c" "fst (projr ?c) = Current" "\<not> isl ?c2" by code_simp+
  then have c: "?c = Inr (Current, committed ?c demo_entered)" using committed_result [of ?c demo_entered] by simp
  obtain d3 s3 where c2: "?c2 = Inr (d3, s3)" using \<open>\<not> isl ?c2\<close> by (cases ?c2) auto
  from redelivered_result_is_idempotent [OF c rtranclp.rtrancl_refl [of "op_step demo_digest (\<lambda>_. True)"] c2] c c2
  show ?thesis by blast
qed

theorem operation_keys_are_invariant_witness:
  "keys_ok demo_entered"
proof -
  have "\<not> isl (begin_operation demo_op demo_fence ''op'' ''r'' ''tool'' False 5)" by code_simp
  from committed_result [OF this, of demo_op]
  have "begin_operation demo_op demo_fence ''op'' ''r'' ''tool'' False 5 =
      Inr (fst (projr (begin_operation demo_op demo_fence ''op'' ''r'' ''tool'' False 5)), demo_entered)"
    by (simp only: demo_entered_def)
  then have "op_step demo_digest (\<lambda>_. True) demo_op demo_entered" by (metis enter prod.collapse)
  then have st: "(op_step demo_digest (\<lambda>_. True))\<^sup>*\<^sup>* demo_op demo_entered" by blast
  have "keys_ok demo_op" by (simp add: keys_ok_def demo_op_def)
  from operation_keys_are_invariant [OF this st] show ?thesis by blast
qed

theorem completion_satisfies_receipt_rules_witness:
  "\<exists>c. complete_operation demo_digest
      (committed (begin_operation demo_done demo_fence ''op2'' ''r'' ''tool'' False 8) demo_done)
      demo_fence ''op2'' ''ref'' (JObj []) 9 = Inl (DbError c) \<and> c = ''uq_agent_operations__result_ref''"
proof -
  let ?s = "committed (begin_operation demo_done demo_fence ''op2'' ''r'' ''tool'' False 8) demo_done"
  let ?c = "complete_operation demo_digest ?s demo_fence ''op2'' ''ref'' (JObj []) 9"
  have "isl ?c" "projl ?c = DbError ''uq_agent_operations__result_ref''" by code_simp+
  then have c: "?c = Inl (DbError ''uq_agent_operations__result_ref'')" by (cases ?c) auto
  have k: "keys_ok ?s" "distinct (map r_run_id (runs ?s))" by code_simp+
  from completion_satisfies_receipt_rules [OF k c] c show ?thesis by blast
qed

definition demo_transcript :: op_db where
  "demo_transcript =
     (let s1 = committed (begin_operation demo_op demo_fence ''context'' ''r'' ''context'' False 5) demo_op;
          s2 = committed (create_transcript demo_digest s1 demo_fence ''t'' ''r'' ''acc'' (Some ''conv'') (Some ''s'') ''x''
                 [] ''context'' 5) s1
      in committed (begin_operation s2 demo_fence ''step'' ''r'' ''model_decision'' False 6) s2)"

definition demo_append :: "(int \<times> op_db) res" where
  "demo_append = complete_with_event demo_digest demo_transcript demo_fence ''t'' 1 ''model_decision'' ''step''
     [(''message'', JNull)] ''ref-step'' [] 7"

definition demo_appended :: op_db where
  "demo_appended = committed demo_append demo_transcript"

definition demo_retry :: "(int \<times> op_db) res" where
  "demo_retry = complete_with_event demo_digest demo_appended demo_fence ''t'' 1 ''model_decision'' ''step''
     [(''message'', JNull)] ''ref-step'' [] 8"

lemma demo_append: "demo_append = Inr (2, demo_appended)"
proof -
  have "\<not> isl demo_append" "fst (projr demo_append) = 2" by code_simp+
  then show ?thesis using committed_result [of demo_append demo_transcript] by (simp add: demo_appended_def)
qed

lemma demo_retry: "\<exists>s. demo_retry = Inr (2, s)"
proof -
  have "\<not> isl demo_retry" "fst (projr demo_retry) = 2" by code_simp+
  then show ?thesis using committed_result [of demo_retry demo_appended] by auto
qed

theorem complete_with_event_refines_append_witness:
  "compare_and_append 1 (''step'', ''model_decision'', [(''message'', JNull)]) (transcript_log demo_transcript ''t'') =
     Inr (2, transcript_log demo_appended ''t'')"
proof -
  have "transcripts_ok demo_transcript" by code_simp
  from complete_with_event_refines_append [OF this demo_append [unfolded demo_append_def]] show ?thesis by blast
qed

theorem retried_completion_appends_nothing_witness:
  "\<exists>s. demo_retry = Inr (2, s) \<and> events s = events demo_appended"
proof -
  obtain s where s: "demo_retry = Inr (2, s)" using demo_retry by blast
  from retried_completion_appends_nothing [OF demo_append [unfolded demo_append_def]
      rtranclp.rtrancl_refl [of "op_step demo_digest (\<lambda>_. True)"] s [unfolded demo_retry_def]] s
  show ?thesis by blast
qed

end
