(* ===== verification/Workflow_Base.thy ===== *)
theory Workflow_Base
  imports Agent_Contracts
begin

text \<open>
  Durable Workflows as computations. A Workflow acts on the outside world only by commands to the Temporal
  server (Activities, child Workflows, timers); what it did is its History, and an Activity always ends,
  with a result or an exception, because it is dispatched with a timeout. A computation takes the History
  and the world to an outcome with the new ones, or to \<open>None\<close> when a loop of the Workflow never ends.
  Activities, child Workflows of other modules and the clock are the fields of the environment.
\<close>

section \<open>Exceptions\<close>

text \<open>An exception of the Workflow itself, or the failure of an Activity or child Workflow with its cause.\<close>

datatype wf_exn = Plain exn | Activity_Error wf_exn | Child_Error wf_exn

text \<open>\<open>temporalio.exceptions.is_cancelled_exception\<close>.\<close>

fun is_cancelled_exception :: "wf_exn \<Rightarrow> bool" where
  "is_cancelled_exception (Plain e) \<longleftrightarrow> e = CancelledError"
| "is_cancelled_exception (Activity_Error c) \<longleftrightarrow> c = Plain CancelledError"
| "is_cancelled_exception (Child_Error c) \<longleftrightarrow> c = Plain CancelledError"

section \<open>History\<close>

datatype dispatch =
    Do_Context context_bootstrap_input
  | Do_Decision model_decision_input
  | Do_Tool tool_execution_input
  | Do_Approved approved_tool_execution_input
  | Do_Planning planning_input
  | Do_Evaluation plan_evaluation_input

datatype answer =
    Context_Done context_bootstrap_result
  | Decision_Done model_decision_result
  | Tool_Done tool_execution_result
  | Approved_Done approved_tool_execution_result
  | Planning_Done planning_result
  | Evaluation_Done plan_evaluation_result

datatype wf_event =
    Segment_Requested segment_input
  | Segment_Acquired segment_input int
  | Segment_Freed segment_input
  | Dispatched dispatch
  | Answered answer
  | Wait_Begun wait_input
  | Wait_Finished finish_wait_input
  | Probed approval_status_input
  | Probe_Answered approval_status_result
  | Timer_Started int
  | Child_Started string
  | Child_Answered tool_execution_result

record 'w wf_state =
  history :: "wf_event list"
  world :: 'w

type_synonym ('w, 'a) wf = "'w wf_state \<Rightarrow> ((wf_exn + 'a) \<times> 'w wf_state) option"

text \<open>The outside world as the Workflow sees it.\<close>

record 'w wf_env =
  acquire_act :: "segment_input \<Rightarrow> 'w \<Rightarrow> (wf_exn + segment_lease) \<times> 'w"
  release_act :: "segment_input \<Rightarrow> 'w \<Rightarrow> (wf_exn + unit) \<times> 'w"
  begin_wait_act :: "wait_input \<Rightarrow> 'w \<Rightarrow> (wf_exn + unit) \<times> 'w"
  finish_wait_act :: "finish_wait_input \<Rightarrow> 'w \<Rightarrow> (wf_exn + bool) \<times> 'w"
  context_act :: "context_bootstrap_input \<Rightarrow> 'w \<Rightarrow> (wf_exn + context_bootstrap_result) \<times> 'w"
  decision_act :: "model_decision_input \<Rightarrow> 'w \<Rightarrow> (wf_exn + model_decision_result) \<times> 'w"
  tool_act :: "tool_execution_input \<Rightarrow> 'w \<Rightarrow> (wf_exn + tool_execution_result) \<times> 'w"
  approved_act :: "approved_tool_execution_input \<Rightarrow> 'w \<Rightarrow> (wf_exn + approved_tool_execution_result) \<times> 'w"
  planning_act :: "planning_input \<Rightarrow> 'w \<Rightarrow> (wf_exn + planning_result) \<times> 'w"
  evaluation_act :: "plan_evaluation_input \<Rightarrow> 'w \<Rightarrow> (wf_exn + plan_evaluation_result) \<times> 'w"
  approval_status_act :: "approval_status_input \<Rightarrow> 'w \<Rightarrow> (wf_exn + approval_status_result) \<times> 'w"
  capability_child :: "tool_execution_input \<Rightarrow> 'w \<Rightarrow> (wf_exn + tool_execution_result) \<times> 'w"
  delegation_child :: "tool_execution_input \<Rightarrow> 'w \<Rightarrow> (wf_exn + tool_execution_result) \<times> 'w"
  fresh_uuid :: "'w \<Rightarrow> uuid \<times> 'w"
  sleep_for :: "int \<Rightarrow> 'w \<Rightarrow> (wf_exn + unit) \<times> 'w"
  wait_for :: "int \<Rightarrow> 'w \<Rightarrow> (wf_exn + unit) \<times> 'w"
  signals :: "'w \<Rightarrow> approval_decision_signal list \<times> 'w"
  clock :: "'w \<Rightarrow> int"
  isoformat :: "int \<Rightarrow> string"
  fromisoformat :: "string \<Rightarrow> int option"
  sha256_hex :: "string \<Rightarrow> string"

section \<open>Sequencing\<close>

definition wf_return :: "'a \<Rightarrow> ('w, 'a) wf" where
  "wf_return a s = (Some (Inr a, s))"

definition wf_raise :: "wf_exn \<Rightarrow> ('w, 'a) wf" where
  "wf_raise e s = (Some (Inl e, s))"

definition wf_bind :: "('w, 'a) wf \<Rightarrow> ('a \<Rightarrow> ('w, 'b) wf) \<Rightarrow> ('w, 'b) wf" where
  "wf_bind p k s = (case p s of
       None \<Rightarrow> None
     | Some (Inl e, s') \<Rightarrow> Some (Inl e, s')
     | Some (Inr a, s') \<Rightarrow> k a s')"

text \<open>The outcome as a value: what \<open>try\<close> sees.\<close>

definition wf_attempt :: "('w, 'a) wf \<Rightarrow> ('w, wf_exn + 'a) wf" where
  "wf_attempt p s = (case p s of None \<Rightarrow> None | Some (r, s') \<Rightarrow> Some (Inr r, s'))"

definition wf_outcome :: "wf_exn + 'a \<Rightarrow> ('w, 'a) wf" where
  "wf_outcome r s = (Some (r, s))"

text \<open>\<open>try: p finally: q\<close>: an exception of \<open>q\<close> replaces the outcome of \<open>p\<close>.\<close>

definition wf_finally :: "('w, 'a) wf \<Rightarrow> ('w, unit) wf \<Rightarrow> ('w, 'a) wf" where
  "wf_finally p q = wf_bind (wf_attempt p) (\<lambda>r. wf_bind q (\<lambda>_. wf_outcome r))"

definition wf_emit :: "wf_event \<Rightarrow> ('w, unit) wf" where
  "wf_emit e s = (Some (Inr (), s\<lparr>history := history s @ [e]\<rparr>))"

text \<open>Something the world does, and something the Workflow reads of it.\<close>

definition wf_perform :: "('w \<Rightarrow> (wf_exn + 'a) \<times> 'w) \<Rightarrow> ('w, 'a) wf" where
  "wf_perform act s = (let (r, w) = act (world s) in Some (r, s\<lparr>world := w\<rparr>))"

definition wf_draw :: "('w \<Rightarrow> 'a \<times> 'w) \<Rightarrow> ('w, 'a) wf" where
  "wf_draw act s = (let (a, w) = act (world s) in Some (Inr a, s\<lparr>world := w\<rparr>))"

definition wf_read :: "('w \<Rightarrow> 'a) \<Rightarrow> ('w, 'a) wf" where
  "wf_read f s = (Some (Inr (f (world s)), s))"

text \<open>A value of the synchronous code.\<close>

definition wf_of_res :: "'a res \<Rightarrow> ('w, 'a) wf" where
  "wf_of_res r = (case r of Inl e \<Rightarrow> wf_raise (Plain e) | Inr a \<Rightarrow> wf_return a)"

text \<open>A child Workflow that fails or is cancelled.\<close>

definition as_child :: "string \<Rightarrow> ('w, 'a) wf \<Rightarrow> ('w, 'a) wf" where
  "as_child wid p =
     wf_bind (wf_emit (Child_Started wid)) (\<lambda>_.
     wf_bind (wf_attempt p) (\<lambda>r.
       case r of Inl e \<Rightarrow> wf_raise (Child_Error (if is_cancelled_exception e then Plain CancelledError else e))
               | Inr a \<Rightarrow> wf_return a))"

section \<open>Monotonicity, for the loops that may not end\<close>

abbreviation mono_option :: "(('a \<Rightarrow> 'b option) \<Rightarrow> 'c option) \<Rightarrow> bool" where
  "mono_option \<equiv> monotone (fun_ord option_ord) option_ord"

lemma wf_bind_mono [partial_function_mono]:
  assumes "mono_option (\<lambda>f. B f s)" "\<And>a s'. mono_option (\<lambda>f. C a f s')"
  shows "mono_option (\<lambda>f. wf_bind (B f) (\<lambda>a. C a f) s)"
proof -
  have "wf_bind (B f) (\<lambda>a. C a f) s =
      Option.bind (B f s) (\<lambda>x. case x of (Inl e, s') \<Rightarrow> Some (Inl e, s') | (Inr a, s') \<Rightarrow> C a f s')" for f
    by (simp add: wf_bind_def split: option.splits)
  moreover have "mono_option (\<lambda>f. case x of (Inl e, s') \<Rightarrow> Some (Inl e, s') | (Inr a, s') \<Rightarrow> C a f s')" for x
    using assms(2) by (cases x; cases "fst x") (auto intro: partial_function_mono)
  ultimately show ?thesis using assms(1) by (auto intro: bind_mono)
qed

lemma wf_attempt_mono [partial_function_mono]:
  assumes "mono_option (\<lambda>f. B f s)"
  shows "mono_option (\<lambda>f. wf_attempt (B f) s)"
proof -
  have "wf_attempt (B f) s = Option.bind (B f s) (\<lambda>x. Some (Inr (fst x), snd x))" for f
    by (simp add: wf_attempt_def split: option.splits)
  with assms show ?thesis by (auto intro: bind_mono partial_function_mono)
qed

lemma wf_if_mono [partial_function_mono]:
  assumes "mono_option (\<lambda>f. B f s)" "mono_option (\<lambda>f. C f s)"
  shows "mono_option (\<lambda>f. (if b then B f else C f) s)"
  using assms by (cases b) simp_all

lemma wf_case_option_mono [partial_function_mono]:
  assumes "mono_option (\<lambda>f. B f s)" "\<And>v. mono_option (\<lambda>f. C v f s)"
  shows "mono_option (\<lambda>f. (case x of None \<Rightarrow> B f | Some v \<Rightarrow> C v f) s)"
  using assms by (cases x) simp_all

lemma wf_let_mono [partial_function_mono]:
  assumes "\<And>y. mono_option (\<lambda>f. B y f s)"
  shows "mono_option (\<lambda>f. (let y = x in B y f) s)"
  using assms by (simp add: Let_def)

section \<open>What a computation leaves in the History\<close>

text \<open>Every terminating run extends the History by a list that, with the outcome, satisfies \<open>Q\<close>.\<close>

definition emits :: "('w, 'a) wf \<Rightarrow> (wf_event list \<Rightarrow> wf_exn + 'a \<Rightarrow> bool) \<Rightarrow> bool" where
  "emits p Q \<longleftrightarrow> (\<forall>s r s'. p s = Some (r, s') \<longrightarrow> (\<exists>h. history s' = history s @ h \<and> Q h r))"

lemma emitsD: "emits p Q \<Longrightarrow> p s = Some (r, s') \<Longrightarrow> \<exists>h. history s' = history s @ h \<and> Q h r"
  by (simp add: emits_def)

lemma emits_mono: "emits p P \<Longrightarrow> (\<And>h r. P h r \<Longrightarrow> Q h r) \<Longrightarrow> emits p Q"
  unfolding emits_def by blast

lemma emits_conj: "emits p P \<Longrightarrow> emits p Q \<Longrightarrow> emits p (\<lambda>h r. P h r \<and> Q h r)"
  unfolding emits_def by (metis same_append_eq)

lemma emits_return: "Q [] (Inr a) \<Longrightarrow> emits (wf_return a) Q"
  by (simp add: emits_def wf_return_def)

lemma emits_raise: "Q [] (Inl e) \<Longrightarrow> emits (wf_raise e) Q"
  by (simp add: emits_def wf_raise_def)

lemma emits_outcome: "Q [] r \<Longrightarrow> emits (wf_outcome r) Q"
  by (simp add: emits_def wf_outcome_def)

lemma emits_emit: "Q [e] (Inr ()) \<Longrightarrow> emits (wf_emit e) Q"
  by (simp add: emits_def wf_emit_def)

lemma emits_perform: "(\<And>r. Q [] r) \<Longrightarrow> emits (wf_perform act) Q"
  by (auto simp: emits_def wf_perform_def Let_def split: prod.splits)

lemma emits_draw: "(\<And>a. Q [] (Inr a)) \<Longrightarrow> emits (wf_draw act) Q"
  by (auto simp: emits_def wf_draw_def Let_def split: prod.splits)

lemma emits_read: "(\<And>a. Q [] (Inr a)) \<Longrightarrow> emits (wf_read f) Q"
  by (simp add: emits_def wf_read_def)

lemma emits_of_res: "(\<And>a. r = Inr a \<Longrightarrow> Q [] (Inr a)) \<Longrightarrow> (\<And>e. r = Inl e \<Longrightarrow> Q [] (Inl (Plain e))) \<Longrightarrow>
    emits (wf_of_res r) Q"
  by (cases r) (simp_all add: wf_of_res_def emits_return emits_raise)

lemma emits_bind:
  assumes "emits p P" "\<And>h e. P h (Inl e) \<Longrightarrow> Q h (Inl e)"
    and "\<And>h a. P h (Inr a) \<Longrightarrow> emits (k a) (\<lambda>h' r. Q (h @ h') r)"
  shows "emits (wf_bind p k) Q"
  unfolding emits_def
proof (intro allI impI)
  fix s r s'
  assume run: "wf_bind p k s = Some (r, s')"
  then obtain o1 s1 where p: "p s = Some (o1, s1)" by (auto simp: wf_bind_def split: option.splits)
  from emitsD [OF assms(1) p] obtain h where h: "history s1 = history s @ h" "P h o1" by blast
  show "\<exists>h. history s' = history s @ h \<and> Q h r"
  proof (cases o1)
    case (Inl e)
    with run p h assms(2) show ?thesis by (auto simp: wf_bind_def)
  next
    case (Inr a)
    with run p have "k a s1 = Some (r, s')" by (simp add: wf_bind_def)
    from emitsD [OF assms(3) this] h(2) Inr obtain h' where "history s' = history s1 @ h'" "Q (h @ h') r" by blast
    with h show ?thesis by (intro exI [of _ "h @ h'"]) simp
  qed
qed

lemma emits_attempt:
  assumes "emits p (\<lambda>h r. Q h (Inr r))"
  shows "emits (wf_attempt p) Q"
  using assms unfolding emits_def wf_attempt_def by (auto split: option.splits)

lemma emits_finally:
  assumes "emits p P" "\<And>h r. P h r \<Longrightarrow> emits q (\<lambda>h' r'. case r' of Inl e \<Rightarrow> Q (h @ h') (Inl e) | Inr u \<Rightarrow> Q (h @ h') r)"
  shows "emits (wf_finally p q) Q"
  unfolding wf_finally_def
proof (rule emits_bind)
  show "emits (wf_attempt p) (\<lambda>h r. \<exists>r'. r = Inr r' \<and> P h r')"
    using assms(1) by (intro emits_attempt) simp
  show "emits (wf_bind q (\<lambda>_. wf_outcome r)) (\<lambda>h'. Q (h @ h'))" if "\<exists>r'. Inr r = Inr r' \<and> P h r'" for h r
  proof (rule emits_bind)
    show "emits q (\<lambda>h' r'. case r' of Inl e \<Rightarrow> Q (h @ h') (Inl e) | Inr u \<Rightarrow> Q (h @ h') r)"
      using that assms(2) by simp
  qed (simp_all add: emits_outcome)
qed simp

lemma emits_child:
  assumes "emits p (\<lambda>h r. case r of Inl e \<Rightarrow> \<forall>c. Q (Child_Started wid # h) (Inl (Child_Error c))
      | Inr a \<Rightarrow> Q (Child_Started wid # h) (Inr a))"
  shows "emits (as_child wid p) Q"
  unfolding as_child_def
proof (rule emits_bind [OF emits_emit [where Q = "\<lambda>h r. h = [Child_Started wid] \<and> r = Inr ()"]])
  fix h and u :: unit
  assume h: "h = [Child_Started wid] \<and> Inr u = Inr ()"
  show "emits (wf_bind (wf_attempt p) (\<lambda>r. case r of Inl e \<Rightarrow>
      wf_raise (Child_Error (if is_cancelled_exception e then Plain CancelledError else e)) | Inr a \<Rightarrow> wf_return a))
    (\<lambda>h'. Q (h @ h'))"
  proof (rule emits_bind)
    show "emits (wf_attempt p) (\<lambda>h r. case r of Inl e \<Rightarrow> False | Inr (Inl e) \<Rightarrow>
        \<forall>c. Q (Child_Started wid # h) (Inl (Child_Error c)) | Inr (Inr a) \<Rightarrow> Q (Child_Started wid # h) (Inr a))"
      using assms by (intro emits_attempt) simp
  qed (use h in \<open>auto intro: emits_raise emits_return split: sum.splits\<close>)
qed simp_all

section \<open>Total correctness on the world\<close>

text \<open>From a state whose world satisfies \<open>P\<close> the computation ends, its new world and outcome in \<open>Q\<close>.\<close>

definition ensures :: "('w \<Rightarrow> bool) \<Rightarrow> ('w, 'a) wf \<Rightarrow> ('w \<Rightarrow> wf_exn + 'a \<Rightarrow> bool) \<Rightarrow> bool" where
  "ensures P p Q \<longleftrightarrow> (\<forall>s. P (world s) \<longrightarrow> (\<exists>r s'. p s = Some (r, s') \<and> Q (world s') r))"

lemma ensuresE:
  assumes "ensures P p Q" "P (world s)"
  obtains r s' where "p s = Some (r, s')" "Q (world s') r"
  using assms unfolding ensures_def by blast

lemma ensures_weaken: "ensures P p Q \<Longrightarrow> (\<And>w. P' w \<Longrightarrow> P w) \<Longrightarrow> (\<And>w r. Q w r \<Longrightarrow> Q' w r) \<Longrightarrow> ensures P' p Q'"
  unfolding ensures_def by blast

lemma ensures_return: "(\<And>w. P w \<Longrightarrow> Q w (Inr a)) \<Longrightarrow> ensures P (wf_return a) Q"
  by (simp add: ensures_def wf_return_def)

lemma ensures_raise: "(\<And>w. P w \<Longrightarrow> Q w (Inl e)) \<Longrightarrow> ensures P (wf_raise e) Q"
  by (simp add: ensures_def wf_raise_def)

lemma ensures_outcome: "(\<And>w. P w \<Longrightarrow> Q w r) \<Longrightarrow> ensures P (wf_outcome r) Q"
  by (simp add: ensures_def wf_outcome_def)

lemma ensures_emit: "(\<And>w. P w \<Longrightarrow> Q w (Inr ())) \<Longrightarrow> ensures P (wf_emit e) Q"
  by (simp add: ensures_def wf_emit_def)

lemma ensures_read: "(\<And>w. P w \<Longrightarrow> Q w (Inr (f w))) \<Longrightarrow> ensures P (wf_read f) Q"
  by (simp add: ensures_def wf_read_def)

lemma ensures_of_res: "(\<And>w. P w \<Longrightarrow> Q w (case r of Inl e \<Rightarrow> Inl (Plain e) | Inr a \<Rightarrow> Inr a)) \<Longrightarrow> ensures P (wf_of_res r) Q"
  by (cases r) (simp_all add: wf_of_res_def ensures_return ensures_raise)

lemma ensures_perform: "(\<And>w. P w \<Longrightarrow> Q (snd (act w)) (fst (act w))) \<Longrightarrow> ensures P (wf_perform act) Q"
  by (simp add: ensures_def wf_perform_def Let_def case_prod_unfold)

lemma ensures_draw: "(\<And>w. P w \<Longrightarrow> Q (snd (act w)) (Inr (fst (act w)))) \<Longrightarrow> ensures P (wf_draw act) Q"
  by (simp add: ensures_def wf_draw_def Let_def case_prod_unfold)

lemma ensures_bind:
  assumes "ensures P p R" "\<And>w e. R w (Inl e) \<Longrightarrow> Q w (Inl e)" "\<And>a. ensures (\<lambda>w. R w (Inr a)) (k a) Q"
  shows "ensures P (wf_bind p k) Q"
  unfolding ensures_def
proof (intro allI impI)
  fix s :: "'a wf_state"
  assume "P (world s)"
  then obtain r s1 where p: "p s = Some (r, s1)" "R (world s1) r" by (rule ensuresE [OF assms(1)])
  show "\<exists>r s'. wf_bind p k s = Some (r, s') \<and> Q (world s') r"
  proof (cases r)
    case (Inl e)
    with p assms(2) show ?thesis by (simp add: wf_bind_def)
  next
    case (Inr a)
    with p(2) obtain r' s' where "k a s1 = Some (r', s')" "Q (world s') r'"
      using ensuresE [OF assms(3) [of a], of s1] by blast
    with p(1) Inr show ?thesis by (simp add: wf_bind_def)
  qed
qed

lemma ensures_attempt:
  assumes "ensures P p (\<lambda>w r. Q w (Inr r))"
  shows "ensures P (wf_attempt p) Q"
  unfolding ensures_def
proof (intro allI impI)
  fix s :: "'a wf_state"
  assume "P (world s)"
  then obtain r s1 where "p s = Some (r, s1)" "Q (world s1) (Inr r)" by (rule ensuresE [OF assms])
  then show "\<exists>r s'. wf_attempt p s = Some (r, s') \<and> Q (world s') r" by (simp add: wf_attempt_def)
qed

lemma ensures_finally:
  assumes "ensures P p R" "\<And>r. ensures (\<lambda>w. R w r) q (\<lambda>w r'. case r' of Inl e \<Rightarrow> Q w (Inl e) | Inr u \<Rightarrow> Q w r)"
  shows "ensures P (wf_finally p q) Q"
  unfolding wf_finally_def
proof (rule ensures_bind)
  show "ensures P (wf_attempt p) (\<lambda>w r. case r of Inl e \<Rightarrow> False | Inr r' \<Rightarrow> R w r')"
    using assms(1) by (intro ensures_attempt) simp
  show "ensures (\<lambda>w. case Inr r of Inl e \<Rightarrow> False | Inr r' \<Rightarrow> R w r') (wf_bind q (\<lambda>_. wf_outcome r)) Q" for r
    using ensures_bind [OF assms(2) [of r], of Q "\<lambda>_. wf_outcome r"] by (simp add: ensures_outcome)
qed simp

text \<open>A child fails with the cause wrapped; what the world satisfies after its outcome stays.\<close>

lemma ensures_child:
  assumes "ensures P p (\<lambda>w r. case r of Inl e \<Rightarrow> \<forall>c. Q w (Inl (Child_Error c)) | Inr a \<Rightarrow> Q w (Inr a))"
  shows "ensures P (as_child wid p) Q"
  unfolding as_child_def
proof (rule ensures_bind [OF ensures_emit [where Q = "\<lambda>w r. P w \<and> r = Inr ()"]])
  show "ensures (\<lambda>w. P w \<and> Inr u = Inr ()) (wf_bind (wf_attempt p) (\<lambda>r. case r of Inl e \<Rightarrow>
      wf_raise (Child_Error (if is_cancelled_exception e then Plain CancelledError else e)) | Inr a \<Rightarrow> wf_return a)) Q"
    for u :: unit
  proof (rule ensures_bind)
    show "ensures (\<lambda>w. P w \<and> Inr u = Inr ()) (wf_attempt p) (\<lambda>w r. case r of Inl e \<Rightarrow> False | Inr (Inl e) \<Rightarrow>
        \<forall>c. Q w (Inl (Child_Error c)) | Inr (Inr a) \<Rightarrow> Q w (Inr a))"
      using assms by (intro ensures_attempt) simp
    show "ensures (\<lambda>w. case Inr r of Inl e \<Rightarrow> False | Inr (Inl e) \<Rightarrow> \<forall>c. Q w (Inl (Child_Error c)) | Inr (Inr a) \<Rightarrow> Q w (Inr a))
      (case r of Inl e \<Rightarrow> wf_raise (Child_Error (if is_cancelled_exception e then Plain CancelledError else e))
        | Inr a \<Rightarrow> wf_return a) Q" for r
      by (cases r) (auto intro: ensures_raise ensures_return)
  qed simp
qed simp_all

end
