(* ===== verification/Segments.thy ===== *)
theory Segments
  imports Workflow_Base
begin

text \<open>
  Execution segments and durable waits as the Workflows use them (\<open>agent_workflows/segments.py\<close>): a
  segment is one acquired lease, one attempt of one Activity and the release of the lease, whatever
  happens; a retry waits without a segment. A durable wait asks an authoritative probe, a signal only
  wakes it up. Durations are seconds. Eviction of a Workflow from the worker's cache is not modelled: the
  replay that follows emits the same commands.
\<close>

section \<open>Control Activities\<close>

definition control_outcome :: "wf_exn + 'a \<Rightarrow> wf_exn + 'a" where
  "control_outcome r =
     (case r of
        Inl (Activity_Error (Plain (ApplicationError ty non_retryable))) \<Rightarrow>
          if ty = ''run_not_executable'' then Inl (Plain CancelledError) else r
      | _ \<Rightarrow> r)"

definition control :: "('w \<Rightarrow> (wf_exn + 'a) \<times> 'w) \<Rightarrow> ('w, 'a) wf" where
  "control act = wf_bind (wf_attempt (wf_perform act)) (\<lambda>r. wf_outcome (control_outcome r))"

section \<open>Retries\<close>

record retry_policy =
  rp_initial_interval :: int
  rp_backoff_coefficient :: int
  rp_maximum_interval :: "int option"
  rp_maximum_attempts :: int
  rp_non_retryable_error_types :: "string list"

text \<open>\<open>RetryPolicy(maximum_attempts=n)\<close> with the defaults of the SDK.\<close>

definition default_retry :: "int \<Rightarrow> retry_policy" where
  "default_retry n = \<lparr>rp_initial_interval = 1, rp_backoff_coefficient = 2, rp_maximum_interval = None,
     rp_maximum_attempts = n, rp_non_retryable_error_types = []\<rparr>"

definition retry_delay :: "retry_policy \<Rightarrow> int \<Rightarrow> int" where
  "retry_delay retry attempt =
     (let delay = rp_initial_interval retry * rp_backoff_coefficient retry ^ nat (attempt - 1)
      in case rp_maximum_interval retry of None \<Rightarrow> delay | Some m \<Rightarrow> if m = 0 then delay else min delay m)"

text \<open>The exception that ends the retries after a failed Activity, if there is one.\<close>

definition segment_failure :: "retry_policy \<Rightarrow> wf_exn \<Rightarrow> wf_exn option" where
  "segment_failure retry error =
     (if is_cancelled_exception error then Some (Plain CancelledError)
      else case error of
        Activity_Error (Plain (ApplicationError ty non_retryable)) \<Rightarrow>
          if ty = ''run_not_executable'' then Some (Plain CancelledError)
          else if non_retryable \<and> ty \<noteq> ''stale_fencing_token'' then Some error
          else if ty \<in> set (rp_non_retryable_error_types retry) then Some error
          else None
      | _ \<Rightarrow> None)"

section \<open>One segment\<close>

record ('w, 'z, 'r) segment_activity =
  run_act :: "'z activity_input_scheme \<Rightarrow> 'w \<Rightarrow> (wf_exn + 'r) \<times> 'w"
  as_dispatch :: "'z activity_input_scheme \<Rightarrow> dispatch"
  as_answer :: "'r \<Rightarrow> answer"

definition dispatch_activity ::
  "('w, 'z, 'r) segment_activity \<Rightarrow> 'z activity_input_scheme \<Rightarrow> ('w, 'r) wf" where
  "dispatch_activity act request =
     wf_bind (wf_emit (Dispatched (as_dispatch act request))) (\<lambda>_.
     wf_bind (wf_perform (run_act act request)) (\<lambda>r.
     wf_bind (wf_emit (Answered (as_answer act r))) (\<lambda>_. wf_return r)))"

partial_function (option) acquire_loop ::
  "'w wf_env \<Rightarrow> segment_input \<Rightarrow> 'w wf_state \<Rightarrow> ((wf_exn + int) \<times> 'w wf_state) option" where
  "acquire_loop env segment s =
     wf_bind (wf_emit (Segment_Requested segment)) (\<lambda>_.
     wf_bind (control (acquire_act env segment)) (\<lambda>lease.
       if sl_acquired lease
       then wf_bind (wf_emit (Segment_Acquired segment (sl_fencing_token lease))) (\<lambda>_.
            wf_return (sl_fencing_token lease))
       else wf_bind (wf_emit (Timer_Started 1)) (\<lambda>_.
            wf_bind (wf_perform (sleep_for env 1)) (\<lambda>_. acquire_loop env segment)))) s"

definition free_segment :: "'w wf_env \<Rightarrow> segment_input \<Rightarrow> ('w, unit) wf" where
  "free_segment env segment =
     wf_bind (wf_emit (Segment_Freed segment)) (\<lambda>_. control (release_act env segment))"

definition segment_of :: "'z activity_input_scheme \<Rightarrow> uuid \<Rightarrow> segment_input" where
  "segment_of request sid =
     \<lparr>si_schema_version = LIFECYCLE_SCHEMA_VERSION, si_run_id = ai_run_id request,
      si_account_id = ai_account_id request, si_segment_id = sid, si_execution_id = ai_execution_id request\<rparr>"

text \<open>The body of the retry loop: a failed Activity is a value, everything else that is raised goes on.
  The release covers an acquisition that was committed while its result was lost.\<close>

definition run_segment ::
  "'w wf_env \<Rightarrow> ('w, 'z, 'r) segment_activity \<Rightarrow> 'z activity_input_scheme \<Rightarrow> int \<Rightarrow> ('w, wf_exn + 'r) wf" where
  "run_segment env act request attempt =
     wf_bind (wf_draw (fresh_uuid env)) (\<lambda>sid.
       let segment = segment_of request sid in
       wf_finally
         (wf_bind (acquire_loop env segment) (\<lambda>token.
          wf_bind (wf_attempt (dispatch_activity act
                     (request\<lparr>ai_lease_token := token, ai_execution_attempt := attempt\<rparr>))) (\<lambda>r.
            case r of
              Inr v \<Rightarrow> wf_return (Inr v)
            | Inl (Activity_Error c) \<Rightarrow> wf_return (Inl (Activity_Error c))
            | Inl e \<Rightarrow> wf_raise e)))
         (free_segment env segment))"

text \<open>\<open>for attempt in range(1, attempts + 1)\<close>: the first argument counts the iterations left.\<close>

primrec segment_attempts ::
  "nat \<Rightarrow> 'w wf_env \<Rightarrow> ('w, 'z, 'r) segment_activity \<Rightarrow> 'z activity_input_scheme \<Rightarrow> retry_policy \<Rightarrow> int \<Rightarrow> ('w, 'r) wf" where
  "segment_attempts 0 env act request retry attempt = wf_raise (Plain (RuntimeError ''no result''))"
| "segment_attempts (Suc n) env act request retry attempt =
     wf_bind (run_segment env act request attempt) (\<lambda>r.
       case r of
         Inr v \<Rightarrow> wf_return v
       | Inl error \<Rightarrow>
           (case segment_failure retry error of
              Some e \<Rightarrow> wf_raise e
            | None \<Rightarrow>
                if attempt = rp_maximum_attempts retry then wf_raise error
                else wf_bind (wf_emit (Timer_Started (retry_delay retry attempt))) (\<lambda>_.
                     wf_bind (wf_perform (sleep_for env (retry_delay retry attempt))) (\<lambda>_.
                       segment_attempts n env act request retry (attempt + 1)))))"

definition execute_segment ::
  "'w wf_env \<Rightarrow> ('w, 'z, 'r) segment_activity \<Rightarrow> 'z activity_input_scheme \<Rightarrow> retry_policy \<Rightarrow> ('w, 'r) wf" where
  "execute_segment env act request retry =
     (if rp_maximum_attempts retry \<le> 0
      then wf_raise (Plain (ValueError ''execute_segment requires a bounded retry policy''))
      else segment_attempts (nat (rp_maximum_attempts retry)) env act request retry 1)"

section \<open>Durable waits\<close>

record durable_wait =
  dw_wait_id :: "string option"
  dw_generation :: nat

definition new_wait :: durable_wait where
  "new_wait = \<lparr>dw_wait_id = None, dw_generation = 0\<rparr>"

definition notify :: "durable_wait \<Rightarrow> string \<Rightarrow> durable_wait" where
  "notify d wait_id =
     (if dw_wait_id d = Some wait_id then d\<lparr>dw_generation := dw_generation d + 1\<rparr> else d)"

datatype 'v wait_result = Wait_Answer 'v | Wait_Passed | Wait_Deadline

text \<open>The loop between begin and finish. \<open>deliver\<close> is the signal handler; signals are delivered at the
  awaits. With a probe only its answer or the deadline ends the loop.\<close>

partial_function (option) wait_loop ::
  "'w wf_env \<Rightarrow> (approval_decision_signal list \<Rightarrow> durable_wait \<Rightarrow> durable_wait) \<Rightarrow> int \<Rightarrow> ('w, 'v option) wf option \<Rightarrow>
   durable_wait \<Rightarrow> 'w wf_state \<Rightarrow> ((wf_exn + 'v wait_result) \<times> 'w wf_state) option" where
  "wait_loop env deliver deadline probe d s =
     wf_bind (case probe of None \<Rightarrow> wf_return None | Some p \<Rightarrow> p) (\<lambda>value.
     wf_bind (wf_draw (signals env)) (\<lambda>arrived.
       case value of
         Some v \<Rightarrow> wf_return (Wait_Answer v)
       | None \<Rightarrow>
           wf_bind (wf_read (clock env)) (\<lambda>now.
             let remaining = deadline - now; d1 = deliver arrived d in
             if remaining \<le> 0
             then wf_return (case probe of None \<Rightarrow> Wait_Passed | Some _ \<Rightarrow> Wait_Deadline)
             else if dw_generation d1 \<noteq> dw_generation d
             then wait_loop env deliver deadline probe d1
             else
               wf_bind (wf_emit (Timer_Started (min remaining 30))) (\<lambda>_.
               wf_bind (wf_perform (wait_for env (min remaining 30))) (\<lambda>_.
               wf_bind (wf_draw (signals env)) (\<lambda>more.
                 wait_loop env deliver deadline probe (deliver more d1))))))) s"

definition wait_body ::
  "'w wf_env \<Rightarrow> (approval_decision_signal list \<Rightarrow> durable_wait \<Rightarrow> durable_wait) \<Rightarrow> wait_input \<Rightarrow> ('w, 'v option) wf option \<Rightarrow>
   durable_wait \<Rightarrow> ('w, 'v wait_result) wf" where
  "wait_body env deliver request probe d =
     wf_bind (wf_emit (Wait_Begun request)) (\<lambda>_.
     wf_bind (control (begin_wait_act env request)) (\<lambda>_.
     wf_bind (wf_draw (signals env)) (\<lambda>arrived.
     wf_bind (wf_of_res (need (ValueError ''Invalid isoformat string'') (fromisoformat env (wi_deadline request)))) (\<lambda>deadline.
       wait_loop env deliver deadline probe (deliver arrived d)))))"

fun wait_end :: "wf_exn + 'v wait_result \<Rightarrow> wait_state" where
  "wait_end (Inr (Wait_Answer v)) = Resumed"
| "wait_end (Inr Wait_Passed) = Resumed"
| "wait_end (Inr Wait_Deadline) = Expired"
| "wait_end (Inl e) = WaitCancelled"

fun wait_value :: "wf_exn + 'v wait_result \<Rightarrow> wf_exn + 'v option" where
  "wait_value (Inr (Wait_Answer v)) = Inr (Some v)"
| "wait_value (Inr Wait_Passed) = Inr None"
| "wait_value (Inr Wait_Deadline) = Inl (Plain TimeoutError)"
| "wait_value (Inl e) = Inl e"

definition durable_wait_run ::
  "'w wf_env \<Rightarrow> (approval_decision_signal list \<Rightarrow> durable_wait \<Rightarrow> durable_wait) \<Rightarrow> wait_input \<Rightarrow> ('w, 'v option) wf option \<Rightarrow>
   durable_wait \<Rightarrow> ('w, 'v option) wf" where
  "durable_wait_run env deliver request probe d =
     wf_bind (wf_attempt (wait_body env deliver request probe (d\<lparr>dw_wait_id := Some (wi_wait_id request)\<rparr>))) (\<lambda>r.
       let finish = \<lparr>fw_wait = request, fw_state = wait_end r\<rparr> in
       wf_bind (wf_emit (Wait_Finished finish)) (\<lambda>_.
       wf_bind (control (finish_wait_act env finish)) (\<lambda>active.
         if wait_end r = Resumed \<and> \<not> active then wf_raise (Plain CancelledError)
         else wf_outcome (wait_value r))))"

end
