(* ===== verification/Tool_Workflow.thy ===== *)
theory Tool_Workflow
  imports Segments
begin

text \<open>
  The Workflow of one tool call (\<open>agent_workflows/tool_execution.py\<close>): capabilities and delegations go to
  their own child Workflows, every other tool runs in a segment, and a call that needs approval waits for
  the authoritative decision; only an approval executes it.
\<close>

definition CAPABILITY_TOOL_PREFIX :: string where
  "CAPABILITY_TOOL_PREFIX = ''capability__''"

definition DELEGATE_TOOL :: string where
  "DELEGATE_TOOL = ''delegate_work''"

definition tool_activity :: "'w wf_env \<Rightarrow> ('w, _, tool_execution_result) segment_activity" where
  "tool_activity env = \<lparr>run_act = tool_act env, as_dispatch = Do_Tool, as_answer = Tool_Done\<rparr>"

definition approved_activity :: "'w wf_env \<Rightarrow> ('w, _, approved_tool_execution_result) segment_activity" where
  "approved_activity env = \<lparr>run_act = approved_act env, as_dispatch = Do_Approved, as_answer = Approved_Done\<rparr>"

section \<open>The signal\<close>

record tool_workflow =
  tw_wait :: durable_wait
  tw_approval_id :: "string option"
  tw_operation_id :: "string option"

definition approval_decision :: "tool_workflow \<Rightarrow> approval_decision_signal \<Rightarrow> tool_workflow" where
  "approval_decision t signal =
     (if ad_schema_version signal = AGENT_SCHEMA_VERSION \<and> Some (ad_approval_id signal) = tw_approval_id t
         \<and> Some (ad_operation_id signal) = tw_operation_id t
      then (case dw_wait_id (tw_wait t) of
              None \<Rightarrow> t
            | Some w \<Rightarrow> t\<lparr>tw_wait := notify (tw_wait t) w\<rparr>)
      else t)"

text \<open>The handler during the wait, when the approval and the operation are fixed.\<close>

definition deliver_approvals :: "string \<Rightarrow> string \<Rightarrow> approval_decision_signal list \<Rightarrow> durable_wait \<Rightarrow> durable_wait" where
  "deliver_approvals approval_id operation_id arrived d =
     tw_wait (foldl approval_decision
       \<lparr>tw_wait = d, tw_approval_id = Some approval_id, tw_operation_id = Some operation_id\<rparr> arrived)"

section \<open>The approval\<close>

definition approval_probe :: "'w wf_env \<Rightarrow> tool_execution_input \<Rightarrow> string \<Rightarrow> ('w, approval_status_result option) wf" where
  "approval_probe env request approval_id =
     (let query = \<lparr>as_schema_version = AGENT_SCHEMA_VERSION, as_account_id = ai_account_id request,
                    as_run_id = ai_run_id request, as_operation_id = ai_operation_id request,
                    as_approval_id = approval_id\<rparr> in
      wf_bind (wf_emit (Probed query)) (\<lambda>_.
      wf_bind (wf_perform (approval_status_act env query)) (\<lambda>authoritative.
      wf_bind (wf_emit (Probe_Answered authoritative)) (\<lambda>_.
      wf_return (if ax_status authoritative \<noteq> Pending then Some authoritative else None)))))"

definition approval_wait :: "'w wf_env \<Rightarrow> tool_execution_input \<Rightarrow> string \<Rightarrow> int \<Rightarrow> wait_input" where
  "approval_wait env request approval_id expires_at =
     \<lparr>wi_schema_version = LIFECYCLE_SCHEMA_VERSION, wi_run_id = ai_run_id request,
      wi_account_id = ai_account_id request,
      wi_wait_id = ai_operation_id request @ '':approval:'' @ approval_id,
      wi_operation_id = ai_operation_id request, wi_reason = ''tool_approval'', wi_resume_ref = approval_id,
      wi_deadline = isoformat env expires_at, wi_execution_id = ai_execution_id request\<rparr>"

text \<open>A deadline is not an authorization: it is answered like an expired approval.\<close>

definition await_approval ::
  "'w wf_env \<Rightarrow> tool_execution_input \<Rightarrow> string \<Rightarrow> int \<Rightarrow> ('w, approval_status) wf" where
  "await_approval env request approval_id expires_at =
     wf_bind (wf_attempt (durable_wait_run env (deliver_approvals approval_id (ai_operation_id request))
                (approval_wait env request approval_id expires_at) (Some (approval_probe env request approval_id))
                new_wait)) (\<lambda>r.
       case r of
         Inr (Some authoritative) \<Rightarrow> wf_return (ax_status authoritative)
       | Inr None \<Rightarrow> wf_raise (Plain (RuntimeError ''AttributeError''))
       | Inl e \<Rightarrow> if e = Plain TimeoutError then wf_return Approval_Expired else wf_raise e)"

definition approval_deadline :: "'w wf_env \<Rightarrow> tool_execution_result \<Rightarrow> ('w, int) wf" where
  "approval_deadline env result =
     (case tx_approval_expires_at result of
        Some (c # cs) \<Rightarrow> wf_of_res (need (ValueError ''Invalid isoformat string'') (fromisoformat env (c # cs)))
      | _ \<Rightarrow> wf_bind (wf_read (clock env)) (\<lambda>now. wf_return (now + 24 * 60 * 60)))"

definition approved_input :: "tool_execution_input \<Rightarrow> string \<Rightarrow> approved_tool_execution_input" where
  "approved_input request approval_id =
     \<lparr>ai_schema_version = AGENT_SCHEMA_VERSION, ai_run_id = ai_run_id request, ai_account_id = ai_account_id request,
      ai_operation_id = ai_operation_id request, ai_lease_token = 0, ai_execution_id = ai_execution_id request,
      ai_execution_attempt = 1, ap_approval_id = approval_id, ap_transcript_id = te_transcript_id request,
      ap_transcript_version = te_transcript_version request,
      ap_tool_call_id = tc_tool_call_id (te_tool_call request), ap_tool_name = tc_name (te_tool_call request)\<rparr>"

section \<open>The Workflow\<close>

definition delegated ::
  "string \<Rightarrow> (tool_execution_input \<Rightarrow> 'w \<Rightarrow> (wf_exn + tool_execution_result) \<times> 'w) \<Rightarrow> tool_execution_input \<Rightarrow>
   ('w, tool_execution_result) wf" where
  "delegated wid child request =
     wf_bind (as_child wid (wf_perform (child request))) (\<lambda>r.
     wf_bind (wf_emit (Child_Answered r)) (\<lambda>_. wf_return r))"

definition needs_approval :: "tool_execution_result \<Rightarrow> string option" where
  "needs_approval result =
     (if tx_approval_status result \<noteq> ''pending'' then None
      else case tx_approval_id result of Some (c # cs) \<Rightarrow> Some (c # cs) | _ \<Rightarrow> None)"

definition approved_result ::
  "tool_execution_result \<Rightarrow> string \<Rightarrow> approved_tool_execution_result \<Rightarrow> tool_execution_result" where
  "approved_result result approval_id executed =
     \<lparr>tx_schema_version = tx_schema_version result, tx_operation_id = tx_operation_id result,
      tx_result_ref = ay_result_ref executed, tx_transcript_version = ay_transcript_version executed,
      tx_display_summary = ay_display_summary executed, tx_approval_id = Some approval_id,
      tx_approval_status = ''approved'', tx_approval_expires_at = tx_approval_expires_at result,
      tx_tool_success = None\<rparr>"

definition refused_result :: "tool_execution_result \<Rightarrow> string \<Rightarrow> approval_status \<Rightarrow> tool_execution_result" where
  "refused_result result approval_id status =
     result\<lparr>tx_approval_id := Some approval_id, tx_approval_status := approval_status_text status,
            tx_tool_success := None\<rparr>"

definition run_tool :: "'w wf_env \<Rightarrow> tool_execution_input \<Rightarrow> ('w, tool_execution_result) wf" where
  "run_tool env request =
     (let name = tc_name (te_tool_call request) in
      if take (length CAPABILITY_TOOL_PREFIX) name = CAPABILITY_TOOL_PREFIX
      then delegated (''hpagent-invocation-'' @ ai_operation_id request) (capability_child env) request
      else if name = DELEGATE_TOOL
      then delegated (''hpagent-delegation-'' @ ai_execution_id request) (delegation_child env) request
      else
        wf_bind (execute_segment env (tool_activity env) request (default_retry 3)) (\<lambda>result.
          case needs_approval result of
            None \<Rightarrow> wf_return result
          | Some approval_id \<Rightarrow>
              wf_bind (approval_deadline env result) (\<lambda>expires_at.
              wf_bind (await_approval env request approval_id expires_at) (\<lambda>status.
                if status = Approved
                then wf_bind (execute_segment env (approved_activity env) (approved_input request approval_id)
                                (default_retry 3)) (\<lambda>executed.
                     wf_return (approved_result result approval_id executed))
                else wf_return (refused_result result approval_id status)))))"

end
