(* ===== verification/Agent_Loop.thy ===== *)
theory Agent_Loop
  imports Tool_Workflow
begin

text \<open>
  The loops of model decisions and tool calls: the ReAct Workflow (\<open>agent_workflows/react.py\<close>) and the
  Workflow of one plan step (\<open>agent_workflows/agent_step.py\<close>). Both run up to \<open>max_turns\<close> turns, ended by a
  final decision, and ask for a forced final answer when the turns are used up; they differ in the inputs
  they build, which \<open>agent_turns\<close> takes as arguments. Log records are left out.
\<close>

section \<open>Retry policies and activities\<close>

definition READ_RETRY :: retry_policy where
  "READ_RETRY = \<lparr>rp_initial_interval = 1, rp_backoff_coefficient = 2, rp_maximum_interval = Some 10,
     rp_maximum_attempts = 5, rp_non_retryable_error_types = []\<rparr>"

definition MODEL_RETRY :: retry_policy where
  "MODEL_RETRY = \<lparr>rp_initial_interval = 2, rp_backoff_coefficient = 2, rp_maximum_interval = Some 20,
     rp_maximum_attempts = 3, rp_non_retryable_error_types = []\<rparr>"

definition context_activity :: "'w wf_env \<Rightarrow> ('w, _, context_bootstrap_result) segment_activity" where
  "context_activity env = \<lparr>run_act = context_act env, as_dispatch = Do_Context, as_answer = Context_Done\<rparr>"

definition decision_activity :: "'w wf_env \<Rightarrow> ('w, _, model_decision_result) segment_activity" where
  "decision_activity env = \<lparr>run_act = decision_act env, as_dispatch = Do_Decision, as_answer = Decision_Done\<rparr>"

section \<open>The request\<close>

text \<open>\<open>ApplicationError(message, non_retryable=True)\<close> has no type: the empty string.\<close>

definition validate_request :: "agent_run_input \<Rightarrow> unit res" where
  "validate_request request =
     ensure (ar_schema_version request = AGENT_SCHEMA_VERSION) (ApplicationError '''' True)
     (ensure (ar_run_id request \<noteq> [] \<and> ar_account_id request \<noteq> [] \<and> ar_execution_id request \<noteq> []
              \<and> rs_source_kind (ar_source request) \<noteq> [] \<and> rs_source_ref (ar_source request) \<noteq> [])
       (ApplicationError '''' True)
     (ensure (ar_max_turns request \<ge> 1) (ApplicationError '''' True) (Inr ())))"

definition bootstrap_input :: "agent_run_input \<Rightarrow> context_bootstrap_input" where
  "bootstrap_input request =
     \<lparr>ai_schema_version = AGENT_SCHEMA_VERSION, ai_run_id = ar_run_id request, ai_account_id = ar_account_id request,
      ai_operation_id = ar_execution_id request @ '':'' @ ar_strategy request @ '':context'', ai_lease_token = 0,
      ai_execution_id = ar_execution_id request, ai_execution_attempt = 1, cb_source = ar_source request,
      cb_context = ar_context request, cb_strategy = ar_strategy request\<rparr>"

definition bootstrap :: "'w wf_env \<Rightarrow> agent_run_input \<Rightarrow> ('w, context_bootstrap_result) wf" where
  "bootstrap env request = execute_segment env (context_activity env) (bootstrap_input request) READ_RETRY"

section \<open>Turns\<close>

primrec run_tool_calls ::
  "compact_tool_call list \<Rightarrow> 'w wf_env \<Rightarrow> (int \<Rightarrow> compact_tool_call \<Rightarrow> tool_execution_input) \<Rightarrow> int \<Rightarrow> ('w, int) wf" where
  "run_tool_calls [] env tool version = wf_return version"
| "run_tool_calls (call # calls) env tool version =
     (let input = tool version call in
      wf_bind (as_child (tool_execution_workflow_id (sha256_hex env) (ai_run_id input) (ai_operation_id input))
                 (run_tool env input)) (\<lambda>result.
        run_tool_calls calls env tool (tx_transcript_version result)))"

datatype turns_result =
    Answer_Found string int int  \<comment> \<open>the decision's reference, the transcript version, the tool turns\<close>
  | Turns_Used_Up int int

primrec agent_turns ::
  "nat \<Rightarrow> 'w wf_env \<Rightarrow> (int \<Rightarrow> int \<Rightarrow> model_decision_input) \<Rightarrow> (int \<Rightarrow> int \<Rightarrow> compact_tool_call \<Rightarrow> tool_execution_input) \<Rightarrow>
   int \<Rightarrow> int \<Rightarrow> int \<Rightarrow> ('w, turns_result) wf" where
  "agent_turns 0 env decide tool turn version tool_turns = wf_return (Turns_Used_Up version tool_turns)"
| "agent_turns (Suc n) env decide tool turn version tool_turns =
     wf_bind (execute_segment env (decision_activity env) (decide turn version) MODEL_RETRY) (\<lambda>decision.
       if mr_decision_type decision = Final
       then wf_return (Answer_Found (mr_decision_ref decision) (mr_transcript_version decision) tool_turns)
       else wf_bind (run_tool_calls (mr_tool_calls decision) env (tool turn) (mr_transcript_version decision))
              (\<lambda>version'. agent_turns n env decide tool (turn + 1) version' (tool_turns + 1)))"

section \<open>ReAct\<close>

definition react_decision ::
  "agent_run_input \<Rightarrow> string \<Rightarrow> string \<Rightarrow> bool \<Rightarrow> int \<Rightarrow> int \<Rightarrow> model_decision_input" where
  "react_decision request transcript_id kind final_only turn version =
     \<lparr>ai_schema_version = AGENT_SCHEMA_VERSION, ai_run_id = ar_run_id request, ai_account_id = ar_account_id request,
      ai_operation_id = ar_execution_id request @ '':react:turn:'' @ show_int turn @ '':'' @ kind,
      ai_lease_token = 0, ai_execution_id = ar_execution_id request, ai_execution_attempt = 1,
      md_source = ar_source request, md_context = ar_context request, md_strategy = ar_strategy request,
      md_transcript_id = transcript_id, md_transcript_version = version, md_turn = turn, md_objective = None,
      md_final_only = final_only, md_plan_id = None, md_plan_version = None, md_step_id = None\<rparr>"

definition react_tool ::
  "agent_run_input \<Rightarrow> string \<Rightarrow> int \<Rightarrow> int \<Rightarrow> compact_tool_call \<Rightarrow> tool_execution_input" where
  "react_tool request transcript_id turn version call =
     \<lparr>ai_schema_version = AGENT_SCHEMA_VERSION, ai_run_id = ar_run_id request, ai_account_id = ar_account_id request,
      ai_operation_id = ar_execution_id request @ '':react:turn:'' @ show_int turn @ '':tool:'' @ tc_tool_call_id call,
      ai_lease_token = 0, ai_execution_id = ar_execution_id request, ai_execution_attempt = 1,
      te_source = ar_source request, te_context = ar_context request, te_strategy = ar_strategy request,
      te_transcript_id = transcript_id, te_transcript_version = version, te_turn = turn, te_tool_call = call,
      te_plan_id = None, te_plan_version = None, te_step_id = None\<rparr>"

definition make_agent_result :: "agent_run_input \<Rightarrow> string \<Rightarrow> string \<Rightarrow> int \<Rightarrow> int \<Rightarrow> agent_result" where
  "make_agent_result request ref transcript_id version tool_turns =
     \<lparr>re_schema_version = AGENT_SCHEMA_VERSION, re_run_id = ar_run_id request, re_result_ref = ref,
      re_transcript_id = transcript_id, re_transcript_version = version, re_tool_turns = tool_turns\<rparr>"

definition react_run :: "'w wf_env \<Rightarrow> agent_run_input \<Rightarrow> ('w, agent_result) wf" where
  "react_run env request =
     wf_bind (wf_of_res (validate_request request)) (\<lambda>_.
     wf_bind (bootstrap env request) (\<lambda>context.
       let tid = cr_transcript_id context in
       wf_bind (agent_turns (nat (ar_max_turns request)) env (react_decision request tid ''model'' False)
                  (react_tool request tid) 1 (cr_transcript_version context) 0) (\<lambda>out.
         case out of
           Answer_Found ref version tool_turns \<Rightarrow>
             wf_return (make_agent_result request ref tid version tool_turns)
         | Turns_Used_Up version tool_turns \<Rightarrow>
             wf_bind (execute_segment env (decision_activity env)
                        (react_decision request tid ''forced-final'' True (ar_max_turns request + 1) version)
                        MODEL_RETRY) (\<lambda>final.
             wf_return (make_agent_result request (mr_decision_ref final) tid (mr_transcript_version final)
                          tool_turns)))))"

section \<open>One step of a plan\<close>

definition step_operation :: "agent_step_input \<Rightarrow> string \<Rightarrow> string" where
  "step_operation request suffix =
     ar_execution_id (st_agent request) @ '':plan:'' @ show_int (st_plan_version request) @ '':step:'' @
     ps_step_id (st_step request) @ '':'' @ suffix"

definition step_decision ::
  "agent_step_input \<Rightarrow> (int \<Rightarrow> string) \<Rightarrow> bool \<Rightarrow> int \<Rightarrow> int \<Rightarrow> model_decision_input" where
  "step_decision request suffix final_only turn version =
     (let agent = st_agent request in
      \<lparr>ai_schema_version = AGENT_SCHEMA_VERSION, ai_run_id = ar_run_id agent, ai_account_id = ar_account_id agent,
       ai_operation_id = step_operation request (suffix turn),
       ai_lease_token = 0, ai_execution_id = ar_execution_id agent, ai_execution_attempt = 1,
       md_source = ar_source agent, md_context = ar_context agent, md_strategy = ar_strategy agent,
       md_transcript_id = st_transcript_id request, md_transcript_version = version, md_turn = turn,
       md_objective = Some (ps_objective (st_step request)), md_final_only = final_only,
       md_plan_id = Some (st_plan_id request), md_plan_version = Some (st_plan_version request),
       md_step_id = Some (ps_step_id (st_step request))\<rparr>)"

definition step_tool :: "agent_step_input \<Rightarrow> int \<Rightarrow> int \<Rightarrow> compact_tool_call \<Rightarrow> tool_execution_input" where
  "step_tool request turn version call =
     (let agent = st_agent request in
      \<lparr>ai_schema_version = AGENT_SCHEMA_VERSION, ai_run_id = ar_run_id agent, ai_account_id = ar_account_id agent,
       ai_operation_id = step_operation request (''turn:'' @ show_int turn @ '':tool:'' @ tc_tool_call_id call),
       ai_lease_token = 0, ai_execution_id = ar_execution_id agent, ai_execution_attempt = 1,
       te_source = ar_source agent, te_context = ar_context agent, te_strategy = ar_strategy agent,
       te_transcript_id = st_transcript_id request, te_transcript_version = version, te_turn = turn,
       te_tool_call = call, te_plan_id = Some (st_plan_id request),
       te_plan_version = Some (st_plan_version request), te_step_id = Some (ps_step_id (st_step request))\<rparr>)"

definition make_step_result :: "agent_step_input \<Rightarrow> string \<Rightarrow> int \<Rightarrow> int \<Rightarrow> agent_step_result" where
  "make_step_result request ref version tool_turns =
     \<lparr>sr_schema_version = AGENT_SCHEMA_VERSION, sr_step_id = ps_step_id (st_step request), sr_result_ref = ref,
      sr_transcript_version = version, sr_tool_turns = tool_turns\<rparr>"

definition step_run :: "'w wf_env \<Rightarrow> agent_step_input \<Rightarrow> ('w, agent_step_result) wf" where
  "step_run env request =
     wf_bind (wf_of_res (validate_request (st_agent request))) (\<lambda>_.
     wf_bind (agent_turns (nat (st_max_turns request)) env
                (step_decision request (\<lambda>turn. ''turn:'' @ show_int turn @ '':model'') False)
                (step_tool request) 1 (st_transcript_version request) 0) (\<lambda>out.
       case out of
         Answer_Found ref version tool_turns \<Rightarrow> wf_return (make_step_result request ref version tool_turns)
       | Turns_Used_Up version tool_turns \<Rightarrow>
           wf_bind (execute_segment env (decision_activity env)
                      (step_decision request (\<lambda>_. ''forced-final'') True (st_max_turns request + 1) version)
                      MODEL_RETRY) (\<lambda>final.
           wf_return (make_step_result request (mr_decision_ref final) (mr_transcript_version final) tool_turns))))"

end
