(* ===== verification/Plan_Workflow.thy ===== *)
theory Plan_Workflow
  imports Agent_Loop
begin

text \<open>
  Plan-and-Execute (\<open>agent_workflows/plan_execute.py\<close>) and the router between the strategies
  (\<open>agent_workflows/agent_run.py\<close>). A plan is executed step by step, each step evaluated; an evaluation
  may continue, complete, fail or ask for a new plan, at most three times.
\<close>

definition planning_activity :: "'w wf_env \<Rightarrow> ('w, _, planning_result) segment_activity" where
  "planning_activity env = \<lparr>run_act = planning_act env, as_dispatch = Do_Planning, as_answer = Planning_Done\<rparr>"

definition evaluation_activity :: "'w wf_env \<Rightarrow> ('w, _, plan_evaluation_result) segment_activity" where
  "evaluation_activity env =
     \<lparr>run_act = evaluation_act env, as_dispatch = Do_Evaluation, as_answer = Evaluation_Done\<rparr>"

section \<open>Inputs\<close>

definition plan_operation :: "agent_run_input \<Rightarrow> int \<Rightarrow> string \<Rightarrow> string" where
  "plan_operation request plan_version suffix =
     ar_execution_id request @ '':plan:'' @ show_int plan_version @ '':'' @ suffix"

definition first_planning :: "agent_run_input \<Rightarrow> string \<Rightarrow> string \<Rightarrow> int \<Rightarrow> int \<Rightarrow> planning_input" where
  "first_planning request plan_id transcript_id version plan_version =
     \<lparr>ai_schema_version = AGENT_SCHEMA_VERSION, ai_run_id = ar_run_id request, ai_account_id = ar_account_id request,
      ai_operation_id = plan_operation request plan_version ''planner'', ai_lease_token = 0,
      ai_execution_id = ar_execution_id request, ai_execution_attempt = 1, pi_source = ar_source request,
      pi_context = ar_context request, pi_transcript_id = transcript_id, pi_transcript_version = version,
      pi_plan_id = plan_id, pi_plan_version = plan_version, pi_previous_plan_ref = None,
      pi_previous_plan_version = None, pi_completed_step_refs = [], pi_trigger_step_id = None,
      pi_evaluation_reason = None\<rparr>"

definition next_planning ::
  "agent_run_input \<Rightarrow> string \<Rightarrow> string \<Rightarrow> int \<Rightarrow> int \<Rightarrow> string list \<Rightarrow> plan_step \<Rightarrow> string \<Rightarrow> planning_input" where
  "next_planning request plan_id transcript_id version plan_version refs step reason =
     (first_planning request plan_id transcript_id version plan_version)
       \<lparr>pi_previous_plan_ref := Some (''agent-plan:'' @ plan_id @ '':v'' @ show_int (plan_version - 1)),
        pi_previous_plan_version := Some (plan_version - 1), pi_completed_step_refs := refs,
        pi_trigger_step_id := Some (ps_step_id step), pi_evaluation_reason := Some reason\<rparr>"

definition evaluation_input ::
  "agent_run_input \<Rightarrow> string \<Rightarrow> string \<Rightarrow> int \<Rightarrow> int \<Rightarrow> plan_step \<Rightarrow> int \<Rightarrow> int \<Rightarrow> plan_evaluation_input" where
  "evaluation_input request plan_id transcript_id version plan_version step index count =
     \<lparr>ai_schema_version = AGENT_SCHEMA_VERSION, ai_run_id = ar_run_id request, ai_account_id = ar_account_id request,
      ai_operation_id = plan_operation request plan_version (''step:'' @ ps_step_id step @ '':evaluation''),
      ai_lease_token = 0, ai_execution_id = ar_execution_id request, ai_execution_attempt = 1,
      pe_source = ar_source request, pe_context = ar_context request, pe_transcript_id = transcript_id,
      pe_transcript_version = version, pe_plan_id = plan_id, pe_plan_version = plan_version,
      pe_step_id = ps_step_id step, pe_step_index = index, pe_step_count = count\<rparr>"

text \<open>The objective of the synthesis, in UTF-8.\<close>

definition SYNTHESIS_OBJECTIVE :: string where
  "SYNTHESIS_OBJECTIVE = map char_of
     [231, 187, 188, 229, 144, 136, 230, 137, 128, 230, 156, 137, 229, 183, 178, 229, 174, 140, 230, 136,
     144, 230, 173, 165, 233, 170, 164, 239, 188, 140, 231, 155, 180, 230, 142, 165, 229, 155, 158, 231,
     173, 148, 231, 148, 168, 230, 136, 183, 230, 156, 128, 229, 136, 157, 231, 154, 132, 233, 151, 174,
     233, 162, 152, 227, 128, 130 :: nat]"

definition synthesis_input :: "agent_run_input \<Rightarrow> string \<Rightarrow> string \<Rightarrow> int \<Rightarrow> int \<Rightarrow> int \<Rightarrow> model_decision_input" where
  "synthesis_input request plan_id transcript_id version plan_version turn =
     \<lparr>ai_schema_version = AGENT_SCHEMA_VERSION, ai_run_id = ar_run_id request, ai_account_id = ar_account_id request,
      ai_operation_id = plan_operation request plan_version ''synthesis'', ai_lease_token = 0,
      ai_execution_id = ar_execution_id request, ai_execution_attempt = 1,
      md_source = ar_source request, md_context = ar_context request, md_strategy = ar_strategy request,
      md_transcript_id = transcript_id, md_transcript_version = version, md_turn = turn,
      md_objective = Some SYNTHESIS_OBJECTIVE, md_final_only = True, md_plan_id = Some plan_id,
      md_plan_version = Some plan_version, md_step_id = None\<rparr>"

definition step_input :: "agent_run_input \<Rightarrow> string \<Rightarrow> string \<Rightarrow> int \<Rightarrow> int \<Rightarrow> plan_step \<Rightarrow> agent_step_input" where
  "step_input request plan_id transcript_id version plan_version step =
     \<lparr>st_schema_version = AGENT_SCHEMA_VERSION, st_agent = request, st_transcript_id = transcript_id,
      st_transcript_version = version, st_plan_id = plan_id, st_plan_version = plan_version, st_step = step,
      st_max_turns = 8\<rparr>"

section \<open>The steps of one plan\<close>

datatype plan_outcome =
    Plan_Answered agent_result
  | Plan_Replan plan_step string int int "string list"
  | Plan_Finished int int "string list"

definition is_main_response :: "string \<Rightarrow> bool" where
  "is_main_response ref \<longleftrightarrow> take 14 ref = ''main-response:''"

primrec plan_steps ::
  "plan_step list \<Rightarrow> 'w wf_env \<Rightarrow> agent_run_input \<Rightarrow> string \<Rightarrow> string \<Rightarrow> int \<Rightarrow> int \<Rightarrow> int \<Rightarrow> int \<Rightarrow> int \<Rightarrow> string list \<Rightarrow>
   ('w, plan_outcome) wf" where
  "plan_steps [] env request plan_id tid plan_version count index version tool_turns refs =
     wf_return (Plan_Finished version tool_turns refs)"
| "plan_steps (step # steps) env request plan_id tid plan_version count index version tool_turns refs =
     wf_bind (as_child (''hpagent-agent-step-'' @ ar_execution_id request @ ''-'' @ show_int plan_version @ ''-'' @
                        ps_step_id step)
                (step_run env (step_input request plan_id tid version plan_version step))) (\<lambda>result.
       let version' = sr_transcript_version result; ref = sr_result_ref result;
           turns' = tool_turns + sr_tool_turns result; refs' = refs @ [ref] in
       if is_main_response ref
       then wf_return (Plan_Answered (make_agent_result request ref tid version' turns'))
       else
         wf_bind (execute_segment env (evaluation_activity env)
                    (evaluation_input request plan_id tid version' plan_version step index count) MODEL_RETRY)
           (\<lambda>evaluation.
             case pv_decision evaluation of
               Fail \<Rightarrow> wf_raise (Plain (ApplicationError ''plan_evaluation_failed'' True))
             | Replan \<Rightarrow> wf_return (Plan_Replan step (pv_reason evaluation) version' turns' refs')
             | Complete \<Rightarrow> wf_return (Plan_Finished version' turns' refs')
             | Continue \<Rightarrow> plan_steps steps env request plan_id tid plan_version count (index + 1) version' turns' refs'))"

section \<open>Plans\<close>

function plan_rounds ::
  "'w wf_env \<Rightarrow> agent_run_input \<Rightarrow> string \<Rightarrow> string \<Rightarrow> planning_result \<Rightarrow> int \<Rightarrow> int \<Rightarrow> int \<Rightarrow> int \<Rightarrow> string list \<Rightarrow>
   ('w, agent_result) wf" where
  "plan_rounds env request plan_id tid plan plan_version replan_count version tool_turns refs =
     wf_bind (plan_steps (pr_steps plan) env request plan_id tid plan_version (int (length (pr_steps plan))) 1
                version tool_turns refs) (\<lambda>out.
       case out of
         Plan_Answered result \<Rightarrow> wf_return result
       | Plan_Finished version' turns' refs' \<Rightarrow>
           wf_bind (execute_segment env (decision_activity env)
                      (synthesis_input request plan_id tid version' plan_version (int (length (pr_steps plan)) + 1))
                      MODEL_RETRY) (\<lambda>final.
           wf_return (make_agent_result request (mr_decision_ref final) tid (mr_transcript_version final) turns'))
       | Plan_Replan step reason version' turns' refs' \<Rightarrow>
           if replan_count + 1 > 3
           then wf_raise (Plain (ApplicationError ''plan_replan_limit_reached'' True))
           else
             wf_bind (execute_segment env (planning_activity env)
                        (next_planning request plan_id tid version' (plan_version + 1) refs' step reason)
                        MODEL_RETRY) (\<lambda>plan'.
               plan_rounds env request plan_id tid plan' (plan_version + 1) (replan_count + 1)
                 (pr_transcript_version plan') turns' refs'))"
  by pat_completeness auto
termination
  by (relation "measure (\<lambda>(_, _, _, _, _, _, replan_count, _, _, _). nat (4 - replan_count))") auto

declare plan_rounds.simps [simp del]

definition plan_run :: "'w wf_env \<Rightarrow> agent_run_input \<Rightarrow> ('w, agent_result) wf" where
  "plan_run env request =
     wf_bind (wf_of_res (validate_request request)) (\<lambda>_.
       let plan_id = ''plan:'' @ ar_execution_id request in
       wf_bind (bootstrap env request) (\<lambda>context.
         let tid = cr_transcript_id context in
         wf_bind (execute_segment env (planning_activity env)
                    (first_planning request plan_id tid (cr_transcript_version context) 1) MODEL_RETRY) (\<lambda>plan.
           plan_rounds env request plan_id tid plan 1 0 (pr_transcript_version plan) 0 [])))"

section \<open>The router\<close>

definition agent_run :: "'w wf_env \<Rightarrow> agent_run_input \<Rightarrow> ('w, agent_result) wf" where
  "agent_run env request =
     wf_bind (wf_of_res (validate_request request)) (\<lambda>_.
       let wid = ''hpagent-agent-'' @ ar_strategy request @ ''-'' @ ar_execution_id request in
       if ar_strategy request = AGENT_STRATEGY_REACT then as_child wid (react_run env request)
       else if ar_strategy request = AGENT_STRATEGY_PLAN then as_child wid (plan_run env request)
       else wf_raise (Plain (ApplicationError ''unsupported_agent_strategy'' True)))"

end
