(* ===== verification/Workflow_Protocol.thy ===== *)
theory Workflow_Protocol
  imports Plan_Workflow
begin

text \<open>
  What the History of an Agent looks like: an automaton that accepts it event by event. It is the abstract
  specification of the Workflows: at most one segment is held, an Activity runs only in the held segment and
  carries its fencing token, nothing waits while a segment is held, every Activity is sent the transcript
  version the last answer reported, and an approved execution follows an authoritative approval.
\<close>

section \<open>The automaton\<close>

fun dispatch_core :: "dispatch \<Rightarrow> activity_input" where
  "dispatch_core (Do_Context q) = activity_input.truncate q"
| "dispatch_core (Do_Decision q) = activity_input.truncate q"
| "dispatch_core (Do_Tool q) = activity_input.truncate q"
| "dispatch_core (Do_Approved q) = activity_input.truncate q"
| "dispatch_core (Do_Planning q) = activity_input.truncate q"
| "dispatch_core (Do_Evaluation q) = activity_input.truncate q"

fun dispatch_version :: "dispatch \<Rightarrow> int option" where
  "dispatch_version (Do_Context q) = None"
| "dispatch_version (Do_Decision q) = Some (md_transcript_version q)"
| "dispatch_version (Do_Tool q) = Some (te_transcript_version q)"
| "dispatch_version (Do_Approved q) = Some (ap_transcript_version q)"
| "dispatch_version (Do_Planning q) = Some (pi_transcript_version q)"
| "dispatch_version (Do_Evaluation q) = Some (pe_transcript_version q)"

fun answer_version :: "answer \<Rightarrow> int option" where
  "answer_version (Context_Done r) = Some (cr_transcript_version r)"
| "answer_version (Decision_Done r) = Some (mr_transcript_version r)"
| "answer_version (Tool_Done r) = Some (tx_transcript_version r)"
| "answer_version (Approved_Done r) = Some (ay_transcript_version r)"
| "answer_version (Planning_Done r) = Some (pr_transcript_version r)"
| "answer_version (Evaluation_Done r) = None"

record protocol =
  held :: "(segment_input \<times> int) option"
  waiting :: "wait_input option"
  asked :: "(string \<times> string) option"
  approvals :: "(string \<times> string) list"
  version :: "int option"

definition start :: protocol where
  "start = \<lparr>held = None, waiting = None, asked = None, approvals = [], version = None\<rparr>"

definition idle :: "protocol \<Rightarrow> bool" where
  "idle p \<longleftrightarrow> held p = None \<and> waiting p = None"

text \<open>What an Activity may be sent now.\<close>

definition permitted :: "protocol \<Rightarrow> dispatch \<Rightarrow> bool" where
  "permitted p d \<longleftrightarrow>
     (dispatch_version d = None \<or> dispatch_version d = version p) \<and>
     (case d of Do_Approved q \<Rightarrow> (ap_approval_id q, ai_operation_id q) \<in> set (approvals p) | _ \<Rightarrow> True)"

definition in_segment :: "protocol \<Rightarrow> activity_input \<Rightarrow> bool" where
  "in_segment p q \<longleftrightarrow>
     (case held p of None \<Rightarrow> False
      | Some (segment, token) \<Rightarrow>
          ai_lease_token q = token \<and> ai_run_id q = si_run_id segment \<and> ai_account_id q = si_account_id segment
          \<and> ai_execution_id q = si_execution_id segment)"

definition moved :: "protocol \<Rightarrow> int option \<Rightarrow> protocol" where
  "moved p v = (case v of None \<Rightarrow> p | Some x \<Rightarrow> p\<lparr>version := Some x\<rparr>)"

definition check :: "bool \<Rightarrow> protocol \<Rightarrow> protocol option" where
  "check b p = (if b then Some p else None)"

fun protocol_step :: "protocol \<Rightarrow> wf_event \<Rightarrow> protocol option" where
  "protocol_step p (Segment_Requested segment) = check (idle p) p"
| "protocol_step p (Segment_Acquired segment token) = check (idle p) (p\<lparr>held := Some (segment, token)\<rparr>)"
| "protocol_step p (Segment_Freed segment) =
     check (waiting p = None \<and> (held p = None \<or> map_option fst (held p) = Some segment)) (p\<lparr>held := None\<rparr>)"
| "protocol_step p (Dispatched d) = check (in_segment p (dispatch_core d) \<and> permitted p d) p"
| "protocol_step p (Answered a) = check (held p \<noteq> None) (moved p (answer_version a))"
| "protocol_step p (Wait_Begun w) = check (idle p) (p\<lparr>waiting := Some w\<rparr>)"
| "protocol_step p (Wait_Finished f) = check (held p = None \<and> waiting p = Some (fw_wait f)) (p\<lparr>waiting := None\<rparr>)"
| "protocol_step p (Probed q) = check (held p = None \<and> waiting p \<noteq> None) (p\<lparr>asked := Some (as_approval_id q, as_operation_id q)\<rparr>)"
| "protocol_step p (Probe_Answered r) =
     (case asked p of None \<Rightarrow> None
      | Some a \<Rightarrow> Some (p\<lparr>asked := None, approvals := (if ax_status r = Approved then a # approvals p else approvals p)\<rparr>))"
| "protocol_step p (Timer_Started t) = check (held p = None) p"
| "protocol_step p (Child_Started wid) = check (idle p) p"
| "protocol_step p (Child_Answered r) = check (idle p) (p\<lparr>version := Some (tx_transcript_version r)\<rparr>)"

fun run_protocol :: "protocol \<Rightarrow> wf_event list \<Rightarrow> protocol option" where
  "run_protocol p [] = Some p"
| "run_protocol p (e # h) = (case protocol_step p e of None \<Rightarrow> None | Some p' \<Rightarrow> run_protocol p' h)"

lemma run_protocol_append:
  "run_protocol p (h @ h') = (case run_protocol p h of None \<Rightarrow> None | Some p' \<Rightarrow> run_protocol p' h')"
  by (induction h arbitrary: p) (auto split: option.splits)

lemma moved_simps [simp]: "moved p None = p" "moved p (Some v) = p\<lparr>version := Some v\<rparr>"
  by (simp_all add: moved_def)

lemma check_Some [simp]: "check b p = Some q \<longleftrightarrow> b \<and> q = p"
  by (auto simp: check_def)

section \<open>Computations under the automaton\<close>

definition watch :: "protocol \<Rightarrow> ('w, 'a) wf \<Rightarrow> (protocol \<Rightarrow> wf_exn + 'a \<Rightarrow> bool) \<Rightarrow> bool" where
  "watch p c Q \<longleftrightarrow> emits c (\<lambda>h r. \<exists>p'. run_protocol p h = Some p' \<and> Q p' r)"

lemma watch_mono: "watch p c P \<Longrightarrow> (\<And>p' r. P p' r \<Longrightarrow> Q p' r) \<Longrightarrow> watch p c Q"
  unfolding watch_def by (erule emits_mono) blast

lemma watch_return: "Q p (Inr a) \<Longrightarrow> watch p (wf_return a) Q"
  unfolding watch_def by (rule emits_return) simp

lemma watch_raise: "Q p (Inl e) \<Longrightarrow> watch p (wf_raise e) Q"
  unfolding watch_def by (rule emits_raise) simp

lemma watch_outcome: "Q p r \<Longrightarrow> watch p (wf_outcome r) Q"
  unfolding watch_def by (rule emits_outcome) simp

lemma watch_perform: "(\<And>r. Q p r) \<Longrightarrow> watch p (wf_perform act) Q"
  unfolding watch_def by (rule emits_perform) simp

lemma watch_draw: "(\<And>a. Q p (Inr a)) \<Longrightarrow> watch p (wf_draw act) Q"
  unfolding watch_def by (rule emits_draw) simp

lemma watch_read: "(\<And>a. Q p (Inr a)) \<Longrightarrow> watch p (wf_read f) Q"
  unfolding watch_def by (rule emits_read) simp

lemma watch_of_res: "(\<And>a. r = Inr a \<Longrightarrow> Q p (Inr a)) \<Longrightarrow> (\<And>e. Q p (Inl e)) \<Longrightarrow> watch p (wf_of_res r) Q"
  unfolding watch_def by (rule emits_of_res) simp_all

lemma watch_emit: "protocol_step p e = Some p' \<Longrightarrow> Q p' (Inr ()) \<Longrightarrow> watch p (wf_emit e) Q"
  unfolding watch_def by (rule emits_emit) simp

lemma watch_bind:
  assumes "watch p c P" "\<And>p' e. P p' (Inl e) \<Longrightarrow> Q p' (Inl e)"
    and "\<And>p' a. P p' (Inr a) \<Longrightarrow> watch p' (k a) Q"
  shows "watch p (wf_bind c k) Q"
  unfolding watch_def
proof (rule emits_bind)
  show "emits c (\<lambda>h r. \<exists>p'. run_protocol p h = Some p' \<and> P p' r)"
    using assms(1) by (simp add: watch_def)
  fix h a
  assume "\<exists>p'. run_protocol p h = Some p' \<and> P p' (Inr a)"
  then obtain p' where p': "run_protocol p h = Some p'" "P p' (Inr a)" by blast
  from assms(3) [OF this(2)] p'(1)
  show "emits (k a) (\<lambda>h' r. \<exists>p'. run_protocol p (h @ h') = Some p' \<and> Q p' r)"
    by (simp add: watch_def run_protocol_append)
qed (use assms(2) in blast)

lemma watch_attempt: "watch p c (\<lambda>p' r. Q p' (Inr r)) \<Longrightarrow> watch p (wf_attempt c) Q"
  unfolding watch_def by (rule emits_attempt)

lemma watch_control: "(\<And>r. Q p r) \<Longrightarrow> watch p (control act) Q"
  unfolding control_def
  by (rule watch_bind [where P = "\<lambda>p' r. p' = p \<and> \<not> isl r"]) (auto intro!: watch_attempt watch_perform watch_outcome)

lemma watch_finally:
  assumes "watch p c P" "\<And>p' r. P p' r \<Longrightarrow> watch p' d (\<lambda>p'' r'. case r' of Inl e \<Rightarrow> Q p'' (Inl e) | Inr u \<Rightarrow> Q p'' r)"
  shows "watch p (wf_finally c d) Q"
  unfolding wf_finally_def
proof (rule watch_bind)
  show "watch p (wf_attempt c) (\<lambda>p' r. case r of Inl e \<Rightarrow> False | Inr r' \<Rightarrow> P p' r')"
    using assms(1) by (intro watch_attempt) simp
  show "watch p' (wf_bind d (\<lambda>_. wf_outcome r)) Q" if "case Inr r of Inl e \<Rightarrow> False | Inr r' \<Rightarrow> P p' r'" for p' r
    using that by (intro watch_bind [OF assms(2)] watch_outcome) simp_all
qed simp

lemma watch_child:
  assumes "idle p" "watch p c P" "\<And>p' a. P p' (Inr a) \<Longrightarrow> Q p' (Inr a)"
    and "\<And>p' e c. P p' (Inl e) \<Longrightarrow> Q p' (Inl (Child_Error c))"
  shows "watch p (as_child wid c) Q"
  unfolding as_child_def
proof (rule watch_bind [OF watch_emit [where Q = "\<lambda>p' r. p' = p \<and> r = Inr ()"]])
  show "protocol_step p (Child_Started wid) = Some p" using assms(1) by simp
  show "watch p' (wf_bind (wf_attempt c) (\<lambda>r. case r of Inl e \<Rightarrow>
      wf_raise (Child_Error (if is_cancelled_exception e then Plain CancelledError else e)) | Inr a \<Rightarrow> wf_return a)) Q"
    if "p' = p \<and> Inr u = Inr ()" for p' and u :: unit
  proof (rule watch_bind)
    show "watch p' (wf_attempt c) (\<lambda>p'' r. case r of Inl e \<Rightarrow> False | Inr r' \<Rightarrow> P p'' r')"
      using that assms(2) by (intro watch_attempt) simp
    show "watch p'' (case r of Inl e \<Rightarrow>
        wf_raise (Child_Error (if is_cancelled_exception e then Plain CancelledError else e)) | Inr a \<Rightarrow> wf_return a) Q"
      if "case Inr r of Inl e \<Rightarrow> False | Inr r' \<Rightarrow> P p'' r'" for p'' r
      using that assms(3,4) by (cases r) (auto intro: watch_raise watch_return)
  qed simp
qed simp_all

section \<open>Induction for the loops\<close>

text \<open>A property of the runs that one iteration keeps, the recursive calls having it, holds of the loop.\<close>

lemma emits_acquire_loop:
  assumes step: "\<And>loop. emits (loop env segment) Q \<Longrightarrow>
     emits (\<lambda>s. wf_bind (wf_emit (Segment_Requested segment)) (\<lambda>_.
     wf_bind (control (acquire_act env segment)) (\<lambda>lease.
       if sl_acquired lease
       then wf_bind (wf_emit (Segment_Acquired segment (sl_fencing_token lease))) (\<lambda>_.
            wf_return (sl_fencing_token lease))
       else wf_bind (wf_emit (Timer_Started 1)) (\<lambda>_.
            wf_bind (wf_perform (sleep_for env 1)) (\<lambda>_. loop env segment)))) s) Q"
  shows "emits (acquire_loop env segment) Q"
proof -
  have "env' = env \<longrightarrow> segment' = segment \<longrightarrow> (\<exists>h. history (snd y) = history s @ h \<and> Q h (fst y))"
    if "acquire_loop env' segment' s = Some y" for env' segment' s y
    using that
  proof (rule acquire_loop.raw_induct [rotated, where P = "\<lambda>env' segment' s y. env' = env \<longrightarrow> segment' = segment \<longrightarrow>
        (\<exists>h. history (snd y) = history s @ h \<and> Q h (fst y))"])
    fix loop :: "'a wf_env \<Rightarrow> segment_input \<Rightarrow> 'a wf_state \<Rightarrow> ((wf_exn + int) \<times> 'a wf_state) option"
      and env' segment' s y
    assume rec: "\<And>env' segment' s y. loop env' segment' s = Some y \<Longrightarrow>
        env' = env \<longrightarrow> segment' = segment \<longrightarrow> (\<exists>h. history (snd y) = history s @ h \<and> Q h (fst y))"
    from rec [of env segment] have "emits (loop env segment) Q" unfolding emits_def by fastforce
    note body = step [of loop, OF this]
    assume run: "wf_bind (wf_emit (Segment_Requested segment')) (\<lambda>_.
     wf_bind (control (acquire_act env' segment')) (\<lambda>lease.
       if sl_acquired lease
       then wf_bind (wf_emit (Segment_Acquired segment' (sl_fencing_token lease))) (\<lambda>_.
            wf_return (sl_fencing_token lease))
       else wf_bind (wf_emit (Timer_Started 1)) (\<lambda>_.
            wf_bind (wf_perform (sleep_for env' 1)) (\<lambda>_. loop env' segment')))) s = Some y"
    show "env' = env \<longrightarrow> segment' = segment \<longrightarrow> (\<exists>h. history (snd y) = history s @ h \<and> Q h (fst y))"
    proof (intro impI)
      assume same: "env' = env" "segment' = segment"
      from run [unfolded same] emitsD [OF body, of s "fst y" "snd y"] show "\<exists>h. history (snd y) = history s @ h \<and> Q h (fst y)"
        by (simp only: prod.collapse)
    qed
  qed
  then show ?thesis unfolding emits_def by fastforce
qed

lemma emits_wait_loop:
  assumes step: "\<And>loop d. (\<And>d. emits (loop env deliver deadline probe d) Q) \<Longrightarrow>
     emits (\<lambda>s. wf_bind (case probe of None \<Rightarrow> wf_return None | Some p \<Rightarrow> p) (\<lambda>value.
     wf_bind (wf_draw (signals env)) (\<lambda>arrived.
       case value of
         Some v \<Rightarrow> wf_return (Wait_Answer v)
       | None \<Rightarrow>
           wf_bind (wf_read (clock env)) (\<lambda>now.
             let remaining = deadline - now; d1 = deliver arrived d in
             if remaining \<le> 0
             then wf_return (case probe of None \<Rightarrow> Wait_Passed | Some _ \<Rightarrow> Wait_Deadline)
             else if dw_generation d1 \<noteq> dw_generation d
             then loop env deliver deadline probe d1
             else
               wf_bind (wf_emit (Timer_Started (min remaining 30))) (\<lambda>_.
               wf_bind (wf_perform (wait_for env (min remaining 30))) (\<lambda>_.
               wf_bind (wf_draw (signals env)) (\<lambda>more.
                 loop env deliver deadline probe (deliver more d1))))))) s) Q"
  shows "emits (wait_loop env deliver deadline probe d) Q"
proof -
  have "env' = env \<longrightarrow> deliver' = deliver \<longrightarrow> deadline' = deadline \<longrightarrow> probe' = probe \<longrightarrow>
      (\<exists>h. history (snd y) = history s @ h \<and> Q h (fst y))"
    if "wait_loop env' deliver' deadline' probe' d' s = Some y" for env' deliver' deadline' probe' d' s y
    using that
  proof (rule wait_loop.raw_induct [rotated, where P = "\<lambda>env' deliver' deadline' probe' d' s y.
        env' = env \<longrightarrow> deliver' = deliver \<longrightarrow> deadline' = deadline \<longrightarrow> probe' = probe \<longrightarrow>
        (\<exists>h. history (snd y) = history s @ h \<and> Q h (fst y))"])
    fix loop :: "'a wf_env \<Rightarrow> (approval_decision_signal list \<Rightarrow> durable_wait \<Rightarrow> durable_wait) \<Rightarrow> int \<Rightarrow>
      ('a, 'b option) wf option \<Rightarrow> durable_wait \<Rightarrow> 'a wf_state \<Rightarrow> ((wf_exn + 'b wait_result) \<times> 'a wf_state) option"
      and env' deliver' deadline' probe' d' s y
    assume rec: "\<And>env' deliver' deadline' probe' d' s y. loop env' deliver' deadline' probe' d' s = Some y \<Longrightarrow>
        env' = env \<longrightarrow> deliver' = deliver \<longrightarrow> deadline' = deadline \<longrightarrow> probe' = probe \<longrightarrow>
        (\<exists>h. history (snd y) = history s @ h \<and> Q h (fst y))"
    have "emits (loop env deliver deadline probe d) Q" for d
      unfolding emits_def using rec [of env deliver deadline probe d] by fastforce
    note body = step [of loop d', OF this]
    assume run: "wf_bind (case probe' of None \<Rightarrow> wf_return None | Some p \<Rightarrow> p) (\<lambda>value.
     wf_bind (wf_draw (signals env')) (\<lambda>arrived.
       case value of
         Some v \<Rightarrow> wf_return (Wait_Answer v)
       | None \<Rightarrow>
           wf_bind (wf_read (clock env')) (\<lambda>now.
             let remaining = deadline' - now; d1 = deliver' arrived d' in
             if remaining \<le> 0
             then wf_return (case probe' of None \<Rightarrow> Wait_Passed | Some _ \<Rightarrow> Wait_Deadline)
             else if dw_generation d1 \<noteq> dw_generation d'
             then loop env' deliver' deadline' probe' d1
             else
               wf_bind (wf_emit (Timer_Started (min remaining 30))) (\<lambda>_.
               wf_bind (wf_perform (wait_for env' (min remaining 30))) (\<lambda>_.
               wf_bind (wf_draw (signals env')) (\<lambda>more.
                 loop env' deliver' deadline' probe' (deliver' more d1))))))) s = Some y"
    show "env' = env \<longrightarrow> deliver' = deliver \<longrightarrow> deadline' = deadline \<longrightarrow> probe' = probe \<longrightarrow>
        (\<exists>h. history (snd y) = history s @ h \<and> Q h (fst y))"
    proof (intro impI)
      assume same: "env' = env" "deliver' = deliver" "deadline' = deadline" "probe' = probe"
      from run [unfolded same] emitsD [OF body, of s "fst y" "snd y"] show "\<exists>h. history (snd y) = history s @ h \<and> Q h (fst y)"
        by (simp only: prod.collapse)
    qed
  qed
  then show ?thesis unfolding emits_def by fastforce
qed

section \<open>Segments\<close>

lemma watch_acquire_loop:
  assumes "idle p"
  shows "watch p (acquire_loop env segment)
     (\<lambda>p' r. p' = (case r of Inl e \<Rightarrow> p | Inr token \<Rightarrow> p\<lparr>held := Some (segment, token)\<rparr>))"
  (is "watch p _ ?Q")
  unfolding watch_def
proof (rule emits_acquire_loop, fold watch_def)
  fix loop :: "'a wf_env \<Rightarrow> segment_input \<Rightarrow> ('a, int) wf"
  assume rec: "watch p (loop env segment) ?Q"
  show "watch p (\<lambda>s. wf_bind (wf_emit (Segment_Requested segment)) (\<lambda>_.
     wf_bind (control (acquire_act env segment)) (\<lambda>lease.
       if sl_acquired lease
       then wf_bind (wf_emit (Segment_Acquired segment (sl_fencing_token lease))) (\<lambda>_.
            wf_return (sl_fencing_token lease))
       else wf_bind (wf_emit (Timer_Started 1)) (\<lambda>_.
            wf_bind (wf_perform (sleep_for env 1)) (\<lambda>_. loop env segment)))) s) ?Q"
  proof (rule watch_bind [OF watch_emit [where Q = "\<lambda>p' r. p' = p \<and> r = Inr ()" and p' = p]])
    fix p' and u :: unit
    assume "p' = p \<and> Inr u = Inr ()"
    then have [simp]: "p' = p" by simp
    show "watch p' (wf_bind (control (acquire_act env segment)) (\<lambda>lease.
       if sl_acquired lease
       then wf_bind (wf_emit (Segment_Acquired segment (sl_fencing_token lease))) (\<lambda>_.
            wf_return (sl_fencing_token lease))
       else wf_bind (wf_emit (Timer_Started 1)) (\<lambda>_.
            wf_bind (wf_perform (sleep_for env 1)) (\<lambda>_. loop env segment)))) ?Q"
    proof (rule watch_bind [OF watch_control [where Q = "\<lambda>p' r. p' = p"]])
      fix p'' lease
      assume [simp]: "p'' = p"
      have "watch p (wf_emit (Segment_Acquired segment (sl_fencing_token lease)))
          (\<lambda>p' r. p' = p\<lparr>held := Some (segment, sl_fencing_token lease)\<rparr> \<and> r = Inr ())"
        using assms by (intro watch_emit) simp_all
      moreover have "watch p (wf_emit (Timer_Started 1)) (\<lambda>p' r. p' = p \<and> r = Inr ())"
        using assms by (intro watch_emit) (simp_all add: idle_def)
      moreover have "watch p (wf_bind (wf_perform (sleep_for env 1)) (\<lambda>_. loop env segment)) ?Q"
        by (rule watch_bind [OF watch_perform [where Q = "\<lambda>p' r. p' = p"]]) (use rec in simp_all)
      ultimately show "watch p'' (if sl_acquired lease
       then wf_bind (wf_emit (Segment_Acquired segment (sl_fencing_token lease))) (\<lambda>_.
            wf_return (sl_fencing_token lease))
       else wf_bind (wf_emit (Timer_Started 1)) (\<lambda>_.
            wf_bind (wf_perform (sleep_for env 1)) (\<lambda>_. loop env segment))) ?Q"
        by (auto elim!: watch_bind intro!: watch_return)
    qed simp_all
  qed (use assms in simp_all)
qed

definition answered :: "protocol \<Rightarrow> answer \<Rightarrow> protocol" where
  "answered p a = moved p (answer_version a)"

definition sound_activity :: "('w, 'z, 'r) segment_activity \<Rightarrow> bool" where
  "sound_activity act \<longleftrightarrow> (\<forall>q. dispatch_core (as_dispatch act q) = activity_input.truncate q)"

lemma answered_simps [simp]:
  "held (answered p a) = held p" "waiting (answered p a) = waiting p" "approvals (answered p a) = approvals p"
  "idle (answered p a) = idle p" "(answered p a)\<lparr>held := k\<rparr> = answered (p\<lparr>held := k\<rparr>) a"
  by (simp_all add: answered_def moved_def idle_def split: option.splits)

lemma permitted_held [simp]: "permitted (p\<lparr>held := k\<rparr>) d = permitted p d"
  by (simp add: permitted_def split: dispatch.splits)

lemma held_restored: "idle p \<Longrightarrow> p\<lparr>held := None\<rparr> = p"
  by (simp add: idle_def)

lemma watch_dispatch_activity:
  assumes "sound_activity act" "permitted p (as_dispatch act q)" "in_segment p (activity_input.truncate q)"
  shows "watch p (dispatch_activity act q) (\<lambda>p' r. p' = (case r of Inl e \<Rightarrow> p | Inr v \<Rightarrow> answered p (as_answer act v)))"
  unfolding dispatch_activity_def
proof (rule watch_bind [OF watch_emit [where Q = "\<lambda>p' r. p' = p \<and> r = Inr ()" and p' = p]])
  show "protocol_step p (Dispatched (as_dispatch act q)) = Some p"
    using assms by (simp add: sound_activity_def)
  fix p' and u :: unit
  assume "p' = p \<and> Inr u = Inr ()"
  then have [simp]: "p' = p" by simp
  show "watch p' (wf_bind (wf_perform (run_act act q)) (\<lambda>r. wf_bind (wf_emit (Answered (as_answer act r)))
      (\<lambda>_. wf_return r))) (\<lambda>p' r. p' = (case r of Inl e \<Rightarrow> p | Inr v \<Rightarrow> answered p (as_answer act v)))"
  proof (rule watch_bind [OF watch_perform [where Q = "\<lambda>p' r. p' = p"]])
    fix p'' r
    assume [simp]: "p'' = p"
    have "protocol_step p (Answered (as_answer act r)) = Some (answered p (as_answer act r))"
      using assms(3) by (auto simp: in_segment_def answered_def split: option.splits)
    then have "watch p (wf_emit (Answered (as_answer act r))) (\<lambda>p' u. p' = answered p (as_answer act r) \<and> u = Inr ())"
      by (rule watch_emit) simp
    then show "watch p'' (wf_bind (wf_emit (Answered (as_answer act r))) (\<lambda>_. wf_return r))
        (\<lambda>p' r. p' = (case r of Inl e \<Rightarrow> p | Inr v \<Rightarrow> answered p (as_answer act v)))"
      unfolding \<open>p'' = p\<close> by (rule watch_bind) (simp_all add: watch_return)
  qed simp_all
qed simp_all

lemma watch_free_segment:
  assumes "waiting p = None" "held p = None \<or> map_option fst (held p) = Some segment"
  shows "watch p (free_segment env segment) (\<lambda>p' r. p' = p\<lparr>held := None\<rparr>)"
  unfolding free_segment_def
  by (rule watch_bind [OF watch_emit [where Q = "\<lambda>p' r. p' = p\<lparr>held := None\<rparr> \<and> r = Inr ()" and p' = "p\<lparr>held := None\<rparr>"]])
    (use assms in \<open>auto intro: watch_control\<close>)

lemma watch_run_segment:
  assumes "idle p" "sound_activity act"
    and "\<And>token k. permitted p (as_dispatch act (q\<lparr>ai_lease_token := token, ai_execution_attempt := k\<rparr>))"
  shows "watch p (run_segment env act q attempt)
    (\<lambda>p' r. idle p' \<and> (\<forall>v. r = Inr (Inr v) \<longrightarrow> p' = answered p (as_answer act v)) \<and> (\<forall>e. r = Inr (Inl e) \<longrightarrow> p' = p))"
  unfolding run_segment_def Let_def
proof (rule watch_bind [OF watch_draw [where Q = "\<lambda>p' r. p' = p"]])
  fix p' sid
  assume [simp]: "p' = p"
  let ?segment = "segment_of q sid"
  let ?inner = "wf_bind (acquire_loop env ?segment) (\<lambda>token.
          wf_bind (wf_attempt (dispatch_activity act (q\<lparr>ai_lease_token := token, ai_execution_attempt := attempt\<rparr>))) (\<lambda>r.
            case r of
              Inr v \<Rightarrow> wf_return (Inr v)
            | Inl (Activity_Error c) \<Rightarrow> wf_return (Inl (Activity_Error c))
            | Inl e \<Rightarrow> wf_raise e))"
  let ?P = "\<lambda>p' r. waiting p' = None \<and> (held p' = None \<or> map_option fst (held p') = Some ?segment) \<and>
     (\<forall>v. r = Inr (Inr v) \<longrightarrow> p'\<lparr>held := None\<rparr> = answered p (as_answer act v)) \<and>
     (\<forall>e. r = Inr (Inl e) \<longrightarrow> p'\<lparr>held := None\<rparr> = p)"
  have inner: "watch p ?inner ?P"
  proof (rule watch_bind [OF watch_acquire_loop [OF assms(1)]])
    fix p1 e
    assume "p1 = (case Inl e of Inl e \<Rightarrow> p | Inr token \<Rightarrow> p\<lparr>held := Some (?segment, token)\<rparr>)"
    then show "?P p1 (Inl e)" using assms(1) by (simp add: idle_def)
  next
    fix p1 token
    assume "p1 = (case Inr token of Inl e \<Rightarrow> p | Inr token \<Rightarrow> p\<lparr>held := Some (?segment, token)\<rparr>)"
    then have p1: "p1 = p\<lparr>held := Some (?segment, token)\<rparr>" by simp
    let ?q = "q\<lparr>ai_lease_token := token, ai_execution_attempt := attempt\<rparr>"
    have act: "watch p1 (dispatch_activity act ?q)
        (\<lambda>p' r. p' = (case r of Inl e \<Rightarrow> p1 | Inr v \<Rightarrow> answered p1 (as_answer act v)))"
      by (rule watch_dispatch_activity)
        (use assms in \<open>simp_all add: p1 in_segment_def segment_of_def activity_input.truncate_def\<close>)
    show "watch p1 (wf_bind (wf_attempt (dispatch_activity act ?q)) (\<lambda>r.
            case r of
              Inr v \<Rightarrow> wf_return (Inr v)
            | Inl (Activity_Error c) \<Rightarrow> wf_return (Inl (Activity_Error c))
            | Inl e \<Rightarrow> wf_raise e)) ?P"
    proof (rule watch_bind)
      show "watch p1 (wf_attempt (dispatch_activity act ?q))
          (\<lambda>p' r. case r of Inl e \<Rightarrow> False | Inr r' \<Rightarrow> p' = (case r' of Inl e \<Rightarrow> p1 | Inr v \<Rightarrow> answered p1 (as_answer act v)))"
        by (rule watch_attempt) (use act in simp)
    next
      fix p2 and r :: "wf_exn + 'c"
      assume "case Inr r of Inl e \<Rightarrow> False | Inr r' \<Rightarrow> p2 = (case r' of Inl e \<Rightarrow> p1 | Inr v \<Rightarrow> answered p1 (as_answer act v))"
      then have p2: "p2 = (case r of Inl e \<Rightarrow> p1 | Inr v \<Rightarrow> answered p1 (as_answer act v))" by simp
      show "watch p2 (case r of
              Inr v \<Rightarrow> wf_return (Inr v)
            | Inl (Activity_Error c) \<Rightarrow> wf_return (Inl (Activity_Error c))
            | Inl e \<Rightarrow> wf_raise e) ?P"
        using assms(1)
        by (auto simp: p2 p1 held_restored idle_def intro!: watch_return watch_raise split: sum.splits wf_exn.splits)
    qed simp
  qed
  show "watch p' (wf_finally ?inner (free_segment env ?segment))
    (\<lambda>p' r. idle p' \<and> (\<forall>v. r = Inr (Inr v) \<longrightarrow> p' = answered p (as_answer act v)) \<and> (\<forall>e. r = Inr (Inl e) \<longrightarrow> p' = p))"
    unfolding \<open>p' = p\<close>
  proof (rule watch_finally [OF inner])
    fix p2 r
    assume "?P p2 r"
    then show "watch p2 (free_segment env ?segment) (\<lambda>p'' r'. case r' of
        Inl e \<Rightarrow> idle p'' \<and> (\<forall>v. Inl e = Inr (Inr v) \<longrightarrow> p'' = answered p (as_answer act v)) \<and> (\<forall>e'. Inl e = Inr (Inl e') \<longrightarrow> p'' = p)
      | Inr u \<Rightarrow> idle p'' \<and> (\<forall>v. r = Inr (Inr v) \<longrightarrow> p'' = answered p (as_answer act v)) \<and> (\<forall>e. r = Inr (Inl e) \<longrightarrow> p'' = p))"
      by (intro watch_mono [OF watch_free_segment]) (auto simp: idle_def split: sum.splits)
  qed
qed (use assms(1) in simp_all)

definition segment_done :: "protocol \<Rightarrow> ('r \<Rightarrow> answer) \<Rightarrow> protocol \<Rightarrow> wf_exn + 'r \<Rightarrow> bool" where
  "segment_done p answer p' r \<longleftrightarrow> idle p' \<and> (\<forall>v. r = Inr v \<longrightarrow> p' = answered p (answer v))"

lemma watch_segment_attempts:
  assumes "idle p" "sound_activity act"
    and "\<And>token k. permitted p (as_dispatch act (q\<lparr>ai_lease_token := token, ai_execution_attempt := k\<rparr>))"
  shows "watch p (segment_attempts n env act q retry attempt) (segment_done p (as_answer act))"
proof (induction n arbitrary: attempt)
  case 0
  then show ?case using assms(1) by (auto simp: segment_done_def intro: watch_raise)
next
  case (Suc n)
  show ?case
    unfolding segment_attempts.simps
  proof (rule watch_bind [OF watch_run_segment [OF assms]])
    fix p1 and r :: "wf_exn + 'c"
    assume p1: "idle p1 \<and> (\<forall>v. Inr r = Inr (Inr v) \<longrightarrow> p1 = answered p (as_answer act v)) \<and> (\<forall>e. Inr r = Inr (Inl e) \<longrightarrow> p1 = p)"
    let ?retry = "wf_bind (wf_emit (Timer_Started (retry_delay retry attempt))) (\<lambda>_.
        wf_bind (wf_perform (sleep_for env (retry_delay retry attempt))) (\<lambda>_. segment_attempts n env act q retry (attempt + 1)))"
    have "watch p ?retry (segment_done p (as_answer act))"
    proof (rule watch_bind [OF watch_emit [where Q = "\<lambda>p' r. p' = p \<and> r = Inr ()" and p' = p]])
      fix p' and u :: unit
      assume "p' = p \<and> Inr u = Inr ()"
      then have [simp]: "p' = p" by simp
      show "watch p' (wf_bind (wf_perform (sleep_for env (retry_delay retry attempt)))
          (\<lambda>_. segment_attempts n env act q retry (attempt + 1))) (segment_done p (as_answer act))"
        by (rule watch_bind [OF watch_perform [where Q = "\<lambda>p' r. p' = p"]])
          (use assms(1) Suc in \<open>auto simp: segment_done_def [of _ _ _ "Inl _"]\<close>)
    qed (use assms(1) in \<open>simp_all add: idle_def\<close>)
    with p1 show "watch p1 (case r of
         Inr v \<Rightarrow> wf_return v
       | Inl error \<Rightarrow>
           (case segment_failure retry error of
              Some e \<Rightarrow> wf_raise e
            | None \<Rightarrow> if attempt = rp_maximum_attempts retry then wf_raise error else ?retry))
       (segment_done p (as_answer act))"
      by (auto simp: segment_done_def intro!: watch_return watch_raise split: sum.splits option.splits)
  qed (simp add: segment_done_def)
qed

lemma watch_execute_segment:
  assumes "idle p" "sound_activity act"
    and "\<And>token k. permitted p (as_dispatch act (q\<lparr>ai_lease_token := token, ai_execution_attempt := k\<rparr>))"
  shows "watch p (execute_segment env act q retry) (segment_done p (as_answer act))"
  unfolding execute_segment_def
  using assms watch_segment_attempts [OF assms] by (auto simp: segment_done_def intro: watch_raise)

section \<open>Results\<close>

text \<open>Every value the computation returns satisfies \<open>R\<close>.\<close>

definition yields :: "('w, 'a) wf \<Rightarrow> ('a \<Rightarrow> bool) \<Rightarrow> bool" where
  "yields c R \<longleftrightarrow> (\<forall>s a s'. c s = Some (Inr a, s') \<longrightarrow> R a)"

lemma yields_bind:
  assumes "yields c P" "\<And>a. P a \<Longrightarrow> yields (k a) R"
  shows "yields (wf_bind c k) R"
  unfolding yields_def
proof (intro allI impI)
  fix s b s'
  assume "wf_bind c k s = Some (Inr b, s')"
  then obtain a s1 where "c s = Some (Inr a, s1)" "k a s1 = Some (Inr b, s')"
    by (auto simp: wf_bind_def split: option.splits sum.splits)
  with assms show "R b" unfolding yields_def by blast
qed

lemma yields_True: "yields c (\<lambda>_. True)"
  by (simp add: yields_def)

lemma yields_return: "R a \<Longrightarrow> yields (wf_return a) R"
  by (simp add: yields_def wf_return_def)

lemma yields_raise: "yields (wf_raise e) R"
  by (simp add: yields_def wf_raise_def)

lemma yields_outcome: "(\<And>a. r = Inr a \<Longrightarrow> R a) \<Longrightarrow> yields (wf_outcome r) R"
  by (simp add: yields_def wf_outcome_def)

lemma yields_attempt: "yields c R \<Longrightarrow> yields (wf_attempt c) (\<lambda>r. \<forall>a. r = Inr a \<longrightarrow> R a)"
  unfolding yields_def wf_attempt_def by (auto split: option.splits)

lemma yields_finally: "yields c R \<Longrightarrow> yields (wf_finally c d) R"
  unfolding wf_finally_def
  by (rule yields_bind [OF yields_attempt], assumption, rule yields_bind [OF yields_True], rule yields_outcome) simp

lemma yields_perform: "(\<And>w a w'. act w = (Inr a, w') \<Longrightarrow> R a) \<Longrightarrow> yields (wf_perform act) R"
  unfolding yields_def wf_perform_def by (auto simp: Let_def split: prod.splits)

definition act_yields :: "('w, 'z, 'r) segment_activity \<Rightarrow> 'z activity_input_scheme \<Rightarrow> ('r \<Rightarrow> bool) \<Rightarrow> bool" where
  "act_yields act q R \<longleftrightarrow>
     (\<forall>token k w v w'. run_act act (q\<lparr>ai_lease_token := token, ai_execution_attempt := k\<rparr>) w = (Inr v, w') \<longrightarrow> R v)"

lemma yields_run_segment:
  assumes "act_yields act q R"
  shows "yields (run_segment env act q attempt) (\<lambda>r. \<forall>v. r = Inr v \<longrightarrow> R v)"
proof -
  have perform: "yields (wf_perform (run_act act (q\<lparr>ai_lease_token := token, ai_execution_attempt := attempt\<rparr>))) R" for token
    using assms by (intro yields_perform) (simp add: act_yields_def, blast)
  have dispatch: "yields (dispatch_activity act (q\<lparr>ai_lease_token := token, ai_execution_attempt := attempt\<rparr>)) R" for token
    unfolding dispatch_activity_def
    by (rule yields_bind [OF yields_True], rule yields_bind [OF perform], rule yields_bind [OF yields_True], rule yields_return)
  have "yields (wf_bind (wf_attempt (dispatch_activity act (q\<lparr>ai_lease_token := token, ai_execution_attempt := attempt\<rparr>))) (\<lambda>r.
            case r of
              Inr v \<Rightarrow> wf_return (Inr v)
            | Inl (Activity_Error c) \<Rightarrow> wf_return (Inl (Activity_Error c))
            | Inl e \<Rightarrow> wf_raise e)) (\<lambda>r. \<forall>v. r = Inr v \<longrightarrow> R v)" for token
    by (rule yields_bind [OF yields_attempt [OF dispatch]])
      (auto intro!: yields_return yields_raise split: sum.splits wf_exn.splits)
  then show ?thesis
    unfolding run_segment_def Let_def
    by (rule yields_bind [OF yields_True, OF yields_finally, OF yields_bind [OF yields_True]])
qed

lemma yields_segment_attempts:
  assumes "act_yields act q R"
  shows "yields (segment_attempts n env act q retry attempt) R"
proof (induction n arbitrary: attempt)
  case 0
  then show ?case by (simp add: yields_raise)
next
  case (Suc n)
  show ?case
    unfolding segment_attempts.simps
    by (rule yields_bind [OF yields_run_segment [OF assms]])
      (auto intro!: yields_return yields_raise yields_bind [OF yields_True] Suc split: sum.splits option.splits)
qed

lemma yields_execute_segment: "act_yields act q R \<Longrightarrow> yields (execute_segment env act q retry) R"
  unfolding execute_segment_def by (simp add: yields_raise yields_segment_attempts)

lemma watch_yields:
  assumes "watch p c Q" "yields c R"
  shows "watch p c (\<lambda>p' r. Q p' r \<and> (\<forall>a. r = Inr a \<longrightarrow> R a))"
  unfolding watch_def emits_def
proof (intro allI impI)
  fix s r s'
  assume run: "c s = Some (r, s')"
  with assms(2) have "\<forall>a. r = Inr a \<longrightarrow> R a" by (auto simp: yields_def)
  with emitsD [OF assms(1) [unfolded watch_def] run]
  show "\<exists>h. history s' = history s @ h \<and> (\<exists>p'. run_protocol p h = Some p' \<and> Q p' r \<and> (\<forall>a. r = Inr a \<longrightarrow> R a))"
    by blast
qed

section \<open>Approvals\<close>

definition in_wait :: "wait_input \<Rightarrow> int option \<Rightarrow> protocol \<Rightarrow> bool" where
  "in_wait w v p \<longleftrightarrow> held p = None \<and> waiting p = Some w \<and> version p = v"

definition probe_done :: "wait_input \<Rightarrow> int option \<Rightarrow> string \<times> string \<Rightarrow> protocol \<Rightarrow> approval_status_result option \<Rightarrow> bool" where
  "probe_done w v aid p r \<longleftrightarrow> in_wait w v p \<and>
     (\<forall>a. r = Some a \<longrightarrow> ax_status a = Approved \<longrightarrow> aid \<in> set (approvals p))"

text \<open>A computation run from any of several states of the automaton.\<close>

lemma emits_watch:
  assumes "\<And>p. I p \<Longrightarrow> watch p c Q" "I p0"
  shows "emits c (\<lambda>h r. \<forall>p. I p \<longrightarrow> (\<exists>p'. run_protocol p h = Some p' \<and> Q p' r))"
  unfolding emits_def
proof (intro allI impI)
  fix s r s'
  assume run: "c s = Some (r, s')"
  from emitsD [OF assms(1) [OF assms(2), unfolded watch_def] run] obtain h where h: "history s' = history s @ h" by blast
  have "\<exists>p'. run_protocol p h = Some p' \<and> Q p' r" if "I p" for p
    using emitsD [OF assms(1) [OF that, unfolded watch_def] run] h by simp
  with h show "\<exists>h. history s' = history s @ h \<and> (\<forall>p. I p \<longrightarrow> (\<exists>p'. run_protocol p h = Some p' \<and> Q p' r))" by blast
qed

lemma watch_emits:
  "emits c (\<lambda>h r. \<forall>p. I p \<longrightarrow> (\<exists>p'. run_protocol p h = Some p' \<and> Q p' r)) \<Longrightarrow> I p \<Longrightarrow> watch p c Q"
  unfolding watch_def by (erule emits_mono) blast

lemma watch_emit_step: "protocol_step p e = Some p' \<Longrightarrow> (\<And>u. watch p' (k u) Q) \<Longrightarrow> watch p (wf_bind (wf_emit e) k) Q"
  by (rule watch_bind [OF watch_emit [where Q = "\<lambda>p'' r. p'' = p' \<and> r = Inr ()"]]) simp_all

lemma watch_draw_step: "(\<And>a. watch p (k a) Q) \<Longrightarrow> watch p (wf_bind (wf_draw act) k) Q"
  by (rule watch_bind [OF watch_draw [where Q = "\<lambda>p' r. p' = p \<and> \<not> isl r"]]) auto

lemma watch_read_step: "(\<And>a. watch p (k a) Q) \<Longrightarrow> watch p (wf_bind (wf_read f) k) Q"
  by (rule watch_bind [OF watch_read [where Q = "\<lambda>p' r. p' = p \<and> \<not> isl r"]]) auto

lemma watch_perform_step: "(\<And>e. Q p (Inl e)) \<Longrightarrow> (\<And>a. watch p (k a) Q) \<Longrightarrow> watch p (wf_bind (wf_perform act) k) Q"
  by (rule watch_bind [OF watch_perform [where Q = "\<lambda>p' r. p' = p"]]) auto

lemma watch_control_step: "(\<And>e. Q p (Inl e)) \<Longrightarrow> (\<And>a. watch p (k a) Q) \<Longrightarrow> watch p (wf_bind (control act) k) Q"
  by (rule watch_bind [OF watch_control [where Q = "\<lambda>p' r. p' = p"]]) auto

lemma watch_of_res_step: "(\<And>e. Q p (Inl e)) \<Longrightarrow> (\<And>a. x = Inr a \<Longrightarrow> watch p (k a) Q) \<Longrightarrow> watch p (wf_bind (wf_of_res x) k) Q"
  by (rule watch_bind [OF watch_of_res [where Q = "\<lambda>p' r. p' = p \<and> (\<forall>a. r = Inr a \<longrightarrow> x = Inr a)"]]) auto

lemma watch_approval_probe:
  assumes "in_wait w v p"
  shows "watch p (approval_probe env request aid)
    (\<lambda>p' r. case r of Inl e \<Rightarrow> in_wait w v p' | Inr a \<Rightarrow> probe_done w v (aid, ai_operation_id request) p' a)"
  unfolding approval_probe_def Let_def
proof (rule watch_emit_step [where p' = "p\<lparr>asked := Some (aid, ai_operation_id request)\<rparr>"])
  show "watch (p\<lparr>asked := Some (aid, ai_operation_id request)\<rparr>) (wf_bind (wf_perform (approval_status_act env
      \<lparr>as_schema_version = AGENT_SCHEMA_VERSION, as_account_id = ai_account_id request,
       as_run_id = ai_run_id request, as_operation_id = ai_operation_id request, as_approval_id = aid\<rparr>)) (\<lambda>authoritative.
      wf_bind (wf_emit (Probe_Answered authoritative)) (\<lambda>_.
      wf_return (if ax_status authoritative \<noteq> Pending then Some authoritative else None))))
    (\<lambda>p' r. case r of Inl e \<Rightarrow> in_wait w v p' | Inr a \<Rightarrow> probe_done w v (aid, ai_operation_id request) p' a)" for u :: unit
    using assms by (auto simp: in_wait_def probe_done_def intro!: watch_perform_step watch_emit_step watch_return)
qed (use assms in \<open>simp add: in_wait_def\<close>)

lemma watch_wait_loop:
  assumes "in_wait w v p"
  shows "watch p (wait_loop env deliver deadline (Some (approval_probe env request aid)) d)
    (\<lambda>p' r. case r of Inr (Wait_Answer a) \<Rightarrow> probe_done w v (aid, ai_operation_id request) p' (Some a) | _ \<Rightarrow> in_wait w v p')"
  (is "watch p _ ?Q")
proof (rule watch_emits [where I = "in_wait w v", OF _ assms], rule emits_wait_loop, goal_cases)
  case (1 loop d)
  have rec: "watch p (loop env deliver deadline (Some (approval_probe env request aid)) d) ?Q" if "in_wait w v p" for p d
    using 1 that by (rule watch_emits)
  show ?case
  proof (rule emits_watch [where I = "in_wait w v", OF _ assms], simp only: option.case, rule watch_bind [OF watch_approval_probe], assumption)
    fix p p' a
    assume "case Inr a of Inl e \<Rightarrow> in_wait w v p' | Inr a \<Rightarrow> probe_done w v (aid, ai_operation_id request) p' a"
    then have p': "probe_done w v (aid, ai_operation_id request) p' a" "in_wait w v p'" by (simp_all add: probe_done_def)
    then have timer: "protocol_step p' (Timer_Started t) = Some p'" for t by (simp add: in_wait_def)
    from p' show "watch p' (wf_bind (wf_draw (signals env)) (\<lambda>arrived.
       case a of
         None \<Rightarrow>
           wf_bind (wf_read (clock env)) (\<lambda>now.
             let remaining = deadline - now; d1 = deliver arrived d in
             if remaining \<le> 0
             then wf_return Wait_Deadline
             else if dw_generation d1 \<noteq> dw_generation d
             then loop env deliver deadline (Some (approval_probe env request aid)) d1
             else
               wf_bind (wf_emit (Timer_Started (min remaining 30))) (\<lambda>_.
               wf_bind (wf_perform (wait_for env (min remaining 30))) (\<lambda>_.
               wf_bind (wf_draw (signals env)) (\<lambda>more.
                 loop env deliver deadline (Some (approval_probe env request aid)) (deliver more d1)))))
       | Some v \<Rightarrow> wf_return (Wait_Answer v))) ?Q"
      by (cases a) (auto simp: Let_def rec
        intro!: watch_draw_step watch_read_step watch_return watch_emit_step [OF timer] watch_perform_step)
  qed simp
qed

lemma watch_wait_body:
  assumes "idle p"
  shows "watch p (wait_body env deliver request (Some (approval_probe env tool aid)) d)
    (\<lambda>p' r. case r of Inr (Wait_Answer a) \<Rightarrow> probe_done request (version p) (aid, ai_operation_id tool) p' (Some a) | _ \<Rightarrow> in_wait request (version p) p')"
  unfolding wait_body_def
proof (rule watch_emit_step)
  show "protocol_step p (Wait_Begun request) = Some (p\<lparr>waiting := Some request\<rparr>)" using assms by simp
  have "in_wait request (version p) (p\<lparr>waiting := Some request\<rparr>)" using assms by (simp add: in_wait_def idle_def)
  then show "watch (p\<lparr>waiting := Some request\<rparr>) (wf_bind (control (begin_wait_act env request)) (\<lambda>_.
     wf_bind (wf_draw (signals env)) (\<lambda>arrived.
     wf_bind (wf_of_res (need (ValueError ''Invalid isoformat string'') (fromisoformat env (wi_deadline request)))) (\<lambda>deadline.
       wait_loop env deliver deadline (Some (approval_probe env tool aid)) (deliver arrived d)))))
    (\<lambda>p' r. case r of Inr (Wait_Answer a) \<Rightarrow> probe_done request (version p) (aid, ai_operation_id tool) p' (Some a) | _ \<Rightarrow> in_wait request (version p) p')"
    for u :: unit
    by (auto intro!: watch_control_step watch_draw_step watch_of_res_step watch_wait_loop)
qed

definition wait_over :: "int option \<Rightarrow> string \<times> string \<Rightarrow> protocol \<Rightarrow> wf_exn + approval_status_result option \<Rightarrow> bool" where
  "wait_over v aid p r \<longleftrightarrow> idle p \<and> version p = v \<and>
     (\<forall>a. r = Inr (Some a) \<longrightarrow> ax_status a = Approved \<longrightarrow> aid \<in> set (approvals p))"

lemma watch_durable_wait:
  assumes "idle p"
  shows "watch p (durable_wait_run env deliver request (Some (approval_probe env tool aid)) d) (wait_over (version p) (aid, ai_operation_id tool))"
  unfolding durable_wait_run_def
proof (rule watch_bind [OF watch_attempt [where Q = "\<lambda>p' r. case r of Inl e \<Rightarrow> False | Inr o' \<Rightarrow>
      (case o' of Inr (Wait_Answer a) \<Rightarrow> probe_done request (version p) (aid, ai_operation_id tool) p' (Some a) | _ \<Rightarrow> in_wait request (version p) p')"]])
  show "watch p (wait_body env deliver request (Some (approval_probe env tool aid)) (d\<lparr>dw_wait_id := Some (wi_wait_id request)\<rparr>))
     (\<lambda>p' r. case Inr r of Inl e \<Rightarrow> False | Inr o' \<Rightarrow>
      (case o' of Inr (Wait_Answer a) \<Rightarrow> probe_done request (version p) (aid, ai_operation_id tool) p' (Some a) | _ \<Rightarrow> in_wait request (version p) p'))"
    using watch_wait_body [OF assms] by simp
next
  fix p1 and r :: "wf_exn + approval_status_result wait_result"
  assume "case Inr r of Inl e \<Rightarrow> False | Inr o' \<Rightarrow>
      (case o' of Inr (Wait_Answer a) \<Rightarrow> probe_done request (version p) (aid, ai_operation_id tool) p1 (Some a) | _ \<Rightarrow> in_wait request (version p) p1)"
  then have post: "in_wait request (version p) p1"
    and granted: "\<And>a. r = Inr (Wait_Answer a) \<Longrightarrow> ax_status a = Approved \<Longrightarrow> (aid, ai_operation_id tool) \<in> set (approvals p1)"
    by (auto simp: probe_done_def split: sum.splits wait_result.splits)
  let ?p2 = "p1\<lparr>waiting := None\<rparr>"
  have p2: "idle ?p2" "version ?p2 = version p" "approvals ?p2 = approvals p1" using post by (simp_all add: in_wait_def idle_def)
  then have fail: "wait_over (version p) (aid, ai_operation_id tool) ?p2 (Inl e)" for e by (simp add: wait_over_def)
  have "wait_value r = Inr (Some a) \<Longrightarrow> r = Inr (Wait_Answer a)" for a by (cases r rule: wait_value.cases) simp_all
  with granted p2 have ok: "wait_over (version p) (aid, ai_operation_id tool) ?p2 (wait_value r)" by (auto simp: wait_over_def)
  show "watch p1 (let finish = \<lparr>fw_wait = request, fw_state = wait_end r\<rparr> in
       wf_bind (wf_emit (Wait_Finished finish)) (\<lambda>_.
       wf_bind (control (finish_wait_act env finish)) (\<lambda>active.
         if wait_end r = Resumed \<and> \<not> active then wf_raise (Plain CancelledError)
         else wf_outcome (wait_value r)))) (wait_over (version p) (aid, ai_operation_id tool))"
    unfolding Let_def
  proof (rule watch_emit_step)
    show "protocol_step p1 (Wait_Finished \<lparr>fw_wait = request, fw_state = wait_end r\<rparr>) = Some ?p2"
      using post by (simp add: in_wait_def)
    show "watch ?p2 (wf_bind (control (finish_wait_act env \<lparr>fw_wait = request, fw_state = wait_end r\<rparr>)) (\<lambda>active.
         if wait_end r = Resumed \<and> \<not> active then wf_raise (Plain CancelledError)
         else wf_outcome (wait_value r))) (wait_over (version p) (aid, ai_operation_id tool))" for u :: unit
      by (rule watch_control_step) (auto intro: fail ok watch_raise watch_outcome)
  qed
qed simp

lemma watch_await_approval:
  assumes "idle p"
  shows "watch p (await_approval env request aid expires)
    (\<lambda>p' r. idle p' \<and> version p' = version p \<and> (r = Inr Approved \<longrightarrow> (aid, ai_operation_id request) \<in> set (approvals p')))"
  unfolding await_approval_def
proof (rule watch_bind [OF watch_attempt [where Q = "\<lambda>p' r. case r of Inl e \<Rightarrow> False | Inr r' \<Rightarrow> wait_over (version p) (aid, ai_operation_id request) p' r'"]])
  fix p' and r :: "wf_exn + approval_status_result option"
  assume "case Inr r of Inl e \<Rightarrow> False | Inr r' \<Rightarrow> wait_over (version p) (aid, ai_operation_id request) p' r'"
  then show "watch p' (case r of
         Inr (Some authoritative) \<Rightarrow> wf_return (ax_status authoritative)
       | Inr None \<Rightarrow> wf_raise (Plain (RuntimeError ''AttributeError''))
       | Inl e \<Rightarrow> if e = Plain TimeoutError then wf_return Approval_Expired else wf_raise e)
    (\<lambda>p' r. idle p' \<and> version p' = version p \<and> (r = Inr Approved \<longrightarrow> (aid, ai_operation_id request) \<in> set (approvals p')))"
    by (auto simp: wait_over_def intro!: watch_return watch_raise split: sum.splits option.splits)
qed (simp_all add: watch_durable_wait assms)

section \<open>Tools\<close>

text \<open>A call that still needs an approval has not touched the transcript.\<close>

definition pending_keeps_version :: "'w wf_env \<Rightarrow> bool" where
  "pending_keeps_version env \<longleftrightarrow>
     (\<forall>q w r w'. tool_act env q w = (Inr r, w') \<longrightarrow> needs_approval r \<noteq> None \<longrightarrow>
        tx_transcript_version r = te_transcript_version q)"

definition ready :: "protocol \<Rightarrow> int \<Rightarrow> bool" where
  "ready p v \<longleftrightarrow> idle p \<and> version p = Some v"

text \<open>Idle at the end, and after a result in the version it reports.\<close>

definition ends_at :: "('a \<Rightarrow> int) \<Rightarrow> protocol \<Rightarrow> wf_exn + 'a \<Rightarrow> bool" where
  "ends_at v p r \<longleftrightarrow> idle p \<and> (\<forall>a. r = Inr a \<longrightarrow> version p = Some (v a))"

lemma ends_at_simps [simp]: "ends_at v p (Inl e) \<longleftrightarrow> idle p" "ends_at v p (Inr a) \<longleftrightarrow> ready p (v a)"
  by (auto simp: ends_at_def ready_def)

lemma ready_idle: "ready p v \<Longrightarrow> idle p"
  by (simp add: ready_def)

lemma ready_answered: "idle p \<Longrightarrow> answer_version a = Some v \<Longrightarrow> ready (answered p a) v"
  by (simp add: ready_def answered_def idle_def)

lemma version_answered: "answer_version a = Some v \<Longrightarrow> version (answered p a) = Some v"
  by (simp add: answered_def)

lemma segment_done_ends_at:
  "segment_done p answer p' r \<Longrightarrow> idle p \<Longrightarrow> (\<And>v. answer_version (answer v) = Some (f v)) \<Longrightarrow> ends_at f p' r"
  by (auto simp: segment_done_def ends_at_def version_answered)

lemma watch_segment_ends:
  assumes "idle p" "sound_activity act" "\<And>v. answer_version (as_answer act v) = Some (f v)"
    and "\<And>token k. permitted p (as_dispatch act (q\<lparr>ai_lease_token := token, ai_execution_attempt := k\<rparr>))"
  shows "watch p (execute_segment env act q retry) (ends_at f)"
  by (rule watch_mono [OF watch_execute_segment [OF assms(1,2,4)] segment_done_ends_at [OF _ assms(1,3)]])

lemmas activity_defs = tool_activity_def approved_activity_def context_activity_def decision_activity_def
  planning_activity_def evaluation_activity_def

lemma sound_activities [simp]:
  "sound_activity (tool_activity env)" "sound_activity (approved_activity env)"
  "sound_activity (context_activity env)" "sound_activity (decision_activity env)"
  "sound_activity (planning_activity env)" "sound_activity (evaluation_activity env)"
  by (simp_all add: sound_activity_def tool_activity_def approved_activity_def context_activity_def
      decision_activity_def planning_activity_def evaluation_activity_def)

lemma watch_delegated: "idle p \<Longrightarrow> watch p (delegated wid child request) (ends_at tx_transcript_version)"
  unfolding delegated_def
  by (rule watch_bind [OF watch_child [where P = "\<lambda>p' r. p' = p" and Q = "\<lambda>p' r. p' = p"]])
    (auto intro!: watch_perform watch_emit_step watch_return simp: ready_def idle_def)

lemma watch_run_tool:
  assumes "pending_keeps_version env" "ready p (te_transcript_version request)"
  shows "watch p (run_tool env request) (ends_at tx_transcript_version)"
proof -
  have idle: "idle p" and v: "version p = Some (te_transcript_version request)" using assms(2) by (simp_all add: ready_def)
  define R where "R = (\<lambda>r. needs_approval r \<noteq> None \<longrightarrow> tx_transcript_version r = te_transcript_version request)"
  have "act_yields (tool_activity env) request R"
    using assms(1) by (auto simp: act_yields_def tool_activity_def pending_keeps_version_def R_def)
  from watch_yields [OF watch_execute_segment yields_execute_segment [OF this], OF idle sound_activities(1)]
  have tool: "watch p (execute_segment env (tool_activity env) request (default_retry 3))
      (\<lambda>p' r. segment_done p Tool_Done p' r \<and> (\<forall>a. r = Inr a \<longrightarrow> R a))"
    using v by (simp add: permitted_def tool_activity_def)
  have "watch p (wf_bind (execute_segment env (tool_activity env) request (default_retry 3)) (\<lambda>result.
          case needs_approval result of
            None \<Rightarrow> wf_return result
          | Some approval_id \<Rightarrow>
              wf_bind (approval_deadline env result) (\<lambda>expires_at.
              wf_bind (await_approval env request approval_id expires_at) (\<lambda>status.
                if status = Approved
                then wf_bind (execute_segment env (approved_activity env) (approved_input request approval_id)
                                (default_retry 3)) (\<lambda>executed.
                     wf_return (approved_result result approval_id executed))
                else wf_return (refused_result result approval_id status))))) (ends_at tx_transcript_version)"
  proof (rule watch_bind [OF tool])
    fix p' result
    assume fin: "segment_done p Tool_Done p' (Inr result) \<and> (\<forall>a. Inr result = Inr a \<longrightarrow> R a)"
    then have p': "ready p' (tx_transcript_version result)" and R: "R result"
      using segment_done_ends_at [of p Tool_Done p' "Inr result" tx_transcript_version] idle by simp_all
    show "watch p' (case needs_approval result of
            None \<Rightarrow> wf_return result
          | Some approval_id \<Rightarrow>
              wf_bind (approval_deadline env result) (\<lambda>expires_at.
              wf_bind (await_approval env request approval_id expires_at) (\<lambda>status.
                if status = Approved
                then wf_bind (execute_segment env (approved_activity env) (approved_input request approval_id)
                                (default_retry 3)) (\<lambda>executed.
                     wf_return (approved_result result approval_id executed))
                else wf_return (refused_result result approval_id status)))) (ends_at tx_transcript_version)"
    proof (cases "needs_approval result")
      case None
      with p' show ?thesis by (simp add: watch_return)
    next
      case (Some aid)
      with R have same: "tx_transcript_version result = te_transcript_version request" by (simp add: R_def)
      have deadline: "watch p' (approval_deadline env result) (\<lambda>p'' r. p'' = p')"
        unfolding approval_deadline_def
        by (auto intro!: watch_of_res watch_read_step watch_return split: option.splits list.splits)
      have wait: "watch p' (await_approval env request aid expires_at) (\<lambda>p'' r. idle p'' \<and> version p'' = version p' \<and>
          (r = Inr Approved \<longrightarrow> (aid, ai_operation_id request) \<in> set (approvals p'')))" for expires_at
        using p' by (intro watch_await_approval) (simp add: ready_def)
      have run: "watch p'' (execute_segment env (approved_activity env) (approved_input request aid) (default_retry 3))
          (ends_at ay_transcript_version)"
        if "idle p''" "version p'' = version p'" "(aid, ai_operation_id request) \<in> set (approvals p'')" for p''
        by (rule watch_segment_ends)
          (use that p' same in \<open>simp_all add: permitted_def activity_defs approved_input_def ready_def sound_activity_def\<close>)
      have last: "watch p'' (if status = Approved
                then wf_bind (execute_segment env (approved_activity env) (approved_input request aid)
                                (default_retry 3)) (\<lambda>executed.
                     wf_return (approved_result result aid executed))
                else wf_return (refused_result result aid status)) (ends_at tx_transcript_version)"
        if "idle p''" "version p'' = version p'" "status = Approved \<longrightarrow> (aid, ai_operation_id request) \<in> set (approvals p'')" for p'' status
      proof (cases "status = Approved")
        case True
        with that run [of p''] show ?thesis
          by (auto intro!: watch_bind [OF run] watch_return simp: approved_result_def)
      next
        case False
        with that p' show ?thesis by (simp add: watch_return ready_def refused_result_def)
      qed
      show ?thesis
        unfolding Some option.case
      proof (rule watch_bind [OF deadline])
        fix p2 expires_at
        assume "p2 = p'"
        show "watch p2 (wf_bind (await_approval env request aid expires_at) (\<lambda>status.
                if status = Approved
                then wf_bind (execute_segment env (approved_activity env) (approved_input request aid)
                                (default_retry 3)) (\<lambda>executed.
                     wf_return (approved_result result aid executed))
                else wf_return (refused_result result aid status))) (ends_at tx_transcript_version)"
          unfolding \<open>p2 = p'\<close>
          by (rule watch_bind [OF wait], simp, rule last) simp_all
      qed (use p' in \<open>simp add: ready_def\<close>)
    qed
  qed (use idle in \<open>auto simp: segment_done_def\<close>)
  with idle show ?thesis by (simp add: run_tool_def Let_def watch_delegated)
qed

end
