(* ===== verification/Agent_Laws.thy ===== *)
theory Agent_Laws
  imports Workflow_Protocol
begin

text \<open>
  The loops of the Agent under the protocol automaton: turns, plan steps, plans and the router keep it, and
  each ends idle, in the transcript version its result reports.
\<close>

section \<open>Turns\<close>

lemma watch_run_tool_calls:
  assumes "pending_keeps_version env" "\<And>v c. te_transcript_version (tool v c) = v" "ready p v"
  shows "watch p (run_tool_calls calls env tool v) (ends_at id)"
  using assms(3)
proof (induction calls arbitrary: p v)
  case Nil
  then show ?case by (simp add: watch_return)
next
  case (Cons call calls)
  show ?case
    unfolding run_tool_calls.simps Let_def
    by (rule watch_bind [OF watch_child [where P = "ends_at tx_transcript_version" and Q = "ends_at tx_transcript_version"]])
      (use Cons assms(1,2) in \<open>auto simp: ready_idle intro: watch_run_tool\<close>)
qed

text \<open>What the turns leave: the version of their outcome.\<close>

fun turns_version :: "turns_result \<Rightarrow> int" where
  "turns_version (Answer_Found ref v tool_turns) = v"
| "turns_version (Turns_Used_Up v tool_turns) = v"

lemma watch_decision:
  assumes "ready p (md_transcript_version q)"
  shows "watch p (execute_segment env (decision_activity env) q retry) (ends_at mr_transcript_version)"
  by (rule watch_segment_ends)
    (use assms in \<open>simp_all add: permitted_def activity_defs ready_def sound_activity_def\<close>)

lemma watch_agent_turns:
  assumes "pending_keeps_version env" "\<And>t v. md_transcript_version (decide t v) = v"
    and "\<And>t v c. te_transcript_version (tool t v c) = v" "ready p v"
  shows "watch p (agent_turns n env decide tool turn v tool_turns) (ends_at turns_version)"
  using assms(4)
proof (induction n arbitrary: p v turn tool_turns)
  case 0
  then show ?case by (simp add: watch_return)
next
  case (Suc n)
  show ?case
    unfolding agent_turns.simps
  proof (rule watch_bind [OF watch_decision])
    show "ready p (md_transcript_version (decide turn v))" using Suc.prems assms(2) by simp
  next
    fix p' d
    assume d: "ends_at mr_transcript_version p' (Inr d)"
    have "watch p' (wf_bind (run_tool_calls (mr_tool_calls d) env (tool turn) (mr_transcript_version d))
        (\<lambda>v'. agent_turns n env decide tool (turn + 1) v' (tool_turns + 1))) (ends_at turns_version)"
      by (rule watch_bind [OF watch_run_tool_calls]) (use d assms(1,3) Suc.IH in simp_all)
    with d show "watch p' (if mr_decision_type d = Final
       then wf_return (Answer_Found (mr_decision_ref d) (mr_transcript_version d) tool_turns)
       else wf_bind (run_tool_calls (mr_tool_calls d) env (tool turn) (mr_transcript_version d))
              (\<lambda>version'. agent_turns n env decide tool (turn + 1) version' (tool_turns + 1))) (ends_at turns_version)"
      by (simp add: watch_return)
  qed simp
qed

section \<open>ReAct and plan steps\<close>

lemma react_versions [simp]:
  "md_transcript_version (react_decision request tid kind final turn v) = v"
  "te_transcript_version (react_tool request tid turn v call) = v"
  by (simp_all add: react_decision_def react_tool_def)

lemma step_versions [simp]:
  "md_transcript_version (step_decision request suffix final turn v) = v"
  "te_transcript_version (step_tool request turn v call) = v"
  by (simp_all add: step_decision_def step_tool_def Let_def)

lemma result_versions [simp]:
  "re_transcript_version (make_agent_result request ref tid v tool_turns) = v"
  "sr_transcript_version (make_step_result step ref v tool_turns) = v"
  by (simp_all add: make_agent_result_def make_step_result_def)

lemma watch_bootstrap: "idle p \<Longrightarrow> watch p (bootstrap env request) (ends_at cr_transcript_version)"
  unfolding bootstrap_def
  by (rule watch_segment_ends) (simp_all add: permitted_def activity_defs sound_activity_def)

text \<open>Turns followed by the forced answer.\<close>

lemma watch_turns_then:
  assumes "pending_keeps_version env" "\<And>t v. md_transcript_version (decide t v) = v"
    and "\<And>t v c. te_transcript_version (tool t v c) = v" "\<And>v. md_transcript_version (forced v) = v" "ready p v"
    and "\<And>ref v tool_turns. ver (mk ref v tool_turns) = v"
  shows "watch p (wf_bind (agent_turns n env decide tool turn v tool_turns) (\<lambda>out.
       case out of
         Answer_Found ref vn tool_turns \<Rightarrow> wf_return (mk ref vn tool_turns)
       | Turns_Used_Up vn tool_turns \<Rightarrow>
           wf_bind (execute_segment env (decision_activity env) (forced vn) retry) (\<lambda>final.
           wf_return (mk (mr_decision_ref final) (mr_transcript_version final) tool_turns)))) (ends_at ver)"
proof (rule watch_bind [OF watch_agent_turns [OF assms(1-3,5)]])
  fix p' out
  assume out: "ends_at turns_version p' (Inr out)"
  show "watch p' (case out of
         Answer_Found ref vn tool_turns \<Rightarrow> wf_return (mk ref vn tool_turns)
       | Turns_Used_Up vn tool_turns \<Rightarrow>
           wf_bind (execute_segment env (decision_activity env) (forced vn) retry) (\<lambda>final.
           wf_return (mk (mr_decision_ref final) (mr_transcript_version final) tool_turns))) (ends_at ver)"
  proof (cases out)
    case (Answer_Found ref v' tt)
    with out assms(6) show ?thesis by (simp add: watch_return)
  next
    case (Turns_Used_Up v' tt)
    with out assms(4) have "watch p' (execute_segment env (decision_activity env) (forced v') retry) (ends_at mr_transcript_version)"
      by (intro watch_decision) simp
    with Turns_Used_Up show ?thesis
      by (auto intro!: watch_return simp: assms(6) elim: watch_bind)
  qed
qed simp

lemma watch_react_run:
  assumes "pending_keeps_version env" "idle p"
  shows "watch p (react_run env request) (ends_at re_transcript_version)"
  unfolding react_run_def Let_def
proof (rule watch_of_res_step, goal_cases)
  case 1
  then show ?case using assms(2) by simp
next
  case (2 u)
  show ?case
    by (rule watch_bind [OF watch_bootstrap [OF assms(2)]], simp, rule watch_turns_then) (use assms(1) in simp_all)
qed

lemma watch_step_run:
  assumes "pending_keeps_version env" "ready p (st_transcript_version request)"
  shows "watch p (step_run env request) (ends_at sr_transcript_version)"
  unfolding step_run_def
proof (rule watch_of_res_step, goal_cases)
  case 1
  then show ?case using assms(2) by (simp add: ready_idle)
next
  case (2 u)
  show ?case by (rule watch_turns_then) (use assms in simp_all)
qed

section \<open>Plans\<close>

fun plan_version_of :: "plan_outcome \<Rightarrow> int" where
  "plan_version_of (Plan_Answered r) = re_transcript_version r"
| "plan_version_of (Plan_Replan step reason v turns refs) = v"
| "plan_version_of (Plan_Finished v turns refs) = v"

lemma watch_evaluation:
  assumes "ready p (pe_transcript_version q)"
  shows "watch p (execute_segment env (evaluation_activity env) q retry)
     (\<lambda>p' r. idle p' \<and> (\<forall>v. r = Inr v \<longrightarrow> ready p' (pe_transcript_version q)))"
  by (rule watch_mono [OF watch_execute_segment])
    (use assms in \<open>auto simp: permitted_def activity_defs ready_def sound_activity_def segment_done_def answered_def\<close>)

lemma watch_planning:
  assumes "ready p (pi_transcript_version q)"
  shows "watch p (execute_segment env (planning_activity env) q retry) (ends_at pr_transcript_version)"
  by (rule watch_segment_ends)
    (use assms in \<open>simp_all add: permitted_def activity_defs ready_def sound_activity_def\<close>)

lemma plan_input_versions [simp]:
  "pi_transcript_version (first_planning request plan_id tid v pv) = v"
  "pi_transcript_version (next_planning request plan_id tid v pv refs step reason) = v"
  "pe_transcript_version (evaluation_input request plan_id tid v pv step index count) = v"
  "md_transcript_version (synthesis_input request plan_id tid v pv turn) = v"
  "st_transcript_version (step_input request plan_id tid v pv step) = v"
  by (simp_all add: first_planning_def next_planning_def evaluation_input_def synthesis_input_def step_input_def)

lemma watch_plan_steps:
  assumes "pending_keeps_version env" "ready p v"
  shows "watch p (plan_steps steps env request plan_id tid pv count index v tool_turns refs) (ends_at plan_version_of)"
  using assms(2)
proof (induction steps arbitrary: p v index tool_turns refs)
  case Nil
  then show ?case by (simp add: watch_return)
next
  case (Cons step steps)
  show ?case
    unfolding plan_steps.simps
  proof (rule watch_bind [OF watch_child [where P = "ends_at sr_transcript_version" and Q = "ends_at sr_transcript_version"]])
    show "idle p" using Cons.prems by (rule ready_idle)
    show "watch p (step_run env (step_input request plan_id tid v pv step)) (ends_at sr_transcript_version)"
      by (rule watch_step_run) (use assms(1) Cons.prems in simp_all)
  next
    fix p' result
    assume result: "ends_at sr_transcript_version p' (Inr result)"
    let ?v = "sr_transcript_version result" and ?ref = "sr_result_ref result"
    let ?turns = "tool_turns + sr_tool_turns result"
    let ?eval = "evaluation_input request plan_id tid ?v pv step index count"
    have "watch p' (wf_bind (execute_segment env (evaluation_activity env) ?eval MODEL_RETRY) (\<lambda>evaluation.
             case pv_decision evaluation of
               Fail \<Rightarrow> wf_raise (Plain (ApplicationError ''plan_evaluation_failed'' True))
             | Replan \<Rightarrow> wf_return (Plan_Replan step (pv_reason evaluation) ?v ?turns (refs @ [?ref]))
             | Complete \<Rightarrow> wf_return (Plan_Finished ?v ?turns (refs @ [?ref]))
             | Continue \<Rightarrow> plan_steps steps env request plan_id tid pv count (index + 1) ?v ?turns (refs @ [?ref])))
          (ends_at plan_version_of)"
      by (rule watch_bind [OF watch_evaluation])
        (use result Cons.IH in \<open>auto intro!: watch_raise watch_return split: plan_decision.split\<close>)
    with result show "watch p' (let version' = ?v; ref = ?ref; turns' = ?turns; refs' = refs @ [ref] in
       if is_main_response ref
       then wf_return (Plan_Answered (make_agent_result request ref tid version' turns'))
       else
         wf_bind (execute_segment env (evaluation_activity env)
                    (evaluation_input request plan_id tid version' pv step index count) MODEL_RETRY)
           (\<lambda>evaluation.
             case pv_decision evaluation of
               Fail \<Rightarrow> wf_raise (Plain (ApplicationError ''plan_evaluation_failed'' True))
             | Replan \<Rightarrow> wf_return (Plan_Replan step (pv_reason evaluation) version' turns' refs')
             | Complete \<Rightarrow> wf_return (Plan_Finished version' turns' refs')
             | Continue \<Rightarrow> plan_steps steps env request plan_id tid pv count (index + 1) version' turns' refs'))
         (ends_at plan_version_of)"
      by (simp add: Let_def watch_return)
  qed simp_all
qed

lemma watch_plan_rounds:
  assumes "pending_keeps_version env" "ready p v"
  shows "watch p (plan_rounds env request plan_id tid plan pv replans v tool_turns refs) (ends_at re_transcript_version)"
  using assms
proof (induction env request plan_id tid plan pv replans v tool_turns refs arbitrary: p rule: plan_rounds.induct)
  case (1 env request plan_id tid plan pv replans v tool_turns refs)
  show ?case
  proof (subst plan_rounds.simps, rule watch_bind [OF watch_plan_steps [OF 1(2,3)]])
    fix p' out
    assume out: "ends_at plan_version_of p' (Inr out)"
    show "watch p' (case out of
         Plan_Answered result \<Rightarrow> wf_return result
       | Plan_Finished version' turns' refs' \<Rightarrow>
           wf_bind (execute_segment env (decision_activity env)
                      (synthesis_input request plan_id tid version' pv (int (length (pr_steps plan)) + 1))
                      MODEL_RETRY) (\<lambda>final.
           wf_return (make_agent_result request (mr_decision_ref final) tid (mr_transcript_version final) turns'))
       | Plan_Replan step reason version' turns' refs' \<Rightarrow>
           if replans + 1 > 3
           then wf_raise (Plain (ApplicationError ''plan_replan_limit_reached'' True))
           else
             wf_bind (execute_segment env (planning_activity env)
                        (next_planning request plan_id tid version' (pv + 1) refs' step reason)
                        MODEL_RETRY) (\<lambda>plan'.
               plan_rounds env request plan_id tid plan' (pv + 1) (replans + 1)
                 (pr_transcript_version plan') turns' refs')) (ends_at re_transcript_version)"
    proof (cases out)
      case (Plan_Answered result)
      with out show ?thesis by (simp add: watch_return)
    next
      case (Plan_Finished v' turns' refs')
      with out have "watch p' (execute_segment env (decision_activity env)
          (synthesis_input request plan_id tid v' pv (int (length (pr_steps plan)) + 1)) MODEL_RETRY)
          (ends_at mr_transcript_version)" by (intro watch_decision) simp
      with Plan_Finished show ?thesis by (auto intro!: watch_return elim: watch_bind)
    next
      case (Plan_Replan step reason v' turns' refs')
      show ?thesis
      proof (cases "replans + 1 > 3")
        case True
        with Plan_Replan out show ?thesis by (simp add: watch_raise ready_idle)
      next
        case False
        have "watch p' (execute_segment env (planning_activity env)
            (next_planning request plan_id tid v' (pv + 1) refs' step reason) MODEL_RETRY) (ends_at pr_transcript_version)"
          using Plan_Replan out by (intro watch_planning) simp
        then have "watch p' (wf_bind (execute_segment env (planning_activity env)
                        (next_planning request plan_id tid v' (pv + 1) refs' step reason)
                        MODEL_RETRY) (\<lambda>plan'.
               plan_rounds env request plan_id tid plan' (pv + 1) (replans + 1)
                 (pr_transcript_version plan') turns' refs')) (ends_at re_transcript_version)"
          by (rule watch_bind) (use 1(1) [OF False 1(2)] in simp_all)
        with Plan_Replan False show ?thesis by simp
      qed
    qed
  qed simp
qed

lemma watch_plan_run:
  assumes "pending_keeps_version env" "idle p"
  shows "watch p (plan_run env request) (ends_at re_transcript_version)"
  unfolding plan_run_def Let_def
proof (rule watch_of_res_step, goal_cases)
  case 1
  then show ?case using assms(2) by simp
next
  case (2 u)
  show ?case
  proof (rule watch_bind [OF watch_bootstrap [OF assms(2)]])
    fix p' ctx
    assume ctx: "ends_at cr_transcript_version p' (Inr ctx)"
    show "watch p' (wf_bind (execute_segment env (planning_activity env)
        (first_planning request (''plan:'' @ ar_execution_id request) (cr_transcript_id ctx)
           (cr_transcript_version ctx) 1) MODEL_RETRY)
      (\<lambda>plan. plan_rounds env request (''plan:'' @ ar_execution_id request) (cr_transcript_id ctx) plan 1 0
         (pr_transcript_version plan) 0 [])) (ends_at re_transcript_version)"
      by (rule watch_bind [OF watch_planning]) (use ctx assms(1) watch_plan_rounds in auto)
  qed simp
qed

section \<open>The router\<close>

lemma watch_agent_run:
  assumes "pending_keeps_version env" "idle p"
  shows "watch p (agent_run env request) (ends_at re_transcript_version)"
  unfolding agent_run_def Let_def
proof (rule watch_of_res_step, goal_cases)
  case 1
  then show ?case using assms(2) by simp
next
  case (2 u)
  then show ?case
    using assms by (auto intro!: watch_raise watch_child watch_react_run watch_plan_run)
qed

end
