(* ===== verification/Workflow_Demo.thy ===== *)
theory Workflow_Demo
  imports Workflow_Protocol
begin

text \<open>
  A small world for the Workflows, to run them on: the clock is the world, leases are granted at once, the
  first decision calls a tool that needs an approval, the approval is granted, the next decision is final,
  a plan has one step and its evaluation completes it. The runs are evaluated by the simplifier; the
  congruences keep it from working on the continuation of a computation before its first part has a value.
\<close>

section \<open>The world\<close>

definition demo_call :: compact_tool_call where
  "demo_call = \<lparr>tc_tool_call_id = ''c1'', tc_name = ''write_file'', tc_arguments_ref = ''d1#c1''\<rparr>"

definition demo_decision :: "model_decision_input \<Rightarrow> model_decision_result" where
  "demo_decision q = \<lparr>mr_schema_version = 4, mr_operation_id = ai_operation_id q,
     mr_decision_type = (if md_turn q = 1 then Tool_Calls else Final), mr_decision_ref = ''d'',
     mr_tool_calls = (if md_turn q = 1 then [demo_call] else []),
     mr_transcript_version = md_transcript_version q + 1, mr_stop_reason = ''stop'', mr_display_summary = ''''\<rparr>"

definition demo_tool :: "tool_execution_input \<Rightarrow> tool_execution_result" where
  "demo_tool q = \<lparr>tx_schema_version = 4, tx_operation_id = ai_operation_id q, tx_result_ref = ''pending'',
     tx_transcript_version = te_transcript_version q, tx_display_summary = '''', tx_approval_id = Some ''a1'',
     tx_approval_status = ''pending'', tx_approval_expires_at = None, tx_tool_success = None\<rparr>"

definition demo_plan :: "planning_input \<Rightarrow> planning_result" where
  "demo_plan q = \<lparr>pr_schema_version = 4, pr_operation_id = ai_operation_id q, pr_plan_id = pi_plan_id q,
     pr_plan_version = pi_plan_version q,
     pr_steps = [\<lparr>ps_step_id = ''s1'', ps_ordinal = 1, ps_title = ''t'', ps_objective = ''o''\<rparr>],
     pr_transcript_version = pi_transcript_version q + 1\<rparr>"

definition demo_env :: "int wf_env" where
  "demo_env = \<lparr>acquire_act = (\<lambda>q w. (Inr \<lparr>sl_acquired = True, sl_fencing_token = w + 1\<rparr>, w + 1)),
     release_act = (\<lambda>q w. (Inr (), w)), begin_wait_act = (\<lambda>q w. (Inr (), w)),
     finish_wait_act = (\<lambda>q w. (Inr True, w)),
     context_act = (\<lambda>q w. (Inr \<lparr>cr_schema_version = 4, cr_transcript_id = ''t'', cr_transcript_version = 1,
        cr_context_ref = ''transcript:t:1''\<rparr>, w)),
     decision_act = (\<lambda>q w. (Inr (demo_decision q), w)), tool_act = (\<lambda>q w. (Inr (demo_tool q), w)),
     approved_act = (\<lambda>q w. (Inr \<lparr>ay_schema_version = 4, ay_operation_id = ai_operation_id q, ay_result_ref = ''written'',
        ay_display_summary = '''', ay_transcript_version = ap_transcript_version q + 1\<rparr>, w)),
     planning_act = (\<lambda>q w. (Inr (demo_plan q), w)),
     evaluation_act = (\<lambda>q w. (Inr \<lparr>pv_schema_version = 4, pv_operation_id = ai_operation_id q, pv_decision = Complete,
        pv_reason = ''''\<rparr>, w)),
     approval_status_act = (\<lambda>q w. (Inr \<lparr>ax_schema_version = 4, ax_approval_id = as_approval_id q,
        ax_operation_id = as_operation_id q, ax_status = Approved\<rparr>, w)),
     capability_child = (\<lambda>q w. (Inr (demo_tool q), w)), delegation_child = (\<lambda>q w. (Inr (demo_tool q), w)),
     fresh_uuid = (\<lambda>w. (''u'', w + 1)), sleep_for = (\<lambda>t w. (Inr (), w + t)), wait_for = (\<lambda>t w. (Inr (), w + t)),
     signals = (\<lambda>w. ([], w)), clock = (\<lambda>w. w), isoformat = (\<lambda>t. ''later''), fromisoformat = (\<lambda>s. Some 1000),
     sha256_hex = (\<lambda>s. ''0'')\<rparr>"

definition demo_request :: "string \<Rightarrow> agent_run_input" where
  "demo_request strategy = \<lparr>ar_schema_version = 4, ar_run_id = ''r'', ar_account_id = ''acc'',
     ar_source = \<lparr>rs_source_kind = ''chat'', rs_source_ref = ''m''\<rparr>,
     ar_context = \<lparr>rx_context_ref = None, rx_chat = None, rx_surface = None\<rparr>, ar_strategy = strategy,
     ar_max_turns = 1, ar_execution_id = ''x''\<rparr>"

definition demo_start :: "int wf_state" where
  "demo_start = \<lparr>history = [], world = 0\<rparr>"

section \<open>Evaluation\<close>

lemma wf_bind_lazy: "wf_bind p k = wf_bind p k"
  by (rule refl)

lemma wf_finally_lazy: "wf_finally p q = wf_finally p q"
  by (rule refl)

lemma as_child_lazy: "as_child wid p = as_child wid p"
  by (rule refl)

lemmas wf_eval = wf_return_def wf_raise_def wf_bind_def wf_attempt_def wf_outcome_def wf_finally_def wf_emit_def
  wf_perform_def wf_draw_def wf_read_def wf_of_res_def as_child_def control_def control_outcome_def default_retry_def
  retry_delay_def segment_failure_def dispatch_activity_def acquire_loop.simps free_segment_def segment_of_def
  run_segment_def execute_segment_def new_wait_def notify_def wait_loop.simps wait_body_def durable_wait_run_def
  activity_defs approval_decision_def deliver_approvals_def approval_probe_def approval_wait_def await_approval_def
  approval_deadline_def approved_input_def delegated_def needs_approval_def approved_result_def refused_result_def
  run_tool_def CAPABILITY_TOOL_PREFIX_def DELEGATE_TOOL_def READ_RETRY_def MODEL_RETRY_def validate_request_def
  bootstrap_input_def bootstrap_def react_decision_def react_tool_def make_agent_result_def react_run_def
  agent_run_def plan_operation_def first_planning_def evaluation_input_def SYNTHESIS_OBJECTIVE_def
  synthesis_input_def step_input_def is_main_response_def plan_rounds.simps plan_run_def step_operation_def
  step_decision_def step_tool_def make_step_result_def step_run_def AGENT_STRATEGY_REACT_def AGENT_STRATEGY_PLAN_def AGENT_SCHEMA_VERSION_def
  tool_execution_workflow_id_def ensure_def need_def
  demo_call_def demo_decision_def demo_tool_def demo_plan_def demo_request_def demo_start_def eval_nat_numeral Let_def

lemmas demo_env_simps =
  arg_cong [where f = acquire_act, OF demo_env_def, simplified wf_env.select_convs]
  arg_cong [where f = release_act, OF demo_env_def, simplified wf_env.select_convs]
  arg_cong [where f = begin_wait_act, OF demo_env_def, simplified wf_env.select_convs]
  arg_cong [where f = finish_wait_act, OF demo_env_def, simplified wf_env.select_convs]
  arg_cong [where f = context_act, OF demo_env_def, simplified wf_env.select_convs]
  arg_cong [where f = decision_act, OF demo_env_def, simplified wf_env.select_convs]
  arg_cong [where f = tool_act, OF demo_env_def, simplified wf_env.select_convs]
  arg_cong [where f = approved_act, OF demo_env_def, simplified wf_env.select_convs]
  arg_cong [where f = planning_act, OF demo_env_def, simplified wf_env.select_convs]
  arg_cong [where f = evaluation_act, OF demo_env_def, simplified wf_env.select_convs]
  arg_cong [where f = approval_status_act, OF demo_env_def, simplified wf_env.select_convs]
  arg_cong [where f = capability_child, OF demo_env_def, simplified wf_env.select_convs]
  arg_cong [where f = delegation_child, OF demo_env_def, simplified wf_env.select_convs]
  arg_cong [where f = fresh_uuid, OF demo_env_def, simplified wf_env.select_convs]
  arg_cong [where f = sleep_for, OF demo_env_def, simplified wf_env.select_convs]
  arg_cong [where f = wait_for, OF demo_env_def, simplified wf_env.select_convs]
  arg_cong [where f = signals, OF demo_env_def, simplified wf_env.select_convs]
  arg_cong [where f = clock, OF demo_env_def, simplified wf_env.select_convs]
  arg_cong [where f = isoformat, OF demo_env_def, simplified wf_env.select_convs]
  arg_cong [where f = fromisoformat, OF demo_env_def, simplified wf_env.select_convs]
  arg_cong [where f = sha256_hex, OF demo_env_def, simplified wf_env.select_convs]

lemma show_ints: "show_int 1 = ''1''" "show_int 2 = ''2''" "show_int 3 = ''3''" "show_int 4 = ''4''"
  by code_simp+

lemmas demo_eval = wf_eval demo_env_simps show_ints

text \<open>The first attempt of a decision fails, the second answers.\<close>

definition retry_env :: "int wf_env" where
  "retry_env = demo_env\<lparr>decision_act := (\<lambda>q w.
     if ai_execution_attempt q = 1 then (Inl (Activity_Error (Plain (RuntimeError ''timeout''))), w)
     else (Inr (demo_decision q), w))\<rparr>"

section \<open>The runs\<close>

lemma demo_run_ends:
  "\<exists>r s'. agent_run demo_env (demo_request AGENT_STRATEGY_REACT) demo_start = Some (Inr r, s') \<and>
     re_transcript_version r = 4 \<and> 23 < length (history s') \<and> (\<exists>a. history s' ! 23 = Dispatched (Do_Approved a))"
  by (simp add: demo_eval cong: wf_bind_lazy wf_finally_lazy as_child_lazy)

lemma demo_plan_ends:
  "\<exists>r s'. plan_run demo_env (demo_request AGENT_STRATEGY_PLAN) demo_start = Some (Inr r, s') \<and>
     re_transcript_version r = 6"
  by (simp add: demo_eval cong: wf_bind_lazy wf_finally_lazy as_child_lazy)

lemma retry_run_ends:
  "\<exists>r s' q1 q2. react_run retry_env (demo_request AGENT_STRATEGY_REACT) demo_start = Some (Inr r, s') \<and>
     re_transcript_version r = 4 \<and> 12 < length (history s') \<and>
     history s' ! 7 = Dispatched (Do_Decision q1) \<and> history s' ! 12 = Dispatched (Do_Decision q2) \<and>
     ai_operation_id q1 = ai_operation_id q2 \<and> ai_lease_token q1 \<noteq> ai_lease_token q2"
  by (simp add: demo_eval retry_env_def cong: wf_bind_lazy wf_finally_lazy as_child_lazy)

end
