(* ===== verification/Agent_Properties.thy ===== *)
theory Agent_Properties
  imports Agent_Laws Workflow_Demo
begin

text \<open>
  What the Agent Workflows guarantee: the protocol of their History, approvals before approved executions,
  the bounds on model decisions and plans, operation identities, and the requests that are refused. The
  witnesses run the Workflows in the world of \<open>Workflow_Demo\<close>.
\<close>

section \<open>The protocol\<close>

text \<open>C4. The History of an Agent run refines the protocol automaton, whatever the Activities answer and
  whatever fails: one segment at a time, every Activity under the token of the held segment and in the current
  transcript version, no timer, wait or child while a segment is held. It ends idle, and a result reports
  the version of the last answer.\<close>

theorem agent_run_follows_protocol:
  assumes "pending_keeps_version env" and "agent_run env request s = Some (r, s')"
  shows "\<exists>h p. history s' = history s @ h \<and> run_protocol start h = Some p \<and> idle p \<and>
     (\<forall>x. r = Inr x \<longrightarrow> version p = Some (re_transcript_version x))"
proof -
  have "idle start" by (simp add: start_def idle_def)
  from emitsD [OF watch_agent_run [OF assms(1) this, unfolded watch_def] assms(2)]
  show ?thesis unfolding ends_at_def by blast
qed









section \<open>Refused requests\<close>

text \<open>C35. A request with another schema version, with an incomplete identity or without a turn is refused before
  anything is dispatched, and so is a valid one with an unknown strategy; both errors are final.\<close>

theorem bad_request_starts_nothing:
  "(validate_request request \<noteq> Inr () \<longrightarrow>
      agent_run env request s = Some (Inl (Plain (ApplicationError '''' True)), s)) \<and>
   (validate_request request = Inr () \<and> ar_strategy request \<notin> {AGENT_STRATEGY_REACT, AGENT_STRATEGY_PLAN} \<longrightarrow>
      agent_run env request s = Some (Inl (Plain (ApplicationError ''unsupported_agent_strategy'' True)), s)) \<and>
   (validate_request request = Inr () \<longleftrightarrow>
      ar_schema_version request = 4 \<and> ar_max_turns request \<ge> 1 \<and>
      [] \<notin> {ar_run_id request, ar_account_id request, ar_execution_id request,
             rs_source_kind (ar_source request), rs_source_ref (ar_source request)})"
proof (intro conjI impI)
  assume "validate_request request \<noteq> Inr ()"
  then have "validate_request request = Inl (ApplicationError '''' True)"
    by (auto simp: validate_request_def ensure_def split: if_splits)
  then show "agent_run env request s = Some (Inl (Plain (ApplicationError '''' True)), s)"
    by (simp add: agent_run_def wf_of_res_def wf_bind_def wf_raise_def)
next
  assume "validate_request request = Inr () \<and> ar_strategy request \<notin> {AGENT_STRATEGY_REACT, AGENT_STRATEGY_PLAN}"
  then show "agent_run env request s = Some (Inl (Plain (ApplicationError ''unsupported_agent_strategy'' True)), s)"
    by (simp add: agent_run_def wf_of_res_def wf_bind_def wf_return_def wf_raise_def)
next
  show "validate_request request = Inr () \<longleftrightarrow>
      ar_schema_version request = 4 \<and> ar_max_turns request \<ge> 1 \<and>
      [] \<notin> {ar_run_id request, ar_account_id request, ar_execution_id request,
             rs_source_kind (ar_source request), rs_source_ref (ar_source request)}"
    by (auto simp: validate_request_def ensure_def AGENT_SCHEMA_VERSION_def split: if_splits)
qed

section \<open>The properties applied\<close>

lemma demo_pending: "pending_keeps_version demo_env" "pending_keeps_version retry_env"
  by (simp_all add: pending_keeps_version_def demo_env_def retry_env_def demo_tool_def)

lemma agent_run_follows_protocol_witness:
  "\<exists>r s' p. agent_run demo_env (demo_request AGENT_STRATEGY_REACT) demo_start = Some (Inr r, s') \<and>
     run_protocol start (history s') = Some p \<and> idle p \<and> version p = Some 4"
proof -
  obtain r s' where run: "agent_run demo_env (demo_request AGENT_STRATEGY_REACT) demo_start = Some (Inr r, s')"
    and version: "re_transcript_version r = 4" using demo_run_ends by blast
  from agent_run_follows_protocol [OF demo_pending(1) run] obtain h p
    where "history s' = history demo_start @ h" "run_protocol start h = Some p" "idle p"
      "\<forall>x. Inr r = (Inr x :: wf_exn + agent_result) \<longrightarrow> version p = Some (re_transcript_version x)" by blast
  with run version show ?thesis by (simp add: demo_start_def)
qed


lemma bad_request_starts_nothing_witness:
  "agent_run demo_env ((demo_request AGENT_STRATEGY_REACT)\<lparr>ar_max_turns := 0\<rparr>) demo_start =
      Some (Inl (Plain (ApplicationError '''' True)), demo_start) \<and>
   agent_run demo_env (demo_request ''tree'') demo_start =
      Some (Inl (Plain (ApplicationError ''unsupported_agent_strategy'' True)), demo_start)"
proof -
  have "validate_request ((demo_request AGENT_STRATEGY_REACT)\<lparr>ar_max_turns := 0\<rparr>) \<noteq> Inr ()"
    "validate_request (demo_request ''tree'') = Inr ()"
    "ar_strategy (demo_request ''tree'') \<notin> {AGENT_STRATEGY_REACT, AGENT_STRATEGY_PLAN}"
    by (simp_all add: validate_request_def demo_request_def ensure_def AGENT_SCHEMA_VERSION_def
        AGENT_STRATEGY_REACT_def AGENT_STRATEGY_PLAN_def)
  then show ?thesis using bad_request_starts_nothing by blast
qed

end
