(* ===== verification/Agent_Bounds.thy ===== *)
theory Agent_Bounds
  imports Agent_Properties
begin

text \<open>
  How much an Agent may ask for: computations that dispatch at most so many events of a kind, the bounds
  on model decisions and plans, and the identities of the operations.
\<close>

section \<open>Costs\<close>

definition spends :: "(wf_event \<Rightarrow> bool) \<Rightarrow> nat \<Rightarrow> ('w, 'a) wf \<Rightarrow> bool" where
  "spends P n c \<longleftrightarrow> emits c (\<lambda>h r. length (filter P h) \<le> n)"

definition is_decision :: "wf_event \<Rightarrow> bool" where
  "is_decision e = (case e of Dispatched (Do_Decision q) \<Rightarrow> True | _ \<Rightarrow> False)"

definition is_planning :: "wf_event \<Rightarrow> bool" where
  "is_planning e = (case e of Dispatched (Do_Planning q) \<Rightarrow> True | _ \<Rightarrow> False)"

text \<open>Events other than dispatches do not count.\<close>

definition counts_dispatches :: "(wf_event \<Rightarrow> bool) \<Rightarrow> bool" where
  "counts_dispatches P \<longleftrightarrow> (\<forall>e. P e \<longrightarrow> (\<exists>d. e = Dispatched d))"

lemma counts_kinds [simp]: "counts_dispatches is_decision" "counts_dispatches is_planning"
  by (auto simp: counts_dispatches_def is_decision_def is_planning_def split: wf_event.splits)

lemma spends_mono: "spends P m c \<Longrightarrow> m \<le> n \<Longrightarrow> spends P n c"
  unfolding spends_def by (erule emits_mono) simp

lemma spends_bind: "spends P m c \<Longrightarrow> (\<And>a. spends P n (k a)) \<Longrightarrow> spends P (m + n) (wf_bind c k)"
  unfolding spends_def
  by (rule emits_bind, assumption, simp) (rule emits_mono, assumption, simp)

lemma spends_then: "spends P 0 c \<Longrightarrow> (\<And>a. spends P n (k a)) \<Longrightarrow> spends P n (wf_bind c k)"
  using spends_bind [of P 0 c n k] by simp

lemma spends_last: "spends P n c \<Longrightarrow> (\<And>a. spends P 0 (k a)) \<Longrightarrow> spends P n (wf_bind c k)"
  using spends_bind [of P n c 0 k] by simp

lemma spends_attempt: "spends P n c \<Longrightarrow> spends P n (wf_attempt c)"
  unfolding spends_def by (rule emits_attempt)

lemma spends_silent [simp]:
  "spends P n (wf_return a)" "spends P n (wf_raise e)" "spends P n (wf_outcome r)" "spends P n (wf_perform act)"
  "spends P n (wf_draw act2)" "spends P n (wf_read f)" "spends P n (wf_of_res x)"
  unfolding spends_def
  by (auto intro: emits_return emits_raise emits_outcome emits_perform emits_draw emits_read emits_of_res)

lemma spends_emit: "counts_dispatches P \<Longrightarrow> \<forall>d. e \<noteq> Dispatched d \<Longrightarrow> spends P n (wf_emit e)"
  unfolding spends_def counts_dispatches_def by (rule emits_emit) auto

lemma spends_dispatch: "n = 1 \<or> \<not> P (Dispatched d) \<Longrightarrow> spends P n (wf_emit (Dispatched d))"
  unfolding spends_def by (rule emits_emit) auto

lemma spends_control [simp]: "spends P n (control act)"
  unfolding control_def by (rule spends_then [OF spends_attempt]) simp_all

lemma spends_finally: "spends P n c \<Longrightarrow> spends P 0 d \<Longrightarrow> spends P n (wf_finally c d)"
  unfolding wf_finally_def by (rule spends_last [OF spends_attempt], assumption) (rule spends_then, assumption, simp)

lemma spends_child:
  assumes "counts_dispatches P" "spends P n c"
  shows "spends P n (as_child wid c)"
  unfolding as_child_def
  by (rule spends_then [OF spends_emit [OF assms(1)]], simp, rule spends_last [OF spends_attempt [OF assms(2)]])
    (simp split: sum.split)

lemma spends_acquire_loop:
  assumes "counts_dispatches P"
  shows "spends P 0 (acquire_loop env segment)"
  unfolding spends_def
proof (rule emits_acquire_loop, fold spends_def)
  fix loop :: "'a wf_env \<Rightarrow> segment_input \<Rightarrow> ('a, int) wf"
  assume "spends P 0 (loop env segment)"
  then show "spends P 0 (\<lambda>s. wf_bind (wf_emit (Segment_Requested segment)) (\<lambda>_.
     wf_bind (control (acquire_act env segment)) (\<lambda>lease.
       if sl_acquired lease
       then wf_bind (wf_emit (Segment_Acquired segment (sl_fencing_token lease))) (\<lambda>_.
            wf_return (sl_fencing_token lease))
       else wf_bind (wf_emit (Timer_Started 1)) (\<lambda>_.
            wf_bind (wf_perform (sleep_for env 1)) (\<lambda>_. loop env segment)))) s)"
    by (auto intro!: spends_then spends_emit [OF assms])
qed

text \<open>One execution of an Activity costs at most its attempts, and nothing when it is of another kind.\<close>

lemma spends_run_segment:
  assumes "counts_dispatches P" "n = 1 \<or> (\<forall>q. \<not> P (Dispatched (as_dispatch act q)))"
  shows "spends P n (run_segment env act q attempt)"
proof -
  have dispatch: "spends P n (dispatch_activity act q)" for q
    unfolding dispatch_activity_def
    by (rule spends_last [OF spends_dispatch])
      (use assms(2) in \<open>auto intro!: spends_then spends_emit [OF assms(1)]\<close>)
  have "spends P n (wf_bind (wf_attempt (dispatch_activity act q)) (\<lambda>r.
            case r of
              Inr v \<Rightarrow> wf_return (Inr v)
            | Inl (Activity_Error c) \<Rightarrow> wf_return (Inl (Activity_Error c))
            | Inl e \<Rightarrow> wf_raise e))" for q
    by (rule spends_last [OF spends_attempt [OF dispatch]]) (simp split: sum.split wf_exn.split)
  then show ?thesis
    unfolding run_segment_def Let_def free_segment_def
    by (rule spends_then [OF spends_silent(5), OF spends_finally [OF spends_then [OF spends_acquire_loop [OF assms(1)]]]])
      (auto intro!: spends_then spends_emit [OF assms(1)])
qed

lemma spends_retry:
  "counts_dispatches P \<Longrightarrow> (\<And>k. spends P n (next k)) \<Longrightarrow>
   spends P n (case r of
         Inr v \<Rightarrow> wf_return v
       | Inl error \<Rightarrow>
           (case segment_failure retry error of
              Some e \<Rightarrow> wf_raise e
            | None \<Rightarrow>
                if attempt = rp_maximum_attempts retry then wf_raise error
                else wf_bind (wf_emit (Timer_Started (retry_delay retry attempt))) (\<lambda>_.
                     wf_bind (wf_perform (sleep_for env (retry_delay retry attempt))) (\<lambda>_. next ()))))"
  by (auto intro!: spends_then spends_emit split: sum.splits option.splits)

lemma spends_segment_attempts:
  assumes "counts_dispatches P"
  shows "spends P n (segment_attempts n env act q retry attempt)"
proof (induction n arbitrary: attempt)
  case 0
  then show ?case by simp
next
  case (Suc n)
  have "spends P (1 + n) (segment_attempts (Suc n) env act q retry attempt)"
    unfolding segment_attempts.simps
    by (rule spends_bind [OF spends_run_segment [OF assms]], simp, rule spends_retry [OF assms]) (rule Suc)
  then show ?case by simp
qed

lemma free_segment_attempts:
  assumes "counts_dispatches P" "\<And>q. \<not> P (Dispatched (as_dispatch act q))"
  shows "spends P 0 (segment_attempts n env act q retry attempt)"
proof (induction n arbitrary: attempt)
  case 0
  then show ?case by simp
next
  case (Suc n)
  show ?case
    unfolding segment_attempts.simps
    by (rule spends_then [OF spends_run_segment [OF assms(1)]], use assms(2) in simp, rule spends_retry [OF assms(1)])
      (rule Suc)
qed

lemma spends_execute_segment:
  "counts_dispatches P \<Longrightarrow> spends P (nat (rp_maximum_attempts retry)) (execute_segment env act q retry)"
  unfolding execute_segment_def by (simp add: spends_segment_attempts)

lemma free_execute_segment:
  "counts_dispatches P \<Longrightarrow> (\<And>q. \<not> P (Dispatched (as_dispatch act q))) \<Longrightarrow> spends P 0 (execute_segment env act q retry)"
  unfolding execute_segment_def by (simp add: free_segment_attempts)

lemma spends_wait_loop:
  assumes "counts_dispatches P" "\<And>p. probe = Some p \<Longrightarrow> spends P 0 p"
  shows "spends P 0 (wait_loop env deliver deadline probe d)"
  unfolding spends_def
proof (rule emits_wait_loop, fold spends_def, goal_cases)
  case (1 loop d)
  then show ?case
    using assms(2) by (auto simp: Let_def intro!: spends_then spends_emit [OF assms(1)] split: option.splits)
qed

lemma spends_await_approval:
  assumes "counts_dispatches P"
  shows "spends P 0 (await_approval env request aid expires)"
proof -
  have "spends P 0 (approval_probe env request aid)"
    unfolding approval_probe_def Let_def by (auto intro!: spends_then spends_emit [OF assms])
  then have "spends P 0 (wait_body env deliver w (Some (approval_probe env request aid)) d)" for deliver w d
    unfolding wait_body_def
    by (auto intro!: spends_then spends_emit [OF assms] spends_wait_loop [OF assms])
  then have "spends P 0 (durable_wait_run env deliver w (Some (approval_probe env request aid)) d)" for deliver w d
    unfolding durable_wait_run_def Let_def
    by (auto intro!: spends_then spends_attempt spends_emit [OF assms])
  then show ?thesis
    unfolding await_approval_def
    by (auto intro!: spends_then spends_attempt split: sum.splits option.splits)
qed

lemma spends_run_tool:
  assumes "counts_dispatches P" "\<And>q. \<not> P (Dispatched (Do_Tool q))" "\<And>q. \<not> P (Dispatched (Do_Approved q))"
  shows "spends P 0 (run_tool env request)"
proof -
  have [simp]: "spends P 0 (execute_segment env (tool_activity env) q retry)"
    "spends P 0 (execute_segment env (approved_activity env) q2 retry)" for q q2 retry
    by (rule free_execute_segment [OF assms(1)], simp add: activity_defs assms)+
  have "spends P 0 (delegated wid child request)" for wid child
    unfolding delegated_def by (auto intro!: spends_then spends_child spends_emit assms(1))
  then show ?thesis
    unfolding run_tool_def Let_def approval_deadline_def
    by (auto intro!: spends_then spends_await_approval assms(1) split: option.splits list.splits)
qed

section \<open>Decisions of the loops\<close>

lemma kinds [simp]:
  "is_decision (Dispatched d) \<longleftrightarrow> (\<exists>q. d = Do_Decision q)" "is_planning (Dispatched d) \<longleftrightarrow> (\<exists>q. d = Do_Planning q)"
  by (auto simp: is_decision_def is_planning_def split: dispatch.splits)

lemma spends_run_tool_calls:
  assumes "\<And>v c. spends P 0 (run_tool env (tool v c))" "counts_dispatches P"
  shows "spends P 0 (run_tool_calls calls env tool v)"
proof (induction calls arbitrary: v)
  case (Cons call calls)
  then show ?case by (auto simp: Let_def intro!: spends_then spends_child assms)
qed simp

lemma decision_cost: "spends is_decision 3 (execute_segment env act q MODEL_RETRY)"
  using spends_execute_segment [of is_decision MODEL_RETRY] by (simp add: MODEL_RETRY_def)

lemma decisions_agent_turns:
  "spends is_decision (3 * n) (agent_turns n env decide tool turn v tool_turns)"
proof (induction n arbitrary: turn v tool_turns)
  case (Suc n)
  have "spends is_decision (3 + 3 * n) (agent_turns (Suc n) env decide tool turn v tool_turns)"
    unfolding agent_turns.simps
    by (rule spends_bind [OF decision_cost])
      (auto intro!: spends_then spends_run_tool_calls spends_run_tool Suc)
  then show ?case by simp
qed simp

lemma decisions_bootstrap: "spends is_decision 0 (bootstrap env request)"
  unfolding bootstrap_def by (rule free_execute_segment) (simp_all add: activity_defs)

text \<open>C32. A ReAct run dispatches at most three attempts for each of its turns and for the forced final
  answer: the model is called at most \<open>3 * (max_turns + 1)\<close> times, whatever it answers.\<close>

theorem react_model_calls_bounded:
  assumes "ar_max_turns request \<ge> 1" and "react_run env request s = Some (r, s')"
  shows "\<exists>h. history s' = history s @ h \<and> int (length (filter is_decision h)) \<le> 3 * (ar_max_turns request + 1)"
proof -
  let ?n = "nat (ar_max_turns request)"
  have "spends is_decision (0 + (0 + (3 * ?n + 3))) (react_run env request)"
    unfolding react_run_def Let_def
    by (intro spends_bind decisions_bootstrap decisions_agent_turns spends_silent)
      (auto intro!: spends_last decision_cost spends_silent split: turns_result.split)
  from emitsD [OF this [unfolded spends_def] assms(2)] assms(1) show ?thesis by auto
qed

section \<open>Plans\<close>

lemma planning_cost: "spends is_planning 3 (execute_segment env act q MODEL_RETRY)"
  using spends_execute_segment [of is_planning MODEL_RETRY] by (simp add: MODEL_RETRY_def)

lemma no_planning:
  "spends is_planning 0 (execute_segment env (decision_activity env) q retry)"
  "spends is_planning 0 (execute_segment env (evaluation_activity env) q2 retry)"
  "spends is_planning 0 (execute_segment env (context_activity env) q3 retry)"
  by (rule free_execute_segment; simp add: activity_defs)+

lemma no_planning_turns: "spends is_planning 0 (agent_turns n env decide tool turn v tool_turns)"
proof (induction n arbitrary: turn v tool_turns)
  case (Suc n)
  then show ?case
    by (auto intro!: spends_then no_planning spends_run_tool_calls spends_run_tool)
qed simp

lemma no_planning_step: "spends is_planning 0 (step_run env request)"
  unfolding step_run_def
  by (auto intro!: spends_then no_planning_turns no_planning split: turns_result.split)

lemma no_planning_steps:
  "spends is_planning 0 (plan_steps steps env request plan_id tid pv count index v tool_turns refs)"
proof (induction steps arbitrary: index v tool_turns refs)
  case (Cons step steps)
  then show ?case
    by (auto simp: Let_def intro!: spends_then spends_child no_planning_step no_planning split: plan_decision.split)
qed simp

lemma plannings_of_rounds:
  "spends is_planning (3 * nat (3 - replans))
     (plan_rounds env request plan_id tid plan pv replans v tool_turns refs)"
proof (induction env request plan_id tid plan pv replans v tool_turns refs rule: plan_rounds.induct)
  case (1 env request plan_id tid plan pv replans v tool_turns refs)
  show ?case
  proof (subst plan_rounds.simps, rule spends_then [OF no_planning_steps])
    fix out
    show "spends is_planning (3 * nat (3 - replans)) (case out of
         Plan_Answered result \<Rightarrow> wf_return result
       | Plan_Finished version' turns' refs' \<Rightarrow>
           wf_bind (execute_segment env (decision_activity env)
                      (synthesis_input request plan_id tid version' pv (int (length (pr_steps plan)) + 1))
                      MODEL_RETRY) (\<lambda>final.
           wf_return (make_agent_result request (mr_decision_ref final) tid (mr_transcript_version final) turns'))
       | Plan_Replan step reason version' turns' refs' \<Rightarrow>
           if replans + 1 > 3
           then wf_raise (Plain (ApplicationError ''plan_replan_limit_reached'' True))
           else
             wf_bind (execute_segment env (planning_activity env)
                        (next_planning request plan_id tid version' (pv + 1) refs' step reason)
                        MODEL_RETRY) (\<lambda>plan'.
               plan_rounds env request plan_id tid plan' (pv + 1) (replans + 1)
                 (pr_transcript_version plan') turns' refs'))"
    proof (cases out)
      case (Plan_Replan step reason v' turns' refs')
      show ?thesis
      proof (cases "replans + 1 > 3")
        case False
        have "spends is_planning (3 + 3 * nat (3 - (replans + 1)))
            (wf_bind (execute_segment env (planning_activity env)
                        (next_planning request plan_id tid v' (pv + 1) refs' step reason)
                        MODEL_RETRY) (\<lambda>plan'.
               plan_rounds env request plan_id tid plan' (pv + 1) (replans + 1)
                 (pr_transcript_version plan') turns' refs'))"
          by (rule spends_bind [OF planning_cost]) (rule 1 [OF False])
        moreover have "3 + 3 * nat (3 - (replans + 1)) = 3 * nat (3 - replans)" using False by simp
        ultimately show ?thesis using Plan_Replan False by simp
      qed (simp add: Plan_Replan)
    qed (auto intro!: spends_then no_planning)
  qed
qed

text \<open>C33. A plan is made at most four times: with the attempts of each, at most twelve planning Activities
  are dispatched, whatever the evaluations ask for.\<close>

theorem replanning_is_bounded:
  assumes "plan_run env request s = Some (r, s')"
  shows "\<exists>h. history s' = history s @ h \<and> length (filter is_planning h) \<le> 12"
proof -
  have "spends is_planning (3 + 3 * nat (3 - 0)) (wf_bind (execute_segment env (planning_activity env) q MODEL_RETRY)
     (\<lambda>plan. plan_rounds env request plan_id tid plan 1 0 (pr_transcript_version plan) 0 []))" for q plan_id tid
    by (rule spends_bind [OF planning_cost plannings_of_rounds])
  then have rounds: "spends is_planning 12 (wf_bind (execute_segment env (planning_activity env) q MODEL_RETRY)
     (\<lambda>plan. plan_rounds env request plan_id tid plan 1 0 (pr_transcript_version plan) 0 []))" for q plan_id tid
    by simp
  have "spends is_planning 12 (plan_run env request)"
    unfolding plan_run_def Let_def bootstrap_def
    by (rule spends_then [OF spends_silent(7)], rule spends_then [OF no_planning(3)], rule rounds)
  from emitsD [OF this [unfolded spends_def] assms] show ?thesis .
qed

section \<open>Identities of the operations\<close>

definition decisions :: "wf_event list \<Rightarrow> model_decision_input list" where
  "decisions h = concat (map (\<lambda>e. case e of Dispatched (Do_Decision q) \<Rightarrow> [q] | _ \<Rightarrow> []) h)"

text \<open>The request without what changes from attempt to attempt.\<close>

definition without_attempt :: "model_decision_input \<Rightarrow> model_decision_input" where
  "without_attempt q = q\<lparr>ai_lease_token := 0, ai_execution_attempt := 1\<rparr>"

lemma decisions_append [simp]: "decisions (h @ h') = decisions h @ decisions h'"
  by (simp add: decisions_def)

lemma no_decisions: "filter is_decision h = [] \<Longrightarrow> decisions h = []"
  by (induction h) (auto simp: decisions_def is_decision_def split: wf_event.splits dispatch.splits if_splits)

lemma spends_no_decisions: "spends is_decision 0 c \<Longrightarrow> emits c (\<lambda>h r. decisions h = [])"
  unfolding spends_def by (erule emits_mono) (simp add: no_decisions)

text \<open>Every event satisfies \<open>E\<close>.\<close>

definition only :: "(wf_event \<Rightarrow> bool) \<Rightarrow> ('w, 'a) wf \<Rightarrow> bool" where
  "only E c \<longleftrightarrow> emits c (\<lambda>h r. list_all E h)"

lemma only_bind: "only E c \<Longrightarrow> (\<And>a. only E (k a)) \<Longrightarrow> only E (wf_bind c k)"
  unfolding only_def by (rule emits_bind, assumption, simp) (rule emits_mono, assumption, simp)

lemma only_silent [simp]:
  "only E (wf_return a)" "only E (wf_raise e)" "only E (wf_outcome r)" "only E (wf_perform act)" "only E (wf_draw act2)"
  unfolding only_def by (auto intro: emits_return emits_raise emits_outcome emits_perform emits_draw)

lemma only_emit [simp]: "E e \<Longrightarrow> only E (wf_emit e)"
  unfolding only_def by (rule emits_emit) simp

lemma only_attempt: "only E c \<Longrightarrow> only E (wf_attempt c)"
  unfolding only_def by (rule emits_attempt)

lemma only_control [simp]: "only E (control act)"
  unfolding control_def by (rule only_bind [OF only_attempt]) simp_all

lemma only_acquire_loop:
  assumes "\<And>e. \<forall>d. e \<noteq> Dispatched d \<Longrightarrow> E e"
  shows "only E (acquire_loop env segment)"
  unfolding only_def
proof (rule emits_acquire_loop, fold only_def)
  fix loop :: "'a wf_env \<Rightarrow> segment_input \<Rightarrow> ('a, int) wf"
  assume "only E (loop env segment)"
  then show "only E (\<lambda>s. wf_bind (wf_emit (Segment_Requested segment)) (\<lambda>_.
     wf_bind (control (acquire_act env segment)) (\<lambda>lease.
       if sl_acquired lease
       then wf_bind (wf_emit (Segment_Acquired segment (sl_fencing_token lease))) (\<lambda>_.
            wf_return (sl_fencing_token lease))
       else wf_bind (wf_emit (Timer_Started 1)) (\<lambda>_.
            wf_bind (wf_perform (sleep_for env 1)) (\<lambda>_. loop env segment)))) s)"
    by (auto intro!: only_bind only_emit assms)
qed

lemma only_run_segment:
  assumes "\<And>e. \<forall>d. e \<noteq> Dispatched d \<Longrightarrow> E e"
    and "\<And>token k. E (Dispatched (as_dispatch act (q\<lparr>ai_lease_token := token, ai_execution_attempt := k\<rparr>)))"
  shows "only E (run_segment env act q attempt)"
proof -
  have "only E (wf_bind (wf_attempt (dispatch_activity act (q\<lparr>ai_lease_token := token, ai_execution_attempt := attempt\<rparr>))) (\<lambda>r.
            case r of
              Inr v \<Rightarrow> wf_return (Inr v)
            | Inl (Activity_Error c) \<Rightarrow> wf_return (Inl (Activity_Error c))
            | Inl e \<Rightarrow> wf_raise e))" for token
    unfolding dispatch_activity_def
    by (auto intro!: only_bind only_attempt only_emit assms split: sum.splits wf_exn.splits)
  note inner = only_bind [OF only_acquire_loop [OF assms(1)] this]
  show ?thesis
    unfolding run_segment_def Let_def free_segment_def wf_finally_def
    by (rule only_bind, simp, rule only_bind, rule only_attempt, rule inner, assumption)
      (auto intro!: only_bind only_emit assms(1))
qed

lemma only_execute_segment:
  assumes "\<And>e. \<forall>d. e \<noteq> Dispatched d \<Longrightarrow> E e"
    and "\<And>token k. E (Dispatched (as_dispatch act (q\<lparr>ai_lease_token := token, ai_execution_attempt := k\<rparr>)))"
  shows "only E (execute_segment env act q retry)"
proof -
  have "only E (segment_attempts n env act q retry attempt)" for n attempt
  proof (induction n arbitrary: attempt)
    case (Suc n)
    then show ?case
      by (auto intro!: only_bind only_emit only_run_segment assms split: sum.splits option.splits)
  qed simp
  then show ?thesis unfolding execute_segment_def by simp
qed

text \<open>The decisions of the turns from \<open>t\<close> on and below \<open>t'\<close>: the operation names the turn, and a turn has one
  request.\<close>

definition decides :: "(string \<Rightarrow> int \<Rightarrow> bool) \<Rightarrow> int \<Rightarrow> int \<Rightarrow> wf_event list \<Rightarrow> bool" where
  "decides op t t' h \<longleftrightarrow>
     (\<forall>q \<in> set (decisions h). t \<le> md_turn q \<and> md_turn q < t' \<and> op (ai_operation_id q) (md_turn q)) \<and>
     (\<forall>q1 \<in> set (decisions h). \<forall>q2 \<in> set (decisions h). md_turn q1 = md_turn q2 \<longrightarrow> without_attempt q1 = without_attempt q2)"

lemma decides_none: "decisions h = [] \<Longrightarrow> decides op t t' h"
  by (simp add: decides_def)

lemma decides_silent: "decisions h = [] \<Longrightarrow> decides op t t' (h @ h') \<longleftrightarrow> decides op t t' h'"
  by (simp only: decides_def decisions_append append_Nil)

lemma decides_append:
  assumes "decides op t u h" "decides op u v h'" "t \<le> u" "u \<le> v"
  shows "decides op t v (h @ h')"
proof -
  have range: "t \<le> md_turn q \<and> md_turn q < u" "op (ai_operation_id q) (md_turn q)" if "q \<in> set (decisions h)" for q
    using assms(1) that unfolding decides_def by blast+
  have range': "u \<le> md_turn q \<and> md_turn q < v" "op (ai_operation_id q) (md_turn q)" if "q \<in> set (decisions h')" for q
    using assms(2) that unfolding decides_def by blast+
  have "without_attempt q1 = without_attempt q2"
    if "q1 \<in> set (decisions h) \<union> set (decisions h')" "q2 \<in> set (decisions h) \<union> set (decisions h')"
      "md_turn q1 = md_turn q2" for q1 q2
  proof (cases "q1 \<in> set (decisions h)"; cases "q2 \<in> set (decisions h)")
    assume "q1 \<in> set (decisions h)" "q2 \<in> set (decisions h)"
    with assms(1) that(3) show ?thesis unfolding decides_def by blast
  next
    assume "q1 \<in> set (decisions h)" "q2 \<notin> set (decisions h)"
    with range(1) [of q1] range'(1) [of q2] that show ?thesis by auto
  next
    assume "q1 \<notin> set (decisions h)" "q2 \<in> set (decisions h)"
    with range(1) [of q2] range'(1) [of q1] that show ?thesis by auto
  next
    assume "q1 \<notin> set (decisions h)" "q2 \<notin> set (decisions h)"
    with assms(2) that show ?thesis unfolding decides_def by blast
  qed
  moreover have "t \<le> md_turn q \<and> md_turn q < v \<and> op (ai_operation_id q) (md_turn q)"
    if "q \<in> set (decisions h) \<union> set (decisions h')" for q
    using that
  proof
    assume "q \<in> set (decisions h)"
    with range [of q] assms(4) show ?thesis by simp
  next
    assume "q \<in> set (decisions h')"
    with range' [of q] assms(3) show ?thesis by simp
  qed
  ultimately show ?thesis unfolding decides_def decisions_append set_append by blast
qed

lemma without_attempt_turn: "without_attempt q1 = without_attempt q2 \<Longrightarrow>
    md_turn q1 = md_turn q2 \<and> ai_operation_id q1 = ai_operation_id q2"
proof -
  assume eq: "without_attempt q1 = without_attempt q2"
  have "md_turn q = md_turn (without_attempt q)" "ai_operation_id q = ai_operation_id (without_attempt q)" for q
    by (simp_all add: without_attempt_def)
  with eq show ?thesis by metis
qed

lemma emits_turn_decision:
  assumes "op (ai_operation_id q) (md_turn q)"
  shows "emits (execute_segment env (decision_activity env) q retry) (\<lambda>h r. decides op (md_turn q) (md_turn q + 1) h)"
proof -
  let ?E = "\<lambda>e. case e of Dispatched (Do_Decision d) \<Rightarrow> without_attempt d = without_attempt q | _ \<Rightarrow> True"
  have "only ?E (execute_segment env (decision_activity env) q retry)"
    by (rule only_execute_segment)
      (auto simp: activity_defs without_attempt_def split: wf_event.splits)
  then show ?thesis
    unfolding only_def
  proof (rule emits_mono)
    fix h :: "wf_event list" and r :: "wf_exn + model_decision_result"
    assume "list_all ?E h"
    then have same: "without_attempt d = without_attempt q" if "d \<in> set (decisions h)" for d
      using that by (auto simp: decisions_def list_all_iff split: wf_event.splits dispatch.splits)
    show "decides op (md_turn q) (md_turn q + 1) h"
      unfolding decides_def
    proof (intro conjI ballI impI)
      fix d assume "d \<in> set (decisions h)"
      from without_attempt_turn [OF same [OF this]] assms
      show "md_turn q \<le> md_turn d" "md_turn d < md_turn q + 1" "op (ai_operation_id d) (md_turn d)" by simp_all
    next
      fix d1 d2 assume "d1 \<in> set (decisions h)" "d2 \<in> set (decisions h)"
      then show "without_attempt d1 = without_attempt d2" by (simp add: same)
    qed
  qed
qed

lemma emits_turns_decisions:
  assumes "\<And>t v. md_turn (decide t v) = t" "\<And>t v. op (ai_operation_id (decide t v)) t"
  shows "emits (agent_turns n env decide tool turn v tool_turns) (\<lambda>h r. decides op turn (turn + int n) h)"
proof (induction n arbitrary: turn v tool_turns)
  case 0
  then show ?case by (simp add: emits_return decides_none decisions_def)
next
  case (Suc n)
  have turn: "emits (execute_segment env (decision_activity env) (decide turn v) MODEL_RETRY) (\<lambda>h r. decides op turn (turn + 1) h)"
    using emits_turn_decision [of op "decide turn v"] assms by simp
  have calls: "emits (run_tool_calls calls env tool' v') (\<lambda>h r. decisions h = [])" for calls tool' v'
    by (rule spends_no_decisions, rule spends_run_tool_calls) (auto intro: spends_run_tool)
  have weaken: "decides op turn (turn + int (Suc n)) h" if "decides op turn (turn + 1) h" for h
    using decides_append [OF that decides_none [of "[]"], of "turn + int (Suc n)"] by (simp add: decisions_def)
  show ?case
    unfolding agent_turns.simps
  proof (rule emits_bind [OF turn], rule weaken, assumption)
    fix h d
    assume h: "decides op turn (turn + 1) h"
    have "emits (wf_bind (run_tool_calls (mr_tool_calls d) env (tool turn) (mr_transcript_version d))
        (\<lambda>v'. agent_turns n env decide tool (turn + 1) v' (tool_turns + 1))) (\<lambda>h' r. decides op turn (turn + int (Suc n)) (h @ h'))"
    proof (rule emits_bind [OF calls])
      fix h1 e assume "decisions h1 = []"
      then have "decides op (turn + 1) (turn + int (Suc n)) h1" by (rule decides_none)
      with h show "decides op turn (turn + int (Suc n)) (h @ h1)" by (rule decides_append) simp_all
    next
      fix h1 v' assume h1: "decisions h1 = []"
      show "emits (agent_turns n env decide tool (turn + 1) v' (tool_turns + 1))
          (\<lambda>h' r. decides op turn (turn + int (Suc n)) (h @ h1 @ h'))"
      proof (rule emits_mono [OF Suc])
        fix h2 :: "wf_event list" and r :: "wf_exn + turns_result"
        assume "decides op (turn + 1) (turn + 1 + int n) h2"
        with h1 have "decides op (turn + 1) (turn + int (Suc n)) (h1 @ h2)"
          by (simp add: decides_silent add.assoc)
        with h show "decides op turn (turn + int (Suc n)) (h @ h1 @ h2)" by (rule decides_append) simp_all
      qed
    qed
    then show "emits (if mr_decision_type d = Final
       then wf_return (Answer_Found (mr_decision_ref d) (mr_transcript_version d) tool_turns)
       else wf_bind (run_tool_calls (mr_tool_calls d) env (tool turn) (mr_transcript_version d))
              (\<lambda>version'. agent_turns n env decide tool (turn + 1) version' (tool_turns + 1)))
       (\<lambda>h' r. decides op turn (turn + int (Suc n)) (h @ h'))"
    proof (cases "mr_decision_type d = Final")
      case True
      have "decides op turn (turn + int (Suc n)) (h @ [])" using weaken [OF h] by simp
      then have "emits (wf_return (Answer_Found (mr_decision_ref d) (mr_transcript_version d) tool_turns) :: ('a, turns_result) wf)
          (\<lambda>h' r. decides op turn (turn + int (Suc n)) (h @ h'))" by (rule emits_return)
      with True show ?thesis by simp
    next
      case False
      assume "emits (wf_bind (run_tool_calls (mr_tool_calls d) env (tool turn) (mr_transcript_version d))
        (\<lambda>v'. agent_turns n env decide tool (turn + 1) v' (tool_turns + 1))) (\<lambda>h' r. decides op turn (turn + int (Suc n)) (h @ h'))"
      with False show ?thesis by (simp only: if_False)
    qed
  qed
qed

definition react_operation :: "agent_run_input \<Rightarrow> string \<Rightarrow> int \<Rightarrow> bool" where
  "react_operation request name turn \<longleftrightarrow>
     (\<exists>kind. name = ar_execution_id request @ '':react:turn:'' @ show_int turn @ '':'' @ kind)"

lemma react_operation_inject: "react_operation request name t \<Longrightarrow> react_operation request name u \<Longrightarrow> t = u"
proof -
  assume "react_operation request name t" "react_operation request name u"
  then obtain k k' where "show_int t @ CHR '':'' # k = show_int u @ CHR '':'' # k'" by (auto simp: react_operation_def)
  from colon_split [OF show_int_no_colon show_int_no_colon this] show "t = u" by simp
qed

lemma react_decision_operation: "md_turn (react_decision request tid kind final t v) = t"
    "react_operation request (ai_operation_id (react_decision request tid kind final t v)) t"
  by (auto simp: react_decision_def react_operation_def)

lemma emits_prefix: "emits c (\<lambda>h r. decisions h = []) \<Longrightarrow> (\<And>a. emits (k a) (\<lambda>h r. decides op t t' h)) \<Longrightarrow>
    emits (wf_bind c k) (\<lambda>h r. decides op t t' h)"
  by (rule emits_bind, assumption, simp add: decides_none)
    (rule emits_mono, assumption, simp add: decides_silent)

text \<open>C34. In a ReAct run the operation identity of a model decision determines the request: two dispatches with
  one identity are attempts of the same decision, equal but for the fencing token and the attempt number.\<close>

theorem operation_identifies_decision:
  assumes "ar_max_turns request \<ge> 1" and "react_run env request s = Some (r, s')" and "history s' = history s @ h"
    and "q1 \<in> set (decisions h)" and "q2 \<in> set (decisions h)" and "ai_operation_id q1 = ai_operation_id q2"
  shows "without_attempt q1 = without_attempt q2"
proof -
  let ?n = "nat (ar_max_turns request)" and ?op = "react_operation request" and ?m = "ar_max_turns request"
  have n: "1 + int ?n = ?m + 1" using assms(1) by simp
  have forced: "emits (execute_segment env (decision_activity env) (react_decision request tid ''forced-final'' True (?m + 1) v)
      MODEL_RETRY) (\<lambda>h r. decides ?op (?m + 1) (?m + 2) h)" for tid v
    using emits_turn_decision [of ?op "react_decision request tid ''forced-final'' True (?m + 1) v"]
    by (simp add: react_decision_operation add.assoc)
  have turns: "emits (agent_turns ?n env (react_decision request tid ''model'' False) tool 1 v 0)
      (\<lambda>h r. decides ?op 1 (?m + 1) h)" for tid tool v
    using emits_turns_decisions [of "react_decision request tid ''model'' False" ?op ?n env tool 1 v 0]
    unfolding n by (simp add: react_decision_operation)
  have weaken: "decides ?op 1 (?m + 2) h" if "decides ?op 1 (?m + 1) h" for h
    using decides_append [OF that decides_none [of "[]"], of "?m + 2"] assms(1) by (simp add: decisions_def)
  have "emits (wf_bind (agent_turns ?n env (react_decision request tid ''model'' False) tool 1 v 0) (\<lambda>out.
         case out of
           Answer_Found ref v tool_turns \<Rightarrow> wf_return (make_agent_result request ref tid v tool_turns)
         | Turns_Used_Up v tool_turns \<Rightarrow>
             wf_bind (execute_segment env (decision_activity env)
                        (react_decision request tid ''forced-final'' True (?m + 1) v) MODEL_RETRY) (\<lambda>final.
             wf_return (make_agent_result request (mr_decision_ref final) tid (mr_transcript_version final) tool_turns))))
       (\<lambda>h r. decides ?op 1 (?m + 2) h)" for tid tool v
  proof (rule emits_bind [OF turns], rule weaken, assumption)
    fix h out
    assume h: "decides ?op 1 (?m + 1) h"
    have last: "emits (wf_bind (execute_segment env (decision_activity env)
        (react_decision request tid ''forced-final'' True (?m + 1) v) MODEL_RETRY) (\<lambda>final. wf_return (k final)))
        (\<lambda>h' r. decides ?op 1 (?m + 2) (h @ h'))" for v and k :: "model_decision_result \<Rightarrow> agent_result"
    proof (rule emits_bind [OF forced])
      fix h1 e assume h1: "decides ?op (?m + 1) (?m + 2) h1"
      from decides_append [OF h this] assms(1) show "decides ?op 1 (?m + 2) (h @ h1)" by simp
    next
      fix h1 a assume h1: "decides ?op (?m + 1) (?m + 2) h1"
      from decides_append [OF h this] assms(1)
      show "emits (wf_return (k a)) (\<lambda>h' r. decides ?op 1 (?m + 2) (h @ h1 @ h'))" by (intro emits_return) simp
    qed
    show "emits (case out of
           Answer_Found ref v tool_turns \<Rightarrow> wf_return (make_agent_result request ref tid v tool_turns)
         | Turns_Used_Up v tool_turns \<Rightarrow>
             wf_bind (execute_segment env (decision_activity env)
                        (react_decision request tid ''forced-final'' True (?m + 1) v) MODEL_RETRY) (\<lambda>final.
             wf_return (make_agent_result request (mr_decision_ref final) tid (mr_transcript_version final) tool_turns)))
       (\<lambda>h' r. decides ?op 1 (?m + 2) (h @ h'))"
    proof (cases out)
      case (Answer_Found ref v tt)
      have "decides ?op 1 (?m + 2) (h @ [])" using weaken [OF h] by simp
      then show ?thesis unfolding Answer_Found turns_result.case by (rule emits_return)
    next
      case (Turns_Used_Up v tt)
      show ?thesis unfolding Turns_Used_Up turns_result.case by (rule last)
    qed
  qed
  note body = this
  have "emits (react_run env request) (\<lambda>h r. decides ?op 1 (?m + 2) h)"
    unfolding react_run_def Let_def
    by (rule emits_prefix [OF spends_no_decisions [OF spends_silent(7)]],
        rule emits_prefix [OF spends_no_decisions [OF decisions_bootstrap]], rule body)
  from emitsD [OF this assms(2)] assms(3) have d: "decides ?op 1 (?m + 2) h" by auto
  with assms(4,5) have "?op (ai_operation_id q1) (md_turn q1)" "?op (ai_operation_id q2) (md_turn q2)"
    unfolding decides_def by blast+
  with assms(6) have "md_turn q1 = md_turn q2" using react_operation_inject by simp
  with d assms(4,5) show ?thesis unfolding decides_def by blast
qed

section \<open>The properties applied\<close>

lemma demo_turns: "ar_max_turns (demo_request strategy) = 1"
  by (simp add: demo_request_def)

lemma react_model_calls_bounded_witness:
  "\<exists>r s'. react_run retry_env (demo_request AGENT_STRATEGY_REACT) demo_start = Some (Inr r, s') \<and>
     length (filter is_decision (history s')) \<le> 6"
proof -
  obtain r s' where run: "react_run retry_env (demo_request AGENT_STRATEGY_REACT) demo_start = Some (Inr r, s')"
    using retry_run_ends by blast
  from react_model_calls_bounded [OF _ run] run show ?thesis by (auto simp: demo_turns demo_start_def)
qed

lemma replanning_is_bounded_witness:
  "\<exists>r s'. plan_run demo_env (demo_request AGENT_STRATEGY_PLAN) demo_start = Some (Inr r, s') \<and>
     length (filter is_planning (history s')) \<le> 12"
proof -
  obtain r s' where run: "plan_run demo_env (demo_request AGENT_STRATEGY_PLAN) demo_start = Some (Inr r, s')"
    using demo_plan_ends by blast
  from replanning_is_bounded [OF run] run show ?thesis by (auto simp: demo_start_def)
qed

lemma decisions_nth: "n < length h \<Longrightarrow> h ! n = Dispatched (Do_Decision q) \<Longrightarrow> q \<in> set (decisions h)"
proof -
  assume "n < length h" "h ! n = Dispatched (Do_Decision q)"
  then have "h = take n h @ [Dispatched (Do_Decision q)] @ drop (Suc n) h" by (metis append_Cons append_Nil id_take_nth_drop)
  then have "decisions h = decisions (take n h) @ decisions [Dispatched (Do_Decision q)] @ decisions (drop (Suc n) h)"
    by (metis decisions_append)
  then show ?thesis by (simp add: decisions_def)
qed

lemma operation_identifies_decision_witness:
  "\<exists>r s' q1 q2. react_run retry_env (demo_request AGENT_STRATEGY_REACT) demo_start = Some (Inr r, s') \<and>
     {q1, q2} \<subseteq> set (decisions (history s')) \<and> ai_lease_token q1 \<noteq> ai_lease_token q2 \<and>
     without_attempt q1 = without_attempt q2"
proof -
  obtain r s' q1 q2 where run: "react_run retry_env (demo_request AGENT_STRATEGY_REACT) demo_start = Some (Inr r, s')"
    and long: "12 < length (history s')" and q1: "history s' ! 7 = Dispatched (Do_Decision q1)"
    and q2: "history s' ! 12 = Dispatched (Do_Decision q2)" and same: "ai_operation_id q1 = ai_operation_id q2"
    and attempts: "ai_lease_token q1 \<noteq> ai_lease_token q2"
    using retry_run_ends by blast
  have d: "q1 \<in> set (decisions (history s'))" "q2 \<in> set (decisions (history s'))"
    using decisions_nth [OF _ q1] decisions_nth [OF _ q2] long by simp_all
  have h: "history s' = history demo_start @ history s'" by (simp add: demo_start_def)
  from operation_identifies_decision [OF _ run h d same] run d attempts show ?thesis
    by (auto simp: demo_turns)
qed

end
