(* ===== verification/Agent_Policy.thy ===== *)
theory Agent_Policy
  imports HP_Prelude
begin

text \<open>
  The policy a Run is admitted with (\<open>common/agent_policy.py\<close>): a frozen dataclass whose construction
  checks the types and ranges of its fields, its snapshot in the Run's input, and the Agent section of the
  configuration file. \<open>zone_ok\<close> stands for \<open>ZoneInfo(name)\<close> not raising; the text of the file is decoded by
  the caller. Log records are left out.
\<close>

section \<open>The dataclass\<close>

record agent_policy =
  ap_max_tool_turns :: int
  ap_default_timezone :: string
  ap_tool_result_summary_enabled :: bool
  ap_tool_result_summary_threshold :: int
  ap_tool_result_summary_max_chars :: int

definition policy_fields :: "string list" where
  "policy_fields = [''max_tool_turns'', ''default_timezone'', ''tool_result_summary_enabled'',
     ''tool_result_summary_threshold'', ''tool_result_summary_max_chars'']"

text \<open>The class attributes: the values of the arguments that are not given.\<close>

definition default_policy :: agent_policy where
  "default_policy = \<lparr>ap_max_tool_turns = 20, ap_default_timezone = ''Asia/Shanghai'',
     ap_tool_result_summary_enabled = True, ap_tool_result_summary_threshold = 4000,
     ap_tool_result_summary_max_chars = 1000\<rparr>"

definition policy_dict :: "agent_policy \<Rightarrow> (string \<times> json) list" where
  "policy_dict p =
     [(''max_tool_turns'', JInt (ap_max_tool_turns p)), (''default_timezone'', JStr (ap_default_timezone p)),
      (''tool_result_summary_enabled'', JBool (ap_tool_result_summary_enabled p)),
      (''tool_result_summary_threshold'', JInt (ap_tool_result_summary_threshold p)),
      (''tool_result_summary_max_chars'', JInt (ap_tool_result_summary_max_chars p))]"

text \<open>\<open>_matches\<close> for the three annotations of the class: a Boolean is not an integer.\<close>

fun matches_int :: "json \<Rightarrow> int option" where
  "matches_int (JInt i) = Some i"
| "matches_int _ = None"

fun matches_bool :: "json \<Rightarrow> bool option" where
  "matches_bool (JBool b) = Some b"
| "matches_bool _ = None"

fun matches_str :: "json \<Rightarrow> string option" where
  "matches_str (JStr s) = Some s"
| "matches_str _ = None"

text \<open>The value of an argument: the given one, or else the class attribute.\<close>

definition policy_field :: "(string \<times> json) list \<Rightarrow> string \<Rightarrow> json" where
  "policy_field d name =
     (case map_of d name of None \<Rightarrow> the (map_of (policy_dict default_policy) name) | Some v \<Rightarrow> v)"

text \<open>\<open>AgentPolicy(**values)\<close>: \<open>__post_init__\<close> runs on the values as they are given.\<close>

definition make_policy :: "(string \<Rightarrow> bool) \<Rightarrow> (string \<times> json) list \<Rightarrow> agent_policy res" where
  "make_policy zone_ok d =
     (let bad_type = ValueError ''agent_policy: invalid type or non-finite number''; bad_range = ValueError ''agent_policy: must be positive'' in
      ebind (need bad_type (matches_int (policy_field d ''max_tool_turns''))) (\<lambda>turns.
      ebind (need bad_type (matches_str (policy_field d ''default_timezone''))) (\<lambda>zone.
      ebind (need bad_type (matches_bool (policy_field d ''tool_result_summary_enabled''))) (\<lambda>enabled.
      ebind (need bad_type (matches_int (policy_field d ''tool_result_summary_threshold''))) (\<lambda>threshold.
      ebind (need bad_type (matches_int (policy_field d ''tool_result_summary_max_chars''))) (\<lambda>max_chars.
      ensure (turns > 0) bad_range (ensure (threshold > 0) bad_range (ensure (max_chars > 0) bad_range
      (ensure (zone_ok zone) (ValueError ''agent_policy.default_timezone: invalid IANA timezone'')
      (Inr \<lparr>ap_max_tool_turns = turns, ap_default_timezone = zone, ap_tool_result_summary_enabled = enabled,
            ap_tool_result_summary_threshold = threshold, ap_tool_result_summary_max_chars = max_chars\<rparr>))))))))))"

section \<open>Snapshots\<close>

definition to_snapshot :: "agent_policy \<Rightarrow> json" where
  "to_snapshot p = JObj ((''schema_version'', JInt 1) # policy_dict p)"

definition from_snapshot :: "(string \<Rightarrow> bool) \<Rightarrow> json \<Rightarrow> agent_policy res" where
  "from_snapshot zone_ok value =
     (let bad = ValueError ''agent_policy: invalid snapshot fields or version'' in
      case value of
        JObj d \<Rightarrow>
          ensure (set (map fst d) = set policy_fields \<union> {''schema_version''} \<and> map_of d ''schema_version'' = Some (JInt 1)) bad
            (make_policy zone_ok (filter (\<lambda>(name, v). name \<in> set policy_fields) d))
      | _ \<Rightarrow> Inl bad)"

text \<open>The policy of a Run: absence alone is legacy.\<close>

definition policy_from_run :: "(string \<Rightarrow> bool) \<Rightarrow> (string \<times> json) list \<Rightarrow> agent_policy option res" where
  "policy_from_run zone_ok snapshot =
     (case map_of snapshot ''agent_policy'' of
        None \<Rightarrow> Inr None
      | Some v \<Rightarrow> ebind (from_snapshot zone_ok v) (\<lambda>p. Inr (Some p)))"

section \<open>Configuration\<close>

definition legacy_fields :: "string list" where
  "legacy_fields = [''mode'', ''idle_timeout_minutes'', ''event_fetch_limit'', ''activity_timeout'', ''archive_timeout'',
     ''multi_agent'', ''max_history_turns'', ''reflect_interval_hours'', ''recall_top_n'']"

definition load_agent_policy :: "(string \<Rightarrow> bool) \<Rightarrow> json \<Rightarrow> agent_policy res" where
  "load_agent_policy zone_ok raw =
     (let bad = ValueError ''config.agent: expected a mapping'' in
      case raw of
        JObj config \<Rightarrow>
          ebind (case map_of config ''agent'' of
                   None \<Rightarrow> Inr [] | Some JNull \<Rightarrow> Inr [] | Some (JObj d) \<Rightarrow> Inr d | _ \<Rightarrow> Inl bad) (\<lambda>agent.
            ensure (list_all (\<lambda>(name, v). name \<in> set policy_fields \<union> set legacy_fields) agent)
              (ValueError ''config.agent: unknown configuration field'')
              (make_policy zone_ok (filter (\<lambda>(name, v). name \<in> set policy_fields) agent)))
      | _ \<Rightarrow> Inl bad)"

section \<open>Laws\<close>

definition policy_ok :: "(string \<Rightarrow> bool) \<Rightarrow> agent_policy \<Rightarrow> bool" where
  "policy_ok zone_ok p \<longleftrightarrow> ap_max_tool_turns p > 0 \<and> ap_tool_result_summary_threshold p > 0 \<and>
     ap_tool_result_summary_max_chars p > 0 \<and> zone_ok (ap_default_timezone p)"

lemma matches_Some [simp]:
  "matches_int j = Some i \<longleftrightarrow> j = JInt i" "matches_bool j = Some b \<longleftrightarrow> j = JBool b"
  "matches_str j = Some t \<longleftrightarrow> j = JStr t"
  by (cases j; auto)+

lemma make_policy_ok: "make_policy zone_ok d = Inr p \<Longrightarrow> policy_ok zone_ok p"
  by (auto simp: make_policy_def Let_def res_simps policy_ok_def)

lemma policy_lookup:
  "map_of (policy_dict p) ''max_tool_turns'' = Some (JInt (ap_max_tool_turns p))"
  "map_of (policy_dict p) ''default_timezone'' = Some (JStr (ap_default_timezone p))"
  "map_of (policy_dict p) ''tool_result_summary_enabled'' = Some (JBool (ap_tool_result_summary_enabled p))"
  "map_of (policy_dict p) ''tool_result_summary_threshold'' = Some (JInt (ap_tool_result_summary_threshold p))"
  "map_of (policy_dict p) ''tool_result_summary_max_chars'' = Some (JInt (ap_tool_result_summary_max_chars p))"
  by (simp_all add: policy_dict_def)

text \<open>The fields of the result are the arguments.\<close>

lemma make_policy_fields:
  assumes "make_policy zone_ok d = Inr p" "(name, v) \<in> set (policy_dict p)"
  shows "v = policy_field d name"
proof -
  from assms(1) have "policy_field d ''max_tool_turns'' = JInt (ap_max_tool_turns p)"
    "policy_field d ''default_timezone'' = JStr (ap_default_timezone p)"
    "policy_field d ''tool_result_summary_enabled'' = JBool (ap_tool_result_summary_enabled p)"
    "policy_field d ''tool_result_summary_threshold'' = JInt (ap_tool_result_summary_threshold p)"
    "policy_field d ''tool_result_summary_max_chars'' = JInt (ap_tool_result_summary_max_chars p)"
    by (auto simp: make_policy_def Let_def res_simps)
  with assms(2) show ?thesis by (auto simp only: policy_dict_def list.set insert_iff prod.inject empty_iff)
qed

lemma make_policy_dict: "policy_ok zone_ok p \<Longrightarrow> make_policy zone_ok (policy_dict p) = Inr p"
  by (simp add: make_policy_def policy_field_def policy_lookup policy_ok_def)

lemma policy_dict_fields: "map fst (policy_dict p) = policy_fields"
  by (simp add: policy_dict_def policy_fields_def)

lemma policy_fields_distinct: "distinct policy_fields" "''schema_version'' \<notin> set policy_fields"
  by code_simp+

lemma filter_policy_dict: "filter (\<lambda>(name, v). name \<in> set policy_fields) (policy_dict p) = policy_dict p"
  by (auto simp: policy_dict_fields [of p, symmetric] intro!: filter_True intro: rev_image_eqI)

lemma map_of_filter_fields:
  "name \<in> set policy_fields \<Longrightarrow> map_of (filter (\<lambda>(n, v). n \<in> set policy_fields) d) name = map_of d name"
  by (induction d) auto

text \<open>C36. Snapshots round trip: the snapshot of a valid policy restores it.\<close>

theorem policy_snapshot_roundtrip:
  assumes "policy_ok zone_ok p"
  shows "from_snapshot zone_ok (to_snapshot p) = Inr p \<and>
     policy_from_run zone_ok [(''agent_policy'', to_snapshot p)] = Inr (Some p)"
proof -
  have "set (map fst ((''schema_version'', JInt 1) # policy_dict p)) = set policy_fields \<union> {''schema_version''}"
    by (simp only: list.map fst_conv policy_dict_fields list.set) blast
  moreover note policy_fields_distinct(2)
  ultimately have "from_snapshot zone_ok (to_snapshot p) = Inr p"
    using make_policy_dict [OF assms] by (simp add: from_snapshot_def to_snapshot_def Let_def filter_policy_dict)
  then show ?thesis by (simp add: policy_from_run_def)
qed

text \<open>C37. A snapshot that is accepted is well typed: its fields are exactly those of the class with version 1,
  every field of the policy is the value of the snapshot, with the type of its annotation (a Boolean is no
  integer), and the ranges and the time zone hold.\<close>

theorem policy_snapshot_typed:
  assumes "from_snapshot zone_ok (JObj d) = Inr p" and "distinct (map fst d)"
  shows "policy_ok zone_ok p \<and> map_of d = map_of ((''schema_version'', JInt 1) # policy_dict p)"
proof -
  let ?d = "filter (\<lambda>(name, v). name \<in> set policy_fields) d"
  have keys: "set (map fst d) = set policy_fields \<union> {''schema_version''}" "map_of d ''schema_version'' = Some (JInt 1)"
    and made: "make_policy zone_ok ?d = Inr p"
    using assms(1) unfolding from_snapshot_def Let_def json.case ensure_Inr_iff by blast+
  note fields = arg_cong [OF policy_dict_fields [of p], where f = set, unfolded list.set_map]
  have "map_of d name = map_of ((''schema_version'', JInt 1) # policy_dict p) name" for name
  proof (cases "name = ''schema_version''")
    case True
    with keys(2) show ?thesis by (simp only: map_of.simps fst_conv snd_conv fun_upd_same)
  next
    case other: False
    have skip: "map_of ((''schema_version'', JInt 1) # policy_dict p) name = map_of (policy_dict p) name"
      using other by (simp only: map_of.simps fst_conv snd_conv fun_upd_other [OF other])
    show ?thesis
    proof (cases "name \<in> set policy_fields")
      case True
      from True keys(1) obtain v where v: "map_of d name = Some v"
        by (cases "map_of d name") (auto simp only: map_of_eq_None_iff list.set_map)
      from True fields obtain v' where v': "map_of (policy_dict p) name = Some v'"
        by (cases "map_of (policy_dict p) name") (auto simp only: map_of_eq_None_iff)
      from make_policy_fields [OF made map_of_SomeD [OF this]] v
      have "v' = v" by (simp only: policy_field_def map_of_filter_fields [OF True] option.case)
      with v v' skip show ?thesis by (simp only:)
    next
      case False
      with other keys(1) have "map_of d name = None" by (auto simp only: map_of_eq_None_iff list.set_map)
      moreover from False fields have "map_of (policy_dict p) name = None" by (auto simp only: map_of_eq_None_iff)
      ultimately show ?thesis unfolding skip by (simp only:)
    qed
  qed
  with make_policy_ok [OF made] show ?thesis by blast
qed

lemma policy_snapshot_roundtrip_witness:
  "from_snapshot (\<lambda>z. z = ''Asia/Shanghai'') (to_snapshot default_policy) = Inr default_policy"
  using policy_snapshot_roundtrip [of "\<lambda>z. z = ''Asia/Shanghai''" default_policy]
  by (simp add: policy_ok_def default_policy_def)

lemma policy_snapshot_typed_witness:
  "policy_ok (\<lambda>z. True) default_policy \<and>
   map_of (rev ((''schema_version'', JInt 1) # policy_dict default_policy)) =
     map_of ((''schema_version'', JInt 1) # policy_dict default_policy)"
proof -
  let ?d = "rev ((''schema_version'', JInt 1) # policy_dict default_policy)"
  have "from_snapshot (\<lambda>z. True) (JObj ?d) = Inr default_policy" "distinct (map fst ?d)" by code_simp+
  then show ?thesis by (rule policy_snapshot_typed)
qed

end
