(* ===== verification/Capacity.thy ===== *)
theory Capacity
  imports Authority "HOL-Library.List_Lexorder" "HOL-Library.Char_ord" "HOL-Library.Product_Lexorder" "HOL-Library.Option_ord"
begin

text \<open>
  Shared capacity for model, tool and fetch calls (\<open>resources/capacity.py\<close>, tables of migration 057): a
  caller holds a ticket while it works, tickets of dead callers run out, interactive Runs keep reserved
  slots and each lane rotates over its accounts. \<open>limits\<close> is what \<open>CapacityConfig.from_environment\<close>
  returned; the advisory locks that serialize the transactions need no model.
\<close>

section \<open>Limits\<close>

record capacity_config =
  cc_work_account_coordinators :: int
  cc_work_global_coordinators :: int
  cc_capacity_model_global :: int
  cc_capacity_model_account :: int
  cc_capacity_model_interactive_reserved :: int
  cc_capacity_tool_global :: int
  cc_capacity_tool_account :: int
  cc_capacity_tool_interactive_reserved :: int
  cc_capacity_fetch_global :: int
  cc_capacity_fetch_account :: int
  cc_capacity_fetch_interactive_reserved :: int

text \<open>The global, interactive and per account limits of a resource.\<close>

definition resource_limits :: "capacity_config \<Rightarrow> string \<Rightarrow> (int \<times> int \<times> int) res" where
  "resource_limits c resource =
     (if resource = ''model''
      then Inr (cc_capacity_model_global c, cc_capacity_model_interactive_reserved c, cc_capacity_model_account c)
      else if resource = ''tool''
      then Inr (cc_capacity_tool_global c, cc_capacity_tool_interactive_reserved c, cc_capacity_tool_account c)
      else if resource = ''fetch''
      then Inr (cc_capacity_fetch_global c, cc_capacity_fetch_interactive_reserved c, cc_capacity_fetch_account c)
      else Inl (ValueError ''capacity.resource: unsupported resource''))"

section \<open>Tickets\<close>

datatype lane = Interactive | Background

datatype ticket_state = Ticket_Waiting | Ticket_Held | Ticket_Released

record ticket_row =
  tk_ticket_id :: uuid
  tk_account_id :: uuid
  tk_run_id :: uuid
  tk_resource :: string
  tk_lane :: lane
  tk_state :: ticket_state
  tk_lease_until :: int
  tk_created_at :: int

text \<open>The last admission of an account in a lane; \<open>None\<close> is \<open>'-infinity'\<close>.\<close>

type_synonym turn_key = "string \<times> lane \<times> uuid"

record capacity_db = authority_db +
  tickets :: "ticket_row list"
  turns :: "(turn_key \<times> int option) list"

definition holds :: "ticket_row list \<Rightarrow> (ticket_row \<Rightarrow> bool) \<Rightarrow> int" where
  "holds ts P = int (length (filter (\<lambda>t. tk_state t = Ticket_Held \<and> P t) ts))"

definition expire_tickets :: "int \<Rightarrow> ticket_row list \<Rightarrow> ticket_row list" where
  "expire_tickets now = update_where (\<lambda>t. tk_state t \<noteq> Ticket_Released \<and> tk_lease_until t < now)
     (\<lambda>t. t\<lparr>tk_state := Ticket_Released\<rparr>)"

text \<open>INSERT, or the prolongation of a ticket that is there and not released.\<close>

definition request_ticket :: "ticket_row \<Rightarrow> ticket_row list \<Rightarrow> ticket_row list" where
  "request_ticket t ts =
     (if list_ex (\<lambda>x. tk_ticket_id x = tk_ticket_id t) ts
      then update_where (\<lambda>x. tk_ticket_id x = tk_ticket_id t \<and> tk_state x \<noteq> Ticket_Released)
             (\<lambda>x. x\<lparr>tk_lease_until := tk_lease_until t\<rparr>) ts
      else ts @ [t])"

definition ensure_turn :: "turn_key \<Rightarrow> (turn_key \<times> int option) list \<Rightarrow> (turn_key \<times> int option) list" where
  "ensure_turn k ts = (if map_of ts k = None then ts @ [(k, None)] else ts)"

definition full :: "int \<times> int \<times> int \<Rightarrow> ticket_row list \<Rightarrow> string \<Rightarrow> lane \<Rightarrow> uuid \<Rightarrow> bool" where
  "full lim ts resource lane acc =
     (case lim of (tot, interactive, per_account) \<Rightarrow>
        holds ts (\<lambda>t. tk_resource t = resource) \<ge> tot
        \<or> holds ts (\<lambda>t. tk_resource t = resource \<and> tk_account_id t = acc) \<ge> per_account
        \<or> lane = Background \<and>
          (holds ts (\<lambda>t. tk_resource t = resource \<and> tk_lane t = Background) \<ge> max 0 (tot - interactive)
           \<or> holds ts (\<lambda>t. tk_resource t = resource \<and> tk_account_id t = acc \<and> tk_lane t = Background)
               \<ge> max 0 (per_account - (if interactive > 0 then 1 else 0))))"

text \<open>The waiting tickets whose accounts are not saturated, and the one whose turn it is.\<close>

definition eligible ::
  "int \<times> int \<times> int \<Rightarrow> ticket_row list \<Rightarrow> (turn_key \<times> int option) list \<Rightarrow> string \<Rightarrow> lane \<Rightarrow> ticket_row \<Rightarrow> bool" where
  "eligible lim ts trn resource lane q =
     (case lim of (tot, interactive, per_account) \<Rightarrow>
        tk_resource q = resource \<and> tk_lane q = lane \<and> tk_state q = Ticket_Waiting
        \<and> map_of trn (resource, lane, tk_account_id q) \<noteq> None
        \<and> holds ts (\<lambda>h. tk_resource h = resource \<and> tk_account_id h = tk_account_id q) < per_account
        \<and> (lane \<noteq> Background
           \<or> holds ts (\<lambda>h. tk_resource h = resource \<and> tk_account_id h = tk_account_id q \<and> tk_lane h = Background)
               < max 0 (per_account - (if interactive > 0 then 1 else 0))))"

definition turn_order :: "(turn_key \<times> int option) list \<Rightarrow> ticket_row \<Rightarrow> int option \<times> int \<times> uuid" where
  "turn_order trn q =
     (case map_of trn (tk_resource q, tk_lane q, tk_account_id q) of None \<Rightarrow> None | Some t \<Rightarrow> t,
      tk_created_at q, tk_ticket_id q)"

definition winner ::
  "int \<times> int \<times> int \<Rightarrow> ticket_row list \<Rightarrow> (turn_key \<times> int option) list \<Rightarrow> string \<Rightarrow> lane \<Rightarrow> ticket_row option" where
  "winner lim ts trn resource lane =
     (case sort_key (turn_order trn) (filter (eligible lim ts trn resource lane) ts) of
        [] \<Rightarrow> None | q # qs \<Rightarrow> Some q)"

section \<open>The service\<close>

definition admission :: "capacity_config \<Rightarrow> 'a authority_db_scheme \<Rightarrow> uuid \<Rightarrow> bool" where
  "admission limits s acc =
     (let active = filter (\<lambda>r. r_source_kind r = Work \<and> r_status r \<in> {Queued, Running, Cancelling}) (runs s) in
      int (length (filter (\<lambda>r. r_account_id r = acc) active)) < cc_work_account_coordinators limits
      \<and> int (length active) < cc_work_global_coordinators limits)"

text \<open>The Run a ticket is for: active, of an active account, and with its Work mandate.\<close>

definition ticket_run :: "'a capacity_db_scheme \<Rightarrow> uuid \<Rightarrow> run_row res" where
  "ticket_run s run_id =
     ebind (need CapacityUnavailable (find (\<lambda>r. r_run_id r = run_id \<and> accounts s (r_account_id r) \<noteq> None) (runs s))) (\<lambda>run.
     ensure (r_status run \<in> {Queued, Running} \<and> account_active s (r_account_id run)) CapacityUnavailable
     (if r_work_id run \<noteq> None then ebind (check_work s run) (\<lambda>_. Inr run) else Inr run))"

definition lane_of :: "run_row \<Rightarrow> lane" where
  "lane_of run = (if r_work_id run \<noteq> None then Background else Interactive)"

text \<open>The queue after the expiry and the request, before it is decided who is next.\<close>

definition queued :: "'a capacity_db_scheme \<Rightarrow> run_row \<Rightarrow> string \<Rightarrow> uuid \<Rightarrow> int \<Rightarrow> 'a capacity_db_scheme" where
  "queued s run resource ticket now =
     s\<lparr>tickets := request_ticket
         \<lparr>tk_ticket_id = ticket, tk_account_id = r_account_id run, tk_run_id = r_run_id run, tk_resource = resource,
          tk_lane = lane_of run, tk_state = Ticket_Waiting, tk_lease_until = now + 90, tk_created_at = now\<rparr>
         (expire_tickets now (tickets s)),
       turns := ensure_turn (resource, lane_of run, r_account_id run) (turns s)\<rparr>"

definition hold_ticket :: "uuid \<Rightarrow> ticket_row list \<Rightarrow> ticket_row list" where
  "hold_ticket ticket = update_where (\<lambda>t. tk_ticket_id t = ticket) (\<lambda>t. t\<lparr>tk_state := Ticket_Held\<rparr>)"

definition acquire_ticket ::
  "capacity_config \<Rightarrow> 'a capacity_db_scheme \<Rightarrow> uuid \<Rightarrow> string \<Rightarrow> uuid \<Rightarrow> int \<Rightarrow> (bool \<times> 'a capacity_db_scheme) res" where
  "acquire_ticket limits s run_id resource ticket now =
     ebind (ticket_run s run_id) (\<lambda>run.
     ebind (resource_limits limits resource) (\<lambda>lim.
       let s1 = queued s run resource ticket now; lane = lane_of run in
       if full lim (tickets s1) resource lane (r_account_id run) then Inr (False, s1)
       else case winner lim (tickets s1) (turns s1) resource lane of
              None \<Rightarrow> Inr (False, s1)
            | Some w \<Rightarrow>
                if tk_ticket_id w \<noteq> ticket then Inr (False, s1)
                else Inr (True, s1\<lparr>tickets := hold_ticket ticket (tickets s1),
                                   turns := map (\<lambda>(k, t). if k = (resource, lane, r_account_id run) then (k, Some now) else (k, t))
                                              (turns s1)\<rparr>)))"

definition release_ticket :: "'a capacity_db_scheme \<Rightarrow> uuid \<Rightarrow> 'a capacity_db_scheme" where
  "release_ticket s ticket =
     s\<lparr>tickets := update_where (\<lambda>t. tk_ticket_id t = ticket \<and> tk_state t \<noteq> Ticket_Released)
                    (\<lambda>t. t\<lparr>tk_state := Ticket_Released\<rparr>) (tickets s)\<rparr>"

definition renew_ticket :: "'a capacity_db_scheme \<Rightarrow> uuid \<Rightarrow> int \<Rightarrow> bool \<times> 'a capacity_db_scheme" where
  "renew_ticket s ticket now =
     (let mine = (\<lambda>t. tk_ticket_id t = ticket \<and> tk_state t = Ticket_Held \<and> tk_lease_until t > now) in
      (list_ex mine (tickets s),
       s\<lparr>tickets := update_where mine (\<lambda>t. t\<lparr>tk_lease_until := now + 90\<rparr>) (tickets s)\<rparr>))"

text \<open>The loop of \<open>slot\<close>: the polls happen at the given times on whatever the queue has become meanwhile,
  \<open>others\<close> being what the rest of the system does before each poll. It is left with the first admission.\<close>

primrec poll_ticket ::
  "int list \<Rightarrow> capacity_config \<Rightarrow> (int \<Rightarrow> 'a capacity_db_scheme \<Rightarrow> 'a capacity_db_scheme) \<Rightarrow> 'a capacity_db_scheme \<Rightarrow>
   uuid \<Rightarrow> string \<Rightarrow> uuid \<Rightarrow> (int option \<times> 'a capacity_db_scheme) res" where
  "poll_ticket [] limits others s run_id resource ticket = Inr (None, s)"
| "poll_ticket (t # ts) limits others s run_id resource ticket =
     ebind (acquire_ticket limits (others t s) run_id resource ticket t) (\<lambda>(got, s').
       if got then Inr (Some t, s') else poll_ticket ts limits others s' run_id resource ticket)"

end
