(* ===== verification/Capacity_Laws.thy ===== *)
theory Capacity_Laws
  imports Capacity
begin

text \<open>
  What the capacity tickets guarantee: the limits hold in every reachable state, a released ticket stays
  released, and whose turn it is when a slot is free. A finding: the loop that waits for a slot keeps its
  ticket, so a ticket that ran out while it waited is never admitted.
\<close>

section \<open>Counting held tickets\<close>

lemma holds_append [simp]: "holds (ts @ us) P = holds ts P + holds us P"
  by (simp add: holds_def)

lemma holds_nonneg [simp]: "0 \<le> holds ts P"
  by (simp add: holds_def)

lemma holds_Nil [simp]: "holds [] P = 0"
  by (simp add: holds_def)

lemma holds_Cons [simp]: "holds (t # ts) P = (if tk_state t = Ticket_Held \<and> P t then 1 else 0) + holds ts P"
  by (simp add: holds_def)

text \<open>What is counted depends on the resource, the account and the lane of a ticket only; they never change.\<close>

definition held_at :: "ticket_row list \<Rightarrow> (string \<Rightarrow> uuid \<Rightarrow> lane \<Rightarrow> bool) \<Rightarrow> int" where
  "held_at ts R = holds ts (\<lambda>t. R (tk_resource t) (tk_account_id t) (tk_lane t))"

definition same_place :: "ticket_row \<Rightarrow> ticket_row \<Rightarrow> bool" where
  "same_place t u \<longleftrightarrow> tk_resource u = tk_resource t \<and> tk_account_id u = tk_account_id t \<and> tk_lane u = tk_lane t"

text \<open>A change that holds no new ticket.\<close>

lemma holds_update:
  assumes "\<And>t. P t \<Longrightarrow> same_place t (f t)" "\<And>t. P t \<Longrightarrow> tk_state (f t) = Ticket_Held \<Longrightarrow> tk_state t = Ticket_Held"
  shows "held_at (update_where P f ts) R \<le> held_at ts R"
proof (induction ts)
  case (Cons t ts)
  with assms show ?case by (cases "P t") (auto simp: held_at_def same_place_def)
qed (simp add: held_at_def)

lemma holds_expire: "held_at (expire_tickets now ts) R \<le> held_at ts R"
  unfolding expire_tickets_def by (rule holds_update) (auto simp: same_place_def)

lemma holds_request: "tk_state t \<noteq> Ticket_Held \<Longrightarrow> held_at (request_ticket t ts) R \<le> held_at ts R"
proof (cases "list_ex (\<lambda>x. tk_ticket_id x = tk_ticket_id t) ts")
  case True
  have "held_at (update_where (\<lambda>x. tk_ticket_id x = tk_ticket_id t \<and> tk_state x \<noteq> Ticket_Released)
      (\<lambda>x. x\<lparr>tk_lease_until := tk_lease_until t\<rparr>) ts) R \<le> held_at ts R"
    by (rule holds_update) (simp_all add: same_place_def)
  with True show ?thesis unfolding request_ticket_def by (simp only: if_True)
qed (simp add: request_ticket_def held_at_def)

lemma holds_queued: "held_at (tickets (queued s run resource ticket now)) R \<le> held_at (tickets s) R"
proof -
  have "held_at (tickets (queued s run resource ticket now)) R \<le> held_at (expire_tickets now (tickets s)) R"
    by (simp add: queued_def holds_request)
  also have "\<dots> \<le> held_at (tickets s) R" by (rule holds_expire)
  finally show ?thesis .
qed

definition ids :: "ticket_row list \<Rightarrow> uuid list" where
  "ids = map tk_ticket_id"

lemma ids_update: "(\<And>t. tk_ticket_id (f t) = tk_ticket_id t) \<Longrightarrow> ids (update_where P f ts) = ids ts"
  by (induction ts) (auto simp: ids_def)

lemma ids_expire [simp]: "ids (expire_tickets now ts) = ids ts"
  by (simp add: expire_tickets_def ids_update)

lemma ids_hold [simp]: "ids (hold_ticket ticket ts) = ids ts"
  by (simp add: hold_ticket_def ids_update)

lemma distinct_request: "distinct (ids ts) \<Longrightarrow> distinct (ids (request_ticket t ts))"
  by (auto simp: request_ticket_def ids_update list_ex_iff) (auto simp: ids_def)

lemma distinct_queued: "distinct (ids (tickets s)) \<Longrightarrow> distinct (ids (tickets (queued s run resource ticket now)))"
  by (simp add: queued_def distinct_request)

text \<open>Holding one waiting ticket adds it to the counts of its place.\<close>

lemma hold_other: "ticket \<notin> set (ids ts) \<Longrightarrow> hold_ticket ticket ts = ts"
  by (induction ts) (auto simp: hold_ticket_def ids_def)

lemma holds_hold:
  assumes "distinct (ids ts)" "w \<in> set ts" "tk_state w \<noteq> Ticket_Held"
  shows "held_at (hold_ticket (tk_ticket_id w) ts) R = held_at ts R + (if R (tk_resource w) (tk_account_id w) (tk_lane w) then 1 else 0)"
  using assms
proof (induction ts)
  case (Cons t ts)
  show ?case
  proof (cases "t = w")
    case True
    with Cons.prems have "tk_ticket_id w \<notin> set (ids ts)" by (simp add: ids_def)
    from hold_other [OF this] True Cons.prems(3) show ?thesis
      by (simp add: hold_ticket_def held_at_def)
  next
    case False
    with Cons.prems have "w \<in> set ts" by simp
    with Cons.prems(1) have "tk_ticket_id t \<noteq> tk_ticket_id w" by (auto simp: ids_def)
    with Cons.IH [OF _ \<open>w \<in> set ts\<close> Cons.prems(3)] Cons.prems(1) show ?thesis
      by (auto simp: hold_ticket_def ids_def held_at_def)
  qed
qed (simp add: held_at_def)

section \<open>Whose turn it is\<close>

lemma winner_SomeD:
  assumes "winner lim ts trn resource lane = Some w"
  shows "w \<in> set ts" "eligible lim ts trn resource lane w"
    "\<And>q. q \<in> set ts \<Longrightarrow> eligible lim ts trn resource lane q \<Longrightarrow> turn_order trn w \<le> turn_order trn q"
proof -
  let ?qs = "filter (eligible lim ts trn resource lane) ts"
  obtain qs where qs: "sort_key (turn_order trn) ?qs = w # qs"
    using assms by (auto simp: winner_def split: list.splits)
  have "set (w # qs) = set ?qs" unfolding qs [symmetric] by simp
  then show "w \<in> set ts" "eligible lim ts trn resource lane w" by auto
  fix q assume q: "q \<in> set ts" "eligible lim ts trn resource lane q"
  have "sorted (map (turn_order trn) (w # qs))" unfolding qs [symmetric] by simp
  moreover from q \<open>set (w # qs) = set ?qs\<close> have "q \<in> set (w # qs)" by auto
  ultimately show "turn_order trn w \<le> turn_order trn q" by auto
qed

lemma winner_NoneD: "winner lim ts trn resource lane = None \<Longrightarrow> q \<in> set ts \<Longrightarrow> \<not> eligible lim ts trn resource lane q"
  by (auto simp: winner_def filter_empty_conv dest!: arg_cong [where f = set] split: list.splits)

section \<open>The limits\<close>

definition within :: "int \<times> int \<times> int \<Rightarrow> ticket_row list \<Rightarrow> string \<Rightarrow> bool" where
  "within lim ts resource =
     (case lim of (tot, interactive, per_account) \<Rightarrow>
        held_at ts (\<lambda>r a l. r = resource) \<le> max 0 tot
        \<and> (\<forall>acc. held_at ts (\<lambda>r a l. r = resource \<and> a = acc) \<le> max 0 per_account)
        \<and> held_at ts (\<lambda>r a l. r = resource \<and> l = Background) \<le> max 0 (tot - interactive)
        \<and> (\<forall>acc. held_at ts (\<lambda>r a l. r = resource \<and> a = acc \<and> l = Background)
             \<le> max 0 (per_account - (if interactive > 0 then 1 else 0))))"

text \<open>Distinct tickets, and the limits of every resource.\<close>

definition capacity_ok :: "capacity_config \<Rightarrow> 'a capacity_db_scheme \<Rightarrow> bool" where
  "capacity_ok c s \<longleftrightarrow> distinct (ids (tickets s)) \<and>
     (\<forall>resource lim. resource_limits c resource = Inr lim \<longrightarrow> within lim (tickets s) resource)"

lemma within_mono:
  assumes "within lim ts resource" "\<And>R. held_at ts' R \<le> held_at ts R"
  shows "within lim ts' resource"
  using assms(1) unfolding within_def by (auto split: prod.splits intro: order_trans [OF assms(2)])

lemma capacity_ok_mono:
  assumes "capacity_ok c s" "distinct (ids (tickets s'))" "\<And>R. held_at (tickets s') R \<le> held_at (tickets s) R"
  shows "capacity_ok c s'"
  using assms unfolding capacity_ok_def by (blast intro: within_mono)

text \<open>One more ticket at a place where nothing is full.\<close>

lemma within_hold:
  assumes "within lim ts resource" "distinct (ids ts)" "w \<in> set ts" "eligible lim ts trn r lane w"
    and "\<not> full lim ts r lane acc" and "resource = r \<or> resource \<noteq> r"
  shows "within lim (hold_ticket (tk_ticket_id w) ts) resource"
proof -
  obtain tot inter per where lim: "lim = (tot, inter, per)" by (cases lim)
  have w: "tk_resource w = r" "tk_lane w = lane" "tk_state w \<noteq> Ticket_Held" using assms(4) by (auto simp: eligible_def lim)
  note add = holds_hold [OF assms(2,3) w(3)]
  show ?thesis
  proof (cases "resource = r")
    case False
    with w have "held_at (hold_ticket (tk_ticket_id w) ts) (\<lambda>x a l. x = resource \<and> R a l) =
        held_at ts (\<lambda>x a l. x = resource \<and> R a l)" for R
      using add [of "\<lambda>x a l. x = resource \<and> R a l"] by (simp add: held_at_def)
    from this [of "\<lambda>a l. True"] this [of "\<lambda>a l. a = _"] this [of "\<lambda>a l. l = Background"]
      this [of "\<lambda>a l. a = _ \<and> l = Background"] assms(1)
    show ?thesis by (simp add: within_def lim)
  next
    case True
    have full: "held_at ts (\<lambda>x a l. x = r) < tot"
      "lane = Background \<Longrightarrow> held_at ts (\<lambda>x a l. x = r \<and> l = Background) < max 0 (tot - inter)"
      using assms(5) by (auto simp: full_def lim held_at_def)
    have mine: "held_at ts (\<lambda>x a l. x = r \<and> a = tk_account_id w) < per"
      "lane = Background \<Longrightarrow> held_at ts (\<lambda>x a l. x = r \<and> a = tk_account_id w \<and> l = Background)
          < max 0 (per - (if inter > 0 then 1 else 0))"
      using assms(4) by (auto simp: eligible_def lim held_at_def)
    have "held_at (hold_ticket (tk_ticket_id w) ts) (\<lambda>x a l. x = r) \<le> max 0 tot"
      using full(1) by (simp add: add w)
    moreover have "held_at (hold_ticket (tk_ticket_id w) ts) (\<lambda>x a l. x = r \<and> a = acc) \<le> max 0 per" for acc
      using mine(1) assms(1) True by (auto simp: add w within_def lim)
    moreover have "held_at (hold_ticket (tk_ticket_id w) ts) (\<lambda>x a l. x = r \<and> l = Background) \<le> max 0 (tot - inter)"
      using full(2) assms(1) True by (auto simp: add w within_def lim)
    moreover have "held_at (hold_ticket (tk_ticket_id w) ts) (\<lambda>x a l. x = r \<and> a = acc \<and> l = Background)
        \<le> max 0 (per - (if inter > 0 then 1 else 0))" for acc
      using mine(2) assms(1) True by (auto simp: add w within_def lim)
    ultimately show ?thesis using True by (simp add: within_def lim)
  qed
qed

lemma acquire_ticket_cases:
  fixes s :: "'a capacity_db_scheme"
  assumes "acquire_ticket c s run_id resource ticket now = Inr (got, s')"
  obtains run lim where "ticket_run s run_id = Inr run" "resource_limits c resource = Inr lim"
    and "\<not> got \<Longrightarrow> s' = queued s run resource ticket now"
    and "got \<Longrightarrow> \<not> full lim (tickets (queued s run resource ticket now)) resource (lane_of run) (r_account_id run)"
    and "got \<Longrightarrow> \<exists>w. winner lim (tickets (queued s run resource ticket now)) (turns (queued s run resource ticket now))
           resource (lane_of run) = Some w \<and> tk_ticket_id w = ticket"
    and "got \<Longrightarrow> tickets s' = hold_ticket ticket (tickets (queued s run resource ticket now))"
proof -
  obtain run lim where r: "ticket_run s run_id = Inr run" "resource_limits c resource = Inr lim"
    using assms by (auto simp: acquire_ticket_def res_simps)
  let ?s = "queued s run resource ticket now"
  have body: "(if full lim (tickets ?s) resource (lane_of run) (r_account_id run) then Inr (False, ?s)
       else case winner lim (tickets ?s) (turns ?s) resource (lane_of run) of
              None \<Rightarrow> Inr (False, ?s)
            | Some w \<Rightarrow>
                if tk_ticket_id w \<noteq> ticket then Inr (False, ?s)
                else Inr (True, ?s\<lparr>tickets := hold_ticket ticket (tickets ?s),
                                   turns := map (\<lambda>(k, t). if k = (resource, lane_of run, r_account_id run) then (k, Some now) else (k, t))
                                              (turns ?s)\<rparr>)) = (Inr (got, s') :: (bool \<times> 'a capacity_db_scheme) res)"
    using assms r by (simp add: acquire_ticket_def Let_def)
  show ?thesis
    by (rule that [OF r]) (use body in \<open>auto split: if_splits option.splits\<close>)
qed

lemma acquire_ok:
  assumes "capacity_ok c s" "acquire_ticket c s run_id resource ticket now = Inr (got, s')"
  shows "capacity_ok c s'"
  using assms(2)
proof (rule acquire_ticket_cases)
  fix run lim
  let ?s = "queued s run resource ticket now"
  assume run: "ticket_run s run_id = Inr run" "resource_limits c resource = Inr lim"
    and no: "\<not> got \<Longrightarrow> s' = ?s"
    and room: "got \<Longrightarrow> \<not> full lim (tickets ?s) resource (lane_of run) (r_account_id run)"
    and turn: "got \<Longrightarrow> \<exists>w. winner lim (tickets ?s) (turns ?s) resource (lane_of run) = Some w \<and> tk_ticket_id w = ticket"
    and held: "got \<Longrightarrow> tickets s' = hold_ticket ticket (tickets ?s)"
  have ok: "capacity_ok c ?s"
    using assms(1) by (rule capacity_ok_mono) (use assms(1) in \<open>simp_all add: capacity_ok_def distinct_queued holds_queued\<close>)
  show ?thesis
  proof (cases got)
    case False
    with no ok show ?thesis by simp
  next
    case True
    from turn [OF True] obtain w where w: "winner lim (tickets ?s) (turns ?s) resource (lane_of run) = Some w"
      "tk_ticket_id w = ticket" by blast
    from ok have d: "distinct (ids (tickets ?s))" by (simp add: capacity_ok_def)
    have "within lim' (tickets s') r" if "resource_limits c r = Inr lim'" for r lim'
    proof (cases "r = resource")
      case True
      with that run(2) have "lim' = lim" by simp
      moreover have "within lim (tickets ?s) r" using ok run(2) True unfolding capacity_ok_def by blast
      moreover note True
      ultimately
      show ?thesis
        using within_hold [OF _ d winner_SomeD(1,2) [OF w(1)] room [OF \<open>got\<close>], of r]
        by (simp add: held [OF \<open>got\<close>] w(2) [symmetric])
    next
      case False
      have st: "tk_state w \<noteq> Ticket_Held" "tk_resource w = resource"
        using winner_SomeD(2) [OF w(1)] by (auto simp: eligible_def split: prod.splits)
      have "held_at (tickets s') (\<lambda>x a l. x = r \<and> R a l) = held_at (tickets ?s) (\<lambda>x a l. x = r \<and> R a l)" for R
        using holds_hold [OF d winner_SomeD(1) [OF w(1)] st(1), of "\<lambda>x a l. x = r \<and> R a l"] False
        by (simp add: held [OF \<open>got\<close>] w(2) st(2))
      from this [of "\<lambda>a l. True"] this [of "\<lambda>a l. a = _"] this [of "\<lambda>a l. l = Background"]
        this [of "\<lambda>a l. a = _ \<and> l = Background"] ok that
      show ?thesis by (auto simp: capacity_ok_def within_def split: prod.splits)
    qed
    with d held [OF True] show ?thesis by (simp add: capacity_ok_def)
  qed
qed

section \<open>The system\<close>

text \<open>Callers acquire, release and renew tickets in any order at any time; everything else leaves the queue
  alone.\<close>

inductive capacity_step :: "capacity_config \<Rightarrow> capacity_db \<Rightarrow> capacity_db \<Rightarrow> bool" for c where
  Acquire: "acquire_ticket c s run_id resource ticket now = Inr (got, s') \<Longrightarrow> capacity_step c s s'"
| Release: "capacity_step c s (release_ticket s ticket)"
| Renew: "renew_ticket s ticket now = (ok, s') \<Longrightarrow> capacity_step c s s'"
| Elsewhere: "tickets s' = tickets s \<Longrightarrow> turns s' = turns s \<Longrightarrow> capacity_step c s s'"

inductive_cases capacity_stepE: "capacity_step c s s'"

lemma release_tickets: "tickets (release_ticket s ticket) =
    update_where (\<lambda>t. tk_ticket_id t = ticket \<and> tk_state t \<noteq> Ticket_Released) (\<lambda>t. t\<lparr>tk_state := Ticket_Released\<rparr>) (tickets s)"
  by (simp add: release_ticket_def)

lemma renew_tickets: "renew_ticket s ticket now = (ok, s') \<Longrightarrow> tickets s' =
    update_where (\<lambda>t. tk_ticket_id t = ticket \<and> tk_state t = Ticket_Held \<and> tk_lease_until t > now)
      (\<lambda>t. t\<lparr>tk_lease_until := now + 90\<rparr>) (tickets s)"
  by (auto simp: renew_ticket_def Let_def)

lemma step_ok:
  assumes "capacity_step c s s'" "capacity_ok c s"
  shows "capacity_ok c s'"
  using assms(1)
proof (cases rule: capacity_step.cases)
  case (Acquire run_id resource ticket now got)
  with assms(2) show ?thesis by (blast intro: acquire_ok)
next
  case (Release ticket)
  have d: "distinct (ids (tickets s'))" using assms(2) by (simp add: Release release_tickets ids_update capacity_ok_def)
  have "held_at (tickets s') R \<le> held_at (tickets s) R" for R
    unfolding Release(1) release_tickets by (rule holds_update) (auto simp: same_place_def)
  with assms(2) d show ?thesis by (rule capacity_ok_mono)
next
  case (Renew ticket now ok)
  have d: "distinct (ids (tickets s'))"
    using assms(2) by (simp add: renew_tickets [OF Renew] ids_update capacity_ok_def)
  have "held_at (tickets s') R \<le> held_at (tickets s) R" for R
    unfolding renew_tickets [OF Renew] by (rule holds_update) (auto simp: same_place_def)
  with assms(2) d show ?thesis by (rule capacity_ok_mono)
next
  case Elsewhere
  with assms(2) show ?thesis by (simp add: capacity_ok_def)
qed

text \<open>C38. In every reachable state the held tickets of a resource, and those of one account, are within its
  limits, the background lane leaves the reserved interactive slots free, and no account fills its own
  share with background work when slots are reserved.\<close>

theorem capacity_limits_hold:
  assumes "(capacity_step c)\<^sup>*\<^sup>* s s'" and "tickets s = []" and "resource_limits c resource = Inr (tot, interactive, per_account)"
  shows "holds (tickets s') (\<lambda>t. tk_resource t = resource) \<le> max 0 tot \<and>
     holds (tickets s') (\<lambda>t. tk_resource t = resource \<and> tk_account_id t = acc) \<le> max 0 per_account \<and>
     holds (tickets s') (\<lambda>t. tk_resource t = resource \<and> tk_lane t = Background) \<le> max 0 (tot - interactive) \<and>
     holds (tickets s') (\<lambda>t. tk_resource t = resource \<and> tk_account_id t = acc \<and> tk_lane t = Background)
       \<le> max 0 (per_account - (if interactive > 0 then 1 else 0))"
proof -
  have "capacity_ok c s" using assms(2) by (auto simp: capacity_ok_def within_def ids_def held_at_def)
  with assms(1) have "capacity_ok c s'" by (induction rule: rtranclp_induct) (auto intro: step_ok)
  with assms(3) have "within (tot, interactive, per_account) (tickets s') resource" by (auto simp: capacity_ok_def)
  then show ?thesis by (auto simp: within_def held_at_def)
qed

section \<open>Released tickets\<close>

definition released :: "uuid \<Rightarrow> ticket_row list \<Rightarrow> bool" where
  "released ticket ts \<longleftrightarrow> (\<exists>t \<in> set ts. tk_ticket_id t = ticket) \<and>
     (\<forall>t \<in> set ts. tk_ticket_id t = ticket \<longrightarrow> tk_state t = Ticket_Released)"

lemma released_update:
  assumes "released ticket ts" "\<And>t. tk_ticket_id (f t) = tk_ticket_id t"
    and "\<And>t. P t \<Longrightarrow> tk_ticket_id t = ticket \<Longrightarrow> tk_state t = Ticket_Released \<Longrightarrow> tk_state (f t) = Ticket_Released"
  shows "released ticket (update_where P f ts)"
proof -
  from assms(1) obtain t where t: "t \<in> set ts" "tk_ticket_id t = ticket" by (auto simp: released_def)
  then have "(if P t then f t else t) \<in> set (update_where P f ts)" "tk_ticket_id (if P t then f t else t) = ticket"
    by (simp_all add: set_update_where assms(2))
  moreover have "tk_state u = Ticket_Released" if "u \<in> set (update_where P f ts)" "tk_ticket_id u = ticket" for u
  proof -
    from that(1) obtain v where v: "v \<in> set ts" "u = (if P v then f v else v)" by (auto simp: set_update_where)
    with that(2) assms(2) have "tk_ticket_id v = ticket" by (simp split: if_splits)
    with assms(1) v(1) have "tk_state v = Ticket_Released" by (auto simp: released_def)
    with v(2) assms(3) \<open>tk_ticket_id v = ticket\<close> show ?thesis by simp
  qed
  ultimately show ?thesis unfolding released_def by blast
qed

lemma released_queued: "released ticket (tickets s) \<Longrightarrow> released ticket (tickets (queued s run resource other now))"
proof -
  assume "released ticket (tickets s)"
  then have "released ticket (expire_tickets now (tickets s))"
    unfolding expire_tickets_def by (rule released_update) simp_all
  moreover have "released ticket (request_ticket t ts)" if "released ticket ts" for t ts
  proof (cases "list_ex (\<lambda>x. tk_ticket_id x = tk_ticket_id t) ts")
    case True
    have "released ticket (update_where (\<lambda>x. tk_ticket_id x = tk_ticket_id t \<and> tk_state x \<noteq> Ticket_Released)
        (\<lambda>x. x\<lparr>tk_lease_until := tk_lease_until t\<rparr>) ts)" using that by (rule released_update) simp_all
    with True show ?thesis unfolding request_ticket_def by (simp only: if_True)
  next
    case False
    with that show ?thesis by (auto simp: request_ticket_def released_def list_ex_iff)
  qed
  ultimately show ?thesis by (simp add: queued_def)
qed

lemma released_not_won:
  assumes "released ticket (tickets s)" "acquire_ticket c s run_id resource other now = Inr (got, s')"
  shows "(other = ticket \<longrightarrow> \<not> got) \<and> released ticket (tickets s')"
  using assms(2)
proof (rule acquire_ticket_cases)
  fix run lim
  let ?s = "queued s run resource other now"
  assume no: "\<not> got \<Longrightarrow> s' = ?s"
    and turn: "got \<Longrightarrow> \<exists>w. winner lim (tickets ?s) (turns ?s) resource (lane_of run) = Some w \<and> tk_ticket_id w = other"
    and held: "got \<Longrightarrow> tickets s' = hold_ticket other (tickets ?s)"
  note rel = released_queued [OF assms(1), of run resource other now]
  have "other \<noteq> ticket" if got
  proof -
    from turn [OF that] obtain w where w: "winner lim (tickets ?s) (turns ?s) resource (lane_of run) = Some w"
      "tk_ticket_id w = other" by blast
    from winner_SomeD(1,2) [OF w(1)] have "w \<in> set (tickets ?s)" "tk_state w = Ticket_Waiting"
      by (auto simp: eligible_def split: prod.splits)
    with rel w(2) show ?thesis by (auto simp: released_def)
  qed
  moreover have "released ticket (tickets s')"
  proof (cases got)
    case True
    with calculation have "other \<noteq> ticket" by blast
    with rel show ?thesis unfolding held [OF True] hold_ticket_def by (intro released_update) auto
  next
    case False
    with no rel show ?thesis by simp
  qed
  ultimately show ?thesis by blast
qed

lemma released_step:
  assumes "capacity_step c s s'" "released ticket (tickets s)"
  shows "released ticket (tickets s')"
  using assms(1)
proof (cases rule: capacity_step.cases)
  case (Acquire run_id resource other now got)
  from released_not_won [OF assms(2) this] show ?thesis by blast
next
  case (Release other)
  show ?thesis unfolding Release(1) release_tickets using assms(2) by (rule released_update) simp_all
next
  case (Renew other now ok)
  show ?thesis unfolding renew_tickets [OF Renew] using assms(2) by (rule released_update) simp_all
next
  case Elsewhere
  with assms(2) show ?thesis by simp
qed

text \<open>C39. A released ticket is never admitted again: whatever happens in between, acquiring with it fails
  every time. The loop of \<open>slot\<close> polls with one ticket, so a waiter whose ticket ran out (more than 90
  seconds between two polls) waits for ever.\<close>

theorem released_ticket_is_never_admitted:
  assumes "(capacity_step c)\<^sup>*\<^sup>* s s'" and "released ticket (tickets s)"
    and "acquire_ticket c s' run_id resource ticket now = Inr (got, s'')"
  shows "\<not> got"
proof -
  from assms(1,2) have "released ticket (tickets s')" by (induction rule: rtranclp_induct) (auto intro: released_step)
  from released_not_won [OF this assms(3)] show ?thesis by blast
qed

section \<open>Turns\<close>

text \<open>When a lane has room for the caller's account, the caller is admitted exactly if its ticket is the
  first of the waiting tickets of unsaturated accounts, in the order of the last admission of the account,
  then the age of the ticket.\<close>

theorem free_slot_goes_to_first:
  assumes "ticket_run s run_id = Inr run" and "resource_limits c resource = Inr lim"
    and "s1 = queued s run resource ticket now"
    and "\<not> full lim (tickets s1) resource (lane_of run) (r_account_id run)"
    and "acquire_ticket c s run_id resource ticket now = Inr (got, s')"
  shows "(got \<longleftrightarrow> (\<exists>w \<in> set (tickets s1). tk_ticket_id w = ticket \<and>
       eligible lim (tickets s1) (turns s1) resource (lane_of run) w \<and>
       (\<forall>q \<in> set (tickets s1). eligible lim (tickets s1) (turns s1) resource (lane_of run) q \<longrightarrow>
          turn_order (turns s1) w \<le> turn_order (turns s1) q)))"
    (is "_ \<longleftrightarrow> (\<exists>w \<in> _. ?first w)")
proof
  let ?win = "winner lim (tickets s1) (turns s1) resource (lane_of run)"
  have outcome: "acquire_ticket c s run_id resource ticket now = (case ?win of
        None \<Rightarrow> Inr (False, s1)
      | Some w \<Rightarrow> if tk_ticket_id w \<noteq> ticket then Inr (False, s1)
          else Inr (True, s1\<lparr>tickets := hold_ticket ticket (tickets s1),
            turns := map (\<lambda>(k, t). if k = (resource, lane_of run, r_account_id run) then (k, Some now) else (k, t)) (turns s1)\<rparr>))"
    unfolding acquire_ticket_def assms(1,2) ebind.simps Let_def assms(3) [symmetric] if_not_P [OF assms(4)] by (rule refl)
  have result: "got \<longleftrightarrow> (\<exists>w. ?win = Some w \<and> tk_ticket_id w = ticket)"
  proof (cases ?win)
    case None
    with outcome assms(5) show ?thesis by simp
  next
    case (Some w)
    with outcome assms(5) show ?thesis by (cases "tk_ticket_id w = ticket") simp_all
  qed
  {
    assume got
    with result obtain w where "?win = Some w" "tk_ticket_id w = ticket" by blast
    with winner_SomeD [OF this(1)] show "\<exists>w \<in> set (tickets s1). ?first w" by blast
  next
    assume "\<exists>w \<in> set (tickets s1). ?first w"
    then obtain w where w: "w \<in> set (tickets s1)" "?first w" by blast
    with winner_NoneD obtain v where v: "?win = Some v" by fast
    from winner_SomeD [OF this] w have "turn_order (turns s1) v = turn_order (turns s1) w"
      by (auto intro: antisym)
    then have "tk_ticket_id v = tk_ticket_id w" by (simp add: turn_order_def)
    with v w result show got by blast
  }
qed

section \<open>The properties applied\<close>

text \<open>One active account with one chat Run; one slot per account, four in all.\<close>

definition small_config :: capacity_config where
  "small_config = \<lparr>cc_work_account_coordinators = 4, cc_work_global_coordinators = 32,
     cc_capacity_model_global = 4, cc_capacity_model_account = 1, cc_capacity_model_interactive_reserved = 1,
     cc_capacity_tool_global = 4, cc_capacity_tool_account = 1, cc_capacity_tool_interactive_reserved = 1,
     cc_capacity_fetch_global = 4, cc_capacity_fetch_account = 1, cc_capacity_fetch_interactive_reserved = 1\<rparr>"

definition chat_run :: run_row where
  "chat_run = \<lparr>r_run_id = ''r'', r_account_id = ''a'', r_source_kind = Chat, r_conversation_id = Some ''c'',
     r_session_id = None, r_work_id = None, r_requirement_revision = None, r_work_control_epoch = None,
     r_status = Running, r_failure_code = None, r_failure_message = None, r_result_json = None, r_created_at = 0,
     r_started_at = Some 0, r_finished_at = None, r_version = 1\<rparr>"

definition quiet_db :: capacity_db where
  "quiet_db = \<lparr>accounts = [''a'' \<mapsto> \<lparr>a_status = ''active'', a_memory_epoch = 0\<rparr>], conversations = [(''a'', ''c'')],
     works = Map.empty, runs = [chat_run], executions = [], leases = Map.empty, waits = [], memory_actions = [],
     memory_sources = [], tickets = [], turns = []\<rparr>"

definition poll_once :: "capacity_db \<Rightarrow> uuid \<Rightarrow> int \<Rightarrow> (bool \<times> capacity_db) res" where
  "poll_once s ticket now = acquire_ticket small_config s ''r'' ''tool'' ticket now"

lemma polls: "\<not> isl (poll_once quiet_db ''t1'' 5)" "fst (projr (poll_once quiet_db ''t1'' 5))"
  by (simp_all add: poll_once_def acquire_ticket_def ticket_run_def quiet_db_def chat_run_def account_active_def
      small_config_def resource_limits_def queued_def lane_of_def full_def winner_def eligible_def request_ticket_def
      expire_tickets_def ensure_turn_def update_where_def)

lemma first_poll: "poll_once quiet_db ''t1'' 5 = Inr (True, committed (poll_once quiet_db ''t1'' 5) quiet_db)"
  using committed_result [OF polls(1), of quiet_db] polls(2) by simp

lemma capacity_limits_hold_witness:
  "holds (tickets (committed (poll_once quiet_db ''t1'' 5) quiet_db)) (\<lambda>t. tk_resource t = ''tool'') \<le> 4"
proof -
  have "(capacity_step small_config)\<^sup>*\<^sup>* quiet_db (committed (poll_once quiet_db ''t1'' 5) quiet_db)"
    using first_poll unfolding poll_once_def by (blast intro: r_into_rtranclp capacity_step.Acquire)
  from capacity_limits_hold [OF this, of "''tool''" 4 1 1] show ?thesis
    by (simp add: quiet_db_def resource_limits_def small_config_def)
qed

text \<open>The ticket is released and polled again.\<close>

definition released_db :: capacity_db where
  "released_db = release_ticket (committed (poll_once quiet_db ''t1'' 5) quiet_db) ''t1''"

lemma released_ticket_is_never_admitted_witness:
  "\<exists>got s'. poll_once released_db ''t1'' 6 = Inr (got, s') \<and> \<not> got"
proof -
  have rel: "released ''t1'' (tickets released_db)" and ok: "\<not> isl (poll_once released_db ''t1'' 6)"
    by (simp_all add: released_db_def poll_once_def acquire_ticket_def ticket_run_def quiet_db_def chat_run_def
      account_active_def small_config_def resource_limits_def queued_def lane_of_def full_def winner_def eligible_def
      request_ticket_def expire_tickets_def ensure_turn_def update_where_def release_ticket_def hold_ticket_def released_def)
  from ok obtain got s' where run: "poll_once released_db ''t1'' 6 = Inr (got, s')"
    by (cases "poll_once released_db ''t1'' 6") auto
  from released_ticket_is_never_admitted [OF rtranclp.rtrancl_refl rel run [unfolded poll_once_def]] run
  show ?thesis by blast
qed

lemma free_slot_goes_to_first_witness:
  "\<exists>w \<in> set (tickets (queued quiet_db chat_run ''tool'' ''t1'' 5)). tk_ticket_id w = ''t1'' \<and>
     eligible (4, 1, 1) (tickets (queued quiet_db chat_run ''tool'' ''t1'' 5)) (turns (queued quiet_db chat_run ''tool'' ''t1'' 5))
       ''tool'' Interactive w"
proof -
  let ?s = "queued quiet_db chat_run ''tool'' ''t1'' 5"
  have run: "ticket_run quiet_db ''r'' = Inr chat_run" and lim: "resource_limits small_config ''tool'' = Inr (4, 1, 1)"
    and lane: "lane_of chat_run = Interactive"
    and room: "\<not> full (4, 1, 1) (tickets ?s) ''tool'' (lane_of chat_run) (r_account_id chat_run)"
    by (simp_all add: ticket_run_def quiet_db_def chat_run_def account_active_def small_config_def resource_limits_def
      queued_def lane_of_def full_def request_ticket_def expire_tickets_def update_where_def)
  from free_slot_goes_to_first [OF run lim refl room first_poll [unfolded poll_once_def]]
  show ?thesis unfolding lane by blast
qed

end
