(* ===== verification/Tool_Activity.thy ===== *)
theory Tool_Activity
  imports Transcript_Store
begin

text \<open>
  The Activity that executes one tool call (\<open>tool_execution\<close> of \<open>agent_activities/runtime.py\<close> with
  \<open>agent_activities/side_effects.py\<close> and \<open>agent_activities/fencing.py\<close>): the intent of the call is recorded before it is
  dispatched, so that an attempt that finds an intent knows that the tool may have run. The store's
  transactions are the definitions of \<open>Transcript_Store\<close>; the executors, the reconciler, the budgets, the
  workspace and the capacity slot are functions of the environment. Every call out of the Activity is a
  point where the rest of the system acts, where the Activity may be cancelled before or after the effect of
  the call, and where its worker may die. Heartbeats, traces and log records are left out.
\<close>

section \<open>Side effect classes\<close>

definition normalize_side_effect_class :: "string \<Rightarrow> string" where
  "normalize_side_effect_class value =
     (if value \<in> {''none'', ''read_only''} then ''read_only''
      else if value \<in> {''workspace_write'', ''idempotent_write''} then ''idempotent_write''
      else if value \<in> {''external_write'', ''non_idempotent_write''} then ''non_idempotent_write''
      else ''unknown'')"

datatype reconcile_outcome = Confirmed_Completed | Confirmed_Not_Executed | Reconcile_Uncertain | Unsupported

record action_result =
  xr_success :: "bool option"
  xr_output :: json
  xr_summary :: json
  xr_error :: json
  xr_metadata :: json
  xr_raw :: json

definition action_failed :: "action_result \<Rightarrow> bool" where
  "action_failed r = (case xr_success r of Some b \<Rightarrow> \<not> b | None \<Rightarrow> xr_error r \<noteq> JNull)"

definition display_result :: "action_result \<Rightarrow> json" where
  "display_result r = (if xr_summary r \<noteq> JNull then xr_summary r else xr_output r)"

section \<open>The world of an attempt\<close>

datatype fate = Goes_On | Cancelled_Before | Cancelled_After | Worker_Dies

text \<open>What happened outside: executions with their class, and verdicts of the reconciler.\<close>

datatype tool_event = Executed string string | Verdict string reconcile_outcome

text \<open>The database, the rest of the world, the two local variables the exception handlers read, and the
  events so far.\<close>

record 'x tool_world =
  tw_db :: op_db
  tw_ext :: 'x
  tw_may_have_executed :: bool
  tw_dispatched :: bool
  tw_log :: "tool_event list"

datatype 'a ending = Done 'a | Raised exn | Died

type_synonym ('x, 'a) act = "'x tool_world \<Rightarrow> 'a ending \<times> 'x tool_world"

type_synonym arguments = "(string \<times> json) list"

type_synonym usage = "(string \<times> int) list"

record 'x tool_env =
  te_world :: "'x \<Rightarrow> op_db \<Rightarrow> fate \<times> 'x \<times> op_db"
  te_clock :: "'x \<Rightarrow> int"
  te_lease_ttl :: int
  te_scope_tools :: "uuid \<Rightarrow> string list"
  te_has_web_tools :: bool
  te_has_capabilities :: bool
  te_has_budget :: bool
  te_policy_allows :: "string \<Rightarrow> string \<Rightarrow> bool"
  te_side_effect_class :: "string \<Rightarrow> 'x \<Rightarrow> string res"
  te_enter_workspace :: "'x \<Rightarrow> unit res \<times> 'x"
  te_leave_workspace :: "'x \<Rightarrow> unit res \<times> 'x"
  te_enter_slot :: "'x \<Rightarrow> unit res \<times> 'x"
  te_leave_slot :: "'x \<Rightarrow> unit res \<times> 'x"
  te_reconcile :: "string \<Rightarrow> string \<Rightarrow> string \<Rightarrow> arguments \<Rightarrow> 'x \<Rightarrow> (reconcile_outcome \<times> action_result option) res \<times> 'x"
  te_agent_policy :: "'x \<Rightarrow> unit res \<times> 'x"
  te_budget_reservation :: "string \<Rightarrow> 'x \<Rightarrow> usage res \<times> 'x"
  te_reserve :: "string \<Rightarrow> usage \<Rightarrow> 'x \<Rightarrow> unit res \<times> 'x"
  te_settle :: "string \<Rightarrow> usage \<Rightarrow> string \<Rightarrow> 'x \<Rightarrow> unit res \<times> 'x"
  te_release :: "string \<Rightarrow> 'x \<Rightarrow> unit res \<times> 'x"
  te_execute :: "string \<Rightarrow> string \<Rightarrow> arguments \<Rightarrow> 'x \<Rightarrow> action_result res \<times> 'x"
  te_fault :: "string \<Rightarrow> 'x \<Rightarrow> unit res \<times> 'x"
  te_clear :: "'x \<Rightarrow> unit res \<times> 'x"
  te_hash :: "arguments \<Rightarrow> string"
  te_digest :: "json \<Rightarrow> string"
  te_dumps :: "json \<Rightarrow> string"
  te_str :: "json \<Rightarrow> string"

section \<open>Sequencing\<close>

definition act_return :: "'a \<Rightarrow> ('x, 'a) act" where
  "act_return a w = (Done a, w)"

definition act_raise :: "exn \<Rightarrow> ('x, 'a) act" where
  "act_raise e w = (Raised e, w)"

definition act_bind :: "('x, 'a) act \<Rightarrow> ('a \<Rightarrow> ('x, 'b) act) \<Rightarrow> ('x, 'b) act" where
  "act_bind p k w = (case p w of
       (Done a, w') \<Rightarrow> k a w'
     | (Raised e, w') \<Rightarrow> (Raised e, w')
     | (Died, w') \<Rightarrow> (Died, w'))"

text \<open>\<open>try: p except: h\<close>, and \<open>try: p finally: q\<close>.\<close>

definition act_catch :: "('x, 'a) act \<Rightarrow> (exn \<Rightarrow> ('x, 'a) act) \<Rightarrow> ('x, 'a) act" where
  "act_catch p h w = (case p w of (Raised e, w') \<Rightarrow> h e w' | r \<Rightarrow> r)"

definition act_finally :: "('x, 'a) act \<Rightarrow> ('x, unit) act \<Rightarrow> ('x, 'a) act" where
  "act_finally p q =
     act_bind (act_catch (act_bind p (\<lambda>a. act_return (Inr a))) (\<lambda>e. act_return (Inl e))) (\<lambda>r.
     act_bind q (\<lambda>_. case r of Inl e \<Rightarrow> act_raise e | Inr a \<Rightarrow> act_return a))"

definition act_of_res :: "'a res \<Rightarrow> ('x, 'a) act" where
  "act_of_res r = (case r of Inl e \<Rightarrow> act_raise e | Inr a \<Rightarrow> act_return a)"

definition act_set_may :: "bool \<Rightarrow> ('x, unit) act" where
  "act_set_may b w = (Done (), w\<lparr>tw_may_have_executed := b\<rparr>)"

definition act_set_dispatched :: "bool \<Rightarrow> ('x, unit) act" where
  "act_set_dispatched b w = (Done (), w\<lparr>tw_dispatched := b\<rparr>)"

definition act_may :: "('x, bool) act" where
  "act_may w = (Done (tw_may_have_executed w), w)"

definition act_dispatched :: "('x, bool) act" where
  "act_dispatched w = (Done (tw_dispatched w), w)"

text \<open>A call: \<open>f\<close> acts on the database and the rest of the world at the time of the call, and tells what is
  to be noted of it.\<close>

definition act_call ::
  "'x tool_env \<Rightarrow> (int \<Rightarrow> op_db \<Rightarrow> 'x \<Rightarrow> 'a res \<times> op_db \<times> 'x) \<Rightarrow> ('a res \<Rightarrow> tool_event list) \<Rightarrow> ('x, 'a) act" where
  "act_call env f note w =
     (case te_world env (tw_ext w) (tw_db w) of (fate, x, db) \<Rightarrow>
       (let w1 = w\<lparr>tw_ext := x, tw_db := db\<rparr> in
        if fate = Worker_Dies then (Died, w1)
        else if fate = Cancelled_Before then (Raised CancelledError, w1)
        else
          (case f (te_clock env x) db x of (r, db', x') \<Rightarrow>
            (let w2 = w1\<lparr>tw_db := db', tw_ext := x', tw_log := tw_log w1 @ note r\<rparr> in
             if fate = Cancelled_After then (Raised CancelledError, w2)
             else case r of Inl e \<Rightarrow> (Raised e, w2) | Inr a \<Rightarrow> (Done a, w2)))))"

text \<open>A transaction of the store that rolls back when it raises, and a call of something else.\<close>

definition act_tx :: "'x tool_env \<Rightarrow> (int \<Rightarrow> op_db \<Rightarrow> ('a \<times> op_db) res) \<Rightarrow> ('x, 'a) act" where
  "act_tx env f = act_call env
     (\<lambda>now db x. case f now db of Inl e \<Rightarrow> (Inl e, db, x) | Inr (a, db') \<Rightarrow> (Inr a, db', x)) (\<lambda>_. [])"

definition act_ext :: "'x tool_env \<Rightarrow> ('x \<Rightarrow> 'a res \<times> 'x) \<Rightarrow> ('x, 'a) act" where
  "act_ext env g = act_call env (\<lambda>now db x. case g x of (r, x') \<Rightarrow> (r, db, x')) (\<lambda>_. [])"

section \<open>Fences\<close>

definition request_fence :: "tool_execution_input \<Rightarrow> fence" where
  "request_fence q = Some (ai_account_id q, ai_run_id q, ai_execution_id q, ai_lease_token q)"

definition FENCED_CODES :: "string list" where
  "FENCED_CODES = [''stale_fencing_token'', ''memory_context_revoked'', ''no_progress'', ''repeated_failure'',
     ''run_budget_exhausted'', ''work_budget_exhausted'', ''capability_budget_exhausted'',
     ''account_daily_model_budget_exhausted'', ''tool_side_effect_uncertain'']"

text \<open>What \<open>fenced_activity\<close> makes of an exception; \<open>CancelledError\<close> is no \<open>Exception\<close>.\<close>

definition fenced_exception :: "exn \<Rightarrow> exn" where
  "fenced_exception e =
     (case e of
        ApplicationError ty non_retryable \<Rightarrow> e
      | _ \<Rightarrow> if e \<noteq> CancelledError \<and> exn_code e \<in> set FENCED_CODES then ApplicationError (exn_code e) True else e)"

definition fenced_activity :: "('x, 'a) act \<Rightarrow> ('x, 'a) act" where
  "fenced_activity p = act_catch p (\<lambda>e. act_raise (fenced_exception e))"

section \<open>Uncertain effects\<close>

definition mark_uncertain_side_effect :: "'x tool_env \<Rightarrow> tool_execution_input \<Rightarrow> ('x, unit) act" where
  "mark_uncertain_side_effect env q =
     act_tx env (\<lambda>now db. mark_operation_uncertain db (request_fence q) (ai_operation_id q) ''tool_side_effect_uncertain'' now)"

definition raise_uncertain_side_effect :: "'x tool_env \<Rightarrow> tool_execution_input \<Rightarrow> ('x, 'a) act" where
  "raise_uncertain_side_effect env q =
     act_bind (mark_uncertain_side_effect env q) (\<lambda>_. act_raise (ApplicationError ''tool_side_effect_uncertain'' True))"

definition fail_tool_operation :: "'x tool_env \<Rightarrow> tool_execution_input \<Rightarrow> string \<Rightarrow> ('x, unit) act" where
  "fail_tool_operation env q code =
     act_tx env (\<lambda>now db. fail_operation db (request_fence q) (ai_operation_id q) code now)"

definition renew_lease :: "'x tool_env \<Rightarrow> tool_execution_input \<Rightarrow> ('x, unit) act" where
  "renew_lease env q =
     act_tx env (\<lambda>now db. ebind (validate_and_renew_lease db (request_fence q) (ai_account_id q) (ai_run_id q)
       (ai_lease_token q) None (te_lease_ttl env) now) (\<lambda>(_, db'). Inr ((), db')))"

section \<open>Results\<close>

text \<open>\<open>ToolExecutionResult(**payload)\<close>: unknown and missing arguments are refused. The class does not check
  types; a value that does not fit the model's types is refused here too (no such payload is stored).\<close>

definition RESULT_FIELDS :: "string list" where
  "RESULT_FIELDS = [''schema_version'', ''operation_id'', ''result_ref'', ''transcript_version'', ''display_summary'',
     ''approval_id'', ''approval_status'', ''approval_expires_at'', ''tool_success'']"

fun json_int :: "json option \<Rightarrow> int res" where
  "json_int (Some (JInt i)) = Inr i"
| "json_int _ = Inl (RuntimeError ''TypeError'')"

fun json_str :: "json option \<Rightarrow> string res" where
  "json_str (Some (JStr s)) = Inr s"
| "json_str _ = Inl (RuntimeError ''TypeError'')"

fun json_opt_str :: "json option \<Rightarrow> string option res" where
  "json_opt_str None = Inr None"
| "json_opt_str (Some JNull) = Inr None"
| "json_opt_str (Some (JStr s)) = Inr (Some s)"
| "json_opt_str _ = Inl (RuntimeError ''TypeError'')"

fun json_opt_bool :: "json option \<Rightarrow> bool option res" where
  "json_opt_bool None = Inr None"
| "json_opt_bool (Some JNull) = Inr None"
| "json_opt_bool (Some (JBool b)) = Inr (Some b)"
| "json_opt_bool _ = Inl (RuntimeError ''TypeError'')"

definition result_of_payload :: "(string \<times> json) list \<Rightarrow> tool_execution_result res" where
  "result_of_payload d =
     ensure (list_all (\<lambda>(k, v). k \<in> set RESULT_FIELDS) d) (RuntimeError ''TypeError'')
     (ebind (json_int (map_of d ''schema_version'')) (\<lambda>schema.
      ebind (json_str (map_of d ''operation_id'')) (\<lambda>op.
      ebind (json_str (map_of d ''result_ref'')) (\<lambda>ref.
      ebind (json_int (map_of d ''transcript_version'')) (\<lambda>version.
      ebind (json_str (map_of d ''display_summary'')) (\<lambda>summary.
      ebind (json_opt_str (map_of d ''approval_id'')) (\<lambda>approval.
      ebind (case map_of d ''approval_status'' of None \<Rightarrow> Inr ''not_required'' | v \<Rightarrow> json_str v) (\<lambda>approval_status.
      ebind (json_opt_str (map_of d ''approval_expires_at'')) (\<lambda>expires.
      ebind (json_opt_bool (map_of d ''tool_success'')) (\<lambda>success.
        Inr \<lparr>tx_schema_version = schema, tx_operation_id = op, tx_result_ref = ref, tx_transcript_version = version,
             tx_display_summary = summary, tx_approval_id = approval, tx_approval_status = approval_status,
             tx_approval_expires_at = expires, tx_tool_success = success\<rparr>))))))))))"

text \<open>\<open>payload or {}\<close> as a dictionary.\<close>

definition payload_dict :: "json option \<Rightarrow> (string \<times> json) list res" where
  "payload_dict p =
     (case p of
        None \<Rightarrow> Inr []
      | Some (JObj d) \<Rightarrow> Inr d
      | Some j \<Rightarrow> if j \<in> {JNull, JBool False, JInt 0, JStr [], JList []} then Inr [] else Inl (RuntimeError ''AttributeError''))"

definition payload_class :: "(string \<times> json) list \<Rightarrow> string" where
  "payload_class d = (case map_of d ''side_effect_class'' of Some (JStr s) \<Rightarrow> normalize_side_effect_class s | _ \<Rightarrow> ''unknown'')"

text \<open>What the model and the user see of a result.\<close>

definition error_text :: "'x tool_env \<Rightarrow> action_result \<Rightarrow> string" where
  "error_text env r =
     (if xr_error r \<in> {JNull, JBool False, JInt 0, JStr [], JList [], JObj []} then ''tool execution failed''
      else te_str env (xr_error r))"

definition observation :: "'x tool_env \<Rightarrow> tool_execution_input \<Rightarrow> action_result \<Rightarrow> string \<times> string" where
  "observation env q r =
     (if action_failed r
      then (te_dumps env (JObj [(''success'', JBool False), (''error'', JStr (error_text env r))]),
            ''Tool '' @ tc_name (te_tool_call q) @ '' failed: '' @ error_text env r)
      else
        (let display = (case display_result r of JStr s \<Rightarrow> s | j \<Rightarrow> te_dumps env j)
         in (display, display)))"

definition tool_result_ref :: "string \<Rightarrow> string" where
  "tool_result_ref op = ''agent-tool-result:'' @ op"

definition result_payload :: "tool_execution_input \<Rightarrow> string \<Rightarrow> action_result \<Rightarrow> (string \<times> json) list" where
  "result_payload q display r =
     [(''schema_version'', JInt AGENT_SCHEMA_VERSION), (''operation_id'', JStr (ai_operation_id q)),
      (''result_ref'', JStr (tool_result_ref (ai_operation_id q))),
      (''transcript_version'', JInt (te_transcript_version q)),
      (''display_summary'', JStr (take 240 display)), (''tool_success'', JBool (\<not> action_failed r))]"

definition tool_event_payload ::
  "tool_execution_input \<Rightarrow> string \<Rightarrow> action_result \<Rightarrow> string \<Rightarrow> (string \<times> json) list" where
  "tool_event_payload q content r cls =
     [(''message'', JObj [(''role'', JStr ''tool''), (''tool_call_id'', JStr (tc_tool_call_id (te_tool_call q))),
         (''name'', JStr (tc_name (te_tool_call q))), (''content'', JStr content)]),
      (''raw_result'', xr_raw r), (''side_effect_class'', JStr cls)]"

text \<open>The result is kept with its transcript event; the returned payload carries the version of the event.\<close>

definition keep_result ::
  "'x tool_env \<Rightarrow> tool_execution_input \<Rightarrow> string \<Rightarrow> action_result \<Rightarrow> ('x, tool_execution_result) act" where
  "keep_result env q cls r =
     (let (content, display) = observation env q r; op = ai_operation_id q; ref = tool_result_ref op;
          content' = (if rs_source_kind (te_source q) = ''work'' \<and> \<not> action_failed r
                      then content @ [CHR 0x0A] @ ''Verified execution receipt reference: '' @ ref else content);
          payload = result_payload q display r in
      act_bind (act_call env (\<lambda>now db x. case complete_operation_with_event (te_digest env) db (request_fence q)
          (te_transcript_id q) (te_transcript_version q) ''tool_result'' op (tool_event_payload q content' r cls) ref payload now
          of (v, db') \<Rightarrow> (v, db', x)) (\<lambda>_. [])) (\<lambda>version.
        act_of_res (result_of_payload (dset ''transcript_version'' (JInt version) payload))))"

section \<open>Admission of the call\<close>

definition RESULT_TOOLS :: "string list" where
  "RESULT_TOOLS = [''result__adopt'', ''result__save'', ''result__evidence'']"

definition WEB_TOOLS :: "string list" where
  "WEB_TOOLS = [''web_search'', ''web_fetch'']"

definition agent_role :: "string \<Rightarrow> role \<Rightarrow> string option" where
  "agent_role source_kind execution_role =
     (if execution_role = Subagent then Some ''subagent''
      else if execution_role \<noteq> Root \<or> source_kind \<notin> {''chat'', ''work''} then None
      else Some (if source_kind = ''work'' then ''worker'' else ''main''))"

definition is_web_tool :: "'x tool_env \<Rightarrow> tool_execution_input \<Rightarrow> bool" where
  "is_web_tool env q \<longleftrightarrow> te_has_web_tools env \<and> tc_name (te_tool_call q) \<in> set WEB_TOOLS"

definition is_parent_tool :: "'x tool_env \<Rightarrow> tool_execution_input \<Rightarrow> bool" where
  "is_parent_tool env q \<longleftrightarrow> te_has_capabilities env \<and> tc_name (te_tool_call q) \<in> set RESULT_TOOLS"

definition admitted_class :: "'x tool_env \<Rightarrow> tool_execution_input \<Rightarrow> role \<Rightarrow> 'x \<Rightarrow> string res" where
  "admitted_class env q role x =
     (let name = tc_name (te_tool_call q) in
      ensure (\<not> (is_web_tool env q \<and> role \<noteq> Root)) (ApplicationError ''delegation_scope_denied'' True)
      (ensure (name \<notin> set WEB_TOOLS \<union> set RESULT_TOOLS
               \<or> (case agent_role (rs_source_kind (te_source q)) role of None \<Rightarrow> False | Some r \<Rightarrow> te_policy_allows env r name))
        (ApplicationError ''tool_policy_denied'' True)
      (ebind (if is_web_tool env q then Inr ''read_only'' else if is_parent_tool env q then Inr ''idempotent_write''
              else ebind (te_side_effect_class env name x) (\<lambda>c. Inr (normalize_side_effect_class c))) (\<lambda>cls.
        ensure (role = Root \<or> cls = ''read_only'') (ApplicationError ''delegation_scope_denied'' True)
        (ensure (cls \<noteq> ''unknown'') (ApplicationError ''side_effect_class_unknown'' True) (Inr cls))))))"

text \<open>The intent of a first attempt.\<close>

definition new_intent :: "tool_execution_input \<Rightarrow> string \<Rightarrow> string \<Rightarrow> (string \<times> json) list" where
  "new_intent q arguments_hash cls =
     [(''schema_version'', JInt 1), (''tool_call_id'', JStr (tc_tool_call_id (te_tool_call q))),
      (''tool'', JStr (tc_name (te_tool_call q))), (''arguments_hash'', JStr arguments_hash),
      (''side_effect_class'', JStr cls), (''fencing_token'', JInt (ai_lease_token q)),
      (''idempotency_key'', JStr (ai_operation_id q))]"

text \<open>Recovery from an intent that is there: it must be the same call of the same class, and a call that
  cannot be repeated needs a verdict. The value is a result, or nothing when the call is to be made.\<close>

definition recover_intent ::
  "'x tool_env \<Rightarrow> tool_execution_input \<Rightarrow> (string \<times> json) list \<Rightarrow> string \<Rightarrow> string \<Rightarrow> ('x, action_result option) act" where
  "recover_intent env q intent arguments_hash cls =
     (let failed = ApplicationError ''side_effect_reconciliation_failed'' True; name = tc_name (te_tool_call q);
          op = ai_operation_id q in
      if map_of intent ''arguments_hash'' \<noteq> Some (JStr arguments_hash) \<or> map_of intent ''tool'' \<noteq> Some (JStr name)
      then act_raise failed
      else if payload_class intent \<noteq> cls then act_raise failed
      else if cls = ''non_idempotent_write''
      then act_bind (act_call env (\<lambda>now db x. case te_reconcile env op name arguments_hash intent x of (r, x') \<Rightarrow> (r, db, x'))
                       (\<lambda>r. case r of Inr (outcome, _) \<Rightarrow> [Verdict op outcome] | Inl _ \<Rightarrow> [])) (\<lambda>(outcome, value).
             if outcome = Confirmed_Completed
             then (case value of None \<Rightarrow> act_raise failed | Some r \<Rightarrow> act_return (Some r))
             else if outcome \<noteq> Confirmed_Not_Executed then raise_uncertain_side_effect env q
             else act_return None)
      else act_return None)"

definition record_intent :: "'x tool_env \<Rightarrow> tool_execution_input \<Rightarrow> (string \<times> json) list \<Rightarrow> ('x, unit) act" where
  "record_intent env q intent =
     act_tx env (\<lambda>now db. record_operation_intent db (request_fence q) (ai_operation_id q) (JObj intent) now)"

section \<open>The dispatch\<close>

definition budget_usage :: "action_result \<Rightarrow> (string \<times> json) list" where
  "budget_usage r =
     (case xr_metadata r of
        JObj d \<Rightarrow> (case map_of d ''budget_usage'' of Some (JObj u) \<Rightarrow> u | _ \<Rightarrow> [])
      | _ \<Rightarrow> [])"

definition measured_usage :: "usage \<Rightarrow> action_result \<Rightarrow> usage" where
  "measured_usage reservation r =
     map (\<lambda>(k, v). (k, case map_of (budget_usage r) k of Some (JInt amount) \<Rightarrow> max 0 amount | _ \<Rightarrow> v))
       (dset ''tool_calls'' 1 (map (\<lambda>(k, v). (k, 0)) reservation))"

text \<open>The reservation of the Run budget; the exhaustion of a budget is final.\<close>

definition reserve_budget :: "'x tool_env \<Rightarrow> tool_execution_input \<Rightarrow> ('x, usage) act" where
  "reserve_budget env q =
     (if \<not> te_has_budget env \<or> is_web_tool env q then act_return [(''tool_calls'', 1)]
      else if is_parent_tool env q
      then act_bind (act_ext env (te_reserve env (ai_operation_id q) [(''tool_calls'', 1)])) (\<lambda>_. act_return [(''tool_calls'', 1)])
      else
        act_bind (act_ext env (te_budget_reservation env (tc_name (te_tool_call q)))) (\<lambda>reservation.
        act_bind (act_catch (act_ext env (te_reserve env (ai_operation_id q) reservation)) (\<lambda>e.
            act_raise (if e \<in> {RunBudgetExhausted, CapabilityBudgetExhausted, WorkBudgetExhausted} then ApplicationError (exn_code e) True else e))) (\<lambda>_.
          act_return reservation)))"

text \<open>Inside the slot, after the last check of the fence.\<close>

definition execute_now ::
  "'x tool_env \<Rightarrow> tool_execution_input \<Rightarrow> string \<Rightarrow> arguments \<Rightarrow> ('x, action_result) act" where
  "execute_now env q cls arguments =
     act_bind (renew_lease env q) (\<lambda>_.
     act_bind (act_set_dispatched True) (\<lambda>_.
     act_bind (if cls = ''non_idempotent_write'' then act_set_may True else act_return ()) (\<lambda>_.
       act_call env (\<lambda>now db x. case te_execute env (ai_operation_id q) (tc_name (te_tool_call q)) arguments x of
           (r, x') \<Rightarrow> (r, db, x')) (\<lambda>_. [Executed (ai_operation_id q) cls]))))"

definition in_slot :: "'x tool_env \<Rightarrow> ('x, 'a) act \<Rightarrow> ('x, 'a) act" where
  "in_slot env p = act_finally (act_bind (act_ext env (te_enter_slot env)) (\<lambda>_. p)) (act_ext env (te_leave_slot env))"

definition settle_on_failure :: "'x tool_env \<Rightarrow> tool_execution_input \<Rightarrow> usage \<Rightarrow> exn \<Rightarrow> ('x, 'a) act" where
  "settle_on_failure env q reservation e =
     act_bind (if te_has_budget env \<and> \<not> is_web_tool env q
               then act_bind act_dispatched (\<lambda>dispatched.
                 if dispatched then act_ext env (te_settle env (ai_operation_id q) reservation ''estimated'')
                 else act_ext env (te_release env (ai_operation_id q)))
               else act_return ()) (\<lambda>_. act_raise e)"

definition dispatch_tool ::
  "'x tool_env \<Rightarrow> tool_execution_input \<Rightarrow> string \<Rightarrow> arguments \<Rightarrow> ('x, action_result) act" where
  "dispatch_tool env q cls arguments =
     act_bind (renew_lease env q) (\<lambda>_.
     act_bind (if \<not> is_web_tool env q \<and> \<not> is_parent_tool env q then act_ext env (te_agent_policy env) else act_return ()) (\<lambda>_.
     act_bind (reserve_budget env q) (\<lambda>reservation.
     act_bind (act_set_dispatched False) (\<lambda>_.
     act_bind (act_catch (in_slot env (execute_now env q cls arguments)) (settle_on_failure env q reservation)) (\<lambda>r.
     act_bind (if te_has_budget env \<and> \<not> is_web_tool env q
               then act_ext env (te_settle env (ai_operation_id q) (measured_usage reservation r) ''measured'')
               else act_return ()) (\<lambda>_.
     act_bind (if cls = ''non_idempotent_write'' \<and> action_failed r then raise_uncertain_side_effect env q
               else act_return ()) (\<lambda>_.
     act_bind (act_ext env (te_fault env ''tool_side_effect_succeeded_before_ack'')) (\<lambda>_. act_return r))))))))"

section \<open>The attempt\<close>

text \<open>Inside the workspace of the Run.\<close>

definition in_workspace :: "'x tool_env \<Rightarrow> ('x, 'a) act \<Rightarrow> ('x, 'a) act" where
  "in_workspace env p =
     act_bind (act_ext env (te_enter_workspace env)) (\<lambda>_. act_finally p (act_ext env (te_leave_workspace env)))"

definition call_tool ::
  "'x tool_env \<Rightarrow> tool_execution_input \<Rightarrow> role \<Rightarrow> tool_operation_state \<Rightarrow> ('x, string \<times> action_result) act" where
  "call_tool env q role operation =
     act_bind (renew_lease env q) (\<lambda>_.
     act_bind (act_ext env (\<lambda>x. (admitted_class env q role x, x))) (\<lambda>cls.
     act_bind (act_tx env (\<lambda>now db. tool_call_arguments db (request_fence q) (tc_arguments_ref (te_tool_call q))
                 (tc_tool_call_id (te_tool_call q)) now)) (\<lambda>arguments.
     act_bind (act_of_res (payload_dict (to_result_payload operation))) (\<lambda>stored.
       let hash = te_hash env arguments; intent = (if stored = [] then new_intent q hash cls else stored) in
       act_bind (if to_status operation \<in> {Intent_Recorded, Op_Uncertain} then recover_intent env q intent hash cls
                 else act_bind (record_intent env q intent) (\<lambda>_. act_return None)) (\<lambda>value.
       act_bind (case value of Some r \<Rightarrow> act_return r | None \<Rightarrow> dispatch_tool env q cls arguments) (\<lambda>r.
         act_return (cls, r)))))))"

definition attempt_tool ::
  "'x tool_env \<Rightarrow> tool_execution_input \<Rightarrow> role \<Rightarrow> tool_operation_state \<Rightarrow> ('x, tool_execution_result) act" where
  "attempt_tool env q role operation =
     act_bind (renew_lease env q) (\<lambda>_.
     act_bind (act_tx env (\<lambda>now db. load_messages db (request_fence q) (te_transcript_id q) now)) (\<lambda>(_, actual).
       if actual \<noteq> te_transcript_version q then act_raise TranscriptVersionConflict
       else act_bind (in_workspace env (call_tool env q role operation)) (\<lambda>(cls, r). keep_result env q cls r)))"

text \<open>The exception handlers. What may have executed is marked uncertain, everything else failed.\<close>

fun classify_model_governance_failure :: "exn \<Rightarrow> string option" where
  "classify_model_governance_failure ModelAccessTierDenied = Some ''model_access_tier_denied''"
| "classify_model_governance_failure MemoryContextRevoked = Some ''memory_context_revoked''"
| "classify_model_governance_failure AccountModelEntitlementUnavailable = Some ''account_model_entitlement_unavailable''"
| "classify_model_governance_failure AccountDailyBudgetExhausted = Some ''account_daily_model_budget_exhausted''"
| "classify_model_governance_failure (AccountDailyBudgetConflict m) = Some ''account_daily_model_budget_operation_conflict''"
| "classify_model_governance_failure e = None"

definition exception_code :: "exn \<Rightarrow> string" where
  "exception_code e =
     (case classify_model_governance_failure e of
        Some code \<Rightarrow> code
      | None \<Rightarrow> (case e of ApplicationError (c # cs) _ \<Rightarrow> c # cs | _ \<Rightarrow> ''tool_failed''))"

definition handle_tool_failure :: "'x tool_env \<Rightarrow> tool_execution_input \<Rightarrow> exn \<Rightarrow> ('x, 'a) act" where
  "handle_tool_failure env q e =
     act_bind act_may (\<lambda>may.
       if e = CancelledError
       then act_bind (if may then mark_uncertain_side_effect env q else fail_tool_operation env q ''activity_cancelled'')
              (\<lambda>_. act_raise CancelledError)
       else if e \<in> {StaleFencingToken, TranscriptVersionConflict}
       then (if may then raise_uncertain_side_effect env q
             else act_bind (fail_tool_operation env q (exn_code e)) (\<lambda>_. act_raise (ApplicationError (exn_code e) True)))
       else
         act_bind (if exception_code e = ''tool_side_effect_uncertain'' then act_return ()
                   else if may then raise_uncertain_side_effect env q
                   else fail_tool_operation env q (exception_code e)) (\<lambda>_.
           act_raise (case e of
               ApplicationError ty nr \<Rightarrow> e
             | _ \<Rightarrow> (case classify_model_governance_failure e of Some code \<Rightarrow> ApplicationError code True
                     | None \<Rightarrow> ApplicationError ''tool_failed'' True))))"

text \<open>The Execution of the fence, and whether its scope has the tool.\<close>

definition enter_execution :: "'x tool_env \<Rightarrow> tool_execution_input \<Rightarrow> int \<Rightarrow> op_db \<Rightarrow> (role \<times> op_db) res" where
  "enter_execution env q now db =
     ebind (assert_execution_fence db (request_fence q) now) (\<lambda>db'.
     ebind (lock_execution db' (request_fence q) (ai_account_id q) (ai_run_id q) (Some (ai_execution_id q))) (\<lambda>e.
     ensure (e_role e = Root \<or> tc_name (te_tool_call q) \<in> set (te_scope_tools env (e_execution_id e)))
       (ApplicationError ''delegation_scope_denied'' True) (Inr (e_role e, db'))))"

definition replay_result :: "json option \<Rightarrow> ('x, tool_execution_result) act" where
  "replay_result p = act_bind (act_of_res (payload_dict p)) (\<lambda>d. act_of_res (result_of_payload d))"

definition tool_execution :: "'x tool_env \<Rightarrow> tool_execution_input \<Rightarrow> ('x, tool_execution_result) act" where
  "tool_execution env q =
     fenced_activity
       (act_bind (act_of_res (ensure (ai_schema_version q = AGENT_SCHEMA_VERSION) (ApplicationError '''' True) (Inr ()))) (\<lambda>_.
        act_bind (act_tx env (enter_execution env q)) (\<lambda>role.
        act_bind (act_tx env (\<lambda>now db. begin_tool_operation db (request_fence q) (ai_operation_id q) (ai_run_id q) now)) (\<lambda>operation.
          if to_status operation = Op_Completed then replay_result (to_result_payload operation)
          else
            act_bind (act_of_res (payload_dict (to_result_payload operation))) (\<lambda>stored.
            act_bind (act_set_may (to_status operation \<in> {Intent_Recorded, Op_Uncertain}
                                   \<and> payload_class stored = ''non_idempotent_write'')) (\<lambda>_.
              act_finally (act_catch (attempt_tool env q role operation) (handle_tool_failure env q))
                (act_ext env (te_clear env))))))))"

end
