(* ===== verification/Tool_Laws.thy ===== *)
theory Tool_Laws
  imports Tool_Activity Operation_Keys
begin

text \<open>
  A Hoare logic for the attempts of a tool call, and what it is used for: an effect that cannot be repeated
  is executed at most once unless the reconciler confirms that it was not, however often the Activity is
  retried and wherever its attempts are cancelled or die.
\<close>

section \<open>Triples\<close>

text \<open>From \<open>P\<close>: \<open>Q\<close> of the value and world when the computation is done, \<open>X\<close> when it raises or dies.\<close>

fun ends_in :: "('a \<Rightarrow> 'w \<Rightarrow> bool) \<Rightarrow> ('w \<Rightarrow> bool) \<Rightarrow> 'a ending \<times> 'w \<Rightarrow> bool" where
  "ends_in Q X (Done a, w) = Q a w"
| "ends_in Q X (Raised e, w) = X w"
| "ends_in Q X (Died, w) = X w"

definition triple ::
  "('x tool_world \<Rightarrow> bool) \<Rightarrow> ('x, 'a) act \<Rightarrow> ('a \<Rightarrow> 'x tool_world \<Rightarrow> bool) \<Rightarrow> ('x tool_world \<Rightarrow> bool) \<Rightarrow> bool" where
  "triple P p Q X \<longleftrightarrow> (\<forall>w. P w \<longrightarrow> ends_in Q X (p w))"

lemma tripleD: "triple P p Q X \<Longrightarrow> P w \<Longrightarrow> ends_in Q X (p w)"
  by (simp add: triple_def)

lemma ends_in_mono:
  assumes "ends_in Q X r" "\<And>a w. Q a w \<Longrightarrow> Q' a w" "\<And>w. X w \<Longrightarrow> X' w"
  shows "ends_in Q' X' r"
proof (cases r)
  case (Pair e w)
  with assms show ?thesis by (cases e) simp_all
qed

lemma triple_world: "triple P p (\<lambda>_. I) I \<Longrightarrow> P w \<Longrightarrow> I (snd (p w))"
  by (drule tripleD, assumption, cases "p w"; cases "fst (p w)") simp_all

lemma triple_weaken: "triple P p Q X \<Longrightarrow> (\<And>w. P' w \<Longrightarrow> P w) \<Longrightarrow> (\<And>a w. Q a w \<Longrightarrow> Q' a w) \<Longrightarrow>
    (\<And>w. X w \<Longrightarrow> X' w) \<Longrightarrow> triple P' p Q' X'"
  unfolding triple_def by (blast intro: ends_in_mono)

lemma triple_pre: "triple P p Q X \<Longrightarrow> (\<And>w. P' w \<Longrightarrow> P w) \<Longrightarrow> triple P' p Q X"
  by (rule triple_weaken)

lemma triple_post: "triple P p Q X \<Longrightarrow> (\<And>a w. Q a w \<Longrightarrow> Q' a w) \<Longrightarrow> triple P p Q' X"
  by (rule triple_weaken)

lemma triple_return: "(\<And>w. P w \<Longrightarrow> Q a w) \<Longrightarrow> triple P (act_return a) Q X"
  by (simp add: triple_def act_return_def)

lemma triple_raise: "(\<And>w. P w \<Longrightarrow> X w) \<Longrightarrow> triple P (act_raise e) Q X"
  by (simp add: triple_def act_raise_def)

lemma triple_bind:
  assumes "triple P p R X" "\<And>a. triple (R a) (k a) Q X"
  shows "triple P (act_bind p k) Q X"
  unfolding triple_def
proof (intro allI impI)
  fix w assume "P w"
  from tripleD [OF assms(1) this] have p: "ends_in R X (p w)" .
  obtain r w' where pw: "p w = (r, w')" by (cases "p w")
  show "ends_in Q X (act_bind p k w)"
  proof (cases r)
    case (Done a)
    with p pw tripleD [OF assms(2) [of a], of w'] show ?thesis by (simp add: act_bind_def)
  qed (use p pw in \<open>simp_all add: act_bind_def\<close>)
qed

lemma triple_catch:
  assumes "triple P p Q X" "\<And>e. triple X (h e) Q X"
  shows "triple P (act_catch p h) Q X"
  unfolding triple_def
proof (intro allI impI)
  fix w assume "P w"
  from tripleD [OF assms(1) this] have p: "ends_in Q X (p w)" .
  obtain r w' where pw: "p w = (r, w')" by (cases "p w")
  show "ends_in Q X (act_catch p h w)"
  proof (cases r)
    case (Raised e)
    with p pw tripleD [OF assms(2) [of e], of w'] show ?thesis by (simp add: act_catch_def)
  qed (use p pw in \<open>simp_all add: act_catch_def\<close>)
qed

text \<open>What holds after the body and when it raises must survive the clean-up, which may raise itself.\<close>

lemma triple_finally:
  assumes "triple P p Q X" "\<And>a. triple (Q a) q (\<lambda>_. Q a) X" "triple X q (\<lambda>_. X) X"
  shows "triple P (act_finally p q) Q X"
  unfolding act_finally_def
proof (rule triple_bind [where R = "\<lambda>r. case r of Inl e \<Rightarrow> X | Inr a \<Rightarrow> Q a"])
  have "triple P (act_bind p (\<lambda>a. act_return (Inr a))) (\<lambda>r. case r of Inl e \<Rightarrow> X | Inr a \<Rightarrow> Q a) X"
    by (rule triple_bind [OF assms(1)], rule triple_return) simp
  moreover have "triple X (act_return (Inl e)) (\<lambda>r. case r of Inl e \<Rightarrow> X | Inr a \<Rightarrow> Q a) X" for e
    by (rule triple_return) simp
  ultimately show "triple P (act_catch (act_bind p (\<lambda>a. act_return (Inr a))) (\<lambda>e. act_return (Inl e)))
      (\<lambda>r. case r of Inl e \<Rightarrow> X | Inr a \<Rightarrow> Q a) X"
    by (rule triple_catch)
  show "triple (case r of Inl e \<Rightarrow> X | Inr a \<Rightarrow> Q a) (act_bind q (\<lambda>_. case r of Inl e \<Rightarrow> act_raise e | Inr a \<Rightarrow> act_return a)) Q X" for r
  proof (cases r)
    case (Inl e)
    show ?thesis unfolding Inl sum.case by (rule triple_bind [OF assms(3)], rule triple_raise)
  next
    case (Inr a)
    show ?thesis unfolding Inr sum.case by (rule triple_bind [OF assms(2)], rule triple_return)
  qed
qed

lemma triple_of_res: "(\<And>a w. r = Inr a \<Longrightarrow> P w \<Longrightarrow> Q a w) \<Longrightarrow> (\<And>w. P w \<Longrightarrow> X w) \<Longrightarrow> triple P (act_of_res r) Q X"
  by (cases r) (simp_all add: act_of_res_def triple_return triple_raise)

lemma triple_if: "(b \<Longrightarrow> triple P p Q X) \<Longrightarrow> (\<not> b \<Longrightarrow> triple P q Q X) \<Longrightarrow> triple P (if b then p else q) Q X"
  by simp

section \<open>Calls\<close>

text \<open>One call: the rest of the system acts, then the call itself, if it gets that far.\<close>

lemma triple_call:
  assumes "\<And>w fate x db. P w \<Longrightarrow> te_world env (tw_ext w) (tw_db w) = (fate, x, db) \<Longrightarrow> P' (w\<lparr>tw_ext := x, tw_db := db\<rparr>)"
    and "\<And>w. P' w \<Longrightarrow> X w"
    and "\<And>w r db x now. P' w \<Longrightarrow> f now (tw_db w) (tw_ext w) = (r, db, x) \<Longrightarrow>
          (let w' = w\<lparr>tw_db := db, tw_ext := x, tw_log := tw_log w @ note r\<rparr> in
           X w' \<and> (case r of Inr a \<Rightarrow> Q a w' | Inl e \<Rightarrow> True))"
  shows "triple P (act_call env f note) Q X"
  unfolding triple_def
proof (intro allI impI)
  fix w assume "P w"
  obtain fate x db where tw: "te_world env (tw_ext w) (tw_db w) = (fate, x, db)" by (metis prod_cases3)
  let ?w = "w\<lparr>tw_ext := x, tw_db := db\<rparr>"
  obtain r db' x' where call: "f (te_clock env x) db x = (r, db', x')" by (metis prod_cases3)
  have pre: "P' ?w" using assms(1) [OF \<open>P w\<close> tw] .
  have post: "let w' = ?w\<lparr>tw_db := db', tw_ext := x', tw_log := tw_log ?w @ note r\<rparr> in
           X w' \<and> (case r of Inr a \<Rightarrow> Q a w' | Inl e \<Rightarrow> True)"
    by (rule assms(3) [OF pre, where now = "te_clock env x"]) (simp add: call)
  show "ends_in Q X (act_call env f note w)"
  proof (cases fate)
    case Goes_On
    with post show ?thesis by (cases r) (simp_all add: act_call_def tw call Let_def)
  next
    case Cancelled_After
    with post show ?thesis by (simp add: act_call_def tw call Let_def)
  qed (use assms(2) [OF pre] in \<open>simp_all add: act_call_def tw Let_def\<close>)
qed

section \<open>The invariant\<close>

text \<open>The rest of the system uses the methods of the store, but does not declare this operation failed.\<close>

definition leaves_alone :: "'x tool_env \<Rightarrow> string \<Rightarrow> bool" where
  "leaves_alone env op \<longleftrightarrow>
     (\<forall>x db. (op_step (te_digest env) (\<lambda>k. k \<noteq> op))\<^sup>*\<^sup>* db (snd (snd (te_world env x db))))"

lemma others: "leaves_alone env op \<Longrightarrow> te_world env x db = (fate, x', db') \<Longrightarrow> op_evolves (\<lambda>k. k \<noteq> op) db db'"
  unfolding leaves_alone_def by (metis op_steps_evolve snd_conv)

definition executions_of :: "string \<Rightarrow> tool_event list \<Rightarrow> nat" where
  "executions_of op h = length (filter (\<lambda>e. e = Executed op ''non_idempotent_write'') h)"

definition denials_of :: "string \<Rightarrow> tool_event list \<Rightarrow> nat" where
  "denials_of op h = length (filter (\<lambda>e. e = Verdict op Confirmed_Not_Executed) h)"

lemma counts_simps [simp]:
  "executions_of op [] = 0" "denials_of op [] = 0"
  "executions_of op (h @ h') = executions_of op h + executions_of op h'"
  "denials_of op (h @ h') = denials_of op h + denials_of op h'"
  "executions_of op (e # h) = (if e = Executed op ''non_idempotent_write'' then 1 else 0) + executions_of op h"
  "denials_of op (e # h) = (if e = Verdict op Confirmed_Not_Executed then 1 else 0) + denials_of op h"
  by (simp_all add: executions_of_def denials_of_def)

text \<open>The operation is completed, or it carries the intent of an effect that cannot be repeated.\<close>

definition guarded :: "string \<Rightarrow> op_db \<Rightarrow> bool" where
  "guarded op db \<longleftrightarrow> (\<exists>d. find_operation db op = Some d \<and> (o_status d = Op_Completed \<or>
     unresolved d \<and> (\<exists>p. o_result_payload d = Some (JObj p) \<and> payload_class p = ''non_idempotent_write'')))"

definition unique_ids :: "op_db \<Rightarrow> bool" where
  "unique_ids db \<longleftrightarrow> distinct (map o_operation_id (operations db))"

definition effect_inv :: "string \<Rightarrow> 'x tool_world \<Rightarrow> bool" where
  "effect_inv op w \<longleftrightarrow> unique_ids (tw_db w) \<and> executions_of op (tw_log w) \<le> denials_of op (tw_log w) + 1 \<and>
     (executions_of op (tw_log w) > denials_of op (tw_log w) \<longrightarrow> guarded op (tw_db w))"

text \<open>During an attempt: what may have executed is known to the handlers.\<close>

definition known :: "string \<Rightarrow> 'x tool_world \<Rightarrow> bool" where
  "known op w \<longleftrightarrow> effect_inv op w \<and> (executions_of op (tw_log w) > denials_of op (tw_log w) \<longrightarrow> tw_may_have_executed w)"

text \<open>Once the operation was entered: what its state says of earlier attempts.\<close>

definition entered :: "string \<Rightarrow> tool_operation_state \<Rightarrow> 'x tool_world \<Rightarrow> bool" where
  "entered op st w \<longleftrightarrow> effect_inv op w \<and>
     (to_status st \<notin> {Intent_Recorded, Op_Uncertain, Op_Completed} \<longrightarrow> to_result_payload st = None) \<and>
     (executions_of op (tw_log w) > denials_of op (tw_log w) \<longrightarrow> to_status st = Op_Completed \<or>
        to_status st \<in> {Intent_Recorded, Op_Uncertain} \<and>
        (\<exists>p. to_result_payload st = Some (JObj p) \<and> payload_class p = ''non_idempotent_write''))"

text \<open>Before the dispatch of a call of class \<open>cls\<close>.\<close>

definition ready :: "string \<Rightarrow> string \<Rightarrow> 'x tool_world \<Rightarrow> bool" where
  "ready op cls w \<longleftrightarrow> known op w \<and> (cls = ''non_idempotent_write'' \<longrightarrow>
     executions_of op (tw_log w) \<le> denials_of op (tw_log w) \<and>
     (executions_of op (tw_log w) = denials_of op (tw_log w) \<longrightarrow> guarded op (tw_db w)))"

lemma unique_ids_evolves: "op_evolves F db db' \<Longrightarrow> unique_ids db \<Longrightarrow> unique_ids db'"
  unfolding unique_ids_def by (erule op_evolves_invariant, assumption) (rule distinct_ids_prim)

lemma guarded_evolves:
  assumes ev: "op_evolves (\<lambda>k. k \<noteq> op) db db'" and "guarded op db"
  shows "guarded op db'"
proof -
  obtain d where d: "find_operation db op = Some d" "o_status d = Op_Completed \<or>
     unresolved d \<and> (\<exists>p. o_result_payload d = Some (JObj p) \<and> payload_class p = ''non_idempotent_write'')"
    using assms(2) unfolding guarded_def by blast
  from op_evolves_rows [OF ev, of op] d(1) obtain d' where d': "find_operation db' op = Some d'" "d' = d \<or> row_step False d d'"
    by (auto simp: row_evolves_def split: option.splits)
  from d'(2) show ?thesis
  proof
    assume "d' = d"
    with d d'(1) show ?thesis unfolding guarded_def by blast
  next
    assume step: "row_step False d d'"
    then have "o_status d \<noteq> Op_Completed" by (simp add: row_step_def)
    with d(2) obtain p where p: "unresolved d" "o_result_payload d = Some (JObj p)" "payload_class p = ''non_idempotent_write''"
      by blast
    with step have "unresolved d' \<and> o_result_payload d' = Some (JObj p) \<or> o_status d' = Op_Completed"
      by (auto simp: row_step_def)
    with d'(1) p(3) show ?thesis unfolding guarded_def by blast
  qed
qed

text \<open>Predicates that only look at the events, the local variable and at \<open>guarded\<close>.\<close>

definition stable :: "string \<Rightarrow> ('x tool_world \<Rightarrow> bool) \<Rightarrow> bool" where
  "stable op K \<longleftrightarrow> (\<forall>w w'. K w \<and> tw_log w' = tw_log w \<and> tw_may_have_executed w' = tw_may_have_executed w \<and>
     (guarded op (tw_db w) \<longrightarrow> guarded op (tw_db w')) \<and> (unique_ids (tw_db w) \<longrightarrow> unique_ids (tw_db w')) \<longrightarrow> K w')"

lemma stableD:
  assumes "stable op K" "K w" "tw_log w' = tw_log w" "tw_may_have_executed w' = tw_may_have_executed w"
    and "op_evolves (\<lambda>k. k \<noteq> op) (tw_db w) (tw_db w')"
  shows "K w'"
  using assms(1) [unfolded stable_def, rule_format, of w w'] assms(2-4) guarded_evolves [OF assms(5)]
    unique_ids_evolves [OF assms(5)] by blast

lemma stables [simp]: "stable op (effect_inv op)" "stable op (known op)" "stable op (ready op cls)"
  unfolding stable_def effect_inv_def known_def ready_def by simp_all

lemma stable_entered [simp]: "stable op (entered op st)"
  unfolding stable_def entered_def effect_inv_def by (auto split: option.splits json.splits)

lemma stable_conj: "stable op K \<Longrightarrow> stable op L \<Longrightarrow> stable op (\<lambda>w. K w \<and> L w)"
  unfolding stable_def by blast

lemma stable_may [simp]: "stable op (\<lambda>w. b \<longrightarrow> tw_may_have_executed w)"
  unfolding stable_def by simp

lemma others_keep:
  assumes "leaves_alone env op" "stable op K" "K w" "te_world env (tw_ext w) (tw_db w) = (fate, x, db)"
  shows "K (w\<lparr>tw_ext := x, tw_db := db\<rparr>)"
  by (rule stableD [OF assms(2,3)]) (simp_all add: others [OF assms(1,4)])

lemma keep_call:
  assumes "leaves_alone env op" "stable op K"
    and evolves: "\<And>now db x r db' x'. f now db x = (r, db', x') \<Longrightarrow> op_evolves (\<lambda>k. k \<noteq> op) db db'"
    and silent: "\<And>r. note r = []" and X: "\<And>w. K w \<Longrightarrow> X w"
  shows "triple K (act_call env f note) (\<lambda>_. K) X"
proof (rule triple_call [where P' = K])
  fix w r db x now
  assume w: "K w" and call: "f now (tw_db w) (tw_ext w) = (r, db, x)"
  have "K (w\<lparr>tw_db := db, tw_ext := x, tw_log := tw_log w @ note r\<rparr>)"
    by (rule stableD [OF assms(2) w]) (simp_all add: silent evolves [OF call])
  with X show "let w' = w\<lparr>tw_db := db, tw_ext := x, tw_log := tw_log w @ note r\<rparr> in
      X w' \<and> (case r of Inr a \<Rightarrow> K w' | Inl e \<Rightarrow> True)" unfolding Let_def by (cases r) simp_all
qed (erule others_keep [OF assms(1,2)], assumption, rule X)

lemma keep_tx:
  assumes "leaves_alone env op" "stable op K"
    and "\<And>now db a db'. f now db = Inr (a, db') \<Longrightarrow> op_evolves (\<lambda>k. k \<noteq> op) db db'" "\<And>w. K w \<Longrightarrow> X w"
  shows "triple K (act_tx env f) (\<lambda>_. K) X"
  unfolding act_tx_def
  by (rule keep_call [OF assms(1,2)]) (use assms(3,4) in \<open>auto split: sum.splits prod.splits\<close>)

lemma keep_ext:
  "leaves_alone env op \<Longrightarrow> stable op K \<Longrightarrow> (\<And>w. K w \<Longrightarrow> X w) \<Longrightarrow> triple K (act_ext env g) (\<lambda>_. K) X"
  unfolding act_ext_def by (rule keep_call) (auto split: prod.splits)

lemma set_dispatched: "stable op K \<Longrightarrow> triple K (act_set_dispatched b) (\<lambda>_. K) X"
  unfolding triple_def act_set_dispatched_def by (auto elim: stableD)

end
