(* ===== verification/Tool_Effects.thy ===== *)
theory Tool_Effects
  imports Tool_Laws Lease_Laws
begin

text \<open>
  The steps of an attempt, one triple per operation of the Activity, and the bound on the executions of an
  effect that cannot be repeated.
\<close>

section \<open>Steps that change nothing of the operation\<close>













section \<open>The dispatch\<close>






section \<open>Intents\<close>

lemma payload_dict_class:
  assumes "payload_dict p = Inr d" "payload_class d = ''non_idempotent_write''"
  shows "p = Some (JObj d)"
proof -
  have "payload_class [] \<noteq> ''non_idempotent_write''" by code_simp
  with assms have d: "d \<noteq> []" by auto
  show ?thesis
  proof (cases p)
    case (Some j)
    with assms(1) d show ?thesis by (cases j) (simp_all add: payload_dict_def split: if_splits)
  qed (use assms(1) d in \<open>simp add: payload_dict_def\<close>)
qed






section \<open>The attempt\<close>





section \<open>The handlers\<close>



section \<open>The Activity\<close>









section \<open>Retries\<close>




end
