(* ===== verification/Tool_Properties.thy ===== *)
theory Tool_Properties
  imports Tool_Effects Operation_Properties
begin

text \<open>
  The properties of the tool Activity applied: a worker that dies after the tool ran, and the attempt that follows.
\<close>

text \<open>The world is a script of fates; the reconciler is the default, which knows nothing.\<close>

definition demo_tools :: "fate list tool_env" where
  "demo_tools =
    \<lparr>te_world = (\<lambda>x db. (case x of [] \<Rightarrow> Goes_On | f # fs \<Rightarrow> f, case x of [] \<Rightarrow> [] | f # fs \<Rightarrow> fs, db)),
     te_clock = (\<lambda>x. 5), te_lease_ttl = 100, te_scope_tools = (\<lambda>_. []),
     te_has_web_tools = False, te_has_capabilities = False, te_has_budget = False, te_policy_allows = (\<lambda>_ _. True),
     te_side_effect_class = (\<lambda>_ _. Inr ''external_write''),
     te_enter_workspace = (\<lambda>x. (Inr (), x)), te_leave_workspace = (\<lambda>x. (Inr (), x)),
     te_enter_slot = (\<lambda>x. (Inr (), x)), te_leave_slot = (\<lambda>x. (Inr (), x)),
     te_reconcile = (\<lambda>op name h args x. (Inr (Unsupported, None), x)),
     te_agent_policy = (\<lambda>x. (Inr (), x)), te_budget_reservation = (\<lambda>_ x. (Inr [], x)),
     te_reserve = (\<lambda>_ _ x. (Inr (), x)), te_settle = (\<lambda>_ _ _ x. (Inr (), x)), te_release = (\<lambda>_ x. (Inr (), x)),
     te_execute = (\<lambda>op name args x. (Inr \<lparr>xr_success = Some True, xr_output = JStr ''sent'', xr_summary = JNull,
        xr_error = JNull, xr_metadata = JNull, xr_raw = JNull\<rparr>, x)),
     te_fault = (\<lambda>_ x. (Inr (), x)), te_clear = (\<lambda>x. (Inr (), x)),
     te_hash = (\<lambda>_. ''h''), te_digest = demo_digest, te_dumps = (\<lambda>_. ''{}''), te_str = (\<lambda>_. '''')\<rparr>"

definition demo_call :: tool_execution_input where
  "demo_call =
    \<lparr>ai_schema_version = AGENT_SCHEMA_VERSION, ai_run_id = ''r'', ai_account_id = ''acc'', ai_operation_id = ''op'',
     ai_lease_token = 1, ai_execution_id = ''x'', ai_execution_attempt = 1,
     te_source = \<lparr>rs_source_kind = ''chat'', rs_source_ref = ''c''\<rparr>,
     te_context = \<lparr>rx_context_ref = None, rx_chat = None, rx_surface = None\<rparr>, te_strategy = ''react'',
     te_transcript_id = ''t'', te_transcript_version = 1, te_turn = 1,
     te_tool_call = \<lparr>tc_tool_call_id = ''k'', tc_name = ''send_mail'', tc_arguments_ref = ''dec#k''\<rparr>,
     te_plan_id = None, te_plan_version = None, te_step_id = None\<rparr>"

definition demo_decision :: operation_row where
  "demo_decision = demo_operation\<lparr>o_operation_id := ''model'', o_operation_type := ''model'', o_status := Op_Completed,
     o_result_ref := Some ''dec'', o_result_payload := Some (JObj [(''tool_call_arguments'', JObj [(''k'', JObj [])])])\<rparr>"

definition demo_before :: "fate list tool_world" where
  "demo_before =
    \<lparr>tw_db = demo_op\<lparr>operations := [demo_decision],
       transcripts := [\<lparr>tr_transcript_id = ''t'', tr_account_id = ''acc'', tr_run_id = ''r'', tr_execution_id = ''x'',
          tr_conversation_id = Some ''conv'', tr_session_id = Some ''s'', tr_version = 1\<rparr>]\<rparr>,
     tw_ext = replicate 14 Goes_On @ [Worker_Dies], tw_may_have_executed = False, tw_dispatched = False, tw_log = []\<rparr>"

definition demo_first_attempt :: "fate list tool_world" where
  "demo_first_attempt = snd (tool_execution demo_tools demo_call demo_before)"


lemma first_log: "tw_log demo_first_attempt = [Executed ''op'' ''non_idempotent_write'']"
  by code_simp



end
