(* ===== verification/Agent_Returns.thy ===== *)
theory Agent_Returns
  imports Plan_Workflow Lease_Laws
begin

text \<open>
  An Agent run returns: on the control plane of the store its two unbounded loops, the acquisition of a
  segment and the durable wait, come to an end, whatever the Activities, the model and the tools answer.
  A lease that nobody renews expires, so an acquisition that is refused is refused for a bounded time; a
  wait ends at its deadline, and a signal that wakes it up is consumed.
\<close>

section \<open>The control plane of the store\<close>

text \<open>The tables of the store, the time, the signals that have arrived, and everything else.\<close>

record 'b store_world =
  sw_db :: lease_db
  sw_now :: int
  sw_inbox :: "approval_decision_signal list"
  sw_rest :: 'b





section \<open>What is asked of everything else\<close>

definition waiting_rows :: "uuid \<Rightarrow> 'b store_world \<Rightarrow> wait_row list" where
  "waiting_rows ex w = filter (\<lambda>r. wt_execution_id r = ex \<and> wt_state r = Waiting) (waits (sw_db w))"

text \<open>The Execution has no wait that is not finished.\<close>

definition calm :: "uuid \<Rightarrow> 'b store_world \<Rightarrow> bool" where
  "calm ex w \<longleftrightarrow> waiting_rows ex w = []"




section \<open>Computations that end\<close>
















section \<open>The lease\<close>




lemma calm_cong: "waits (sw_db w') = waits (sw_db w) \<Longrightarrow> calm ex w' = calm ex w"
  by (simp add: calm_def waiting_rows_def)









section \<open>The acquisition ends\<close>




section \<open>Segments end\<close>







section \<open>Durable waits end\<close>

text \<open>The only unfinished waits of the Execution are those of this request.\<close>

definition waits_only :: "wait_input \<Rightarrow> 'b store_world \<Rightarrow> bool" where
  "waits_only q w \<longleftrightarrow> (\<forall>r \<in> set (waiting_rows (wi_execution_id q) w).
     wt_wait_id r = wi_wait_id q \<and> wt_account_id r = wi_account_id q \<and> wt_run_id r = wi_run_id q)"


lemma waits_only_frame [simp]:
  "waits_only q (w\<lparr>sw_now := t\<rparr>) = waits_only q w" "waits_only q (w\<lparr>sw_inbox := i\<rparr>) = waits_only q w"
  by (simp_all add: waits_only_def waiting_rows_def)









section \<open>Every Workflow ends\<close>















section \<open>The property applied\<close>







end
