(* ===== verification/Chat_Store.thy ===== *)
theory Chat_Store
  imports Budget_Coordinator
begin

text \<open>
  The tables of a conversation and what its Runs leave in them: messages, the outbox, the Workflow facts,
  the commands of the surfaces and their control events. Models \<open>persistence/messages.py\<close>,
  \<open>persistence/outbox.py\<close>, \<open>persistence/idempotency.py\<close>, \<open>persistence/workflow_executions.py\<close>, the Run
  insertion of \<open>persistence/runs.py\<close> with \<open>run_domain/creation.py\<close>, and the constraints and triggers of the
  migrations 001, 008, 054 and 055 on these tables. The deferred trigger that compares a Run with its
  messages is not part of the operations: that it never fires is proved.
  \<open>now\<close> is the clock of the transaction, \<open>fresh n\<close> the n-th identifier the transaction draws with \<open>uuid7\<close>.
  Foreign keys are left out, and so are the rows of files, artifacts and QQ notifications that a finished
  Run may add.
\<close>

section \<open>Tables\<close>

datatype message_role = User_Message | Assistant_Message

datatype message_status = Msg_Accepted | Msg_Pending | Msg_Completed | Msg_Failed | Msg_Aborted

record message_row =
  mg_message_id :: uuid
  mg_account_id :: uuid
  mg_conversation_id :: uuid
  mg_role :: message_role
  mg_status :: message_status
  mg_content :: "string option"
  mg_sequence :: int
  mg_client_request_id :: "uuid option"
  mg_produced_by_run_id :: "uuid option"
  mg_created_at :: int
  mg_completed_at :: "int option"

datatype outbox_status = Outbox_Pending | Processing | Processed | Dead_Letter

record outbox_row =
  ob_event_id :: uuid
  ob_account_id :: uuid
  ob_event_type :: string
  ob_business_key :: string
  ob_conversation_id :: "uuid option"
  ob_run_id :: "uuid option"
  ob_payload :: json
  ob_status :: outbox_status
  ob_attempt_count :: int
  ob_available_at :: int
  ob_locked_at :: "int option"
  ob_locked_by :: "string option"
  ob_last_error_code :: "string option"
  ob_last_error_message :: "string option"
  ob_processed_at :: "int option"
  ob_created_at :: int

datatype workflow_status =
    Wf_Scheduled | Wf_Running | Wf_Cancel_Requested | Wf_Completed | Wf_Failed | Wf_Cancelled
  | Wf_Terminated | Wf_Timed_Out

record workflow_row =
  wx_record_id :: uuid
  wx_account_id :: uuid
  wx_conversation_id :: "uuid option"
  wx_run_id :: uuid
  wx_workflow_id :: string
  wx_temporal_run_id :: "uuid option"
  wx_execution_id :: uuid
  wx_is_current :: bool
  wx_status :: workflow_status
  wx_version :: int
  wx_started_at :: "int option"
  wx_closed_at :: "int option"

text \<open>The columns of a chat Run that are fixed at its creation and that the authority part does not read.\<close>

record chat_run_row =
  cr_trigger_message_id :: uuid
  cr_retry_of_run_id :: "uuid option"
  cr_workflow_id :: string
  cr_context_message_seq :: int
  cr_strategy_kind :: string
  cr_executor_key :: string
  cr_agent_strategy :: "string option"
  cr_input_snapshot :: json

record conversation_row =
  cv_title :: string
  cv_status :: string
  cv_last_message_seq :: int

text \<open>A stored response holds the rows its JSON text is rendered from.\<close>

record run_snapshot =
  rs_run :: run_row
  rs_execution_id :: uuid
  rs_message :: "message_row option"

record response_body =
  rb_run_id :: uuid
  rb_source_run_id :: "uuid option"
  rb_user_message :: "message_row option"
  rb_status :: "status option"
  rb_snapshot :: run_snapshot

datatype response = Run_Body response_body | Conversation_Body uuid conversation_row

record command_row =
  cm_command_id :: uuid
  cm_account_id :: uuid
  cm_operation :: string
  cm_key :: string
  cm_request_hash :: string
  cm_response :: "(int \<times> response) option"

record control_event_row =
  ce_account_id :: uuid
  ce_run_id :: uuid
  ce_execution_id :: uuid
  ce_command_id :: uuid
  ce_action :: string

record approval_row =
  fa_approval_id :: uuid
  fa_account_id :: uuid
  fa_run_id :: uuid
  fa_operation_id :: string
  fa_status :: string

record chat_db = account_db +
  chat_runs :: "uuid \<Rightarrow> chat_run_row option"
  conversation_rows :: "uuid \<times> uuid \<Rightarrow> conversation_row option"
  messages :: "message_row list"
  outbox :: "outbox_row list"
  workflow_rows :: "workflow_row list"
  commands :: "command_row list"
  control_events :: "control_event_row list"
  approval_rows :: "approval_row list"

definition status_text :: "status \<Rightarrow> string" where
  "status_text st = (case st of Queued \<Rightarrow> ''queued'' | Running \<Rightarrow> ''running'' | Cancelling \<Rightarrow> ''cancelling''
     | Succeeded \<Rightarrow> ''succeeded'' | Failed \<Rightarrow> ''failed'' | Cancelled \<Rightarrow> ''cancelled'')"

definition web_workflow_id :: "uuid \<Rightarrow> string" where
  "web_workflow_id run = ''hpagent-web-run-'' @ run"

section \<open>Messages\<close>

text \<open>An INSERT with the unique columns of the table.\<close>

definition insert_message :: "message_row \<Rightarrow> 'a chat_db_scheme \<Rightarrow> 'a chat_db_scheme res" where
  "insert_message m s =
     ensure (\<not> list_ex (\<lambda>x. mg_message_id x = mg_message_id m
          \<or> mg_conversation_id x = mg_conversation_id m \<and> mg_sequence x = mg_sequence m
          \<or> mg_client_request_id m \<noteq> None \<and> mg_account_id x = mg_account_id m
            \<and> mg_client_request_id x = mg_client_request_id m
          \<or> mg_produced_by_run_id m \<noteq> None \<and> mg_produced_by_run_id x = mg_produced_by_run_id m) (messages s))
       (DbError ''duplicate key'')
     (ensure (mg_sequence m \<ge> 1) (DbError ''ck_messages__sequence'')
       (Inr (s\<lparr>messages := messages s @ [m]\<rparr>)))"

definition insert_user :: "uuid \<Rightarrow> uuid \<Rightarrow> uuid \<Rightarrow> string \<Rightarrow> int \<Rightarrow> uuid \<Rightarrow> int \<Rightarrow> 'a chat_db_scheme \<Rightarrow> 'a chat_db_scheme res" where
  "insert_user mid acc conv content sequence request now =
     insert_message \<lparr>mg_message_id = mid, mg_account_id = acc, mg_conversation_id = conv, mg_role = User_Message,
       mg_status = Msg_Accepted, mg_content = Some content, mg_sequence = sequence, mg_client_request_id = Some request,
       mg_produced_by_run_id = None, mg_created_at = now, mg_completed_at = None\<rparr>"

definition insert_assistant :: "uuid \<Rightarrow> uuid \<Rightarrow> uuid \<Rightarrow> int \<Rightarrow> uuid \<Rightarrow> int \<Rightarrow> 'a chat_db_scheme \<Rightarrow> 'a chat_db_scheme res" where
  "insert_assistant mid acc conv sequence run now =
     insert_message \<lparr>mg_message_id = mid, mg_account_id = acc, mg_conversation_id = conv, mg_role = Assistant_Message,
       mg_status = Msg_Pending, mg_content = None, mg_sequence = sequence, mg_client_request_id = None,
       mg_produced_by_run_id = Some run, mg_created_at = now, mg_completed_at = None\<rparr>"

definition pending_reply :: "uuid \<Rightarrow> message_row \<Rightarrow> bool" where
  "pending_reply run m \<longleftrightarrow> mg_produced_by_run_id m = Some run \<and> mg_status m = Msg_Pending"

definition close_message :: "message_status \<Rightarrow> string option \<Rightarrow> int \<Rightarrow> message_row \<Rightarrow> message_row" where
  "close_message st content now m =
     m\<lparr>mg_status := st, mg_content := (case content of None \<Rightarrow> mg_content m | Some c \<Rightarrow> Some c),
       mg_completed_at := Some (max now (mg_created_at m))\<rparr>"

text \<open>\<open>set_terminal\<close>, with the check that a completed message has content.\<close>

definition set_message_terminal ::
  "uuid \<Rightarrow> message_status \<Rightarrow> string option \<Rightarrow> int \<Rightarrow> 'a chat_db_scheme \<Rightarrow> 'a chat_db_scheme res" where
  "set_message_terminal run st content now s =
     ensure (\<not> (st = Msg_Completed \<and>
         list_ex (\<lambda>m. pending_reply run m \<and> mg_content (close_message st content now m) = None) (messages s)))
       (DbError ''ck_messages__shape'')
       (Inr (s\<lparr>messages := update_where (pending_reply run) (close_message st content now) (messages s)\<rparr>))"

definition assistant_for_run :: "'a chat_db_scheme \<Rightarrow> uuid \<Rightarrow> message_row option" where
  "assistant_for_run s run = find (\<lambda>m. mg_produced_by_run_id m = Some run) (messages s)"

definition user_for_run :: "'a chat_db_scheme \<Rightarrow> uuid \<Rightarrow> message_row option" where
  "user_for_run s run =
     (case chat_runs s run of None \<Rightarrow> None
      | Some c \<Rightarrow> find (\<lambda>m. mg_message_id m = cr_trigger_message_id c) (messages s))"

text \<open>\<open>find_initial_by_client_request\<close>: the message of an earlier delivery of the same request, with the Run
  it started.\<close>

definition find_initial_by_client_request :: "'a chat_db_scheme \<Rightarrow> uuid \<Rightarrow> uuid \<Rightarrow> (message_row \<times> uuid) option" where
  "find_initial_by_client_request s acc request =
     (case find (\<lambda>m. mg_account_id m = acc \<and> mg_client_request_id m = Some request) (messages s) of
        None \<Rightarrow> None
      | Some m \<Rightarrow>
          map_option (\<lambda>r. (m, r_run_id r))
            (find (\<lambda>r. (case chat_runs s (r_run_id r) of None \<Rightarrow> False
                  | Some c \<Rightarrow> cr_trigger_message_id c = mg_message_id m \<and> cr_retry_of_run_id c = None)
                \<and> assistant_for_run s (r_run_id r) \<noteq> None) (runs s)))"

section \<open>The outbox\<close>

definition outbox_enqueue ::
  "uuid \<Rightarrow> uuid \<Rightarrow> string \<Rightarrow> string \<Rightarrow> uuid option \<Rightarrow> uuid option \<Rightarrow> json \<Rightarrow> int \<Rightarrow> 'a chat_db_scheme \<Rightarrow> 'a chat_db_scheme res" where
  "outbox_enqueue ev acc ty key conv run payload now s =
     (if list_ex (\<lambda>e. ob_business_key e = key) (outbox s) then Inr s
      else ensure (\<not> list_ex (\<lambda>e. ob_event_id e = ev) (outbox s)) (DbError ''duplicate key'')
        (Inr (s\<lparr>outbox := outbox s @
          [\<lparr>ob_event_id = ev, ob_account_id = acc, ob_event_type = ty, ob_business_key = key,
            ob_conversation_id = conv, ob_run_id = run, ob_payload = payload, ob_status = Outbox_Pending,
            ob_attempt_count = 0, ob_available_at = now, ob_locked_at = None, ob_locked_by = None,
            ob_last_error_code = None, ob_last_error_message = None, ob_processed_at = None,
            ob_created_at = now\<rparr>]\<rparr>)))"

definition owned_by :: "uuid \<Rightarrow> string \<Rightarrow> outbox_row \<Rightarrow> bool" where
  "owned_by ev worker e \<longleftrightarrow> ob_event_id e = ev \<and> ob_status e = Processing \<and> ob_locked_by e = Some worker"

text \<open>\<open>skipped\<close> are the rows another transaction holds a lock on (\<open>SKIP LOCKED\<close>).\<close>

definition claim_candidates :: "string list \<Rightarrow> uuid list \<Rightarrow> nat \<Rightarrow> int \<Rightarrow> 'a chat_db_scheme \<Rightarrow> outbox_row list" where
  "claim_candidates types skipped limit now s =
     take limit (sort_key (\<lambda>e. (ob_available_at e, ob_created_at e, ob_event_id e))
       (filter (\<lambda>e. ob_status e = Outbox_Pending \<and> ob_available_at e \<le> now \<and> ob_event_type e \<in> set types
                    \<and> ob_event_id e \<notin> set skipped) (outbox s)))"

definition take_lease :: "string \<Rightarrow> int \<Rightarrow> outbox_row \<Rightarrow> outbox_row" where
  "take_lease worker now e =
     e\<lparr>ob_status := Processing, ob_attempt_count := ob_attempt_count e + 1, ob_locked_at := Some now,
       ob_locked_by := Some worker\<rparr>"

definition claim_batch ::
  "string \<Rightarrow> string list \<Rightarrow> uuid list \<Rightarrow> nat \<Rightarrow> int \<Rightarrow> 'a chat_db_scheme \<Rightarrow> outbox_row list \<times> 'a chat_db_scheme" where
  "claim_batch worker types skipped limit now s =
     (let candidates = claim_candidates types skipped limit now s;
          chosen = (\<lambda>e. ob_event_id e \<in> set (map ob_event_id candidates))
      in (map (take_lease worker now) (filter chosen (outbox s)),
          s\<lparr>outbox := update_where chosen (take_lease worker now) (outbox s)\<rparr>))"

definition free_lease :: "outbox_row \<Rightarrow> outbox_row" where
  "free_lease e = e\<lparr>ob_status := Outbox_Pending, ob_locked_at := None, ob_locked_by := None\<rparr>"

definition lease_expired :: "int \<Rightarrow> string list \<Rightarrow> int \<Rightarrow> outbox_row \<Rightarrow> bool" where
  "lease_expired older types now e \<longleftrightarrow>
     ob_status e = Processing \<and> (case ob_locked_at e of None \<Rightarrow> False | Some t \<Rightarrow> t < now - older)
     \<and> ob_event_type e \<in> set types"

definition recover_expired_rows :: "int \<Rightarrow> string list \<Rightarrow> int \<Rightarrow> 'a chat_db_scheme \<Rightarrow> nat \<times> 'a chat_db_scheme" where
  "recover_expired_rows older types now s =
     (length (filter (lease_expired older types now) (outbox s)),
      s\<lparr>outbox := update_where (lease_expired older types now) free_lease (outbox s)\<rparr>)"

definition mark_processed_row :: "uuid \<Rightarrow> string \<Rightarrow> int \<Rightarrow> 'a chat_db_scheme \<Rightarrow> bool \<times> 'a chat_db_scheme" where
  "mark_processed_row ev worker now s =
     (list_ex (owned_by ev worker) (outbox s),
      s\<lparr>outbox := update_where (owned_by ev worker)
         (\<lambda>e. e\<lparr>ob_status := Processed, ob_processed_at := Some now, ob_locked_at := None, ob_locked_by := None\<rparr>)
         (outbox s)\<rparr>)"

definition mark_retryable_row ::
  "uuid \<Rightarrow> string \<Rightarrow> string \<Rightarrow> string \<Rightarrow> int \<Rightarrow> 'a chat_db_scheme \<Rightarrow> bool \<times> 'a chat_db_scheme" where
  "mark_retryable_row ev worker code msg next_at s =
     (list_ex (owned_by ev worker) (outbox s),
      s\<lparr>outbox := update_where (owned_by ev worker)
         (\<lambda>e. e\<lparr>ob_status := Outbox_Pending, ob_locked_at := None, ob_locked_by := None, ob_available_at := next_at,
                ob_last_error_code := Some code, ob_last_error_message := Some msg\<rparr>) (outbox s)\<rparr>)"

definition mark_dead_letter_row ::
  "uuid \<Rightarrow> string \<Rightarrow> string \<Rightarrow> string \<Rightarrow> 'a chat_db_scheme \<Rightarrow> bool \<times> 'a chat_db_scheme" where
  "mark_dead_letter_row ev worker code msg s =
     (list_ex (owned_by ev worker) (outbox s),
      s\<lparr>outbox := update_where (owned_by ev worker)
         (\<lambda>e. e\<lparr>ob_status := Dead_Letter, ob_locked_at := None, ob_locked_by := None,
                ob_last_error_code := Some code, ob_last_error_message := Some msg\<rparr>) (outbox s)\<rparr>)"

section \<open>Workflow facts\<close>

definition current_of :: "uuid \<Rightarrow> workflow_row \<Rightarrow> bool" where
  "current_of run w \<longleftrightarrow> wx_run_id w = run \<and> wx_is_current w"

definition current_workflow :: "'a chat_db_scheme \<Rightarrow> uuid \<Rightarrow> workflow_row option" where
  "current_workflow s run = find (current_of run) (workflow_rows s)"

definition has_current :: "'a chat_db_scheme \<Rightarrow> uuid \<Rightarrow> bool" where
  "has_current s run \<longleftrightarrow> list_ex (current_of run) (workflow_rows s)"

definition insert_scheduled ::
  "uuid \<Rightarrow> uuid \<Rightarrow> uuid option \<Rightarrow> uuid \<Rightarrow> string \<Rightarrow> 'a chat_db_scheme \<Rightarrow> 'a chat_db_scheme res" where
  "insert_scheduled rec acc conv run wid s =
     (case find (\<lambda>e. e_account_id e = acc \<and> e_run_id e = run \<and> e_role e = Root) (executions s) of
        None \<Rightarrow> Inr s
      | Some e \<Rightarrow>
          ensure (\<not> list_ex (\<lambda>w. wx_record_id w = rec \<or> wx_run_id w = run) (workflow_rows s)) (DbError ''duplicate key'')
            (Inr (s\<lparr>workflow_rows := workflow_rows s @
              [\<lparr>wx_record_id = rec, wx_account_id = acc, wx_conversation_id = conv, wx_run_id = run,
                wx_workflow_id = wid, wx_temporal_run_id = None, wx_execution_id = e_execution_id e,
                wx_is_current = True, wx_status = Wf_Scheduled, wx_version = 1, wx_started_at = None,
                wx_closed_at = None\<rparr>]\<rparr>)))"

definition update_current ::
  "uuid \<Rightarrow> workflow_status list \<Rightarrow> (workflow_row \<Rightarrow> workflow_row) \<Rightarrow> 'a chat_db_scheme \<Rightarrow> 'a chat_db_scheme" where
  "update_current run sts f s =
     s\<lparr>workflow_rows := update_where (\<lambda>w. current_of run w \<and> wx_status w \<in> set sts)
        (\<lambda>w. (f w)\<lparr>wx_version := wx_version w + 1\<rparr>) (workflow_rows s)\<rparr>"

definition record_started_row :: "uuid \<Rightarrow> uuid \<Rightarrow> int \<Rightarrow> 'a chat_db_scheme \<Rightarrow> 'a chat_db_scheme" where
  "record_started_row temporal run now =
     update_current run [Wf_Scheduled, Wf_Running]
       (\<lambda>w. w\<lparr>wx_temporal_run_id := Some temporal, wx_status := Wf_Running, wx_started_at := Some now\<rparr>)"

definition record_cancel_requested_row :: "uuid \<Rightarrow> 'a chat_db_scheme \<Rightarrow> 'a chat_db_scheme" where
  "record_cancel_requested_row run =
     update_current run [Wf_Scheduled, Wf_Running] (\<lambda>w. w\<lparr>wx_status := Wf_Cancel_Requested\<rparr>)"

definition record_terminal_fact :: "workflow_status \<Rightarrow> uuid \<Rightarrow> int \<Rightarrow> 'a chat_db_scheme \<Rightarrow> 'a chat_db_scheme" where
  "record_terminal_fact st run now =
     update_current run [Wf_Scheduled, Wf_Running, Wf_Cancel_Requested]
       (\<lambda>w. w\<lparr>wx_status := st, wx_closed_at := (case wx_closed_at w of None \<Rightarrow> Some now | Some t \<Rightarrow> Some t)\<rparr>)"

record reconcile_candidate =
  rc_run_id :: uuid
  rc_run_status :: status
  rc_workflow_id :: "string option"

text \<open>\<open>by_updated\<close> is the order of the rows by their last update, which no other modelled code reads.\<close>

definition reconcile_rows ::
  "(reconcile_candidate list \<Rightarrow> reconcile_candidate list) \<Rightarrow> nat \<Rightarrow> 'a chat_db_scheme \<Rightarrow> reconcile_candidate list" where
  "reconcile_rows by_updated limit s =
     take limit (by_updated (map (\<lambda>r. \<lparr>rc_run_id = r_run_id r, rc_run_status = r_status r,
           rc_workflow_id = map_option wx_workflow_id (current_workflow s (r_run_id r))\<rparr>)
       (filter (\<lambda>r. r_status r \<in> set ACTIVE
            \<or> r_status r \<in> set TERMINAL \<and> (case current_workflow s (r_run_id r) of None \<Rightarrow> False
                | Some w \<Rightarrow> wx_status w \<in> {Wf_Scheduled, Wf_Running, Wf_Cancel_Requested})) (runs s))))"

section \<open>Commands\<close>

definition command_of :: "uuid \<Rightarrow> string \<Rightarrow> string \<Rightarrow> command_row \<Rightarrow> bool" where
  "command_of acc oper key c \<longleftrightarrow> cm_account_id c = acc \<and> cm_operation c = oper \<and> cm_key c = key"

text \<open>\<open>None\<close> when the command is new, otherwise the row of its first delivery.\<close>

definition command_claim ::
  "uuid \<Rightarrow> uuid \<Rightarrow> string \<Rightarrow> string \<Rightarrow> string \<Rightarrow> 'a chat_db_scheme \<Rightarrow> (command_row option \<times> 'a chat_db_scheme) res" where
  "command_claim cid acc oper key hash s =
     (case find (command_of acc oper key) (commands s) of
        Some c \<Rightarrow> Inr (Some c, s)
      | None \<Rightarrow>
          ensure (\<not> list_ex (\<lambda>c. cm_command_id c = cid) (commands s)) (DbError ''duplicate key'')
            (Inr (None, s\<lparr>commands := commands s @
               [\<lparr>cm_command_id = cid, cm_account_id = acc, cm_operation = oper, cm_key = key,
                 cm_request_hash = hash, cm_response = None\<rparr>]\<rparr>)))"

definition command_complete ::
  "uuid \<Rightarrow> string \<Rightarrow> string \<Rightarrow> int \<Rightarrow> response \<Rightarrow> 'a chat_db_scheme \<Rightarrow> 'a chat_db_scheme" where
  "command_complete acc oper key code body s =
     s\<lparr>commands := update_where (command_of acc oper key) (\<lambda>c. c\<lparr>cm_response := Some (code, body)\<rparr>) (commands s)\<rparr>"

section \<open>Runs\<close>

text \<open>\<open>build_chat_run_insert\<close>: \<open>fixed_html\<close> is the input of an HTML build, empty for a conversation.\<close>

definition json_true :: "json option \<Rightarrow> bool" where
  "json_true j = (case j of None \<Rightarrow> False | Some JNull \<Rightarrow> False | Some (JBool b) \<Rightarrow> b | Some (JInt n) \<Rightarrow> n \<noteq> 0
     | Some (JStr t) \<Rightarrow> t \<noteq> [] | Some (JList xs) \<Rightarrow> xs \<noteq> [] | Some (JObj kvs) \<Rightarrow> kvs \<noteq> [])"

definition build_chat_run ::
  "uuid \<Rightarrow> string \<Rightarrow> int \<Rightarrow> uuid option \<Rightarrow> string \<Rightarrow> json option \<Rightarrow> json option \<Rightarrow> chat_run_row" where
  "build_chat_run trigger_id wid seq retry strategy fixed_html policy =
     \<lparr>cr_trigger_message_id = trigger_id, cr_retry_of_run_id = retry, cr_workflow_id = wid,
      cr_context_message_seq = seq,
      cr_strategy_kind = (if json_true fixed_html then ''fixed_workflow'' else ''generic_agent''),
      cr_executor_key = (if json_true fixed_html then ''artifact_html'' else ''chat_agent''),
      cr_agent_strategy = (if json_true fixed_html then None else Some strategy),
      cr_input_snapshot = (if json_true fixed_html then the fixed_html
        else JObj ([(''schema_version'', JInt 1), (''main_protocol'', JStr ''tool_first_v1'')]
             @ (case policy of None \<Rightarrow> [] | Some p \<Rightarrow> [(''agent_policy'', p)])))\<rparr>"

definition active_in :: "uuid \<Rightarrow> run_row \<Rightarrow> bool" where
  "active_in conv r \<longleftrightarrow> r_source_kind r = Chat \<and> r_conversation_id r = Some conv \<and> r_status r \<in> set ACTIVE"

text \<open>\<open>insert_chat\<close> with the keys of the table and the trigger that creates the Root Execution, whose
  identifier is \<open>root run\<close>.\<close>

definition insert_chat_run ::
  "(uuid \<Rightarrow> uuid) \<Rightarrow> uuid \<Rightarrow> uuid \<Rightarrow> uuid \<Rightarrow> chat_run_row \<Rightarrow> int \<Rightarrow> 'a chat_db_scheme \<Rightarrow> 'a chat_db_scheme res" where
  "insert_chat_run root run acc conv c now s =
     ensure (\<not> list_ex (\<lambda>r. r_run_id r = run) (runs s)
        \<and> \<not> list_ex (\<lambda>r. case chat_runs s (r_run_id r) of None \<Rightarrow> False
             | Some x \<Rightarrow> cr_workflow_id x = cr_workflow_id c
                 \<or> cr_retry_of_run_id c \<noteq> None \<and> cr_retry_of_run_id x = cr_retry_of_run_id c) (runs s)
        \<and> \<not> list_ex (active_in conv) (runs s)
        \<and> \<not> list_ex (\<lambda>e. e_execution_id e = root run \<or> e_run_id e = run \<and> e_role e = Root) (executions s))
       (DbError ''duplicate key'')
     (ensure (cr_context_message_seq c \<ge> 1 \<and> cr_retry_of_run_id c \<noteq> Some run) (DbError ''ck_runs'')
       (Inr (s\<lparr>runs := runs s @
           [\<lparr>r_run_id = run, r_account_id = acc, r_source_kind = Chat, r_conversation_id = Some conv,
             r_session_id = None, r_work_id = None, r_requirement_revision = None, r_work_control_epoch = None,
             r_status = Queued, r_failure_code = None, r_failure_message = None, r_result_json = None,
             r_created_at = now, r_started_at = None, r_finished_at = None, r_version = 1\<rparr>],
           chat_runs := (chat_runs s)(run \<mapsto> c),
           executions := executions s @
           [\<lparr>e_execution_id = root run, e_account_id = acc, e_run_id = run, e_role = Root, e_status = Queued,
             e_attempt_no = 1, e_memory_context = None\<rparr>]\<rparr>)))"

definition direct_retry :: "'a chat_db_scheme \<Rightarrow> uuid \<Rightarrow> run_row option" where
  "direct_retry s source =
     find (\<lambda>r. (case chat_runs s (r_run_id r) of None \<Rightarrow> False | Some c \<Rightarrow> cr_retry_of_run_id c = Some source)
             \<and> assistant_for_run s (r_run_id r) \<noteq> None) (runs s)"

definition has_active :: "'a chat_db_scheme \<Rightarrow> uuid \<Rightarrow> bool" where
  "has_active s conv \<longleftrightarrow>
     list_ex (\<lambda>r. r_conversation_id r = Some conv \<and> r_status r \<in> set ACTIVE) (runs s)"

text \<open>\<open>create_snapshot\<close> of the Run's budget.\<close>

definition create_budget ::
  "uuid \<Rightarrow> string \<Rightarrow> (string \<times> int) list \<Rightarrow> int \<Rightarrow> 'a budget_db_scheme \<Rightarrow> 'a budget_db_scheme res" where
  "create_budget run mode limits final s =
     ensure (run_budgets s run = None) (DbError ''duplicate key'')
       (Inr (s\<lparr>run_budgets := (run_budgets s)(run \<mapsto>
          \<lparr>b_mode = mode, b_status = ''ok'', b_limits = limits, b_used = [], b_reserved = [],
           b_final_response_reserve_tokens = final\<rparr>)\<rparr>))"

text \<open>\<open>allocate_messages\<close>: the last of \<open>count\<close> new sequence numbers of the conversation.\<close>

definition allocate_messages :: "uuid \<Rightarrow> uuid \<Rightarrow> int \<Rightarrow> 'a chat_db_scheme \<Rightarrow> (int \<times> 'a chat_db_scheme) res" where
  "allocate_messages acc conv count s =
     ebind (need (RuntimeError ''NoneType'') (conversation_rows s (acc, conv))) (\<lambda>c.
       let n = cv_last_message_seq c + count in
       Inr (n, s\<lparr>conversation_rows := (conversation_rows s)((acc, conv) \<mapsto> c\<lparr>cv_last_message_seq := n\<rparr>)\<rparr>))"

end
