(* ===== verification/Run_Lifecycle.thy ===== *)
theory Run_Lifecycle
  imports Chat_Store
begin

text \<open>
  The life of a chat Run: its terminal transaction (\<open>finish\<close> of \<open>run_domain/lifecycle.py\<close> with
  \<open>conversation_domain/run_projection.py\<close>), the adapter the lifecycle Activities call
  (\<open>web_domain/lifecycle.py\<close>), the outbox (\<open>web_domain/outbox.py\<close>) and the Workflow facts
  (\<open>web_domain/workflow_execution.py\<close>). The operations are those of the Runs of a conversation: what
  \<open>finish\<close> does for the Work of a Run is not modelled. Trace observers are left out.
\<close>

section \<open>The terminal transaction\<close>

definition reply_status :: "status \<Rightarrow> message_status" where
  "reply_status st = (case st of Succeeded \<Rightarrow> Msg_Completed | Failed \<Rightarrow> Msg_Failed | Cancelled \<Rightarrow> Msg_Aborted | _ \<Rightarrow> Msg_Pending)"

definition terminal_key :: "uuid \<Rightarrow> status \<Rightarrow> string" where
  "terminal_key run st = ''terminal:'' @ run @ '':'' @ status_text st"

definition retain_key :: "uuid \<Rightarrow> string" where
  "retain_key run = ''retain-memory:'' @ run"

definition project_terminal ::
  "(nat \<Rightarrow> uuid) \<Rightarrow> int \<Rightarrow> run_row \<Rightarrow> status \<Rightarrow> string option \<Rightarrow> 'a chat_db_scheme \<Rightarrow> 'a chat_db_scheme res" where
  "project_terminal fresh now run st content s =
     ebind (set_message_terminal (r_run_id run) (reply_status st) content now s) (\<lambda>s1.
     ebind (if st = Succeeded
            then outbox_enqueue (fresh 0) (r_account_id run) ''retain_memory'' (retain_key (r_run_id run))
                   (r_conversation_id run) (Some (r_run_id run))
                   (JObj [(''run_id'', JStr (r_run_id run)), (''version'', JInt 1)]) now s1
            else Inr s1) (\<lambda>s2.
       outbox_enqueue (fresh 1) (r_account_id run) ''publish_terminal_event'' (terminal_key (r_run_id run) st)
         (r_conversation_id run) (Some (r_run_id run))
         (JObj [(''run_id'', JStr (r_run_id run)), (''version'', JInt 1), (''terminal_status'', JStr (status_text st)),
                (''terminal_event_id'', JStr (fresh 1))]) now s2))"

text \<open>\<open>ck_runs__failure\<close>: exactly a failed Run has a failure code.\<close>

definition failure_shape :: "status \<Rightarrow> string option \<Rightarrow> string option \<Rightarrow> bool" where
  "failure_shape st code msg \<longleftrightarrow> (if st = Failed then code \<noteq> None else code = None \<and> msg = None)"

definition recover_budgets :: "run_row \<Rightarrow> 'a account_db_scheme \<Rightarrow> 'a account_db_scheme res" where
  "recover_budgets run s = ebind (coordinator_recover s run) (\<lambda>s1. recover_terminal_in_uow s1 (r_run_id run))"

definition active_subagent :: "uuid \<Rightarrow> execution_row \<Rightarrow> bool" where
  "active_subagent run e \<longleftrightarrow> e_run_id e = run \<and> e_role e = Subagent \<and> e_status e \<in> set ACTIVE"

text \<open>The end of a Run of a conversation that passed the checks: its row, its budgets, its reply and its events.\<close>

definition end_chat_run ::
  "(nat \<Rightarrow> uuid) \<Rightarrow> int \<Rightarrow> run_row \<Rightarrow> status \<Rightarrow> string option \<Rightarrow> json option \<Rightarrow> string option \<Rightarrow> string option \<Rightarrow>
   'a chat_db_scheme \<Rightarrow> (bool \<times> 'a chat_db_scheme) res" where
  "end_chat_run fresh now run st content result code msg s =
     ensure (failure_shape st code msg) (DbError ''ck_runs__failure'')
     (ebind (set_result_terminal st code msg (if json_true result then result else None) (r_run_id run) now s) (\<lambda>s1.
      ebind (need (RuntimeError ''NoneType'') (find (\<lambda>r. r_run_id r = r_run_id run) (runs s1))) (\<lambda>run1.
      ebind (recover_budgets run1 s1) (\<lambda>s2.
      ebind (project_terminal fresh now run1 st content s2) (\<lambda>s3. Inr (True, s3))))))"

text \<open>The branch of \<open>finish_in_uow\<close> for a Run of a conversation: \<open>run\<close> is the locked row.\<close>

definition finish_in_uow ::
  "(nat \<Rightarrow> uuid) \<Rightarrow> int \<Rightarrow> run_row \<Rightarrow> status \<Rightarrow> string option \<Rightarrow> json option \<Rightarrow> string option \<Rightarrow> string option \<Rightarrow>
   'a chat_db_scheme \<Rightarrow> (bool \<times> 'a chat_db_scheme) res" where
  "finish_in_uow fresh now run st content result code msg s =
     ensure (st \<in> set TERMINAL) (ValueError ''invalid terminal status'')
     (if r_status run \<in> set TERMINAL then
        ensure (case result of None \<Rightarrow> True | Some j \<Rightarrow> (case r_result_json run of None \<Rightarrow> False | Some k \<Rightarrow> json_eq k j))
          (ValueError ''terminal execution result cannot be changed'')
          (ebind (recover_budgets run s) (\<lambda>s1. Inr (r_status run = st, s1)))
      else
        ebind (if st = Succeeded then ebind (check_execution s (r_account_id run) (r_run_id run) None False) (\<lambda>_. Inr ())
               else Inr ()) (\<lambda>_.
        ensure (\<not> (st = Succeeded \<and> r_status run \<noteq> Running)) ConversationBusy
        (if st = Failed \<and> r_status run = Cancelling then Inr (False, s)
         else
           ensure (\<not> (st = Cancelled \<and> r_status run = Running)) ConversationBusy
           (ensure (\<not> (st = Succeeded \<and> list_ex (active_subagent (r_run_id run)) (executions s)))
              (ValueError ''root cannot finalize while a branch is active'')
           (end_chat_run fresh now run st content result code msg s)))))"

definition finish ::
  "(nat \<Rightarrow> uuid) \<Rightarrow> int \<Rightarrow> uuid \<Rightarrow> uuid \<Rightarrow> status \<Rightarrow> string option \<Rightarrow> json option \<Rightarrow> string option \<Rightarrow> string option \<Rightarrow>
   'a chat_db_scheme \<Rightarrow> (bool \<times> 'a chat_db_scheme) res" where
  "finish fresh now acc run st content result code msg s =
     ebind (lock s acc run) (\<lambda>r. finish_in_uow fresh now r st content result code msg s)"

section \<open>The adapter of the lifecycle Activities\<close>

definition find_run_id :: "'a authority_db_scheme \<Rightarrow> uuid \<Rightarrow> run_row option" where
  "find_run_id s run = find (\<lambda>r. r_run_id r = run) (runs s)"

definition account_for :: "'a authority_db_scheme \<Rightarrow> uuid \<Rightarrow> uuid res" where
  "account_for s run = need ResourceNotFound (map_option r_account_id (find_run_id s run))"

definition run_authority :: "'a authority_db_scheme \<Rightarrow> uuid \<Rightarrow> status res" where
  "run_authority s run = need ResourceNotFound (map_option r_status (find_run_id s run))"

text \<open>The identity of the Workflow that prepares a Run is compared with the recorded one, when it is given.\<close>

definition bind_workflow ::
  "uuid \<Rightarrow> string option \<Rightarrow> uuid option \<Rightarrow> int \<Rightarrow> 'a chat_db_scheme \<Rightarrow> 'a chat_db_scheme res" where
  "bind_workflow run wid temporal now s =
     (if wid = None \<and> temporal = None then Inr s
      else case (wid, temporal) of
        (Some w, Some t) \<Rightarrow>
          ensure (w \<noteq> [] \<and> t \<noteq> []) (ValueError ''both Temporal execution identifiers are required'')
          (case current_workflow s run of
             None \<Rightarrow> Inl (ValueError ''Temporal Workflow identity does not match current execution'')
           | Some x \<Rightarrow>
               ensure (wx_workflow_id x = w) (ValueError ''Temporal Workflow identity does not match current execution'')
               (ensure (wx_temporal_run_id x = None \<or> wx_temporal_run_id x = Some t)
                  (ValueError ''Temporal Run ID does not match current execution'')
                  (Inr (update_current run [Wf_Scheduled, Wf_Running]
                     (\<lambda>y. y\<lparr>wx_temporal_run_id := Some t, wx_status := Wf_Running,
                            wx_started_at := (case wx_started_at y of None \<Rightarrow> Some now | Some u \<Rightarrow> Some u)\<rparr>) s))))
      | _ \<Rightarrow> Inl (ValueError ''both Temporal execution identifiers are required''))"

definition prepare ::
  "uuid \<Rightarrow> string option \<Rightarrow> uuid option \<Rightarrow> int \<Rightarrow> 'a chat_db_scheme \<Rightarrow> (status \<times> 'a chat_db_scheme) res" where
  "prepare run wid temporal now s =
     ebind (account_for s run) (\<lambda>acc.
     ebind (lock s acc run) (\<lambda>r.
     ebind (bind_workflow run wid temporal now s) (\<lambda>s1.
     ebind (if r_status r \<in> {Queued, Running}
            then ebind (if r_source_kind r = Work then ebind (check_work s1 r) (\<lambda>_. Inr ()) else Inr ()) (\<lambda>_.
                 ensure (account_active s1 (r_account_id r)) ResourceNotFound (Inr ()))
            else Inr ()) (\<lambda>_.
       if r_status r = Queued
       then ebind (mark_running_queued run now s1) (\<lambda>s2. Inr (Running, s2))
       else Inr (r_status r, s1)))))"

definition finalize_failed ::
  "(nat \<Rightarrow> uuid) \<Rightarrow> int \<Rightarrow> uuid \<Rightarrow> string \<Rightarrow> string \<Rightarrow> 'a chat_db_scheme \<Rightarrow> (status \<times> 'a chat_db_scheme) res" where
  "finalize_failed fresh now run code msg s =
     ebind (account_for s run) (\<lambda>acc.
     ebind (finish fresh now acc run Failed None None (Some code) (Some msg) s) (\<lambda>(_, s1).
     ebind (run_authority s1 run) (\<lambda>st. Inr (st, s1))))"

definition HANDOFF_REJECTED :: string where
  "HANDOFF_REJECTED = map (char_of :: nat \<Rightarrow> char)
     [229, 167, 148, 230, 137, 152, 230, 156, 170, 229, 187, 186, 231, 171, 139, 239, 188, 140, 232, 175, 183, 230, 160, 185, 230, 141, 174, 229, 143, 130, 230, 149, 176, 233, 148, 153, 232, 175, 175, 232, 161, 165, 229, 133, 133, 230, 136, 150, 228, 191, 174, 230, 173, 163, 232, 166, 129, 230, 177, 130, 227, 128, 130, 10, 10]"

text \<open>Completing, failing and cancelling read the account and the status in short transactions of their own: here
  nothing runs between these, the workers of \<open>Chat_Dispatch\<close> keep them apart.
  \<open>receipt\<close> is the content of the verified \<open>respond_directly\<close> receipt of the Root with this result, if there is
  one; \<open>rejected\<close> and \<open>accepted\<close> tell whether the transcript holds a rejected hand-off to a Work and whether an
  accepted one is recorded. They are read from the tables of other components.\<close>

definition tool_first :: "chat_run_row \<Rightarrow> bool" where
  "tool_first c = (case cr_input_snapshot c of
       JObj kvs \<Rightarrow> map_of kvs ''main_protocol'' = Some (JStr ''tool_first_v1'') | _ \<Rightarrow> False)"

definition complete ::
  "(nat \<Rightarrow> uuid) \<Rightarrow> int \<Rightarrow> uuid \<Rightarrow> string \<Rightarrow> string option \<Rightarrow> bool \<Rightarrow> bool \<Rightarrow> 'a chat_db_scheme \<Rightarrow>
   (status \<times> 'a chat_db_scheme) res" where
  "complete fresh now run content receipt rejected accepted s =
     ebind (account_for s run) (\<lambda>acc.
     ebind (lock s acc run) (\<lambda>r.
     ebind (if r_status r \<in> {Cancelling, Cancelled, Succeeded, Failed} then Inr s
            else ebind (need (RuntimeError ''NoneType'') (chat_runs s run)) (\<lambda>c.
              ensure (\<not> (tool_first c \<and> receipt = None))
                (ValueError ''Main termination requires a genuine respond_directly receipt'')
              (let verified = (if tool_first c then the receipt else content);
                   reply = (if rejected \<and> \<not> accepted then HANDOFF_REJECTED @ verified else verified)
               in ebind (finish_in_uow fresh now r Succeeded (Some reply) None None None s) (\<lambda>(_, s1). Inr s1)))) (\<lambda>s1.
     ebind (run_authority s1 run) (\<lambda>st. Inr (st, s1)))))"

definition UNEXPECTED_CANCEL :: string where
  "UNEXPECTED_CANCEL = map (char_of :: nat \<Rightarrow> char) [230, 137, 167, 232, 161, 140, 232, 162, 171, 230, 132, 143, 229, 164, 150, 229, 143, 150, 230, 182, 136, 227, 128, 130]"

definition finalize_cancelled ::
  "(nat \<Rightarrow> uuid) \<Rightarrow> int \<Rightarrow> uuid \<Rightarrow> 'a chat_db_scheme \<Rightarrow> (status \<times> 'a chat_db_scheme) res" where
  "finalize_cancelled fresh now run s =
     ebind (run_authority s run) (\<lambda>st.
       if st = Cancelling then
         ebind (account_for s run) (\<lambda>acc.
         ebind (finish fresh now acc run Cancelled None None None None s) (\<lambda>(_, s1).
         ebind (run_authority s1 run) (\<lambda>st'. Inr (st', s1))))
       else if st \<in> {Cancelled, Succeeded, Failed} then Inr (st, s)
       else finalize_failed fresh now run ''workflow_cancelled_unexpectedly'' UNEXPECTED_CANCEL s)"

section \<open>The outbox\<close>

definition OUTBOX_EVENT_TYPES :: "string list" where
  "OUTBOX_EVENT_TYPES = [''start_run'', ''cancel_run'', ''retain_memory'', ''memory_action'', ''publish_terminal_event'',
     ''publish_work_event'', ''file_action_approval_decided'']"

definition WEB_OUTBOX_RECOVERY_EVENT_TYPES :: "string list" where
  "WEB_OUTBOX_RECOVERY_EVENT_TYPES = [''start_run'', ''cancel_run'', ''file_action_approval_decided'']"

definition safe_error :: "string \<Rightarrow> nat \<Rightarrow> string" where
  "safe_error v limit = take limit (filter (\<lambda>c. c \<noteq> CHR 0x00) v)"

definition known_types :: "string list \<Rightarrow> bool" where
  "known_types types \<longleftrightarrow> types \<noteq> [] \<and> set types \<subseteq> set OUTBOX_EVENT_TYPES"

definition outbox_claim ::
  "string \<Rightarrow> string list \<Rightarrow> uuid list \<Rightarrow> nat \<Rightarrow> int \<Rightarrow> 'a chat_db_scheme \<Rightarrow> (outbox_row list \<times> 'a chat_db_scheme) res" where
  "outbox_claim worker types skipped limit now s =
     ensure (known_types types) (ValueError ''owned_event_types must contain known Outbox event types'')
       (Inr (claim_batch worker types skipped limit now s))"

definition recover_expired :: "int \<Rightarrow> string list \<Rightarrow> int \<Rightarrow> 'a chat_db_scheme \<Rightarrow> (nat \<times> 'a chat_db_scheme) res" where
  "recover_expired older types now s =
     ensure (known_types types) (ValueError ''owned_event_types must contain known Outbox event types'')
       (Inr (recover_expired_rows older types now s))"

definition mark_processed :: "uuid \<Rightarrow> string \<Rightarrow> int \<Rightarrow> 'a chat_db_scheme \<Rightarrow> (bool \<times> 'a chat_db_scheme) res" where
  "mark_processed ev worker now s = Inr (mark_processed_row ev worker now s)"

definition mark_retryable_failure ::
  "uuid \<Rightarrow> string \<Rightarrow> string \<Rightarrow> string \<Rightarrow> int \<Rightarrow> 'a chat_db_scheme \<Rightarrow> (bool \<times> 'a chat_db_scheme) res" where
  "mark_retryable_failure ev worker code msg next_at s =
     Inr (mark_retryable_row ev worker (safe_error code 100) (safe_error msg 1000) next_at s)"

definition dead_letter ::
  "(nat \<Rightarrow> uuid) \<Rightarrow> int \<Rightarrow> uuid \<Rightarrow> string \<Rightarrow> string \<Rightarrow> string \<Rightarrow> 'a chat_db_scheme \<Rightarrow> (bool \<times> 'a chat_db_scheme) res" where
  "dead_letter fresh now ev worker code msg s =
     ebind (need ResourceNotFound (find (\<lambda>e. ob_event_id e = ev) (outbox s))) (\<lambda>seen.
     ebind (need ResourceNotFound (ob_run_id seen)) (\<lambda>run.
     ebind (lock s (ob_account_id seen) run) (\<lambda>r.
     ebind (need OutboxLeaseLost (find (owned_by ev worker) (outbox s))) (\<lambda>e.
     ensure (ob_run_id e = ob_run_id seen) OutboxLeaseLost
     (ebind (if ob_event_type e = ''start_run'' \<and> r_status r = Queued
             then ebind (finish_in_uow fresh now r Failed None None (Some ''workflow_start_exhausted'')
                    (Some (safe_error msg 1000)) s) (\<lambda>(_, s1). Inr s1)
             else Inr s) (\<lambda>s1.
        let (changed, s2) = mark_dead_letter_row ev worker (safe_error code 100) (safe_error msg 1000) s1 in
        ensure changed OutboxLeaseLost (Inr (True, s2))))))))"

section \<open>Workflow facts\<close>

text \<open>\<open>should_start\<close> with the identifier of the Workflow.\<close>

definition prepare_start :: "uuid \<Rightarrow> uuid \<Rightarrow> 'a chat_db_scheme \<Rightarrow> ((string \<times> bool) \<times> 'a chat_db_scheme) res" where
  "prepare_start rec run s =
     (case find_run_id s run of
        None \<Rightarrow> Inr ((web_workflow_id run, False), s)
      | Some r0 \<Rightarrow>
          ebind (lock s (r_account_id r0) run) (\<lambda>r.
          ebind (if r_source_kind r = Work \<and> r_status r \<in> {Queued, Running}
                 then ebind (check_work s r) (\<lambda>_. Inr ()) else Inr ()) (\<lambda>_.
            case current_workflow s run of
              Some w \<Rightarrow> Inr ((wx_workflow_id w, wx_temporal_run_id w = None \<and> r_status r \<in> {Queued, Running}), s)
            | None \<Rightarrow>
                ebind (need (RuntimeError ''NoneType'') (chat_runs s run)) (\<lambda>c.
                  if r_status r \<noteq> Queued then Inr ((cr_workflow_id c, False), s)
                  else ebind (insert_scheduled rec (r_account_id r) (r_conversation_id r) run (cr_workflow_id c) s) (\<lambda>s1.
                    Inr ((cr_workflow_id c, True), s1))))))"

definition still_queued :: "uuid \<Rightarrow> 'a chat_db_scheme \<Rightarrow> bool" where
  "still_queued run s = (case find_run_id s run of None \<Rightarrow> False | Some r \<Rightarrow> r_status r = Queued)"

definition record_started :: "uuid \<Rightarrow> uuid \<Rightarrow> int \<Rightarrow> 'a chat_db_scheme \<Rightarrow> (unit \<times> 'a chat_db_scheme) res" where
  "record_started run temporal now s = Inr ((), record_started_row temporal run now s)"

definition needs_cancel :: "uuid \<Rightarrow> 'a chat_db_scheme \<Rightarrow> bool" where
  "needs_cancel run s = (case find_run_id s run of None \<Rightarrow> False | Some r \<Rightarrow> r_status r \<in> {Cancelling, Cancelled})"

definition current_workflow_id :: "uuid \<Rightarrow> 'a chat_db_scheme \<Rightarrow> string option" where
  "current_workflow_id run s = map_option wx_workflow_id (current_workflow s run)"

definition record_cancel_requested :: "uuid \<Rightarrow> 'a chat_db_scheme \<Rightarrow> (unit \<times> 'a chat_db_scheme) res" where
  "record_cancel_requested run s = Inr ((), record_cancel_requested_row run s)"

definition record_temporal_fact :: "uuid \<Rightarrow> workflow_status \<Rightarrow> int \<Rightarrow> 'a chat_db_scheme \<Rightarrow> (unit \<times> 'a chat_db_scheme) res" where
  "record_temporal_fact run st now s =
     ensure (st \<in> {Wf_Completed, Wf_Failed, Wf_Cancelled, Wf_Terminated, Wf_Timed_Out})
       (ValueError ''status is not a Temporal terminal fact'') (Inr ((), record_terminal_fact st run now s))"

end
