(* ===== verification/Chat_Dispatch.thy ===== *)
theory Chat_Dispatch
  imports Run_Lifecycle
begin

text \<open>
  The workers between the outbox and Temporal: the dispatcher (\<open>orchestration/web_dispatcher.py\<close>), which starts,
  cancels and signals the Workflows that committed events ask for, and the reconciler
  (\<open>orchestration/web_reconciler.py\<close>, \<open>orchestration/web_reconcile_adapters.py\<close>), which brings Runs and Workflows
  together again. A worker is a sequence of short transactions and calls to Temporal. Before each of them
  the rest of the system acts (\<open>je_others\<close>), and the worker may die there. Temporal is a function of the
  environment. Log records are left out, and so is the convergence of the Works in the reconciler.
\<close>

section \<open>Workers\<close>

datatype temporal_fact = Fact_Open | Fact_Not_Found | Fact workflow_status

text \<open>The answers of \<open>start_workflow\<close>: a new Workflow, or the one that has this identifier with its type, each with
  its Temporal Run ID if the client knows it.\<close>

datatype start_reply = New_Workflow "uuid option" | Already_Started string string "uuid option"

datatype temporal_call = Start_Call string uuid | Cancel_Call string | Signal_Call string string string

record 'x job_world =
  jw_db :: chat_db
  jw_ext :: 'x
  jw_log :: "temporal_call list"

datatype 'a job_end = Job_Done 'a | Job_Raised exn | Job_Died

type_synonym ('x, 'a) job = "'x job_world \<Rightarrow> 'a job_end \<times> 'x job_world"

record 'x job_env =
  je_others :: "'x \<Rightarrow> chat_db \<Rightarrow> bool \<times> 'x \<times> chat_db"
  je_clock :: "'x \<Rightarrow> int"
  je_fresh :: "'x \<Rightarrow> nat \<Rightarrow> uuid"
  je_skipped :: "'x \<Rightarrow> uuid list"
  je_start :: "string \<Rightarrow> uuid \<Rightarrow> 'x \<Rightarrow> start_reply res \<times> 'x"
  je_describe_run :: "string \<Rightarrow> 'x \<Rightarrow> uuid option res \<times> 'x"
  je_cancel :: "string \<Rightarrow> 'x \<Rightarrow> unit res \<times> 'x"
  je_not_found :: "exn \<Rightarrow> bool"
  je_signal :: "string \<Rightarrow> string \<Rightarrow> string \<Rightarrow> 'x \<Rightarrow> unit res \<times> 'x"
  je_describe :: "string \<Rightarrow> 'x \<Rightarrow> temporal_fact res \<times> 'x"
  je_by_updated :: "reconcile_candidate list \<Rightarrow> reconcile_candidate list"
  je_str :: "json \<Rightarrow> string"
  je_text :: "exn \<Rightarrow> string"
  je_has_finalizer :: bool
  je_worker :: string
  je_max_attempts :: int

definition job_return :: "'a \<Rightarrow> ('x, 'a) job" where
  "job_return a w = (Job_Done a, w)"

definition job_raise :: "exn \<Rightarrow> ('x, 'a) job" where
  "job_raise e w = (Job_Raised e, w)"

definition job_bind :: "('x, 'a) job \<Rightarrow> ('a \<Rightarrow> ('x, 'b) job) \<Rightarrow> ('x, 'b) job" where
  "job_bind p k w = (case p w of
       (Job_Done a, w') \<Rightarrow> k a w'
     | (Job_Raised e, w') \<Rightarrow> (Job_Raised e, w')
     | (Job_Died, w') \<Rightarrow> (Job_Died, w'))"

definition job_catch :: "('x, 'a) job \<Rightarrow> (exn \<Rightarrow> ('x, 'a) job) \<Rightarrow> ('x, 'a) job" where
  "job_catch p h w = (case p w of (Job_Raised e, w') \<Rightarrow> h e w' | r \<Rightarrow> r)"

text \<open>The rest of the system acts, and the worker lives on or dies.\<close>

definition job_pause :: "'x job_env \<Rightarrow> ('x, unit) job" where
  "job_pause env w =
     (case je_others env (jw_ext w) (jw_db w) of (lives, x, db) \<Rightarrow>
        (if lives then Job_Done () else Job_Died, w\<lparr>jw_ext := x, jw_db := db\<rparr>))"

text \<open>A transaction: it commits, or raises and is rolled back.\<close>

definition job_commit :: "'x job_env \<Rightarrow> (int \<Rightarrow> (nat \<Rightarrow> uuid) \<Rightarrow> chat_db \<Rightarrow> ('a \<times> chat_db) res) \<Rightarrow> ('x, 'a) job" where
  "job_commit env f w =
     (case f (je_clock env (jw_ext w)) (je_fresh env (jw_ext w)) (jw_db w) of
        Inl e \<Rightarrow> (Job_Raised e, w)
      | Inr (a, db) \<Rightarrow> (Job_Done a, w\<lparr>jw_db := db\<rparr>))"

definition job_tx :: "'x job_env \<Rightarrow> (int \<Rightarrow> (nat \<Rightarrow> uuid) \<Rightarrow> chat_db \<Rightarrow> ('a \<times> chat_db) res) \<Rightarrow> ('x, 'a) job" where
  "job_tx env f = job_bind (job_pause env) (\<lambda>_. job_commit env f)"

definition job_call :: "temporal_call list \<Rightarrow> ('x \<Rightarrow> 'a res \<times> 'x) \<Rightarrow> ('x, 'a) job" where
  "job_call note f w =
     (case f (jw_ext w) of (r, x) \<Rightarrow>
        (case r of Inl e \<Rightarrow> Job_Raised e | Inr a \<Rightarrow> Job_Done a, w\<lparr>jw_ext := x, jw_log := jw_log w @ note\<rparr>))"

definition job_rpc :: "'x job_env \<Rightarrow> temporal_call list \<Rightarrow> ('x \<Rightarrow> 'a res \<times> 'x) \<Rightarrow> ('x, 'a) job" where
  "job_rpc env note f = job_bind (job_pause env) (\<lambda>_. job_call note f)"

definition job_of_res :: "'a res \<Rightarrow> ('x, 'a) job" where
  "job_of_res r = (case r of Inl e \<Rightarrow> job_raise e | Inr a \<Rightarrow> job_return a)"

section \<open>The Temporal client\<close>

definition start_web_run :: "'x job_env \<Rightarrow> string \<Rightarrow> uuid \<Rightarrow> ('x, uuid) job" where
  "start_web_run env wid run =
     job_bind (job_rpc env [Start_Call wid run] (je_start env wid run)) (\<lambda>answer.
       case answer of
         New_Workflow None \<Rightarrow> job_raise (RuntimeError ''started Workflow has no Temporal Run ID'')
       | New_Workflow (Some t) \<Rightarrow>
           if t = [] then job_raise (RuntimeError ''started Workflow has no Temporal Run ID'') else job_return t
       | Already_Started owner kind known \<Rightarrow>
           if owner \<noteq> wid \<or> kind \<noteq> ''AgentLifecycleWorkflow''
           then job_raise (RuntimeError ''deterministic Workflow ID belongs to another Workflow'')
           else (case known of
               Some (c # cs) \<Rightarrow> job_return (c # cs)
             | _ \<Rightarrow> job_bind (job_rpc env [] (je_describe_run env wid)) (\<lambda>found.
                 case found of
                   Some (c # cs) \<Rightarrow> job_return (c # cs)
                 | _ \<Rightarrow> job_raise (RuntimeError ''already-started Workflow has no Temporal Run ID''))))"

definition cancel_web_run :: "'x job_env \<Rightarrow> string \<Rightarrow> ('x, bool) job" where
  "cancel_web_run env wid =
     job_catch (job_bind (job_rpc env [Cancel_Call wid] (je_cancel env wid)) (\<lambda>_. job_return True))
       (\<lambda>e. if je_not_found env e then job_return False else job_raise e)"

section \<open>Finalizing a Run\<close>

text \<open>\<open>finalize_failed\<close> and \<open>finalize_cancelled\<close> with the transactions they consist of: the status and the account
  are read in transactions of their own, before and after the one that finishes the Run.\<close>

definition finalize_failed_job :: "'x job_env \<Rightarrow> uuid \<Rightarrow> string \<Rightarrow> string \<Rightarrow> ('x, status) job" where
  "finalize_failed_job env run code msg =
     job_bind (job_tx env (\<lambda>_ _ s. ebind (account_for s run) (\<lambda>acc. Inr (acc, s)))) (\<lambda>acc.
     job_bind (job_tx env (\<lambda>now fresh. finish fresh now acc run Failed None None (Some code) (Some msg))) (\<lambda>_.
       job_tx env (\<lambda>_ _ s. ebind (run_authority s run) (\<lambda>st. Inr (st, s)))))"

definition finalize_cancelled_job :: "'x job_env \<Rightarrow> uuid \<Rightarrow> ('x, status) job" where
  "finalize_cancelled_job env run =
     job_bind (job_tx env (\<lambda>_ _ s. ebind (run_authority s run) (\<lambda>st. Inr (st, s)))) (\<lambda>st.
       if st = Cancelling then
         job_bind (job_tx env (\<lambda>_ _ s. ebind (account_for s run) (\<lambda>acc. Inr (acc, s)))) (\<lambda>acc.
         job_bind (job_tx env (\<lambda>now fresh. finish fresh now acc run Cancelled None None None None)) (\<lambda>_.
           job_tx env (\<lambda>_ _ s. ebind (run_authority s run) (\<lambda>st'. Inr (st', s)))))
       else if st \<in> {Cancelled, Succeeded, Failed} then job_return st
       else finalize_failed_job env run ''workflow_cancelled_unexpectedly'' UNEXPECTED_CANCEL)"

section \<open>The dispatcher\<close>

definition dispatch_start :: "'x job_env \<Rightarrow> uuid \<Rightarrow> ('x, bool) job" where
  "dispatch_start env run =
     job_bind (job_tx env (\<lambda>_ fresh. prepare_start (fresh 0) run)) (\<lambda>(wid, should_start).
       if \<not> should_start then job_return False
       else
         job_bind (start_web_run env wid run) (\<lambda>temporal.
         job_bind (job_tx env (\<lambda>now _. record_started run temporal now)) (\<lambda>_.
         job_bind (job_tx env (\<lambda>_ _ s. Inr (needs_cancel run s, s))) (\<lambda>cancel.
           if cancel
           then job_bind (cancel_web_run env wid) (\<lambda>found.
                  if found then job_bind (job_tx env (\<lambda>_ _. record_cancel_requested run)) (\<lambda>_. job_return True)
                  else job_return True)
           else job_return True))))"

definition dispatch_cancel :: "'x job_env \<Rightarrow> uuid \<Rightarrow> ('x, bool) job" where
  "dispatch_cancel env run =
     job_bind (job_tx env (\<lambda>_ _ s. Inr (current_workflow_id run s, s))) (\<lambda>current.
       case current of
         None \<Rightarrow>
           if je_has_finalizer env
           then job_bind (finalize_cancelled_job env run) (\<lambda>_. job_return False)
           else job_return False
       | Some wid \<Rightarrow>
           job_bind (cancel_web_run env wid) (\<lambda>found.
             if \<not> found
             then (if \<not> je_has_finalizer env
                   then job_raise (RuntimeError ''cancelled Run has no Workflow and no lifecycle finalizer'')
                   else job_bind (finalize_cancelled_job env run) (\<lambda>_. job_return True))
             else job_bind (job_tx env (\<lambda>_ _. record_cancel_requested run)) (\<lambda>_. job_return True)))"

definition payload_text :: "'x job_env \<Rightarrow> json \<Rightarrow> string \<Rightarrow> string res" where
  "payload_text env payload field =
     (case payload of
        JObj kvs \<Rightarrow> (case map_of kvs field of None \<Rightarrow> Inl (PyKeyError field)
           | Some (JStr t) \<Rightarrow> Inr t | Some j \<Rightarrow> Inr (je_str env j))
      | _ \<Rightarrow> Inl (PyKeyError field))"

definition dispatch_approval_decision :: "'x job_env \<Rightarrow> json \<Rightarrow> ('x, bool) job" where
  "dispatch_approval_decision env payload =
     job_bind (job_of_res (payload_text env payload ''tool_execution_workflow_id'')) (\<lambda>wid.
     job_bind (job_of_res (payload_text env payload ''approval_id'')) (\<lambda>approval.
     job_bind (job_of_res (payload_text env payload ''operation_id'')) (\<lambda>oper.
     job_bind (job_rpc env [Signal_Call wid approval oper] (je_signal env wid approval oper)) (\<lambda>_.
       job_return True))))"

definition dispatch_event :: "'x job_env \<Rightarrow> uuid \<Rightarrow> outbox_row \<Rightarrow> ('x, bool) job" where
  "dispatch_event env run e =
     (if ob_event_type e = ''start_run'' then dispatch_start env run
      else if ob_event_type e = ''cancel_run'' then dispatch_cancel env run
      else dispatch_approval_decision env (ob_payload e))"

text \<open>One claimed event: dispatched and marked, or put back, or given up after the last attempt.\<close>

definition deliver_event :: "'x job_env \<Rightarrow> outbox_row \<Rightarrow> ('x, unit) job" where
  "deliver_event env e =
     job_bind (job_of_res (need (ValueError ''badly formed hexadecimal UUID string'') (ob_run_id e))) (\<lambda>run.
     job_catch
       (job_bind (dispatch_event env run e) (\<lambda>_.
        job_bind (job_tx env (\<lambda>now _. mark_processed (ob_event_id e) (je_worker env) now)) (\<lambda>_. job_return ())))
       (\<lambda>x. if ob_attempt_count e \<ge> je_max_attempts env
            then job_bind (job_tx env (\<lambda>now fresh. dead_letter fresh now (ob_event_id e) (je_worker env)
                   ''temporal_dispatch_exhausted'' (take 1000 (je_text env x)))) (\<lambda>_. job_return ())
            else job_bind (job_tx env (\<lambda>now _. mark_retryable_failure (ob_event_id e) (je_worker env)
                   ''temporal_dispatch_failed'' (take 1000 (je_text env x)) (now + 5))) (\<lambda>_. job_return ())))"

fun deliver_events :: "'x job_env \<Rightarrow> outbox_row list \<Rightarrow> ('x, unit) job" where
  "deliver_events env [] = job_return ()"
| "deliver_events env (e # es) = job_bind (deliver_event env e) (\<lambda>_. deliver_events env es)"

definition claim_events :: "'x job_env \<Rightarrow> nat \<Rightarrow> ('x, outbox_row list) job" where
  "claim_events env limit =
     job_bind (job_pause env) (\<lambda>_ w. job_commit env (\<lambda>now _.
       outbox_claim (je_worker env) [''start_run'', ''cancel_run'', ''file_action_approval_decided'']
         (je_skipped env (jw_ext w)) limit now) w)"

definition dispatcher_run_once :: "'x job_env \<Rightarrow> nat \<Rightarrow> ('x, nat) job" where
  "dispatcher_run_once env limit =
     job_bind (claim_events env limit) (\<lambda>events.
     job_bind (deliver_events env events) (\<lambda>_. job_return (length events)))"

section \<open>The reconciler\<close>

definition RECORD_MISSING :: string where
  "RECORD_MISSING = map (char_of :: nat \<Rightarrow> char)
     [230, 137, 167, 232, 161, 140, 232, 174, 176, 229, 189, 149, 231, 188, 186, 229, 164, 177, 227, 128, 130]"

definition NOT_FINISHED :: string where
  "NOT_FINISHED = map (char_of :: nat \<Rightarrow> char)
     [230, 137, 167, 232, 161, 140, 230, 156, 170, 232, 131, 189, 229, 174, 140, 230, 136, 144, 227, 128, 130]"

definition COMMIT_MISSING :: string where
  "COMMIT_MISSING = map (char_of :: nat \<Rightarrow> char)
     [231, 187, 136, 230, 128, 129, 230, 143, 144, 228, 186, 164, 231, 188, 186, 229, 164, 177, 227, 128, 130]"

definition TEMPORAL_MISSING :: string where
  "TEMPORAL_MISSING = map (char_of :: nat \<Rightarrow> char)
     [84, 101, 109, 112, 111, 114, 97, 108, 32, 230, 137, 167, 232, 161, 140, 232, 174, 176, 229, 189, 149, 231, 188, 186, 229, 164, 177, 227, 128, 130]"

definition failure_code_of :: "workflow_status \<Rightarrow> string" where
  "failure_code_of st = (case st of Wf_Failed \<Rightarrow> ''internal_execution_error'' | Wf_Timed_Out \<Rightarrow> ''run_timeout''
     | _ \<Rightarrow> ''workflow_terminated'')"

definition store_failed :: "'x job_env \<Rightarrow> uuid \<Rightarrow> string \<Rightarrow> string \<Rightarrow> ('x, unit) job" where
  "store_failed env run code msg =
     job_bind (finalize_failed_job env run code msg) (\<lambda>_. job_return ())"

definition store_cancelled :: "'x job_env \<Rightarrow> uuid \<Rightarrow> ('x, unit) job" where
  "store_cancelled env run =
     job_bind (finalize_cancelled_job env run) (\<lambda>_. job_return ())"

definition store_fact :: "'x job_env \<Rightarrow> uuid \<Rightarrow> temporal_fact \<Rightarrow> ('x, unit) job" where
  "store_fact env run fact_seen =
     (case fact_seen of
        Fact st \<Rightarrow> job_bind (job_tx env (\<lambda>now _. record_temporal_fact run st now)) (\<lambda>_. job_return ())
      | _ \<Rightarrow> job_return ())"

definition inspector_cancel :: "'x job_env \<Rightarrow> string \<Rightarrow> ('x, unit) job" where
  "inspector_cancel env wid = job_rpc env [Cancel_Call wid] (je_cancel env wid)"

definition reconcile_run :: "'x job_env \<Rightarrow> reconcile_candidate \<Rightarrow> ('x, unit) job" where
  "reconcile_run env c =
     (case rc_workflow_id c of
        Some (a # cs) \<Rightarrow>
          (let wid = a # cs; st = rc_run_status c; run = rc_run_id c in
           job_bind (job_rpc env [] (je_describe env wid)) (\<lambda>seen.
           job_bind (store_fact env run seen) (\<lambda>_.
             if st \<in> {Succeeded, Failed, Cancelled}
             then (if seen = Fact_Open then inspector_cancel env wid else job_return ())
             else if st = Cancelling \<and> seen \<noteq> Fact_Open then store_cancelled env run
             else if seen \<in> {Fact Wf_Failed, Fact Wf_Timed_Out, Fact Wf_Terminated}
             then store_failed env run (case seen of Fact x \<Rightarrow> failure_code_of x | _ \<Rightarrow> []) NOT_FINISHED
             else if seen = Fact Wf_Completed then store_failed env run ''terminal_commit_missing'' COMMIT_MISSING
             else if seen = Fact Wf_Cancelled then store_cancelled env run
             else if seen = Fact_Open \<and> st = Cancelling then inspector_cancel env wid
             else if seen = Fact_Not_Found \<and> st = Cancelling then store_cancelled env run
             else if seen = Fact_Not_Found \<and> st = Running
             then store_failed env run ''terminal_commit_missing'' TEMPORAL_MISSING
             else job_return ())))
      | _ \<Rightarrow>
          if rc_run_status c = Queued then job_return ()
          else store_failed env (rc_run_id c) ''terminal_commit_missing'' RECORD_MISSING)"

fun reconcile_runs :: "'x job_env \<Rightarrow> reconcile_candidate list \<Rightarrow> ('x, unit) job" where
  "reconcile_runs env [] = job_return ()"
| "reconcile_runs env (c # cs) = job_bind (reconcile_run env c) (\<lambda>_. reconcile_runs env cs)"

definition reconciler_run_once :: "'x job_env \<Rightarrow> nat \<Rightarrow> ('x, nat) job" where
  "reconciler_run_once env limit =
     job_bind (job_tx env (\<lambda>_ _ s. Inr (reconcile_rows (je_by_updated env) limit s, s))) (\<lambda>candidates.
     job_bind (reconcile_runs env candidates) (\<lambda>_. job_return (length candidates)))"

end
