(* ===== verification/Lifecycle_Workflow.thy ===== *)
theory Lifecycle_Workflow
  imports Chat_Dispatch Tool_Activity Workflow_Base
begin

text \<open>
  The Workflow of a Run (\<open>orchestration/agent_lifecycle_workflow.py\<close>) with its Activities
  (\<open>orchestration/run_lifecycle_activities.py\<close>, \<open>orchestration/run_dispatcher.py\<close>, \<open>finalize_agent_result\<close> of
  \<open>agent_activities/runtime.py\<close>): it prepares the Run, starts the Agent as a child Workflow, and records the
  success, the failure or the cancellation of the Run. An Activity is attempted as often as its retry policy
  says; each attempt is a job of \<open>Chat_Dispatch\<close>, so the rest of the system acts between its transactions, its worker may
  die, and its answer may be lost after it committed. Temporal may end the wait for an Activity or a child by
  a timeout or a cancellation. The child Workflows, the input of the Agent and what the store holds of its result
  are functions of the environment. Traces and log records are left out.
\<close>

section \<open>Activities\<close>

datatype await_end = Await_Cancelled | Cancelled_Inside | Timed_Out

record 'x life_env =
  lf_job :: "'x job_env"
  lf_interrupt :: "'x \<Rightarrow> await_end option \<times> 'x"
  lf_workflow_id :: string
  lf_temporal_id :: uuid
  lf_input :: "uuid \<Rightarrow> 'x \<Rightarrow> agent_run_input res \<times> 'x"
  lf_agent :: "agent_run_input \<Rightarrow> 'x \<Rightarrow> (wf_exn + agent_result) \<times> 'x"
  lf_content :: "string \<Rightarrow> uuid \<Rightarrow> 'x \<Rightarrow> string res \<times> 'x"
  lf_receipt :: "string \<Rightarrow> uuid \<Rightarrow> 'x \<Rightarrow> string option"
  lf_rejected :: "uuid \<Rightarrow> 'x \<Rightarrow> bool"
  lf_accepted :: "uuid \<Rightarrow> 'x \<Rightarrow> bool"
  lf_build :: "uuid \<Rightarrow> 'x \<Rightarrow> uuid res \<times> 'x"
  lf_builder :: "uuid \<Rightarrow> 'x \<Rightarrow> (wf_exn + unit) \<times> 'x"
  lf_close :: "uuid \<Rightarrow> status \<Rightarrow> 'x \<Rightarrow> unit res \<times> 'x"
  lf_built :: "uuid \<Rightarrow> 'x \<Rightarrow> unit res \<times> 'x"
  lf_research :: "uuid \<Rightarrow> 'x \<Rightarrow> (wf_exn + json) \<times> 'x"
  lf_reminder :: "uuid \<Rightarrow> 'x \<Rightarrow> unit res \<times> 'x"

definition LIFECYCLE_ATTEMPTS :: nat where
  "LIFECYCLE_ATTEMPTS = 5"

definition FINALIZE_ATTEMPTS :: nat where
  "FINALIZE_ATTEMPTS = 10"

fun non_retryable :: "exn \<Rightarrow> bool" where
  "non_retryable (ApplicationError ty b) = b"
| "non_retryable e = False"

definition reported :: "'x life_env \<Rightarrow> ('x, 'a) job \<Rightarrow> ('x, 'a) job" where
  "reported env p = job_bind p (\<lambda>a. job_bind (job_pause (lf_job env)) (\<lambda>_. job_return a))"

definition await_exn :: "(wf_exn \<Rightarrow> wf_exn) \<Rightarrow> await_end \<Rightarrow> wf_exn" where
  "await_exn wrap i = (case i of Await_Cancelled \<Rightarrow> Plain CancelledError | Cancelled_Inside \<Rightarrow> wrap (Plain CancelledError)
     | Timed_Out \<Rightarrow> wrap (Plain TimeoutError))"

primrec activity_attempts :: "'x life_env \<Rightarrow> nat \<Rightarrow> ('x, 'a) job \<Rightarrow> 'x job_world \<Rightarrow> (wf_exn + 'a) \<times> 'x job_world" where
  "activity_attempts env 0 p w = (Inl (Activity_Error (Plain TimeoutError)), w)"
| "activity_attempts env (Suc n) p w =
     (case lf_interrupt env (jw_ext w) of (stop, x) \<Rightarrow>
        (case stop of
           Some i \<Rightarrow> (Inl (await_exn Activity_Error i), w\<lparr>jw_ext := x\<rparr>)
         | None \<Rightarrow>
             (case reported env p (w\<lparr>jw_ext := x\<rparr>) of (r, w') \<Rightarrow>
                (case r of
                   Job_Done a \<Rightarrow> (Inr a, w')
                 | Job_Raised e \<Rightarrow> if n = 0 \<or> non_retryable e then (Inl (Activity_Error (Plain e)), w')
                                 else activity_attempts env n p w'
                 | Job_Died \<Rightarrow> activity_attempts env n p w'))))"

definition activity :: "'x life_env \<Rightarrow> nat \<Rightarrow> ('x, 'a) job \<Rightarrow> ('x job_world, 'a) wf" where
  "activity env n p = wf_perform (activity_attempts env n p)"

text \<open>Work outside the database: what it does there are steps of the others.\<close>

definition with_others :: "'x life_env \<Rightarrow> ('x \<Rightarrow> 'r \<times> 'x) \<Rightarrow> 'x job_world \<Rightarrow> 'r \<times> 'x job_world" where
  "with_others env f w =
     (case je_others (lf_job env) (jw_ext w) (jw_db w) of (lives, x, db) \<Rightarrow>
        (case f x of (r, x') \<Rightarrow> (r, w\<lparr>jw_ext := x', jw_db := db\<rparr>)))"

definition child_workflow :: "'x life_env \<Rightarrow> ('x \<Rightarrow> (wf_exn + 'a) \<times> 'x) \<Rightarrow> ('x job_world, 'a) wf" where
  "child_workflow env f =
     wf_perform (\<lambda>w. case lf_interrupt env (jw_ext w) of (stop, x) \<Rightarrow>
       (case stop of
          Some i \<Rightarrow> (Inl (await_exn Child_Error i), w\<lparr>jw_ext := x\<rparr>)
        | None \<Rightarrow>
            (case with_others env f (w\<lparr>jw_ext := x\<rparr>) of (r, w') \<Rightarrow>
               (case r of Inl e \<Rightarrow> Inl (Child_Error (if is_cancelled_exception e then Plain CancelledError else e))
                        | Inr a \<Rightarrow> Inr a, w'))))"

definition outside_activity :: "'x life_env \<Rightarrow> ('x \<Rightarrow> 'a res \<times> 'x) \<Rightarrow> ('x job_world, 'a) wf" where
  "outside_activity env f = activity env LIFECYCLE_ATTEMPTS (job_rpc (lf_job env) [] f)"

section \<open>The Activities of the lifecycle\<close>

definition lifecycle_call :: "('x, 'a) job \<Rightarrow> ('x, 'a) job" where
  "lifecycle_call p =
     job_catch p (\<lambda>e. if is_domain_error e \<or> (case e of ValueError t \<Rightarrow> True | _ \<Rightarrow> False)
                       then job_raise (ApplicationError '''' True) else job_raise e)"

definition prepare_run_activity :: "'x life_env \<Rightarrow> uuid \<Rightarrow> ('x, status) job" where
  "prepare_run_activity env run =
     lifecycle_call (job_tx (lf_job env) (\<lambda>now _. prepare run (Some (lf_workflow_id env)) (Some (lf_temporal_id env)) now))"

definition finalize_failed_activity :: "'x life_env \<Rightarrow> uuid \<Rightarrow> string \<Rightarrow> string \<Rightarrow> ('x, status) job" where
  "finalize_failed_activity env run code msg = lifecycle_call (finalize_failed_job (lf_job env) run code msg)"

definition finalize_cancelled_activity :: "'x life_env \<Rightarrow> uuid \<Rightarrow> ('x, status) job" where
  "finalize_cancelled_activity env run = lifecycle_call (finalize_cancelled_job (lf_job env) run)"

text \<open>\<open>validate_run\<close> of a Run of a conversation: the kind and the executor of its strategy.\<close>

definition validate_run :: "chat_run_row \<Rightarrow> (string \<times> string) res" where
  "validate_run c =
     (let expected = (if cr_executor_key c = ''artifact_html'' then (''fixed_workflow'', ''artifact_html'')
                      else (''generic_agent'', ''chat_agent''))
      in ensure ((cr_strategy_kind c, cr_executor_key c) = expected)
           (ValueError ''unsupported frozen execution strategy'') (Inr expected))"

definition load_strategy :: "'x life_env \<Rightarrow> uuid \<Rightarrow> ('x, string \<times> string) job" where
  "load_strategy env run =
     job_catch (job_tx (lf_job env) (\<lambda>_ _ s.
         ebind (need (ValueError ''Run unavailable'') (chat_runs s run)) (\<lambda>c.
         ebind (validate_run c) (\<lambda>k. Inr (k, s)))))
       (\<lambda>e. if is_domain_error e then job_raise (ApplicationError ''run_not_executable'' True)
            else (case e of ValueError t \<Rightarrow> job_raise (ApplicationError ''unsupported_execution_strategy'' True)
                  | _ \<Rightarrow> job_raise e))"

text \<open>\<open>WebRunLifecycleService.complete\<close> with its transactions, and the Activity that calls it.\<close>

definition complete_job :: "'x life_env \<Rightarrow> uuid \<Rightarrow> string \<Rightarrow> string \<Rightarrow> ('x, status) job" where
  "complete_job env run content ref =
     job_bind (job_tx (lf_job env) (\<lambda>_ _ s. ebind (account_for s run) (\<lambda>acc. Inr (acc, s)))) (\<lambda>_.
     job_bind (job_bind (job_pause (lf_job env)) (\<lambda>_ w. job_commit (lf_job env) (\<lambda>now fresh.
         complete fresh now run content (lf_receipt env ref run (jw_ext w)) (lf_rejected env run (jw_ext w))
           (lf_accepted env run (jw_ext w))) w)) (\<lambda>_.
       job_tx (lf_job env) (\<lambda>_ _ s. ebind (run_authority s run) (\<lambda>st. Inr (st, s)))))"

definition finalize_agent_result :: "'x life_env \<Rightarrow> uuid \<Rightarrow> string \<Rightarrow> ('x, status) job" where
  "finalize_agent_result env run ref =
     job_catch
       (job_bind (job_rpc (lf_job env) [] (lf_content env ref run)) (\<lambda>content. complete_job env run content ref))
       (\<lambda>e. case classify_model_governance_failure e of
              Some code \<Rightarrow> job_raise (ApplicationError code True) | None \<Rightarrow> job_raise e)"

section \<open>Failures\<close>

definition utf8 :: "nat list \<Rightarrow> string" where
  "utf8 = map (char_of :: nat \<Rightarrow> char)"

definition STABLE_FAILURE_MESSAGES :: "(string \<times> string) list" where
  "STABLE_FAILURE_MESSAGES = [
     (''context_build_failed'', utf8 [228, 184, 138, 228, 184, 139, 230, 150, 135, 230, 158, 132, 229, 187, 186, 229,
        164, 177, 232, 180, 165, 227, 128, 130]),
     (''memory_isolation_violation'', utf8 [233, 149, 191, 230, 156, 159, 232, 174, 176, 229, 191, 134, 233, 154,
        148, 231, 166, 187, 230, 160, 161, 233, 170, 140, 229, 164, 177, 232, 180, 165, 227, 128, 130]),
     (''model_unavailable'', utf8 [230, 168, 161, 229, 158, 139, 230, 154, 130, 230, 151, 182, 228, 184, 141, 229,
        143, 175, 231, 148, 168, 227, 128, 130]),
     (''model_timeout'', utf8 [230, 168, 161, 229, 158, 139, 232, 176, 131, 231, 148, 168, 232, 182, 133, 230, 151,
        182, 227, 128, 130]),
     (''model_request_invalid'', utf8 [230, 168, 161, 229, 158, 139, 232, 175, 183, 230, 177, 130, 230, 160, 188,
        229, 188, 143, 230, 160, 161, 233, 170, 140, 229, 164, 177, 232, 180, 165, 227, 128, 130]),
     (''model_response_invalid'', utf8 [230, 168, 161, 229, 158, 139, 229, 147, 141, 229, 186, 148, 230, 151, 160,
        230, 179, 149, 232, 167, 163, 230, 158, 144, 227, 128, 130]),
     (''model_connection_failed'', utf8 [230, 151, 160, 230, 179, 149, 232, 191, 158, 230, 142, 165, 230, 168, 161,
        229, 158, 139, 230, 156, 141, 229, 138, 161, 227, 128, 130]),
     (''model_read_timeout'', utf8 [231, 173, 137, 229, 190, 133, 230, 168, 161, 229, 158, 139, 229, 147, 141, 229,
        186, 148, 232, 182, 133, 230, 151, 182, 227, 128, 130]),
     (''model_access_denied'', utf8 [230, 168, 161, 229, 158, 139, 230, 156, 141, 229, 138, 161, 230, 139, 146, 231,
        187, 157, 232, 174, 191, 233, 151, 174, 227, 128, 130]),
     (''model_request_rejected'', utf8 [230, 168, 161, 229, 158, 139, 230, 156, 141, 229, 138, 161, 230, 139, 146,
        231, 187, 157, 232, 175, 183, 230, 177, 130, 227, 128, 130]),
     (''model_rate_limited'', utf8 [230, 168, 161, 229, 158, 139, 230, 156, 141, 229, 138, 161, 233, 162, 157, 229,
        186, 166, 228, 184, 141, 232, 182, 179, 230, 136, 150, 232, 175, 183, 230, 177, 130, 232, 191, 135, 229, 164,
        154, 227, 128, 130]),
     (''model_http_error'', utf8 [230, 168, 161, 229, 158, 139, 230, 156, 141, 229, 138, 161, 232, 191, 148, 229,
        155, 158, 233, 148, 153, 232, 175, 175, 227, 128, 130]),
     (''account_model_entitlement_unavailable'', utf8 [232, 180, 166, 230, 136, 183, 230, 168, 161, 229, 158, 139,
        230, 157, 131, 233, 153, 144, 228, 184, 141, 229, 143, 175, 231, 148, 168, 227, 128, 130]),
     (''work_budget_exhausted'', utf8 [229, 183, 165, 228, 189, 156, 231, 180, 175, 232, 174, 161, 233, 162, 132,
        231, 174, 151, 229, 183, 178, 232, 128, 151, 229, 176, 189, 227, 128, 130]),
     (''capability_budget_exhausted'', utf8 [230, 156, 172, 230, 172, 161, 232, 131, 189, 229, 138, 155, 232, 176,
        131, 231, 148, 168, 233, 162, 132, 231, 174, 151, 229, 183, 178, 232, 128, 151, 229, 176, 189, 227, 128, 130]),
     (''run_budget_exhausted'', utf8 [230, 156, 172, 230, 172, 161, 230, 137, 167, 232, 161, 140, 233, 162, 132, 231,
        174, 151, 229, 183, 178, 232, 128, 151, 229, 176, 189, 227, 128, 130]),
     (''account_daily_model_budget_exhausted'', utf8 [232, 180, 166, 230, 136, 183, 228, 187, 138, 230, 151, 165,
        230, 168, 161, 229, 158, 139, 233, 162, 157, 229, 186, 166, 229, 183, 178, 232, 128, 151, 229, 176, 189, 227,
        128, 130]),
     (''model_access_tier_denied'', utf8 [229, 189, 147, 229, 137, 141, 232, 180, 166, 230, 136, 183, 230, 151, 160,
        230, 157, 131, 232, 174, 191, 233, 151, 174, 230, 137, 128, 233, 128, 137, 230, 168, 161, 229, 158, 139, 227,
        128, 130]),
     (''no_progress'', utf8 [232, 191, 158, 231, 187, 173, 230, 137, 167, 232, 161, 140, 230, 178, 161, 230, 156,
        137, 230, 150, 176, 229, 162, 158, 230, 156, 137, 230, 149, 136, 232, 191, 155, 229, 177, 149, 239, 188, 140,
        233, 156, 128, 232, 166, 129, 231, 148, 168, 230, 136, 183, 229, 185, 178, 233, 162, 132, 227, 128, 130]),
     (''repeated_failure'', utf8 [231, 155, 184, 229, 144, 140, 232, 131, 189, 229, 138, 155, 232, 191, 158, 231,
        187, 173, 229, 164, 177, 232, 180, 165, 239, 188, 140, 233, 156, 128, 232, 166, 129, 231, 148, 168, 230, 136,
        183, 229, 185, 178, 233, 162, 132, 227, 128, 130]),
     (''tool_failed'', utf8 [229, 183, 165, 229, 133, 183, 230, 137, 167, 232, 161, 140, 229, 164, 177, 232, 180,
        165, 227, 128, 130]),
     (''tool_timeout'', utf8 [229, 183, 165, 229, 133, 183, 230, 137, 167, 232, 161, 140, 232, 182, 133, 230, 151,
        182, 227, 128, 130]),
     (''side_effect_audit_unavailable'', utf8 [229, 137, 175, 228, 189, 156, 231, 148, 168, 229, 174, 161, 232, 174,
        161, 230, 154, 130, 228, 184, 141, 229, 143, 175, 231, 148, 168, 227, 128, 130]),
     (''run_timeout'', utf8 [230, 137, 167, 232, 161, 140, 230, 128, 187, 230, 151, 182, 233, 149, 191, 232, 182,
        133, 230, 151, 182, 227, 128, 130]),
     (''workspace_recovery_required'', utf8 [229, 183, 165, 228, 189, 156, 229, 140, 186, 233, 156, 128, 232, 166,
        129, 228, 186, 186, 229, 183, 165, 230, 129, 162, 229, 164, 141, 227, 128, 130])]"

definition DURABLE_FAILURE_MESSAGES :: "(string \<times> string) list" where
  "DURABLE_FAILURE_MESSAGES = STABLE_FAILURE_MESSAGES @ [
     (''execution_lease_conflict'', utf8 [232, 175, 165, 232, 180, 166, 229, 143, 183, 229, 183, 178, 230, 156, 137,
        228, 187, 187, 229, 138, 161, 230, 173, 163, 229, 156, 168, 230, 137, 167, 232, 161, 140, 227, 128, 130]),
     (''stale_fencing_token'', utf8 [230, 137, 167, 232, 161, 140, 231, 167, 159, 231, 186, 166, 229, 183, 178, 229,
        164, 177, 230, 149, 136, 227, 128, 130]),
     (''transcript_version_conflict'', utf8 [65, 103, 101, 110, 116, 32, 231, 138, 182, 230, 128, 129, 231, 137, 136,
        230, 156, 172, 229, 134, 178, 231, 170, 129, 227, 128, 130]),
     (''unsupported_execution_strategy'', utf8 [228, 184, 141, 230, 148, 175, 230, 140, 129, 231, 154, 132, 230, 137,
        167, 232, 161, 140, 231, 173, 150, 231, 149, 165, 227, 128, 130]),
     (''unsupported_agent_strategy'', utf8 [228, 184, 141, 230, 148, 175, 230, 140, 129, 231, 154, 132, 32, 65, 103,
        101, 110, 116, 32, 231, 173, 150, 231, 149, 165, 227, 128, 130]),
     (''planning_failed'', utf8 [232, 174, 161, 229, 136, 146, 231, 148, 159, 230, 136, 144, 229, 164, 177, 232, 180,
        165, 227, 128, 130]),
     (''plan_evaluation_failed'', utf8 [232, 174, 161, 229, 136, 146, 232, 175, 132, 228, 188, 176, 229, 164, 177,
        232, 180, 165, 227, 128, 130]),
     (''plan_replan_limit_reached'', utf8 [232, 174, 161, 229, 136, 146, 233, 135, 141, 232, 167, 132, 229, 136, 146,
        230, 172, 161, 230, 149, 176, 232, 191, 135, 229, 164, 154, 227, 128, 130]),
     (''tool_side_effect_uncertain'', utf8 [229, 183, 165, 229, 133, 183, 229, 143, 175, 232, 131, 189, 229, 183,
        178, 230, 137, 167, 232, 161, 140, 239, 188, 140, 230, 151, 160, 230, 179, 149, 229, 174, 137, 229, 133, 168,
        231, 161, 174, 232, 174, 164, 231, 187, 147, 230, 158, 156, 227, 128, 130]),
     (''side_effect_reconciliation_failed'', utf8 [229, 183, 165, 229, 133, 183, 229, 137, 175, 228, 189, 156, 231,
        148, 168, 230, 129, 162, 229, 164, 141, 229, 164, 177, 232, 180, 165, 227, 128, 130])]"

text \<open>The type of the first cause that has one. Of an exception that is no \<open>ApplicationError\<close> Temporal keeps the
  name of the class or the kind of the timeout, which is no key of the messages and is left empty here.\<close>

fun failure_type :: "wf_exn \<Rightarrow> string" where
  "failure_type (Plain (ApplicationError ty b)) = ty"
| "failure_type (Plain e) = ''''"
| "failure_type (Activity_Error c) = failure_type c"
| "failure_type (Child_Error c) = failure_type c"

definition failure_code :: "wf_exn \<Rightarrow> string" where
  "failure_code e = (if map_of DURABLE_FAILURE_MESSAGES (failure_type e) \<noteq> None then failure_type e else ''internal_execution_error'')"

definition failure_message :: "string \<Rightarrow> string" where
  "failure_message code = (case map_of DURABLE_FAILURE_MESSAGES code of None \<Rightarrow> NOT_FINISHED | Some t \<Rightarrow> t)"

section \<open>The Workflow\<close>

record lifecycle_input =
  li_schema_version :: int
  li_run_id :: uuid

definition validate_lifecycle :: "lifecycle_input \<Rightarrow> unit res" where
  "validate_lifecycle request =
     ensure (li_schema_version request = 1) (ApplicationError '''' True)
     (ensure (li_run_id request \<noteq> []) (ApplicationError '''' True) (Inr ()))"

definition completed_result :: "uuid \<Rightarrow> json" where
  "completed_result run = JObj [(''schema_version'', JInt 1), (''run_id'', JStr run), (''outcome'', JStr ''completed'')]"

definition artifact_build :: "'x life_env \<Rightarrow> uuid \<Rightarrow> ('x job_world, json) wf" where
  "artifact_build env run =
     wf_bind (outside_activity env (lf_build env run)) (\<lambda>child.
     wf_bind (wf_attempt (child_workflow env (lf_builder env child))) (\<lambda>r.
       let closing = (case r of Inr u \<Rightarrow> Succeeded | Inl e \<Rightarrow> if e = Plain CancelledError then Cancelled else Failed) in
     wf_bind (outside_activity env (lf_close env child closing)) (\<lambda>_.
     wf_bind (wf_outcome r) (\<lambda>_.
     wf_bind (outside_activity env (lf_built env child)) (\<lambda>_. wf_return (completed_result run))))))"

definition agent_execution :: "'x life_env \<Rightarrow> uuid \<Rightarrow> ('x job_world, json) wf" where
  "agent_execution env run =
     wf_bind (outside_activity env (lf_input env run)) (\<lambda>identity.
     wf_bind (child_workflow env (lf_agent env identity)) (\<lambda>result.
     wf_bind (activity env FINALIZE_ATTEMPTS (finalize_agent_result env run (re_result_ref result))) (\<lambda>st.
       if st \<in> {Cancelling, Cancelled} then wf_raise (Plain CancelledError)
       else if st \<noteq> Succeeded then wf_raise (Plain (ApplicationError '''' True))
       else wf_return (completed_result run))))"

definition lifecycle_body :: "'x life_env \<Rightarrow> uuid \<Rightarrow> ('x job_world, json) wf" where
  "lifecycle_body env run =
     wf_bind (activity env LIFECYCLE_ATTEMPTS (prepare_run_activity env run)) (\<lambda>st.
       if st = Succeeded then wf_return (completed_result run)
       else if st \<in> {Cancelling, Cancelled} then wf_raise (Plain CancelledError)
       else if st = Failed then wf_raise (Plain (ApplicationError '''' True))
       else
         wf_bind (activity env LIFECYCLE_ATTEMPTS (load_strategy env run)) (\<lambda>(kind, key).
           if kind = ''fixed_workflow''
           then (if key = ''artifact_html'' then artifact_build env run else wf_perform (with_others env (lf_research env run)))
           else if kind = ''deterministic''
           then wf_bind (outside_activity env (lf_reminder env run)) (\<lambda>_. wf_return (completed_result run))
           else agent_execution env run))"

definition after_cancel :: "'x life_env \<Rightarrow> uuid \<Rightarrow> ('x job_world, json) wf" where
  "after_cancel env run =
     wf_bind (activity env FINALIZE_ATTEMPTS (finalize_cancelled_activity env run)) (\<lambda>st.
       if st = Succeeded then wf_return (completed_result run)
       else if st = Failed then wf_raise (Plain (ApplicationError '''' True))
       else wf_raise (Plain CancelledError))"

definition after_failure :: "'x life_env \<Rightarrow> uuid \<Rightarrow> wf_exn \<Rightarrow> ('x job_world, json) wf" where
  "after_failure env run e =
     wf_bind (activity env FINALIZE_ATTEMPTS
         (finalize_failed_activity env run (failure_code e) (failure_message (failure_code e)))) (\<lambda>st.
       if st = Succeeded then wf_return (completed_result run)
       else if st = Cancelled then wf_raise (Plain CancelledError)
       else wf_raise e)"

definition lifecycle_handlers :: "'x life_env \<Rightarrow> uuid \<Rightarrow> wf_exn \<Rightarrow> ('x job_world, json) wf" where
  "lifecycle_handlers env run e =
     (case e of
        Plain x \<Rightarrow> if x = CancelledError then after_cancel env run else wf_raise e
      | _ \<Rightarrow> if is_cancelled_exception e \<or> failure_type e = ''run_not_executable'' then after_cancel env run
             else after_failure env run e)"

definition lifecycle_run :: "'x life_env \<Rightarrow> lifecycle_input \<Rightarrow> ('x job_world, json) wf" where
  "lifecycle_run env request =
     wf_bind (wf_of_res (validate_lifecycle request)) (\<lambda>_.
     wf_bind (wf_attempt (lifecycle_body env (li_run_id request))) (\<lambda>r.
       case r of Inr a \<Rightarrow> wf_return a | Inl e \<Rightarrow> lifecycle_handlers env (li_run_id request) e))"

end
