(* ===== verification/Chat_Commands.thy ===== *)
theory Chat_Commands
  imports Run_Lifecycle Agent_Contracts
begin

text \<open>
  The commands of the surfaces on a conversation: \<open>application/chat/dependencies.py\<close>,
  \<open>application/chat/send_message.py\<close>, \<open>application/chat/retry_run.py\<close>, \<open>application/run/cancel_run.py\<close>, the
  creation of a conversation in \<open>application/chat/service.py\<close> and the responses of
  \<open>application/chat/projection.py\<close>. Messages carry no attached files: with no file the loops of
  \<open>send_message\<close> over files do nothing. The resource snapshot of the workspace and log records are left out.
\<close>

section \<open>Configuration and bookkeeping\<close>

text \<open>\<open>hash_of\<close> is SHA-256 of the canonical JSON text, \<open>request_of\<close> the identifier a key stands for (a UUID, or
  \<open>uuid5\<close> of any other text), \<open>root_of\<close> the identifier the database derives for the Root Execution.\<close>

record chat_env =
  hash_of :: "json \<Rightarrow> string"
  request_of :: "string \<Rightarrow> uuid"
  root_of :: "uuid \<Rightarrow> uuid"
  workflow_hex :: "string \<Rightarrow> string"
  budget_mode :: string
  budget_limits :: "(string \<times> int) list"
  final_reserve :: int
  policy_snapshot :: json

record command_result =
  cx_status :: int
  cx_body :: response
  cx_replayed :: bool
  cx_resource_reused :: bool

definition claim ::
  "chat_env \<Rightarrow> (nat \<Rightarrow> uuid) \<Rightarrow> uuid \<Rightarrow> string \<Rightarrow> string \<Rightarrow> json \<Rightarrow> 'a chat_db_scheme \<Rightarrow>
   (command_result option \<times> 'a chat_db_scheme) res" where
  "claim env fresh acc oper key payload s =
     ebind (command_claim (fresh 0) acc oper key (hash_of env payload) s) (\<lambda>(row, s1).
       case row of
         None \<Rightarrow> Inr (None, s1)
       | Some c \<Rightarrow>
           ensure (cm_request_hash c = hash_of env payload) IdempotencyConflict
           (case cm_response c of
              None \<Rightarrow> Inl ConversationBusy
            | Some (code, body) \<Rightarrow>
                Inr (Some \<lparr>cx_status = code, cx_body = body, cx_replayed = True,
                           cx_resource_reused = (oper = ''retry_run'' \<and> code = 200)\<rparr>, s1)))"

definition reply :: "uuid \<Rightarrow> string \<Rightarrow> string \<Rightarrow> int \<Rightarrow> bool \<Rightarrow> response \<Rightarrow> 'a chat_db_scheme \<Rightarrow>
   (command_result \<times> 'a chat_db_scheme) res" where
  "reply acc oper key code reused body s =
     Inr (\<lparr>cx_status = code, cx_body = body, cx_replayed = False, cx_resource_reused = reused\<rparr>,
          command_complete acc oper key code body s)"

definition event_key :: "uuid \<Rightarrow> string \<Rightarrow> string" where
  "event_key run ty = map (\<lambda>c. if c = CHR ''_'' then CHR ''-'' else c) ty @ '':'' @ run"

text \<open>The events the commands enqueue have no terminal status.\<close>

definition enqueue_run_event ::
  "uuid \<Rightarrow> uuid \<Rightarrow> uuid option \<Rightarrow> uuid \<Rightarrow> string \<Rightarrow> int \<Rightarrow> 'a chat_db_scheme \<Rightarrow> 'a chat_db_scheme res" where
  "enqueue_run_event ev acc conv run ty now =
     outbox_enqueue ev acc ty (event_key run ty) conv (Some run)
       (JObj [(''run_id'', JStr run), (''version'', JInt 1)]) now"

definition message_request_id :: "chat_env \<Rightarrow> string \<Rightarrow> uuid res" where
  "message_request_id env key =
     ensure (key \<noteq> [] \<and> length key \<le> 128)
       (ValueError ''message key must contain between 1 and 128 characters'') (Inr (request_of env key))"

section \<open>Responses\<close>

definition snapshot_for_run :: "'a chat_db_scheme \<Rightarrow> uuid \<Rightarrow> run_snapshot res" where
  "snapshot_for_run s run =
     ebind (need (RuntimeError ''NoneType'') (find_run_id s run)) (\<lambda>r.
     ebind (if r_source_kind r = Work then Inr None
            else ebind (need (RuntimeError ''NoneType'') (assistant_for_run s run)) (\<lambda>m. Inr (Some m))) (\<lambda>m.
     ebind (need (RuntimeError ''NoneType'')
              (find (\<lambda>e. e_run_id e = run \<and> e_role e = Root) (executions s))) (\<lambda>e.
       Inr \<lparr>rs_run = r, rs_execution_id = e_execution_id e, rs_message = m\<rparr>)))"

definition send_result :: "'a chat_db_scheme \<Rightarrow> uuid \<Rightarrow> response_body res" where
  "send_result s run =
     ebind (snapshot_for_run s run) (\<lambda>snap.
     ebind (need (RuntimeError ''NoneType'') (user_for_run s run)) (\<lambda>user.
       Inr \<lparr>rb_run_id = run, rb_source_run_id = None, rb_user_message = Some user, rb_status = None,
            rb_snapshot = snap\<rparr>))"

definition retry_result :: "'a chat_db_scheme \<Rightarrow> uuid \<Rightarrow> uuid \<Rightarrow> response_body res" where
  "retry_result s source run =
     ebind (snapshot_for_run s run) (\<lambda>snap.
       Inr \<lparr>rb_run_id = run, rb_source_run_id = Some source, rb_user_message = None, rb_status = None,
            rb_snapshot = snap\<rparr>)"

definition cancel_result :: "'a chat_db_scheme \<Rightarrow> uuid \<Rightarrow> status \<Rightarrow> response_body res" where
  "cancel_result s run st =
     ebind (snapshot_for_run s run) (\<lambda>snap.
       Inr \<lparr>rb_run_id = run, rb_source_run_id = None, rb_user_message = None, rb_status = Some st,
            rb_snapshot = snap\<rparr>)"

text \<open>\<open>agent_strategy\<close> of the Run in the response.\<close>

definition shown_strategy :: "'a chat_db_scheme \<Rightarrow> uuid \<Rightarrow> string" where
  "shown_strategy s run =
     (case chat_runs s run of None \<Rightarrow> ''react''
      | Some c \<Rightarrow> (case cr_agent_strategy c of None \<Rightarrow> ''react'' | Some t \<Rightarrow> if t = [] then ''react'' else t))"

section \<open>Creating a conversation\<close>

definition create_conversation ::
  "chat_env \<Rightarrow> (nat \<Rightarrow> uuid) \<Rightarrow> uuid \<Rightarrow> string \<Rightarrow> string \<Rightarrow> 'a chat_db_scheme \<Rightarrow> (command_result \<times> 'a chat_db_scheme) res" where
  "create_conversation env fresh acc key title s =
     ebind (claim env fresh acc ''create_conversation'' key (JObj [(''title'', JStr title)]) s) (\<lambda>(existing, s1).
       case existing of
         Some r \<Rightarrow> Inr (r, s1)
       | None \<Rightarrow>
           ensure (account_active s1 acc) ResourceNotFound
           (let conv = fresh 1; row = \<lparr>cv_title = title, cv_status = ''active'', cv_last_message_seq = 0\<rparr> in
            ensure (conversation_rows s1 (acc, conv) = None) (DbError ''duplicate key'')
            (reply acc ''create_conversation'' key 201 False (Conversation_Body conv row)
               (s1\<lparr>conversations := conversations s1 @ [(acc, conv)],
                   conversation_rows := (conversation_rows s1)((acc, conv) \<mapsto> row)\<rparr>))))"

section \<open>Sending a message\<close>

definition admit_in_locked_conversation :: "uuid \<Rightarrow> 'a chat_db_scheme \<Rightarrow> unit res" where
  "admit_in_locked_conversation conv s = ensure (\<not> has_active s conv) ConversationBusy (Inr ())"

definition lock_active :: "uuid \<Rightarrow> uuid \<Rightarrow> 'a chat_db_scheme \<Rightarrow> conversation_row option" where
  "lock_active acc conv s =
     (case conversation_rows s (acc, conv) of None \<Rightarrow> None
      | Some c \<Rightarrow> if cv_status c = ''active'' then Some c else None)"

definition send_payload :: "uuid \<Rightarrow> string \<Rightarrow> string \<Rightarrow> json option \<Rightarrow> json" where
  "send_payload conv content strategy fixed_html =
     JObj ([(''conversation_id'', JStr conv), (''content'', JStr content)]
       @ (case fixed_html of None \<Rightarrow> [] | Some h \<Rightarrow> [(''fixed_html'', h)])
       @ (if strategy \<noteq> ''react'' then [(''agent_strategy'', JStr strategy)] else []))"

text \<open>The rows of a new chat Run: its messages, the Run with its Root, its budget and the start event.\<close>

definition open_run ::
  "chat_env \<Rightarrow> (nat \<Rightarrow> uuid) \<Rightarrow> uuid \<Rightarrow> uuid \<Rightarrow> chat_run_row \<Rightarrow> int \<Rightarrow> int \<Rightarrow> 'a chat_db_scheme \<Rightarrow> 'a chat_db_scheme res" where
  "open_run env fresh acc conv c sequence now s =
     (let run = fresh 2 in
      ebind (insert_chat_run (root_of env) run acc conv c now s) (\<lambda>s1.
      ebind (insert_assistant (fresh 3) acc conv sequence run now s1) (\<lambda>s2.
      ebind (create_budget run (budget_mode env) (budget_limits env) (final_reserve env) s2) (\<lambda>s3.
        enqueue_run_event (fresh 4) acc (Some conv) run ''start_run'' now s3))))"

definition send_message ::
  "chat_env \<Rightarrow> (nat \<Rightarrow> uuid) \<Rightarrow> int \<Rightarrow> uuid \<Rightarrow> uuid \<Rightarrow> string \<Rightarrow> string \<Rightarrow> string \<Rightarrow> json option \<Rightarrow> 'a chat_db_scheme \<Rightarrow>
   (command_result \<times> 'a chat_db_scheme) res" where
  "send_message env fresh now acc conv key content strategy fixed_html s =
     ensure (strategy \<in> {''react'', ''plan_and_execute''}) (ValueError ''unsupported agent strategy'')
     (ebind (message_request_id env key) (\<lambda>request.
      ebind (claim env fresh acc ''send_message'' key (send_payload conv content strategy fixed_html) s) (\<lambda>(existing, s1).
        case existing of
          Some r \<Rightarrow> Inr (r, s1)
        | None \<Rightarrow>
            ensure (lock_active acc conv s1 \<noteq> None) ResourceNotFound
            (case find_initial_by_client_request s1 acc request of
               Some (m, run) \<Rightarrow>
                 ensure (mg_conversation_id m = conv \<and> mg_content m = Some content) IdempotencyConflict
                 (ebind (send_result s1 run) (\<lambda>body.
                  ensure (shown_strategy s1 run = strategy) IdempotencyConflict
                  (reply acc ''send_message'' key 202 False (Run_Body body) s1)))
             | None \<Rightarrow>
                 ebind (admit_in_locked_conversation conv s1) (\<lambda>_.
                 ebind (allocate_messages acc conv 2 s1) (\<lambda>(allocated, s2).
                 let run = fresh 2 in
                 ebind (insert_user (fresh 1) acc conv content (allocated - 1) request now s2) (\<lambda>s3.
                 ebind (open_run env fresh acc conv
                    (build_chat_run (fresh 1) (web_workflow_id run) (allocated - 1) None strategy fixed_html
                       (Some (policy_snapshot env))) allocated now s3) (\<lambda>s4.
                 ebind (send_result s4 run) (\<lambda>body.
                   reply acc ''send_message'' key 202 False (Run_Body body) s4)))))))))"

section \<open>Retrying a failed Run\<close>

definition NON_RETRYABLE_FAILURE_CODES :: "string list" where
  "NON_RETRYABLE_FAILURE_CODES =
     [''tool_side_effect_uncertain'', ''side_effect_reconciliation_failed'', ''account_model_entitlement_unavailable'',
      ''account_daily_model_budget_exhausted'', ''model_access_tier_denied'', ''model_request_invalid'',
      ''model_response_invalid'', ''model_access_denied'', ''model_request_rejected'', ''model_rate_limited'']"

definition is_failure_retryable :: "string \<Rightarrow> bool" where
  "is_failure_retryable code \<longleftrightarrow> code \<notin> set NON_RETRYABLE_FAILURE_CODES"

text \<open>\<open>inputs_ready\<close> tells whether every input file of the source Run is still ready; the copies of its file
  and resource rows are left out.\<close>

definition retry_run ::
  "chat_env \<Rightarrow> (nat \<Rightarrow> uuid) \<Rightarrow> int \<Rightarrow> bool \<Rightarrow> uuid \<Rightarrow> uuid \<Rightarrow> string \<Rightarrow> 'a chat_db_scheme \<Rightarrow>
   (command_result \<times> 'a chat_db_scheme) res" where
  "retry_run env fresh now inputs_ready acc source key s =
     ebind (claim env fresh acc ''retry_run'' key (JObj [(''run_id'', JStr source)]) s) (\<lambda>(existing, s1).
       case existing of
         Some r \<Rightarrow> Inr (r, s1)
       | None \<Rightarrow>
           (case find_run s1 acc source of
              None \<Rightarrow> Inl ResourceNotFound
            | Some r \<Rightarrow>
                (case r_conversation_id r of
                   None \<Rightarrow> Inl (if r_source_kind r = Work then WorkConflict ''use_work_advance'' else ResourceNotFound)
                 | Some conv \<Rightarrow>
                     ensure (r_status r = Failed) RunNotRetryable
                     (let code = (case r_failure_code r of None \<Rightarrow> [] | Some t \<Rightarrow> t) in
                      ensure (is_failure_retryable code) (RunRetryNotSafe code)
                      (case direct_retry s1 source of
                         Some child \<Rightarrow>
                           ebind (retry_result s1 source (r_run_id child)) (\<lambda>body.
                             reply acc ''retry_run'' key 200 True (Run_Body body) s1)
                       | None \<Rightarrow>
                           ensure (lock_active acc conv s1 \<noteq> None) ResourceNotFound
                           (ebind (admit_in_locked_conversation conv s1) (\<lambda>_.
                            ebind (allocate_messages acc conv 1 s1) (\<lambda>(sequence, s2).
                            ebind (need (RuntimeError ''NoneType'') (chat_runs s2 source)) (\<lambda>c.
                            ensure inputs_ready FileNotReady
                            (ebind (open_run env fresh acc conv
                               (build_chat_run (cr_trigger_message_id c) (web_workflow_id (fresh 2))
                                  (cr_context_message_seq c) (Some source) (shown_strategy s2 source)
                                  (if cr_executor_key c = ''artifact_html'' then Some (cr_input_snapshot c) else None)
                                  (Some (policy_snapshot env))) sequence now s2) (\<lambda>s3.
                             ebind (retry_result s3 source (fresh 2)) (\<lambda>body.
                               reply acc ''retry_run'' key 202 False (Run_Body body) s3))))))))))))"

section \<open>Cancelling a Run\<close>

definition record_cancel_control :: "uuid \<Rightarrow> uuid \<Rightarrow> string \<Rightarrow> 'a chat_db_scheme \<Rightarrow> 'a chat_db_scheme" where
  "record_cancel_control acc run key s =
     (let new = concat (map (\<lambda>e. map (\<lambda>c.
              \<lparr>ce_account_id = e_account_id e, ce_run_id = e_run_id e, ce_execution_id = e_execution_id e,
               ce_command_id = cm_command_id c, ce_action = ''cancel''\<rparr>)
            (filter (command_of (e_account_id e) ''cancel_run'' key) (commands s)))
          (filter (\<lambda>e. e_run_id e = run) (executions s)));
          known = (\<lambda>x. list_ex (\<lambda>y. ce_command_id y = ce_command_id x \<and> ce_execution_id y = ce_execution_id x)
                    (control_events s))
      in s\<lparr>control_events := control_events s @ filter (\<lambda>x. \<not> known x) new\<rparr>)"

definition pending_approval :: "uuid \<Rightarrow> uuid \<Rightarrow> approval_row \<Rightarrow> bool" where
  "pending_approval acc run a \<longleftrightarrow> fa_account_id a = acc \<and> fa_run_id a = run \<and> fa_status a = ''pending''"

text \<open>The events of the cancelled approvals, one after the other from the given fresh identifiers.\<close>

fun enqueue_cancelled_approvals ::
  "chat_env \<Rightarrow> uuid list \<Rightarrow> uuid \<Rightarrow> uuid option \<Rightarrow> uuid \<Rightarrow> int \<Rightarrow> approval_row list \<Rightarrow> 'a chat_db_scheme \<Rightarrow> 'a chat_db_scheme res" where
  "enqueue_cancelled_approvals env (ev # evs) acc conv run now (a # as) s =
     ebind (outbox_enqueue ev acc ''file_action_approval_decided''
              (''file-approval:'' @ fa_approval_id a @ '':cancelled'') conv (Some run)
              (JObj [(''approval_id'', JStr (fa_approval_id a)), (''operation_id'', JStr (fa_operation_id a)),
                     (''tool_execution_workflow_id'',
                        JStr (tool_execution_workflow_id (workflow_hex env) run (fa_operation_id a))),
                     (''version'', JInt 1)]) now s)
       (\<lambda>s1. enqueue_cancelled_approvals env evs acc conv run now as s1)"
| "enqueue_cancelled_approvals env _ acc conv run now _ s = Inr s"

definition request_cancel ::
  "chat_env \<Rightarrow> (nat \<Rightarrow> uuid) \<Rightarrow> int \<Rightarrow> uuid \<Rightarrow> run_row \<Rightarrow> 'a chat_db_scheme \<Rightarrow> 'a chat_db_scheme res" where
  "request_cancel env fresh now acc r s =
     ebind (set_cancelling (r_run_id r) s) (\<lambda>s1.
       let pending = filter (pending_approval acc (r_run_id r)) (approval_rows s1);
           s2 = s1\<lparr>approval_rows := update_where (pending_approval acc (r_run_id r))
                     (\<lambda>a. a\<lparr>fa_status := ''cancelled''\<rparr>) (approval_rows s1)\<rparr> in
       ebind (enqueue_cancelled_approvals env (map fresh [3..<3 + length pending]) acc (r_conversation_id r)
                (r_run_id r) now pending s2) (\<lambda>s3.
         enqueue_run_event (fresh 2) acc (r_conversation_id r) (r_run_id r) ''cancel_run'' now s3))"

definition cancel_run ::
  "chat_env \<Rightarrow> (nat \<Rightarrow> uuid) \<Rightarrow> int \<Rightarrow> uuid \<Rightarrow> uuid \<Rightarrow> string \<Rightarrow> 'a chat_db_scheme \<Rightarrow> (command_result \<times> 'a chat_db_scheme) res" where
  "cancel_run env fresh now acc run key s =
     ebind (claim env fresh acc ''cancel_run'' key (JObj [(''run_id'', JStr run)]) s) (\<lambda>(existing, s1).
       case existing of
         Some r \<Rightarrow> Inr (r, s1)
       | None \<Rightarrow>
           ebind (lock s1 acc run) (\<lambda>r.
           ensure (r_status r \<notin> {Succeeded, Failed}) RunNotCancellable
           (if r_status r = Cancelled then
              ebind (cancel_result s1 run Cancelled) (\<lambda>body.
                reply acc ''cancel_run'' key 200 False (Run_Body body) s1)
            else
              (let s2 = record_cancel_control acc run key s1 in
               if r_status r = Queued \<and> \<not> has_current s2 run then
                 ebind (need (RuntimeError ''NoneType'') (find_run s2 acc run)) (\<lambda>r2.
                 ebind (finish_in_uow (\<lambda>n. fresh (n + 1)) now r2 Cancelled None None None None s2) (\<lambda>(_, s3).
                 ebind (cancel_result s3 run Cancelled) (\<lambda>body.
                   reply acc ''cancel_run'' key 200 False (Run_Body body) s3)))
               else
                 ebind (request_cancel env fresh now acc r s2) (\<lambda>s3.
                 ebind (cancel_result s3 run Cancelling) (\<lambda>body.
                   reply acc ''cancel_run'' key 202 False (Run_Body body) s3))))))"

end
