(* ===== verification/Chat_Frames.thy ===== *)
theory Chat_Frames
  imports Chat_Commands Account_Laws
begin

text \<open>
  What the operations of a chat Run leave alone. The recovery of the budgets changes the budget tables only,
  the updates of a Run and the fence checks change the authority tables only: in both cases the tables of the
  conversation stay as they are. \<open>frames\<close> collects these facts for the proofs about the conversation.
\<close>

named_theorems frames "what an operation keeps"

section \<open>Budget recovery\<close>

definition same_but_budgets :: "'a account_db_scheme \<Rightarrow> 'a account_db_scheme \<Rightarrow> bool" where
  "same_but_budgets s s' \<longleftrightarrow> accounts s' = accounts s \<and> conversations s' = conversations s \<and> works s' = works s
     \<and> runs s' = runs s \<and> executions s' = executions s \<and> leases s' = leases s \<and> waits s' = waits s
     \<and> account_db.more s' = account_db.more s"

lemma same_but_budgets_refl [simp]: "same_but_budgets s s"
  by (simp add: same_but_budgets_def)

lemma same_but_budgets_trans: "same_but_budgets s s' \<Longrightarrow> same_but_budgets s' s'' \<Longrightarrow> same_but_budgets s s''"
  by (simp add: same_but_budgets_def)

lemma same_but_budgets_upd [simp]:
  "same_but_budgets s (s\<lparr>work_usage := a, work_budgets := b\<rparr>)"
  "same_but_budgets s (s\<lparr>run_usage := c, run_budgets := d\<rparr>)"
  "same_but_budgets s (s\<lparr>run_budgets := d\<rparr>)"
  "same_but_budgets s (s\<lparr>account_usage := e, daily_budgets := f\<rparr>)"
  by (simp_all add: same_but_budgets_def)

lemma same_but_budgets_work: "same_but_work s s' \<Longrightarrow> same_but_budgets s s'"
  unfolding same_but_work_def by (erule ssubst) simp

text \<open>A step that only touches budgets after one that does.\<close>

lemma same_but_budgets_then:
  assumes "work_mutate s run op am act w = Inr s1" "same_but_budgets s1 s'"
  shows "same_but_budgets s s'"
  using same_but_budgets_trans [OF same_but_budgets_work [OF work_mutate_frame [OF assms(1)]] assms(2)] .

lemma settle_in_uow_frame:
  assumes "settle_in_uow s run op raw src = Inr (m, s')"
  shows "same_but_budgets s s'"
  using assms by (cases rule: settle_in_uow_cases) (auto elim!: same_but_budgets_then)

lemma release_in_uow_frame:
  assumes "release_in_uow s run op = Inr (m, s')"
  shows "same_but_budgets s s'"
  using assms by (cases rule: release_in_uow_cases) (auto elim!: same_but_budgets_then)

lemma account_settle_in_uow_frame:
  assumes "account_settle_in_uow s acc op tk src qd = Inr (m, s')"
  shows "same_but_budgets s s'"
  using assms by (cases rule: account_settle_in_uow_cases) simp_all

lemma account_release_in_uow_frame:
  assumes "account_release_in_uow s acc op qd = Inr (m, s')"
  shows "same_but_budgets s s'"
  using assms by (cases rule: account_release_in_uow_cases) simp_all

lemma settle_all_frame: "settle_all ops run s = Inr s' \<Longrightarrow> same_but_budgets s s'"
proof (induction ops run s rule: settle_all.induct)
  case (2 op amounts rest run s)
  then obtain m s1 where 1: "settle_in_uow s run op (jints amounts) ''estimated'' = Inr (m, s1)" "settle_all rest run s1 = Inr s'"
    by (auto simp: res_simps)
  show ?case using same_but_budgets_trans [OF settle_in_uow_frame [OF 1(1)] 2(1) [OF 1(2)]] .
qed simp

lemma recover_hold_frame:
  assumes "recover_hold run h s = Inr s'"
  shows "same_but_budgets s s'"
  using assms unfolding recover_hold_def Let_def require_matching_total_def
  by (auto simp: res_simps split: if_splits
      dest!: account_settle_in_uow_frame settle_in_uow_frame account_release_in_uow_frame release_in_uow_frame
      intro: same_but_budgets_trans)

lemma recover_holds_frame: "recover_holds hs run s = Inr s' \<Longrightarrow> same_but_budgets s s'"
proof (induction hs run s rule: recover_holds.induct)
  case (2 h hs run s)
  then obtain s1 where 1: "recover_hold run h s = Inr s1" "recover_holds hs run s1 = Inr s'"
    by (auto simp: res_simps)
  show ?case using same_but_budgets_trans [OF recover_hold_frame [OF 1(1)] 2(1) [OF 1(2)]] .
qed simp

lemma recover_budgets_frame:
  assumes "recover_budgets run s = Inr s'"
  shows "same_but_budgets s s'"
  using assms unfolding recover_budgets_def coordinator_recover_def recover_terminal_in_uow_def
  by (auto simp: res_simps split: if_splits option.splits dest!: recover_holds_frame settle_all_frame
      intro: same_but_budgets_trans)

text \<open>The tables of the conversation are in the extension of the record.\<close>

lemma same_but_budgets_chat:
  fixes s s' :: "'a chat_db_scheme"
  assumes "same_but_budgets s s'"
  shows "runs s' = runs s" "executions s' = executions s" "accounts s' = accounts s" "works s' = works s"
    "conversations s' = conversations s" "chat_runs s' = chat_runs s" "conversation_rows s' = conversation_rows s"
    "messages s' = messages s" "outbox s' = outbox s" "workflow_rows s' = workflow_rows s" "commands s' = commands s"
    "control_events s' = control_events s" "approval_rows s' = approval_rows s"
  using assms unfolding same_but_budgets_def by (cases s; cases s'; simp)+

end
