(* ===== verification/Chat_Laws.thy ===== *)
theory Chat_Laws
  imports Chat_Frames
begin

text \<open>
  The invariant of the conversations, one predicate for each pair of tables that must agree: Runs with their
  fixed columns, Runs with their replies, Runs with the events of their end, queued Runs with their start
  event, Runs with their Workflow. Each predicate is on the tables, so that the lemmas speak about the few
  things that can happen to a table: a Run moves, a Run ends, a Run is opened, an event is added or changes
  hands, a Workflow fact is recorded.
\<close>

section \<open>The invariant\<close>

definition chat :: "run_row \<Rightarrow> bool" where
  "chat r \<longleftrightarrow> r_source_kind r = Chat"

definition named_workflow :: "(uuid \<Rightarrow> chat_run_row option) \<Rightarrow> uuid \<Rightarrow> bool" where
  "named_workflow inputs run \<longleftrightarrow>
     (case inputs run of None \<Rightarrow> False | Some c \<Rightarrow> cr_workflow_id c = web_workflow_id run)"

definition runs_ok :: "run_row list \<Rightarrow> (uuid \<Rightarrow> chat_run_row option) \<Rightarrow> bool" where
  "runs_ok rs inputs \<longleftrightarrow> distinct (map r_run_id rs)
     \<and> (\<forall>r \<in> set rs. chat r \<longrightarrow> named_workflow inputs (r_run_id r))
     \<and> (\<forall>r \<in> set rs. \<forall>r' \<in> set rs. chat r \<longrightarrow> chat r' \<longrightarrow> r_status r \<in> set ACTIVE \<longrightarrow> r_status r' \<in> set ACTIVE \<longrightarrow>
           r_conversation_id r = r_conversation_id r' \<longrightarrow> r_run_id r = r_run_id r')"

definition replies_of :: "uuid \<Rightarrow> message_row list \<Rightarrow> message_row list" where
  "replies_of run ms = filter (\<lambda>m. mg_produced_by_run_id m = Some run) ms"

definition replies_ok :: "run_row list \<Rightarrow> message_row list \<Rightarrow> bool" where
  "replies_ok rs ms \<longleftrightarrow> (\<forall>r \<in> set rs. chat r \<longrightarrow>
     map mg_status (replies_of (r_run_id r) ms) = [reply_status (r_status r)])"

definition is_terminal_key :: "string \<Rightarrow> bool" where
  "is_terminal_key k \<longleftrightarrow> take 9 k = ''terminal:''"

definition is_retain_key :: "string \<Rightarrow> bool" where
  "is_retain_key k \<longleftrightarrow> take 14 k = ''retain-memory:''"

definition is_start_key :: "string \<Rightarrow> bool" where
  "is_start_key k \<longleftrightarrow> take 10 k = ''start-run:''"

definition ends_ok :: "run_row list \<Rightarrow> string list \<Rightarrow> bool" where
  "ends_ok rs keys \<longleftrightarrow>
     (\<forall>r \<in> set rs. chat r \<longrightarrow> (r_status r \<in> set TERMINAL \<longrightarrow> terminal_key (r_run_id r) (r_status r) \<in> set keys)
        \<and> (r_status r = Succeeded \<longrightarrow> retain_key (r_run_id r) \<in> set keys))
     \<and> (\<forall>k \<in> set keys. is_terminal_key k \<longrightarrow>
          (\<exists>r \<in> set rs. chat r \<and> r_status r \<in> set TERMINAL \<and> k = terminal_key (r_run_id r) (r_status r)))
     \<and> (\<forall>k \<in> set keys. is_retain_key k \<longrightarrow>
          (\<exists>r \<in> set rs. chat r \<and> r_status r = Succeeded \<and> k = retain_key (r_run_id r)))"

definition start_key :: "uuid \<Rightarrow> string" where
  "start_key run = ''start-run:'' @ run"

definition waiting_start :: "uuid \<Rightarrow> outbox_row \<Rightarrow> bool" where
  "waiting_start run e \<longleftrightarrow> ob_business_key e = start_key run \<and> ob_status e \<in> {Outbox_Pending, Processing}"

definition starts_ok :: "run_row list \<Rightarrow> outbox_row list \<Rightarrow> workflow_row list \<Rightarrow> bool" where
  "starts_ok rs es ws \<longleftrightarrow>
     (\<forall>r \<in> set rs. chat r \<longrightarrow> r_status r = Queued \<longrightarrow>
        list_ex (waiting_start (r_run_id r)) es \<or> list_ex (\<lambda>w. wx_run_id w = r_run_id r) ws)"

definition starts_known :: "run_row list \<Rightarrow> string list \<Rightarrow> bool" where
  "starts_known rs keys \<longleftrightarrow> (\<forall>k \<in> set keys. is_start_key k \<longrightarrow> drop 10 k \<in> set (map r_run_id rs))"

definition event_shape :: "outbox_row \<Rightarrow> bool" where
  "event_shape e \<longleftrightarrow> (is_start_key (ob_business_key e) \<longleftrightarrow> ob_event_type e = ''start_run'')
     \<and> (ob_event_type e = ''start_run'' \<longrightarrow> ob_run_id e = Some (drop 10 (ob_business_key e)))
     \<and> (ob_status e = Processing \<longleftrightarrow> ob_locked_by e \<noteq> None)"

definition events_ok :: "outbox_row list \<Rightarrow> bool" where
  "events_ok es \<longleftrightarrow> distinct (map ob_business_key es) \<and> distinct (map ob_event_id es) \<and> (\<forall>e \<in> set es. event_shape e)"

definition workflow_shape :: "run_row list \<Rightarrow> (uuid \<Rightarrow> chat_run_row option) \<Rightarrow> uuid \<Rightarrow> bool \<Rightarrow> string \<Rightarrow> bool" where
  "workflow_shape rs inputs run cur wid \<longleftrightarrow> cur \<and> run \<in> set (map r_run_id rs)
     \<and> (case inputs run of None \<Rightarrow> False | Some c \<Rightarrow> wid = cr_workflow_id c)"

definition workflows_ok :: "run_row list \<Rightarrow> (uuid \<Rightarrow> chat_run_row option) \<Rightarrow> workflow_row list \<Rightarrow> bool" where
  "workflows_ok rs inputs ws \<longleftrightarrow> distinct (map wx_run_id ws)
     \<and> (\<forall>w \<in> set ws. workflow_shape rs inputs (wx_run_id w) (wx_is_current w) (wx_workflow_id w))"

definition chat_inv :: "'a chat_db_scheme \<Rightarrow> bool" where
  "chat_inv s \<longleftrightarrow> runs_ok (runs s) (chat_runs s) \<and> replies_ok (runs s) (messages s)
     \<and> ends_ok (runs s) (map ob_business_key (outbox s)) \<and> starts_known (runs s) (map ob_business_key (outbox s))
     \<and> events_ok (outbox s)
     \<and> starts_ok (runs s) (outbox s) (workflow_rows s) \<and> workflows_ok (runs s) (chat_runs s) (workflow_rows s)"

lemmas chat_inv_simps = chat_inv_def runs_ok_def replies_ok_def ends_ok_def starts_known_def events_ok_def
  event_shape_def starts_ok_def workflows_ok_def workflow_shape_def

section \<open>Keys\<close>

lemma status_text_no_colon: "CHR '':'' \<notin> set (status_text st)"
  by (cases st) (simp_all add: status_text_def)

lemma status_text_inject: "st \<in> set TERMINAL \<Longrightarrow> st' \<in> set TERMINAL \<Longrightarrow> status_text st = status_text st' \<Longrightarrow> st = st'"
  unfolding TERMINAL_def by (auto simp: status_text_def)

lemma after_last_colon:
  "CHR '':'' \<notin> set ys \<Longrightarrow> takeWhile (\<lambda>c. c \<noteq> CHR '':'') (rev (xs @ CHR '':'' # ys)) = rev ys"
  by (induction ys rule: rev_induct) auto

lemma last_colon:
  assumes "xs @ CHR '':'' # ys = xs' @ CHR '':'' # ys'" "CHR '':'' \<notin> set ys" "CHR '':'' \<notin> set ys'"
  shows "xs = xs' \<and> ys = ys'"
proof -
  have "rev ys = rev ys'" using after_last_colon [OF assms(2), of xs] after_last_colon [OF assms(3), of xs'] assms(1) by simp
  with assms(1) show ?thesis by simp
qed

lemma terminal_key_inject:
  assumes "terminal_key a st = terminal_key b st'" "st \<in> set TERMINAL" "st' \<in> set TERMINAL"
  shows "a = b \<and> st = st'"
proof -
  have "a @ CHR '':'' # status_text st = b @ CHR '':'' # status_text st'"
    using assms(1) by (simp add: terminal_key_def)
  from last_colon [OF this status_text_no_colon status_text_no_colon] status_text_inject [OF assms(2,3)]
  show ?thesis by simp
qed

lemma retain_key_inject: "retain_key a = retain_key b \<longleftrightarrow> a = b"
  by (simp add: retain_key_def)

lemma key_kinds [simp]:
  "is_terminal_key (terminal_key run st)" "\<not> is_retain_key (terminal_key run st)" "\<not> is_start_key (terminal_key run st)"
  "is_retain_key (retain_key run)" "\<not> is_terminal_key (retain_key run)" "\<not> is_start_key (retain_key run)"
  "is_start_key (start_key run)" "\<not> is_terminal_key (start_key run)" "\<not> is_retain_key (start_key run)"
  by (simp_all add: is_terminal_key_def is_retain_key_def is_start_key_def terminal_key_def retain_key_def start_key_def)

text \<open>The keys of the other events the commands enqueue.\<close>

definition plain_key :: "string \<Rightarrow> bool" where
  "plain_key k \<longleftrightarrow> \<not> is_terminal_key k \<and> \<not> is_retain_key k"

lemma plain_keys [simp]:
  "event_key run ''start_run'' = start_key run"
  "plain_key (start_key run)" "plain_key (event_key run ''cancel_run'')" "\<not> is_start_key (event_key run ''cancel_run'')"
  "plain_key (''file-approval:'' @ a)" "\<not> is_start_key (''file-approval:'' @ a)"
  by (simp_all add: plain_key_def is_terminal_key_def is_retain_key_def is_start_key_def event_key_def start_key_def)

lemma terminals: "st \<in> set TERMINAL \<longleftrightarrow> st \<in> {Succeeded, Failed, Cancelled}" "st \<in> set ACTIVE \<longleftrightarrow> st \<in> {Queued, Running, Cancelling}"
  by (auto simp: TERMINAL_def ACTIVE_def)

lemma active_not_terminal: "st \<in> set ACTIVE \<longleftrightarrow> st \<notin> set TERMINAL"
  by (cases st) (auto simp: TERMINAL_def ACTIVE_def)

lemma reply_status_active: "st \<in> set ACTIVE \<Longrightarrow> reply_status st = Msg_Pending"
  by (cases st) (auto simp: ACTIVE_def reply_status_def)

section \<open>A Run moves\<close>

text \<open>\<open>moved_run r r'\<close>: the same Run, which neither ended nor came back.\<close>

definition same_run :: "run_row \<Rightarrow> run_row \<Rightarrow> bool" where
  "same_run r r' \<longleftrightarrow> r_run_id r' = r_run_id r \<and> r_account_id r' = r_account_id r \<and> r_source_kind r' = r_source_kind r
     \<and> r_conversation_id r' = r_conversation_id r"

definition moved_run :: "run_row \<Rightarrow> run_row \<Rightarrow> bool" where
  "moved_run r r' \<longleftrightarrow> same_run r r' \<and> (r_status r' = r_status r
     \<or> r_status r \<in> set ACTIVE \<and> r_status r' \<in> set ACTIVE \<and> run_transition_ok (r_status r) (r_status r'))"

definition moved_runs :: "run_row list \<Rightarrow> run_row list \<Rightarrow> bool" where
  "moved_runs rs rs' \<longleftrightarrow> list_all2 moved_run rs rs'"

lemma moved_run_refl [simp]: "moved_run r r"
  by (simp add: moved_run_def same_run_def)

lemma moved_runs_refl [simp]: "moved_runs rs rs"
  by (simp add: moved_runs_def list_all2_same)

lemma moved_runs_ids: "moved_runs rs rs' \<Longrightarrow> map r_run_id rs' = map r_run_id rs"
  unfolding moved_runs_def by (induction rule: list_all2_induct) (auto simp: moved_run_def same_run_def)

lemma moved_runs_back:
  assumes "moved_runs rs rs'" "r' \<in> set rs'"
  obtains r where "r \<in> set rs" "moved_run r r'"
  using assms unfolding moved_runs_def by (metis in_set_conv_nth list_all2_conv_all_nth)

lemma moved_runs_forth:
  assumes "moved_runs rs rs'" "r \<in> set rs"
  obtains r' where "r' \<in> set rs'" "moved_run r r'"
  using assms unfolding moved_runs_def by (metis in_set_conv_nth list_all2_conv_all_nth)

lemma moved_run_eqs:
  assumes "moved_run r r'"
  shows "r_run_id r' = r_run_id r" "chat r' = chat r" "r_conversation_id r' = r_conversation_id r"
    "reply_status (r_status r') = reply_status (r_status r)" "r_status r' \<in> set ACTIVE \<longleftrightarrow> r_status r \<in> set ACTIVE"
    "r_status r' \<in> set TERMINAL \<longleftrightarrow> r_status r \<in> set TERMINAL" "r_status r' = Succeeded \<longleftrightarrow> r_status r = Succeeded"
    "r_status r' \<in> set TERMINAL \<Longrightarrow> r_status r' = r_status r" "r_status r' = Queued \<Longrightarrow> r_status r = Queued"
proof -
  have s: "same_run r r'" using assms by (simp add: moved_run_def)
  then show "r_run_id r' = r_run_id r" "chat r' = chat r" "r_conversation_id r' = r_conversation_id r"
    by (simp_all add: same_run_def chat_def)
  have t: "(r_status r' \<in> set ACTIVE) = (r_status r \<in> set ACTIVE)" "r_status r \<notin> set ACTIVE \<Longrightarrow> r_status r' = r_status r"
    "r_status r' = Queued \<Longrightarrow> r_status r = Queued"
  proof -
    have d: "r_status r' = r_status r
       \<or> r_status r \<in> set ACTIVE \<and> r_status r' \<in> set ACTIVE \<and> run_transition_ok (r_status r) (r_status r')"
      using assms by (simp add: moved_run_def)
    have "\<not> run_transition_ok st Queued" for st by (cases st) simp_all
    with d show "(r_status r' \<in> set ACTIVE) = (r_status r \<in> set ACTIVE)" "r_status r \<notin> set ACTIVE \<Longrightarrow> r_status r' = r_status r"
      "r_status r' = Queued \<Longrightarrow> r_status r = Queued" by metis+
  qed
  show "r_status r' \<in> set ACTIVE \<longleftrightarrow> r_status r \<in> set ACTIVE" "r_status r' = Queued \<Longrightarrow> r_status r = Queued"
    by (fact t(1), fact t(3))
  show "r_status r' \<in> set TERMINAL \<longleftrightarrow> r_status r \<in> set TERMINAL"
    using t(1) by (simp only: active_not_terminal simp_thms)
  show "r_status r' = r_status r" if "r_status r' \<in> set TERMINAL"
    by (rule t(2)) (use that t(1) in \<open>simp only: active_not_terminal simp_thms\<close>)
  show "reply_status (r_status r') = reply_status (r_status r)"
    using t(1,2) reply_status_active by metis
  show "r_status r' = Succeeded \<longleftrightarrow> r_status r = Succeeded"
  proof -
    have "Succeeded \<notin> set ACTIVE" by (simp add: ACTIVE_def)
    with t(1,2) show ?thesis by metis
  qed
qed

lemma runs_ok_moved:
  assumes m: "moved_runs rs rs'" and ok: "runs_ok rs inputs"
  shows "runs_ok rs' inputs"
  unfolding runs_ok_def
proof (intro conjI ballI impI)
  show "distinct (map r_run_id rs')" using ok moved_runs_ids [OF m] by (simp add: runs_ok_def)
next
  fix r' assume r': "r' \<in> set rs'" "chat r'"
  obtain r where r: "r \<in> set rs" "moved_run r r'" using moved_runs_back [OF m r'(1)] .
  from ok r(1) r'(2) show "named_workflow inputs (r_run_id r')"
    unfolding moved_run_eqs(1,2) [OF r(2)] runs_ok_def by blast
next
  fix a' b' assume h: "a' \<in> set rs'" "b' \<in> set rs'" "chat a'" "chat b'" "r_status a' \<in> set ACTIVE"
    "r_status b' \<in> set ACTIVE" "r_conversation_id a' = r_conversation_id b'"
  obtain a where a: "a \<in> set rs" "moved_run a a'" using moved_runs_back [OF m h(1)] .
  obtain b where b: "b \<in> set rs" "moved_run b b'" using moved_runs_back [OF m h(2)] .
  from ok a(1) b(1) h(3-7) show "r_run_id a' = r_run_id b'"
    unfolding moved_run_eqs(1-3,5) [OF a(2)] moved_run_eqs(1-3,5) [OF b(2)] runs_ok_def by blast
qed

lemma replies_ok_moved:
  assumes m: "moved_runs rs rs'" and ok: "replies_ok rs ms"
  shows "replies_ok rs' ms"
  unfolding replies_ok_def
proof (intro ballI impI)
  fix r' assume r': "r' \<in> set rs'" "chat r'"
  obtain r where r: "r \<in> set rs" "moved_run r r'" using moved_runs_back [OF m r'(1)] .
  from ok r(1) r'(2) show "map mg_status (replies_of (r_run_id r') ms) = [reply_status (r_status r')]"
    unfolding moved_run_eqs(1,2,4) [OF r(2)] replies_ok_def by blast
qed

lemma ends_ok_moved:
  assumes "moved_runs rs rs'" "ends_ok rs ks"
  shows "ends_ok rs' ks"
  unfolding ends_ok_def
proof (intro conjI ballI impI)
  fix r' assume r': "r' \<in> set rs'" "chat r'"
  obtain r where r: "r \<in> set rs" "moved_run r r'" using moved_runs_back [OF assms(1) r'(1)] .
  note e = moved_run_eqs [OF r(2)]
  have "(r_status r \<in> set TERMINAL \<longrightarrow> terminal_key (r_run_id r) (r_status r) \<in> set ks)
     \<and> (r_status r = Succeeded \<longrightarrow> retain_key (r_run_id r) \<in> set ks)"
    using assms(2) r(1) r'(2) unfolding ends_ok_def e(2) by blast
  note here = this
  show "terminal_key (r_run_id r') (r_status r') \<in> set ks" if "r_status r' \<in> set TERMINAL"
    using here that e(6) e(8) [OF that] by (simp only: e(1))
  show "retain_key (r_run_id r') \<in> set ks" if "r_status r' = Succeeded"
    using here that by (simp only: e(1,7))
next
  fix k assume k: "k \<in> set ks" "is_terminal_key k"
  with assms(2) obtain r where r: "r \<in> set rs" "chat r" "r_status r \<in> set TERMINAL" "k = terminal_key (r_run_id r) (r_status r)"
    unfolding ends_ok_def by metis
  obtain r' where r': "r' \<in> set rs'" "moved_run r r'" using moved_runs_forth [OF assms(1) r(1)] .
  note e = moved_run_eqs [OF r'(2)]
  have "r_status r' = r_status r" using e(6,8) r(3) by blast
  with r e(1,2) r'(1) show "\<exists>r \<in> set rs'. chat r \<and> r_status r \<in> set TERMINAL \<and> k = terminal_key (r_run_id r) (r_status r)"
    by metis
next
  fix k assume k: "k \<in> set ks" "is_retain_key k"
  with assms(2) obtain r where r: "r \<in> set rs" "chat r" "r_status r = Succeeded" "k = retain_key (r_run_id r)"
    unfolding ends_ok_def by metis
  obtain r' where r': "r' \<in> set rs'" "moved_run r r'" using moved_runs_forth [OF assms(1) r(1)] .
  from r r'(1) moved_run_eqs(1,2,7) [OF r'(2)] show "\<exists>r \<in> set rs'. chat r \<and> r_status r = Succeeded \<and> k = retain_key (r_run_id r)"
    by metis
qed

lemma starts_ok_moved:
  assumes m: "moved_runs rs rs'" and ok: "starts_ok rs es ws"
  shows "starts_ok rs' es ws"
  unfolding starts_ok_def
proof (intro ballI impI)
  fix r' assume r': "r' \<in> set rs'" "chat r'" "r_status r' = Queued"
  obtain r where r: "r \<in> set rs" "moved_run r r'" using moved_runs_back [OF m r'(1)] .
  from ok r(1) r'(2) moved_run_eqs(9) [OF r(2) r'(3)]
  show "list_ex (waiting_start (r_run_id r')) es \<or> list_ex (\<lambda>w. wx_run_id w = r_run_id r') ws"
    unfolding moved_run_eqs(1,2) [OF r(2)] starts_ok_def by blast
qed

lemma workflows_ok_ids:
  "map r_run_id rs' = map r_run_id rs \<Longrightarrow> workflows_ok rs inputs ws \<Longrightarrow> workflows_ok rs' inputs ws"
  by (simp only: workflows_ok_def workflow_shape_def simp_thms) blast

lemma workflows_ok_moved: "moved_runs rs rs' \<Longrightarrow> workflows_ok rs inputs ws \<Longrightarrow> workflows_ok rs' inputs ws"
  by (erule workflows_ok_ids [OF moved_runs_ids])

lemma starts_known_ids: "map r_run_id rs' = map r_run_id rs \<Longrightarrow> starts_known rs ks \<Longrightarrow> starts_known rs' ks"
  by (simp add: starts_known_def)

lemmas ok_moved = runs_ok_moved replies_ok_moved ends_ok_moved starts_ok_moved workflows_ok_moved

section \<open>A Run ends\<close>

definition ended_run :: "uuid \<Rightarrow> status \<Rightarrow> run_row \<Rightarrow> run_row \<Rightarrow> bool" where
  "ended_run run st r r' \<longleftrightarrow> (if r_run_id r = run then same_run r r' \<and> r_status r' = st else r' = r)"

definition ended_runs :: "uuid \<Rightarrow> status \<Rightarrow> run_row list \<Rightarrow> run_row list \<Rightarrow> bool" where
  "ended_runs run st rs rs' \<longleftrightarrow> st \<in> set TERMINAL \<and> list_all2 (ended_run run st) rs rs'
     \<and> (\<exists>r \<in> set rs. r_run_id r = run)
     \<and> (\<forall>r \<in> set rs. r_run_id r = run \<longrightarrow> chat r \<and> r_status r \<in> set ACTIVE)"

lemma ended_run_eqs:
  assumes "ended_run run st r r'"
  shows "r_run_id r' = r_run_id r" "chat r' = chat r" "r_conversation_id r' = r_conversation_id r"
    "r_run_id r = run \<Longrightarrow> r_status r' = st" "r_run_id r \<noteq> run \<Longrightarrow> r' = r"
  using assms by (auto simp: ended_run_def same_run_def chat_def split: if_splits)

lemma ended_runs_back:
  assumes "ended_runs run st rs rs'" "r' \<in> set rs'"
  obtains r where "r \<in> set rs" "ended_run run st r r'"
  using assms unfolding ended_runs_def by (metis in_set_conv_nth list_all2_conv_all_nth)

lemma ended_runs_forth:
  assumes "ended_runs run st rs rs'" "r \<in> set rs"
  obtains r' where "r' \<in> set rs'" "ended_run run st r r'"
  using assms unfolding ended_runs_def by (metis in_set_conv_nth list_all2_conv_all_nth)

lemma ended_runs_ids:
  assumes "ended_runs run st rs rs'"
  shows "map r_run_id rs' = map r_run_id rs"
proof -
  have "list_all2 (ended_run run st) rs rs'" using assms by (simp add: ended_runs_def)
  then show ?thesis by (induction rule: list_all2_induct) (simp_all add: ended_run_eqs)
qed

lemma ended_runs_facts:
  assumes "ended_runs run st rs rs'"
  shows "st \<in> set TERMINAL" "st \<notin> set ACTIVE" "r \<in> set rs \<Longrightarrow> r_run_id r = run \<Longrightarrow> chat r"
    "r \<in> set rs \<Longrightarrow> r_run_id r = run \<Longrightarrow> r_status r \<in> set ACTIVE"
  using assms active_not_terminal by (auto simp: ended_runs_def)

lemma runs_ok_ended:
  assumes m: "ended_runs run st rs rs'" and ok: "runs_ok rs inputs"
  shows "runs_ok rs' inputs"
  unfolding runs_ok_def
proof (intro conjI ballI impI)
  show "distinct (map r_run_id rs')" using ok ended_runs_ids [OF m] by (simp add: runs_ok_def)
next
  fix r' assume r': "r' \<in> set rs'" "chat r'"
  obtain r where r: "r \<in> set rs" "ended_run run st r r'" using ended_runs_back [OF m r'(1)] .
  from ok r(1) r'(2) show "named_workflow inputs (r_run_id r')"
    unfolding ended_run_eqs(1,2) [OF r(2)] runs_ok_def by blast
next
  fix a' b' assume h: "a' \<in> set rs'" "b' \<in> set rs'" "chat a'" "chat b'" "r_status a' \<in> set ACTIVE"
    "r_status b' \<in> set ACTIVE" "r_conversation_id a' = r_conversation_id b'"
  have still: "r' \<in> set rs" if "r' \<in> set rs'" "r_status r' \<in> set ACTIVE" for r'
    using ended_runs_back [OF m that(1)] ended_run_eqs(4,5) ended_runs_facts(2) [OF m] that(2) by metis
  from ok still [OF h(1,5)] still [OF h(2,6)] h(3-7) show "r_run_id a' = r_run_id b'"
    unfolding runs_ok_def by blast
qed

definition closed_replies :: "uuid \<Rightarrow> message_status \<Rightarrow> string option \<Rightarrow> int \<Rightarrow> message_row list \<Rightarrow> message_row list" where
  "closed_replies run st content now ms = update_where (pending_reply run) (close_message st content now) ms"

lemma closed_replies_other:
  "x \<noteq> run \<Longrightarrow> replies_of x (closed_replies run st content now ms) = replies_of x ms"
  by (induction ms) (simp_all add: replies_of_def closed_replies_def pending_reply_def close_message_def)

lemma closed_replies_own:
  assumes "map mg_status (replies_of run ms) = [Msg_Pending]"
  shows "map mg_status (replies_of run (closed_replies run st content now ms)) = [st]"
proof -
  have "map mg_status (replies_of run (closed_replies run st content now l))
      = map (\<lambda>x. if x = Msg_Pending then st else x) (map mg_status (replies_of run l))" for l
    by (induction l) (simp_all add: replies_of_def closed_replies_def pending_reply_def close_message_def)
  then show ?thesis using assms by (simp del: map_map)
qed

lemma replies_ok_ended:
  assumes m: "ended_runs run st rs rs'" and ok: "replies_ok rs ms"
  shows "replies_ok rs' (closed_replies run (reply_status st) content now ms)"
  unfolding replies_ok_def
proof (intro ballI impI)
  fix r' assume r': "r' \<in> set rs'" "chat r'"
  obtain r where r: "r \<in> set rs" "ended_run run st r r'" using ended_runs_back [OF m r'(1)] .
  note e = ended_run_eqs [OF r(2)]
  have old: "map mg_status (replies_of (r_run_id r) ms) = [reply_status (r_status r)]"
    using ok r(1) r'(2) unfolding replies_ok_def e(2) by blast
  show "map mg_status (replies_of (r_run_id r') (closed_replies run (reply_status st) content now ms)) = [reply_status (r_status r')]"
  proof (cases "r_run_id r = run")
    case True
    with old reply_status_active [OF ended_runs_facts(4) [OF m r(1) True]]
    have "map mg_status (replies_of run ms) = [Msg_Pending]" by simp
    from closed_replies_own [OF this] True e(1,4) show ?thesis by simp
  next
    case False
    with old e(5) show ?thesis by (simp add: closed_replies_other)
  qed
qed

text \<open>The events of the end: the keys that are added to the outbox.\<close>

definition end_keys :: "uuid \<Rightarrow> status \<Rightarrow> string set" where
  "end_keys run st = {terminal_key run st} \<union> (if st = Succeeded then {retain_key run} else {})"

lemma ends_ok_ended:
  assumes m: "ended_runs run st rs rs'" and ok: "ends_ok rs ks" and keys: "set ks' = set ks \<union> end_keys run st"
  shows "ends_ok rs' ks'"
  unfolding ends_ok_def
proof (intro conjI ballI impI)
  fix r' assume r': "r' \<in> set rs'" "chat r'"
  obtain r where r: "r \<in> set rs" "ended_run run st r r'" using ended_runs_back [OF m r'(1)] .
  note e = ended_run_eqs [OF r(2)]
  have old: "(r_status r \<in> set TERMINAL \<longrightarrow> terminal_key (r_run_id r) (r_status r) \<in> set ks)
     \<and> (r_status r = Succeeded \<longrightarrow> retain_key (r_run_id r) \<in> set ks)"
    using ok r(1) r'(2) unfolding ends_ok_def e(2) by blast
  show "terminal_key (r_run_id r') (r_status r') \<in> set ks'" if "r_status r' \<in> set TERMINAL"
    by (cases "r_run_id r = run") (use old that e keys in \<open>auto simp: end_keys_def\<close>)
  show "retain_key (r_run_id r') \<in> set ks'" if "r_status r' = Succeeded"
    by (cases "r_run_id r = run") (use old that e keys in \<open>auto simp: end_keys_def\<close>)
next
  obtain r where r: "r \<in> set rs" "r_run_id r = run" using m by (auto simp: ended_runs_def)
  obtain r' where r': "r' \<in> set rs'" "ended_run run st r r'" using ended_runs_forth [OF m r(1)] .
  note e = ended_run_eqs [OF r'(2)]
  have end': "r_run_id r' = run" "chat r'" "r_status r' = st" using e(1,2,4) r ended_runs_facts(3) [OF m r] by auto
  have other: "\<exists>x' \<in> set rs'. chat x' \<and> r_status x' = r_status x \<and> r_run_id x' = r_run_id x"
    if hx: "x \<in> set rs" "chat x" "r_status x \<in> set TERMINAL" for x
  proof -
    obtain x' where x': "x' \<in> set rs'" "ended_run run st x x'" using ended_runs_forth [OF m hx(1)] .
    have "r_run_id x \<noteq> run" using ended_runs_facts(4) [OF m hx(1)] hx(3) by (auto simp: active_not_terminal)
    with ended_run_eqs(5) [OF x'(2)] x'(1) hx show ?thesis by auto
  qed
  fix k assume k: "k \<in> set ks'"
  show "\<exists>x \<in> set rs'. chat x \<and> r_status x \<in> set TERMINAL \<and> k = terminal_key (r_run_id x) (r_status x)" if t: "is_terminal_key k"
  proof (cases "k \<in> set ks")
    case True
    with ok t obtain x where "x \<in> set rs" "chat x" "r_status x \<in> set TERMINAL" "k = terminal_key (r_run_id x) (r_status x)"
      unfolding ends_ok_def by blast
    with other [of x] show ?thesis by metis
  next
    case False
    with k keys have "k \<in> end_keys run st" by blast
    with t have "k = terminal_key run st" by (auto simp: end_keys_def split: if_splits)
    with r'(1) end' ended_runs_facts(1) [OF m] show ?thesis by metis
  qed
  show "\<exists>x \<in> set rs'. chat x \<and> r_status x = Succeeded \<and> k = retain_key (r_run_id x)" if t: "is_retain_key k"
  proof (cases "k \<in> set ks")
    case True
    with ok t obtain x where "x \<in> set rs" "chat x" "r_status x = Succeeded" "k = retain_key (r_run_id x)"
      unfolding ends_ok_def by blast
    with other [of x] show ?thesis by (simp add: TERMINAL_def) metis
  next
    case False
    with k keys have "k \<in> end_keys run st" by blast
    with t have "k = retain_key run" "st = Succeeded" by (auto simp: end_keys_def split: if_splits)
    with r'(1) end' show ?thesis by metis
  qed
qed

lemma starts_ok_ended:
  assumes m: "ended_runs run st rs rs'" and ok: "starts_ok rs es ws"
  shows "starts_ok rs' es ws"
  unfolding starts_ok_def
proof (intro ballI impI)
  fix r' assume r': "r' \<in> set rs'" "chat r'" "r_status r' = Queued"
  obtain r where r: "r \<in> set rs" "ended_run run st r r'" using ended_runs_back [OF m r'(1)] .
  have "st \<noteq> Queued" using ended_runs_facts(1) [OF m] by (auto simp: TERMINAL_def)
  with ended_run_eqs(4,5) [OF r(2)] r'(3) have "r' = r" by blast
  with ok r(1) r' show "list_ex (waiting_start (r_run_id r')) es \<or> list_ex (\<lambda>w. wx_run_id w = r_run_id r') ws"
    unfolding starts_ok_def by blast
qed

section \<open>Events\<close>

definition plain_event :: "outbox_row \<Rightarrow> bool" where
  "plain_event e \<longleftrightarrow> ob_status e = Outbox_Pending \<and> event_shape e"

text \<open>What an \<open>enqueue\<close> does to the outbox: nothing, or one more pending event with a new key.\<close>

lemma outbox_enqueue_cases:
  assumes "outbox_enqueue ev acc ty key conv run payload now s = Inr s'"
  obtains (Known) "key \<in> set (map ob_business_key (outbox s))" "s' = s"
  | (New) e where "key \<notin> set (map ob_business_key (outbox s))" "s' = s\<lparr>outbox := outbox s @ [e]\<rparr>"
      "ob_business_key e = key" "ob_event_type e = ty" "ob_run_id e = run" "ob_account_id e = acc"
      "ob_status e = Outbox_Pending" "ob_locked_by e = None" "ob_event_id e \<notin> set (map ob_event_id (outbox s))"
      "ob_payload e = payload"
proof (cases "list_ex (\<lambda>e. ob_business_key e = key) (outbox s)")
  case True
  then have "key \<in> set (map ob_business_key (outbox s))" "s' = s"
    using assms by (auto simp: outbox_enqueue_def list_ex_iff)
  then show ?thesis by (rule Known)
next
  case False
  let ?e = "\<lparr>ob_event_id = ev, ob_account_id = acc, ob_event_type = ty, ob_business_key = key,
            ob_conversation_id = conv, ob_run_id = run, ob_payload = payload, ob_status = Outbox_Pending,
            ob_attempt_count = 0, ob_available_at = now, ob_locked_at = None, ob_locked_by = None,
            ob_last_error_code = None, ob_last_error_message = None, ob_processed_at = None,
            ob_created_at = now\<rparr>"
  from False have 1: "key \<notin> set (map ob_business_key (outbox s))" by (auto simp: list_ex_iff)
  from assms False have 2: "\<not> list_ex (\<lambda>e. ob_event_id e = ev) (outbox s)" "s' = s\<lparr>outbox := outbox s @ [?e]\<rparr>"
    by (simp_all add: outbox_enqueue_def res_simps)
  from 2(1) have 3: "ev \<notin> set (map ob_event_id (outbox s))" by (auto simp: list_ex_iff)
  show ?thesis by (rule New [OF 1 2(2)]) (use 3 in simp_all)
qed

lemma events_ok_append:
  assumes "events_ok es" "plain_event e" "ob_business_key e \<notin> set (map ob_business_key es)"
    "ob_event_id e \<notin> set (map ob_event_id es)"
  shows "events_ok (es @ [e])"
  using assms unfolding events_ok_def plain_event_def by auto

lemma ends_ok_plain: "ends_ok rs ks \<Longrightarrow> plain_key k \<Longrightarrow> ends_ok rs (ks @ [k])"
  unfolding ends_ok_def plain_key_def by auto

lemma starts_ok_append: "starts_ok rs es ws \<Longrightarrow> starts_ok rs (es @ [e]) ws"
  unfolding starts_ok_def by auto

text \<open>An event changes hands: its key, type and Run stay. A start event may leave the queue only when its
  Run is not queued or has a Workflow.\<close>

definition same_event :: "outbox_row \<Rightarrow> outbox_row \<Rightarrow> bool" where
  "same_event e e' \<longleftrightarrow> ob_event_id e' = ob_event_id e \<and> ob_business_key e' = ob_business_key e
     \<and> ob_event_type e' = ob_event_type e \<and> ob_run_id e' = ob_run_id e \<and> ob_account_id e' = ob_account_id e
     \<and> (ob_status e' = Processing \<longleftrightarrow> ob_locked_by e' \<noteq> None)"

definition started :: "run_row list \<Rightarrow> workflow_row list \<Rightarrow> uuid \<Rightarrow> bool" where
  "started rs ws run \<longleftrightarrow> list_ex (\<lambda>w. wx_run_id w = run) ws
     \<or> (\<forall>r \<in> set rs. r_run_id r = run \<longrightarrow> r_status r \<noteq> Queued)"

definition handed_over :: "run_row list \<Rightarrow> workflow_row list \<Rightarrow> outbox_row \<Rightarrow> outbox_row \<Rightarrow> bool" where
  "handed_over rs ws e e' \<longleftrightarrow> e' = e \<or> same_event e e' \<and> ob_status e \<in> {Outbox_Pending, Processing} \<and>
     (ob_event_type e = ''start_run'' \<longrightarrow> ob_status e' \<in> {Outbox_Pending, Processing}
        \<or> (\<forall>run. ob_run_id e = Some run \<longrightarrow> started rs ws run))"

lemma handed_over_update:
  assumes "\<And>e. e \<in> set es \<Longrightarrow> P e \<Longrightarrow> handed_over rs ws e (f e)"
  shows "list_all2 (handed_over rs ws) es (update_where P f es)"
  using assms by (simp add: list_all2_conv_all_nth update_where_def handed_over_def)

lemma handed_over_keys:
  assumes "list_all2 (handed_over rs ws) es es'"
  shows "map ob_business_key es' = map ob_business_key es" "map ob_event_id es' = map ob_event_id es"
  using assms by (induction rule: list_all2_induct) (auto simp: handed_over_def same_event_def)

lemma events_ok_handed:
  assumes h: "list_all2 (handed_over rs ws) es es'" and ok: "events_ok es"
  shows "events_ok es'"
  unfolding events_ok_def
proof (intro conjI ballI)
  show "distinct (map ob_business_key es')" "distinct (map ob_event_id es')"
    using ok by (simp_all add: handed_over_keys [OF h] events_ok_def)
  fix e' assume "e' \<in> set es'"
  then obtain e where e: "e \<in> set es" "handed_over rs ws e e'"
    using h by (metis in_set_conv_nth list_all2_conv_all_nth)
  have "event_shape e" using ok e(1) by (simp add: events_ok_def)
  with e(2) show "event_shape e'" unfolding handed_over_def same_event_def event_shape_def by metis
qed

lemma starts_ok_handed:
  assumes h: "list_all2 (handed_over rs ws) es es'" and ok: "starts_ok rs es ws" and ev: "events_ok es"
  shows "starts_ok rs es' ws"
  unfolding starts_ok_def
proof (intro ballI impI)
  fix r assume r: "r \<in> set rs" "chat r" "r_status r = Queued"
  show "list_ex (waiting_start (r_run_id r)) es' \<or> list_ex (\<lambda>w. wx_run_id w = r_run_id r) ws"
  proof (cases "list_ex (waiting_start (r_run_id r)) es")
    case True
    then obtain e where e: "e \<in> set es" "waiting_start (r_run_id r) e" by (auto simp: list_ex_iff)
    then obtain e' where e': "e' \<in> set es'" "handed_over rs ws e e'"
      using h by (metis in_set_conv_nth list_all2_conv_all_nth)
    have k: "ob_business_key e = start_key (r_run_id r)" using e(2) by (simp add: waiting_start_def)
    have "event_shape e" using ev e(1) by (simp add: events_ok_def)
    with k have t: "ob_event_type e = ''start_run''" "ob_run_id e = Some (r_run_id r)"
      using key_kinds(7) unfolding event_shape_def by (simp_all add: start_key_def)
    from e'(2) consider "e' = e" | "same_event e e'" "ob_status e' \<in> {Outbox_Pending, Processing}"
      | "started rs ws (r_run_id r)"
      unfolding handed_over_def using t by blast
    then show ?thesis
    proof cases
      case 1
      with e(2) e'(1) show ?thesis by (auto simp: list_ex_iff)
    next
      case 2
      with k have "waiting_start (r_run_id r) e'" by (simp add: waiting_start_def same_event_def)
      with e'(1) show ?thesis by (auto simp: list_ex_iff)
    next
      case 3
      with r show ?thesis by (auto simp: started_def)
    qed
  next
    case False
    with ok r show ?thesis by (auto simp: starts_ok_def)
  qed
qed

section \<open>Workflow facts\<close>

definition same_workflows :: "workflow_row list \<Rightarrow> workflow_row list \<Rightarrow> bool" where
  "same_workflows ws ws' \<longleftrightarrow> map (\<lambda>w. (wx_run_id w, wx_is_current w, wx_workflow_id w)) ws'
     = map (\<lambda>w. (wx_run_id w, wx_is_current w, wx_workflow_id w)) ws"

lemma same_workflows_runs: "same_workflows ws ws' \<Longrightarrow> map wx_run_id ws' = map wx_run_id ws"
  unfolding same_workflows_def by (drule arg_cong [of _ _ "map fst"]) (simp add: comp_def)

lemma same_workflows_update:
  "(\<And>w. wx_run_id (f w) = wx_run_id w \<and> wx_is_current (f w) = wx_is_current w \<and> wx_workflow_id (f w) = wx_workflow_id w)
   \<Longrightarrow> same_workflows (workflow_rows s) (workflow_rows (update_current run sts f s))"
  unfolding same_workflows_def update_current_def by (simp add: map_update_where)

lemma workflows_ok_same:
  assumes "same_workflows ws ws'" "workflows_ok rs inputs ws"
  shows "workflows_ok rs inputs ws'"
proof -
  have "workflow_shape rs inputs (wx_run_id w) (wx_is_current w) (wx_workflow_id w)" if "w \<in> set ws'" for w
  proof -
    have "(wx_run_id w, wx_is_current w, wx_workflow_id w) \<in> set (map (\<lambda>w. (wx_run_id w, wx_is_current w, wx_workflow_id w)) ws)"
      unfolding assms(1) [unfolded same_workflows_def, symmetric] using that by simp
    then obtain v where "v \<in> set ws" "wx_run_id w = wx_run_id v" "wx_is_current w = wx_is_current v" "wx_workflow_id w = wx_workflow_id v"
      by auto
    with assms(2) show ?thesis by (simp add: workflows_ok_def)
  qed
  with assms(2) same_workflows_runs [OF assms(1)] show ?thesis by (simp add: workflows_ok_def)
qed

lemma starts_ok_runs:
  assumes ids: "map wx_run_id ws' = map wx_run_id ws @ extra" and ok: "starts_ok rs es ws"
  shows "starts_ok rs es ws'"
proof -
  have ex: "list_ex (\<lambda>w. wx_run_id w = x) l \<longleftrightarrow> x \<in> set (map wx_run_id l)" for x l
    by (induction l) auto
  from ids have "x \<in> set (map wx_run_id ws) \<Longrightarrow> x \<in> set (map wx_run_id ws')" for x by (simp only: set_append Un_iff simp_thms)
  with ok show ?thesis unfolding starts_ok_def ex by metis
qed

lemma starts_ok_workflows: "same_workflows ws ws' \<Longrightarrow> starts_ok rs es ws \<Longrightarrow> starts_ok rs es ws'"
  using starts_ok_runs [of ws' ws "[]"] same_workflows_runs [of ws ws'] by simp

end
