(* ===== verification/Chat_Steps.thy ===== *)
theory Chat_Steps
  imports Chat_Laws
begin

text \<open>
  What the updates of a Run do to the tables of its conversation: moving it, ending it, and the terminal
  transaction with its reply and its events.
\<close>

section \<open>Updates of a Run\<close>

text \<open>An Execution keeps its Run, its role and its account, and is never deleted.\<close>

definition roots_kept :: "'a authority_db_scheme \<Rightarrow> 'a authority_db_scheme \<Rightarrow> bool" where
  "roots_kept s s' \<longleftrightarrow> (\<forall>e \<in> set (executions s). \<exists>e' \<in> set (executions s').
     e_run_id e' = e_run_id e \<and> e_role e' = e_role e \<and> e_account_id e' = e_account_id e)"

lemma roots_kept_same [simp]: "executions s' = executions s \<Longrightarrow> roots_kept s s'"
  by (auto simp: roots_kept_def)

lemma roots_kept_trans: "roots_kept s s' \<Longrightarrow> roots_kept s' s'' \<Longrightarrow> roots_kept s s''"
  unfolding roots_kept_def by metis

lemma roots_kept_update:
  assumes "executions s' = update_where P f (executions s)"
    and "\<And>e. e_run_id (f e) = e_run_id e \<and> e_role (f e) = e_role e \<and> e_account_id (f e) = e_account_id e"
  shows "roots_kept s s'"
  unfolding roots_kept_def assms(1)
proof
  fix e assume "e \<in> set (executions s)"
  then have "(if P e then f e else e) \<in> set (update_where P f (executions s))" by (auto simp: update_where_def)
  then show "\<exists>e' \<in> set (update_where P f (executions s)). e_run_id e' = e_run_id e \<and> e_role e' = e_role e \<and> e_account_id e' = e_account_id e"
    by (rule rev_bexI) (use assms(2) [of e] in simp)
qed

definition same_chat_tables :: "'a chat_db_scheme \<Rightarrow> 'a chat_db_scheme \<Rightarrow> bool" where
  "same_chat_tables s s' \<longleftrightarrow> chat_runs s' = chat_runs s \<and> conversation_rows s' = conversation_rows s
     \<and> messages s' = messages s \<and> outbox s' = outbox s \<and> workflow_rows s' = workflow_rows s
     \<and> commands s' = commands s \<and> control_events s' = control_events s \<and> approval_rows s' = approval_rows s
     \<and> roots_kept s s'"

lemma same_chat_tables_refl [simp]: "same_chat_tables s s"
  by (simp add: same_chat_tables_def)

lemma same_chat_tables_trans: "same_chat_tables s s' \<Longrightarrow> same_chat_tables s' s'' \<Longrightarrow> same_chat_tables s s''"
  by (auto simp: same_chat_tables_def intro: roots_kept_trans)

lemma same_chat_tables_budgets: "same_but_budgets s s' \<Longrightarrow> same_chat_tables s s'"
  unfolding same_chat_tables_def by (simp add: same_but_budgets_chat)

lemma project_execution_status_roots: "roots_kept s (project_execution_status run st s)"
proof -
  let ?s1 = "s\<lparr>executions := update_where (\<lambda>e. e_run_id e = run \<and> e_role e = Root) (\<lambda>e. e\<lparr>e_status := st\<rparr>) (executions s)\<rparr>"
  have 1: "roots_kept s ?s1" by (rule roots_kept_update [where f = "\<lambda>e. e\<lparr>e_status := st\<rparr>"]) simp_all
  show ?thesis
  proof (cases "st \<in> {Cancelling, Succeeded, Failed, Cancelled}")
    case True
    have "roots_kept ?s1 (project_execution_status run st s)"
      by (rule roots_kept_update [where f = "\<lambda>e. e\<lparr>e_status := (if st = Cancelling then Cancelling else Cancelled)\<rparr>"])
        (use True in \<open>simp_all add: project_execution_status_def Let_def\<close>)
    with 1 show ?thesis by (rule roots_kept_trans)
  next
    case False
    then have "project_execution_status run st s = ?s1" by (simp add: project_execution_status_def Let_def)
    with 1 show ?thesis by simp
  qed
qed

lemma project_execution_status_chat:
  "same_chat_tables s (project_execution_status run st s)" "runs (project_execution_status run st s) = runs s"
  using project_execution_status_roots [of s run st]
  by (simp_all add: same_chat_tables_def) (simp_all add: project_execution_status_def Let_def)

lemma run_update_cases:
  assumes "update_run run P f s = Inr s'"
  obtains (Nothing) "s' = s" "\<And>r. r \<in> set (runs s) \<Longrightarrow> r_run_id r = run \<Longrightarrow> \<not> P r"
  | (Updated) r where "find (\<lambda>r. r_run_id r = run \<and> P r) (runs s) = Some r"
      "runs s' = update_where (\<lambda>x. r_run_id x = run \<and> P x) f (runs s)" "same_chat_tables s s'"
      "r_status r \<in> set TERMINAL \<Longrightarrow> f r = r"
      "r_status (f r) = r_status r \<or> run_transition_ok (r_status r) (r_status (f r))"
proof (cases "find (\<lambda>r. r_run_id r = run \<and> P r) (runs s)")
  case None
  have "s' = s" using assms None by (simp add: update_run_def)
  then show ?thesis by (rule Nothing) (use None in \<open>auto simp: find_None_iff\<close>)
next
  case (Some r)
  let ?u = "s\<lparr>runs := update_where (\<lambda>x. r_run_id x = run \<and> P x) f (runs s)\<rparr>"
  from assms Some have *: "\<not> (r_status r \<in> set TERMINAL \<and> f r \<noteq> r)"
    "\<not> (r_status (f r) \<noteq> r_status r \<and> \<not> run_transition_ok (r_status r) (r_status (f r)))"
    "s' = (if r_status (f r) \<noteq> r_status r then project_execution_status run (r_status (f r)) ?u else ?u)"
    by (simp_all add: update_run_def Let_def split: if_splits)
  have "same_chat_tables s ?u" by (simp add: same_chat_tables_def)
  then have "same_chat_tables s s' \<and> runs s' = runs ?u"
    unfolding *(3) using project_execution_status_chat [where s = ?u and run = run and st = "r_status (f r)"] same_chat_tables_trans [of s ?u]
    by (cases "r_status (f r) \<noteq> r_status r") (simp_all only: if_True if_False simp_thms)
  with * show ?thesis by (intro Updated [OF Some]) auto
qed

lemma update_run_moved:
  assumes "update_run run P f s = Inr s'"
    and "\<And>r. r \<in> set (runs s) \<Longrightarrow> r_run_id r = run \<Longrightarrow> P r \<Longrightarrow> moved_run r (f r)"
  shows "moved_runs (runs s) (runs s') \<and> same_chat_tables s s'"
  using assms(1)
proof (cases rule: run_update_cases)
  case (Updated r)
  have "moved_runs (runs s) (runs s')"
    unfolding Updated(2) moved_runs_def using assms(2)
    by (simp add: list_all2_conv_all_nth update_where_def)
  with Updated(3) show ?thesis by blast
qed simp_all

lemma mark_running_moved:
  assumes "mark_running_queued run now s = Inr s'"
  shows "moved_runs (runs s) (runs s') \<and> same_chat_tables s s'"
  using assms [unfolded mark_running_queued_def]
  by (rule update_run_moved) (simp add: moved_run_def same_run_def ACTIVE_def)

lemma set_cancelling_moved:
  assumes "set_cancelling run s = Inr s'"
  shows "moved_runs (runs s) (runs s') \<and> same_chat_tables s s'"
  using assms [unfolded set_cancelling_def]
  by (rule update_run_moved) (auto simp: moved_run_def same_run_def ACTIVE_def)

lemma set_result_terminal_ended:
  assumes "set_result_terminal st code msg result run now s = Inr s'"
    and "st \<in> set TERMINAL" and "r \<in> set (runs s)" "r_run_id r = run" "chat r" "r_status r \<in> set ACTIVE"
    and "distinct (map r_run_id (runs s))"
  shows "ended_runs run st (runs s) (runs s')" "same_chat_tables s s'"
proof -
  have all: "x = r" if "x \<in> set (runs s)" "r_run_id x = run" for x
    using assms(3,4,7) that by (simp add: distinct_map inj_on_def)
  from assms(1) [unfolded set_result_terminal_def] have "ended_runs run st (runs s) (runs s') \<and> same_chat_tables s s'"
  proof (cases rule: run_update_cases)
    case Nothing
    with assms(3,4) show ?thesis by blast
  next
    case (Updated x)
    have "list_all2 (ended_run run st) (runs s) (runs s')"
      unfolding Updated(2) by (simp add: list_all2_conv_all_nth update_where_def ended_run_def same_run_def)
    moreover have "chat x \<and> r_status x \<in> set ACTIVE" if "x \<in> set (runs s)" "r_run_id x = run" for x
      using all [OF that] assms(5,6) by simp
    ultimately show ?thesis using Updated(3) assms(2-4) unfolding ended_runs_def by blast
  qed
  then show "ended_runs run st (runs s) (runs s')" "same_chat_tables s s'" by blast+
qed

section \<open>The terminal transaction\<close>

text \<open>What an end does to the tables of the conversation.\<close>

definition run_ends ::
  "uuid \<Rightarrow> status \<Rightarrow> string option \<Rightarrow> int \<Rightarrow> 'a chat_db_scheme \<Rightarrow> 'a chat_db_scheme \<Rightarrow> bool" where
  "run_ends run st content now s s' \<longleftrightarrow> ended_runs run st (runs s) (runs s')
     \<and> messages s' = closed_replies run (reply_status st) content now (messages s)
     \<and> (\<exists>es. outbox s' = outbox s @ es \<and> list_all plain_event es)
     \<and> set (map ob_business_key (outbox s')) = set (map ob_business_key (outbox s)) \<union> end_keys run st
     \<and> distinct (map ob_business_key (outbox s')) \<and> distinct (map ob_event_id (outbox s'))
     \<and> chat_runs s' = chat_runs s \<and> workflow_rows s' = workflow_rows s \<and> roots_kept s s'"

lemma enqueue_events:
  assumes "outbox_enqueue ev acc ty key conv run payload now s = Inr s'"
    and "distinct (map ob_business_key (outbox s))" "distinct (map ob_event_id (outbox s))"
    and "is_start_key key \<longleftrightarrow> ty = ''start_run''" "ty = ''start_run'' \<Longrightarrow> run = Some (drop 10 key)"
  obtains es where "s' = s\<lparr>outbox := outbox s @ es\<rparr>" "list_all plain_event es"
    "set (map ob_business_key (outbox s')) = insert key (set (map ob_business_key (outbox s)))"
    "distinct (map ob_business_key (outbox s'))" "distinct (map ob_event_id (outbox s'))"
    "\<And>e. e \<in> set es \<Longrightarrow> ob_business_key e = key"
  using assms(1)
proof (cases rule: outbox_enqueue_cases)
  case Known
  then show ?thesis using assms(2,3) by (intro that [of "[]"]) auto
next
  case (New e)
  have "plain_event e" using New(3-8) assms(4,5) by (simp add: plain_event_def event_shape_def)
  with New assms(2,3) show ?thesis by (intro that [of "[e]"]) auto
qed

lemma project_terminal_ends:
  assumes "project_terminal fresh now run st content s = Inr s'" and "events_ok (outbox s)"
  shows "messages s' = closed_replies (r_run_id run) (reply_status st) content now (messages s)"
    "\<exists>es. outbox s' = outbox s @ es \<and> list_all plain_event es"
    "set (map ob_business_key (outbox s')) = set (map ob_business_key (outbox s)) \<union> end_keys (r_run_id run) st"
    "distinct (map ob_business_key (outbox s'))" "distinct (map ob_event_id (outbox s'))"
    "runs s' = runs s" "chat_runs s' = chat_runs s" "workflow_rows s' = workflow_rows s" "executions s' = executions s"
proof -
  let ?keys = "\<lambda>s::'a chat_db_scheme. set (map ob_business_key (outbox s))"
  from assms(1) obtain s1 s2 where
    1: "set_message_terminal (r_run_id run) (reply_status st) content now s = Inr s1" and
    2: "(if st = Succeeded
            then outbox_enqueue (fresh 0) (r_account_id run) ''retain_memory'' (retain_key (r_run_id run))
                   (r_conversation_id run) (Some (r_run_id run))
                   (JObj [(''run_id'', JStr (r_run_id run)), (''version'', JInt 1)]) now s1
            else Inr s1) = Inr s2" and
    3: "outbox_enqueue (fresh 1) (r_account_id run) ''publish_terminal_event'' (terminal_key (r_run_id run) st)
         (r_conversation_id run) (Some (r_run_id run))
         (JObj [(''run_id'', JStr (r_run_id run)), (''version'', JInt 1), (''terminal_status'', JStr (status_text st)),
                (''terminal_event_id'', JStr (fresh 1))]) now s2 = Inr s'"
    unfolding project_terminal_def by (auto simp: res_simps)
  have s1: "s1 = s\<lparr>messages := closed_replies (r_run_id run) (reply_status st) content now (messages s)\<rparr>"
    using 1 by (simp add: set_message_terminal_def closed_replies_def res_simps)
  have d1: "distinct (map ob_business_key (outbox s1))" "distinct (map ob_event_id (outbox s1))"
    using assms(2) by (simp_all add: s1 events_ok_def)
  have "\<exists>es. s2 = s1\<lparr>outbox := outbox s1 @ es\<rparr> \<and> list_all plain_event es
      \<and> ?keys s2 = ?keys s1 \<union> (if st = Succeeded then {retain_key (r_run_id run)} else {})
      \<and> distinct (map ob_business_key (outbox s2)) \<and> distinct (map ob_event_id (outbox s2))"
  proof (cases "st = Succeeded")
    case False
    with 2 d1 show ?thesis by (auto intro!: exI [of _ "[]"])
  next
    case True
    with 2 have "outbox_enqueue (fresh 0) (r_account_id run) ''retain_memory'' (retain_key (r_run_id run))
       (r_conversation_id run) (Some (r_run_id run))
       (JObj [(''run_id'', JStr (r_run_id run)), (''version'', JInt 1)]) now s1 = Inr s2" by simp
    then obtain es where "s2 = s1\<lparr>outbox := outbox s1 @ es\<rparr>" "list_all plain_event es"
      "?keys s2 = insert (retain_key (r_run_id run)) (?keys s1)"
      "distinct (map ob_business_key (outbox s2))" "distinct (map ob_event_id (outbox s2))"
      by (rule enqueue_events [OF _ d1]) simp_all
    with True show ?thesis by auto
  qed
  then obtain es where s2: "s2 = s1\<lparr>outbox := outbox s1 @ es\<rparr>" "list_all plain_event es"
    "?keys s2 = ?keys s1 \<union> (if st = Succeeded then {retain_key (r_run_id run)} else {})"
    and d2: "distinct (map ob_business_key (outbox s2))" "distinct (map ob_event_id (outbox s2))"
    by blast
  obtain es' where s': "s' = s2\<lparr>outbox := outbox s2 @ es'\<rparr>" "list_all plain_event es'"
    "?keys s' = insert (terminal_key (r_run_id run) st) (?keys s2)"
    "distinct (map ob_business_key (outbox s'))" "distinct (map ob_event_id (outbox s'))"
    using 3 by (rule enqueue_events [OF _ d2]) simp_all
  show "messages s' = closed_replies (r_run_id run) (reply_status st) content now (messages s)"
    "runs s' = runs s" "chat_runs s' = chat_runs s" "workflow_rows s' = workflow_rows s" "executions s' = executions s"
    by (simp_all add: s'(1) s2(1) s1)
  show "\<exists>es. outbox s' = outbox s @ es \<and> list_all plain_event es"
    by (rule exI [of _ "es @ es'"]) (simp add: s'(1,2) s2(1,2) s1)
  show "?keys s' = ?keys s \<union> end_keys (r_run_id run) st"
    unfolding s'(3) s2(3) end_keys_def by (auto simp: s1)
  show "distinct (map ob_business_key (outbox s'))" "distinct (map ob_event_id (outbox s'))"
    by (fact s'(4), fact s'(5))
qed

lemma finish_in_uow_cases:
  assumes "finish_in_uow fresh now r st content result code msg s = Inr (b, s')"
    and "chat_inv s" and "r \<in> set (runs s)" and "chat r"
  obtains (Kept) "same_chat_tables s s'" "runs s' = runs s"
      "r_status r \<in> set TERMINAL \<and> b = (r_status r = st) \<or> \<not> b \<and> st = Failed \<and> r_status r = Cancelling"
  | (Ended) "b" "st \<in> set TERMINAL" "r_status r \<in> set ACTIVE" "run_transition_ok (r_status r) st"
      "run_ends (r_run_id r) st content now s s'"
proof (cases "r_status r \<in> set TERMINAL")
  case True
  with assms(1) have "recover_budgets r s = Inr s'" "b = (r_status r = st)"
    by (auto simp: finish_in_uow_def end_chat_run_def res_simps)
  with same_but_budgets_chat(1) [OF recover_budgets_frame [OF this(1)]]
    same_chat_tables_budgets [OF recover_budgets_frame [OF this(1)]] True
  show ?thesis by (intro Kept) auto
next
  case active: False
  show ?thesis
  proof (cases "st = Failed \<and> r_status r = Cancelling")
    case True
    with assms(1) active show ?thesis by (intro Kept) (auto simp: finish_in_uow_def end_chat_run_def res_simps)
  next
    case False
    from assms(1) active False obtain s1 r1 s2 where
      st: "st \<in> set TERMINAL" "st = Succeeded \<Longrightarrow> r_status r = Running" "st = Cancelled \<Longrightarrow> r_status r \<noteq> Running"
      and 1: "set_result_terminal st code msg (if json_true result then result else None) (r_run_id r) now s = Inr s1"
      and 2: "find (\<lambda>x. r_run_id x = r_run_id r) (runs s1) = Some r1"
      and 3: "recover_budgets r1 s1 = Inr s2"
      and 4: "project_terminal fresh now r1 st content s2 = Inr s'" and b: "b"
      by (auto simp: finish_in_uow_def end_chat_run_def res_simps split: if_splits)
    have act: "r_status r \<in> set ACTIVE" using active by (simp add: active_not_terminal)
    have inv: "distinct (map r_run_id (runs s))" "events_ok (outbox s)"
      using assms(2) by (simp_all add: chat_inv_def runs_ok_def)
    note end1 = set_result_terminal_ended [OF 1 st(1) assms(3) refl assms(4) act inv(1)]
    note f2 = same_but_budgets_chat [OF recover_budgets_frame [OF 3]]
    have r1: "r_run_id r1 = r_run_id r" using find_SomeD [OF 2] by simp
    have same2: "messages s2 = messages s" "outbox s2 = outbox s" "chat_runs s2 = chat_runs s" "workflow_rows s2 = workflow_rows s"
      using f2 end1(2) by (simp_all add: same_chat_tables_def)
    have "events_ok (outbox s2)" using inv(2) same2(2) by simp
    note end4 = project_terminal_ends [OF 4 this, unfolded r1 same2]
    have "roots_kept s s'"
      by (rule roots_kept_trans [of s s1]) (use end1(2) f2(2) end4(9) in \<open>simp_all add: same_chat_tables_def\<close>)
    then have "run_ends (r_run_id r) st content now s s'"
      unfolding run_ends_def end4(6) f2(1) using end1(1) end4 by blast
    moreover have "run_transition_ok (r_status r) st"
      using st False act by (cases "r_status r"; cases st) (auto simp: TERMINAL_def ACTIVE_def)
    ultimately show ?thesis using b st(1) act by (intro Ended)
  qed
qed

end
