(* ===== verification/Chat_Moves.thy ===== *)
theory Chat_Moves
  imports Chat_Steps
begin

text \<open>
  The conversations seen from far: a step relation on the tables with seven moves. A Run advances, a Run ends, an
  event changes hands, a Workflow fact is recorded, a Workflow is scheduled, an event is added, a Run is
  opened. The moves keep the invariant, only follow the transitions of the code, and never touch a Run that
  ended, its reply or an event that was settled. \<open>Chat_Transactions\<close> shows that every operation is a sequence of
  moves.
\<close>

section \<open>The moves\<close>

definition same_core :: "'a chat_db_scheme \<Rightarrow> 'a chat_db_scheme \<Rightarrow> bool" where
  "same_core s s' \<longleftrightarrow> chat_runs s' = chat_runs s \<and> messages s' = messages s \<and> outbox s' = outbox s
     \<and> workflow_rows s' = workflow_rows s \<and> roots_kept s s'"

text \<open>A Run has its Root Execution.\<close>

definition root_of_run :: "run_row \<Rightarrow> execution_row \<Rightarrow> bool" where
  "root_of_run r e \<longleftrightarrow> e_run_id e = r_run_id r \<and> e_role e = Root \<and> e_account_id e = r_account_id r"

text \<open>A Run is opened: its row with the fixed columns \<open>c\<close>, the messages \<open>us\<close> that trigger it, its empty reply and
  its start event.\<close>

definition run_opens ::
  "run_row \<Rightarrow> chat_run_row \<Rightarrow> message_row list \<Rightarrow> message_row \<Rightarrow> outbox_row \<Rightarrow> 'a chat_db_scheme \<Rightarrow> 'a chat_db_scheme \<Rightarrow> bool" where
  "run_opens r c us m e s s' \<longleftrightarrow> chat r \<and> r_status r = Queued \<and> r_run_id r \<notin> set (map r_run_id (runs s))
     \<and> \<not> list_ex (\<lambda>x. chat x \<and> r_conversation_id x = r_conversation_id r \<and> r_status x \<in> set ACTIVE) (runs s)
     \<and> cr_workflow_id c = web_workflow_id (r_run_id r)
     \<and> list_all (\<lambda>u. mg_produced_by_run_id u = None) us
     \<and> mg_produced_by_run_id m = Some (r_run_id r) \<and> mg_status m = Msg_Pending \<and> replies_of (r_run_id r) (messages s) = []
     \<and> plain_event e \<and> ob_business_key e = start_key (r_run_id r)
     \<and> ob_business_key e \<notin> set (map ob_business_key (outbox s)) \<and> ob_event_id e \<notin> set (map ob_event_id (outbox s))
     \<and> runs s' = runs s @ [r] \<and> chat_runs s' = (chat_runs s)(r_run_id r \<mapsto> c) \<and> messages s' = messages s @ us @ [m]
     \<and> outbox s' = outbox s @ [e] \<and> workflow_rows s' = workflow_rows s
     \<and> roots_kept s s' \<and> (\<exists>x \<in> set (executions s'). root_of_run r x)"

inductive chat_move :: "'a chat_db_scheme \<Rightarrow> 'a chat_db_scheme \<Rightarrow> bool" where
  Advance: "chat_move s s'" if "same_core s s'" "moved_runs (runs s) (runs s')"
| End: "chat_move s s'" if "run_ends run st content now s s'"
    "\<And>r. r \<in> set (runs s) \<Longrightarrow> r_run_id r = run \<Longrightarrow> run_transition_ok (r_status r) st"
| Hand_Over: "chat_move s s'" if "same_core s (s'\<lparr>outbox := outbox s\<rparr>)" "runs s' = runs s"
    "list_all2 (handed_over (runs s) (workflow_rows s)) (outbox s) (outbox s')"
| Record: "chat_move s s'" if "same_core s (s'\<lparr>workflow_rows := workflow_rows s\<rparr>)" "runs s' = runs s"
    "same_workflows (workflow_rows s) (workflow_rows s')"
| Schedule: "chat_move s s'" if "same_core s (s'\<lparr>workflow_rows := workflow_rows s\<rparr>)" "runs s' = runs s"
    "workflow_rows s' = workflow_rows s @ [w]" "wx_run_id w \<notin> set (map wx_run_id (workflow_rows s))"
    "workflow_shape (runs s) (chat_runs s) (wx_run_id w) (wx_is_current w) (wx_workflow_id w)"
| Enqueue: "chat_move s s'" if "same_core s (s'\<lparr>outbox := outbox s\<rparr>)" "runs s' = runs s"
    "outbox s' = outbox s @ [e]" "plain_event e" "plain_key (ob_business_key e)" "\<not> is_start_key (ob_business_key e)"
    "ob_business_key e \<notin> set (map ob_business_key (outbox s))" "ob_event_id e \<notin> set (map ob_event_id (outbox s))"
| Open: "chat_move s s'" if "run_opens r c us m e s s'"

section \<open>The invariant\<close>

lemma chat_inv_tables:
  assumes "chat_inv s" "same_core s s'" "moved_runs (runs s) (runs s')"
  shows "chat_inv s'"
  using assms ok_moved [OF assms(3)] starts_known_ids [OF moved_runs_ids [OF assms(3)]]
  unfolding chat_inv_def same_core_def by simp

lemma list_all_events: "list_all plain_event es \<Longrightarrow> e \<in> set es \<Longrightarrow> event_shape e"
  by (simp add: list_all_iff plain_event_def)

lemma chat_inv_ends:
  assumes inv: "chat_inv s" and e: "run_ends run st content now s s'"
  shows "chat_inv s'"
proof -
  have end': "ended_runs run st (runs s) (runs s')" using e by (simp add: run_ends_def)
  obtain es where es: "outbox s' = outbox s @ es" "list_all plain_event es" using e by (auto simp: run_ends_def)
  have keys: "set (map ob_business_key (outbox s')) = set (map ob_business_key (outbox s)) \<union> end_keys run st"
    and d: "distinct (map ob_business_key (outbox s'))" "distinct (map ob_event_id (outbox s'))"
    and same: "messages s' = closed_replies run (reply_status st) content now (messages s)"
      "chat_runs s' = chat_runs s" "workflow_rows s' = workflow_rows s"
    using e by (simp_all add: run_ends_def)
  have I: "runs_ok (runs s) (chat_runs s)" "replies_ok (runs s) (messages s)"
    "ends_ok (runs s) (map ob_business_key (outbox s))" "starts_known (runs s) (map ob_business_key (outbox s))"
    "events_ok (outbox s)" "starts_ok (runs s) (outbox s) (workflow_rows s)"
    "workflows_ok (runs s) (chat_runs s) (workflow_rows s)"
    using inv by (simp_all add: chat_inv_def)
  have "events_ok (outbox s')"
    unfolding events_ok_def using d I(5) list_all_events [OF es(2)] by (auto simp: es(1) events_ok_def)
  moreover have "starts_known (runs s') (map ob_business_key (outbox s'))"
    using starts_known_ids [OF ended_runs_ids [OF end'] I(4)]
    unfolding starts_known_def keys by (auto simp: end_keys_def split: if_splits)
  moreover have "starts_ok (runs s') (outbox s') (workflow_rows s')"
    using starts_ok_ended [OF end' I(6)] unfolding es(1) same(3) starts_ok_def by auto
  ultimately show ?thesis
    unfolding chat_inv_def same
    using runs_ok_ended [OF end' I(1)] replies_ok_ended [OF end' I(2)] ends_ok_ended [OF end' I(3) keys]
      workflows_ok_ids [OF ended_runs_ids [OF end'] I(7)] by blast
qed

lemma chat_inv_handed:
  assumes "chat_inv s" "same_core s (s'\<lparr>outbox := outbox s\<rparr>)" "runs s' = runs s"
    and "list_all2 (handed_over (runs s) (workflow_rows s)) (outbox s) (outbox s')"
  shows "chat_inv s'"
  using assms(1-3) events_ok_handed [OF assms(4)] starts_ok_handed [OF assms(4)] handed_over_keys(1) [OF assms(4)]
  by (simp add: chat_inv_def same_core_def)

lemma chat_inv_recorded:
  assumes "chat_inv s" "same_core s (s'\<lparr>workflow_rows := workflow_rows s\<rparr>)" "runs s' = runs s"
    and "same_workflows (workflow_rows s) (workflow_rows s')"
  shows "chat_inv s'"
  using assms(1-3) workflows_ok_same [OF assms(4)] starts_ok_workflows [OF assms(4)]
  by (simp add: chat_inv_def same_core_def)

lemma chat_inv_scheduled:
  assumes "chat_inv s" "same_core s (s'\<lparr>workflow_rows := workflow_rows s\<rparr>)" "runs s' = runs s"
    and "workflow_rows s' = workflow_rows s @ [w]" "wx_run_id w \<notin> set (map wx_run_id (workflow_rows s))"
    and "workflow_shape (runs s) (chat_runs s) (wx_run_id w) (wx_is_current w) (wx_workflow_id w)"
  shows "chat_inv s'"
proof -
  have "starts_ok (runs s) (outbox s) (workflow_rows s')"
    using starts_ok_runs [of "workflow_rows s'" "workflow_rows s" "[wx_run_id w]"] assms(1,4) unfolding chat_inv_def by simp
  moreover have "workflows_ok (runs s) (chat_runs s) (workflow_rows s')"
    using assms(1,4-6) by (auto simp: chat_inv_def workflows_ok_def)
  ultimately show ?thesis using assms(1-3) by (simp add: chat_inv_def same_core_def)
qed

lemma chat_inv_enqueued:
  assumes "chat_inv s" "same_core s (s'\<lparr>outbox := outbox s\<rparr>)" "runs s' = runs s" "outbox s' = outbox s @ [e]"
    and "plain_event e" "plain_key (ob_business_key e)" "\<not> is_start_key (ob_business_key e)"
    and "ob_business_key e \<notin> set (map ob_business_key (outbox s))" "ob_event_id e \<notin> set (map ob_event_id (outbox s))"
  shows "chat_inv s'"
proof -
  have "ends_ok (runs s) (map ob_business_key (outbox s) @ [ob_business_key e])"
    using ends_ok_plain assms(1,6) by (simp add: chat_inv_def)
  moreover have "starts_known (runs s) (map ob_business_key (outbox s) @ [ob_business_key e])"
    using assms(1,7) by (auto simp: chat_inv_def starts_known_def)
  ultimately show ?thesis
    using assms(1-5) events_ok_append [OF _ assms(5,8,9)] starts_ok_append
    by (simp add: chat_inv_def same_core_def)
qed

lemma ends_ok_open:
  assumes "ends_ok rs ks" "r_status r = Queued" "plain_key k"
  shows "ends_ok (rs @ [r]) (ks @ [k])"
  using assms unfolding ends_ok_def plain_key_def by (auto simp: TERMINAL_def)

lemma runs_ok_open:
  assumes ok: "runs_ok rs inputs" and new: "r_run_id r \<notin> set (map r_run_id rs)" "cr_workflow_id c = web_workflow_id (r_run_id r)"
    and free: "\<not> list_ex (\<lambda>x. chat x \<and> r_conversation_id x = r_conversation_id r \<and> r_status x \<in> set ACTIVE) rs"
  shows "runs_ok (rs @ [r]) (inputs(r_run_id r \<mapsto> c))"
  unfolding runs_ok_def
proof (intro conjI ballI impI)
  show "distinct (map r_run_id (rs @ [r]))" using ok new(1) by (simp add: runs_ok_def)
next
  fix x assume x: "x \<in> set (rs @ [r])" "chat x"
  show "named_workflow (inputs(r_run_id r \<mapsto> c)) (r_run_id x)"
  proof (cases "r_run_id x = r_run_id r")
    case True
    with new(2) show ?thesis by (simp add: named_workflow_def)
  next
    case False
    with x have "x \<in> set rs" by auto
    with ok x(2) have "named_workflow inputs (r_run_id x)" unfolding runs_ok_def by blast
    with False show ?thesis by (simp add: named_workflow_def)
  qed
next
  fix a b assume h: "a \<in> set (rs @ [r])" "b \<in> set (rs @ [r])" "chat a" "chat b" "r_status a \<in> set ACTIVE"
    "r_status b \<in> set ACTIVE" "r_conversation_id a = r_conversation_id b"
  have busy: "r_conversation_id x \<noteq> r_conversation_id r" if "x \<in> set rs" "chat x" "r_status x \<in> set ACTIVE" for x
    using free [unfolded list_ex_iff] that by blast
  have m: "x = r \<or> x \<in> set rs" if "x \<in> set (rs @ [r])" for x using that by auto
  consider "a = r \<and> b = r" | "a = r \<and> b \<in> set rs" | "b = r \<and> a \<in> set rs" | "a \<in> set rs \<and> b \<in> set rs"
    using m [OF h(1)] m [OF h(2)] by argo
  then show "r_run_id a = r_run_id b"
  proof cases
    case 2
    with busy [of b] h show ?thesis by metis
  next
    case 3
    with busy [of a] h show ?thesis by metis
  next
    case 4
    with ok h(3-7) show ?thesis unfolding runs_ok_def by blast
  qed simp
qed

lemma chat_inv_opens:
  assumes inv: "chat_inv s" and o: "run_opens r c us m e s s'"
  shows "chat_inv s'"
proof -
  note o' = o [unfolded run_opens_def]
  let ?run = "r_run_id r"
  have new: "chat r" "r_status r = Queued" "?run \<notin> set (map r_run_id (runs s))"
    and free: "\<not> list_ex (\<lambda>x. chat x \<and> r_conversation_id x = r_conversation_id r \<and> r_status x \<in> set ACTIVE) (runs s)"
    and wid: "cr_workflow_id c = web_workflow_id ?run"
    and msgs: "list_all (\<lambda>u. mg_produced_by_run_id u = None) us" "mg_produced_by_run_id m = Some ?run" "mg_status m = Msg_Pending"
      "replies_of ?run (messages s) = []"
    and ev: "plain_event e" "ob_business_key e = start_key ?run"
      "ob_business_key e \<notin> set (map ob_business_key (outbox s))" "ob_event_id e \<notin> set (map ob_event_id (outbox s))"
    and tables: "runs s' = runs s @ [r]" "chat_runs s' = (chat_runs s)(?run \<mapsto> c)" "messages s' = messages s @ us @ [m]"
      "outbox s' = outbox s @ [e]" "workflow_rows s' = workflow_rows s"
    using o' by blast+
  have other: "r_run_id x \<noteq> ?run" if "x \<in> set (runs s)" for x
    using new(3) that by (metis image_eqI set_map)
  have I: "runs_ok (runs s) (chat_runs s)" "replies_ok (runs s) (messages s)"
    "ends_ok (runs s) (map ob_business_key (outbox s))" "starts_known (runs s) (map ob_business_key (outbox s))"
    "events_ok (outbox s)" "starts_ok (runs s) (outbox s) (workflow_rows s)"
    "workflows_ok (runs s) (chat_runs s) (workflow_rows s)"
    using inv by (simp_all add: chat_inv_def)
  have "runs_ok (runs s') (chat_runs s')"
    unfolding tables by (rule runs_ok_open [OF I(1) new(3) wid free])
  moreover have "replies_ok (runs s') (messages s')"
  proof -
    have us: "replies_of x us = []" for x
      using msgs(1) by (auto simp: replies_of_def list_all_iff filter_empty_conv)
    have "replies_of (r_run_id x) (messages s @ us @ [m]) = replies_of (r_run_id x) (messages s)" if "x \<in> set (runs s)" for x
      using us other [OF that] msgs(2) by (simp add: replies_of_def)
    moreover have "replies_of ?run (messages s @ us @ [m]) = [m]"
      using us msgs(2,4) by (simp add: replies_of_def)
    moreover have "reply_status Queued = Msg_Pending" by (simp add: reply_status_def)
    ultimately show ?thesis using I(2) new(2) msgs(3) unfolding replies_ok_def tables by auto
  qed
  moreover have "ends_ok (runs s') (map ob_business_key (outbox s'))"
    using ends_ok_open [OF I(3) new(2), of "start_key ?run"] by (simp add: tables ev(2))
  moreover have "starts_known (runs s') (map ob_business_key (outbox s'))"
    using I(4) unfolding starts_known_def tables by (auto simp: ev(2) start_key_def)
  moreover have "events_ok (outbox s')"
    using events_ok_append [OF I(5) ev(1,3,4)] by (simp add: tables)
  moreover have "starts_ok (runs s') (outbox s') (workflow_rows s')"
  proof -
    have "waiting_start ?run e" using ev(1,2) by (simp add: waiting_start_def plain_event_def)
    then show ?thesis using I(6) unfolding starts_ok_def tables by auto
  qed
  moreover have "workflows_ok (runs s') (chat_runs s') (workflow_rows s')"
  proof -
    have "workflow_shape (runs s @ [r]) ((chat_runs s)(?run \<mapsto> c)) (wx_run_id w) (wx_is_current w) (wx_workflow_id w)"
      if "w \<in> set (workflow_rows s)" for w
    proof -
      have w: "workflow_shape (runs s) (chat_runs s) (wx_run_id w) (wx_is_current w) (wx_workflow_id w)"
        using I(7) that by (simp add: workflows_ok_def)
      then have "wx_run_id w \<noteq> ?run" using new(3) by (metis workflow_shape_def)
      with w show ?thesis by (simp add: workflow_shape_def)
    qed
    with I(7) show ?thesis unfolding workflows_ok_def tables by blast
  qed
  ultimately show ?thesis unfolding chat_inv_def by blast
qed

lemma move_inv:
  assumes "chat_move s s'" "chat_inv s"
  shows "chat_inv s'"
  using assms(1)
proof cases
  case Advance
  with assms(2) show ?thesis by (rule chat_inv_tables)
next
  case (End run st content now)
  show ?thesis by (rule chat_inv_ends [OF assms(2) End(1)])
next
  case Hand_Over
  with assms(2) show ?thesis by (rule chat_inv_handed)
next
  case Record
  with assms(2) show ?thesis by (rule chat_inv_recorded)
next
  case Schedule
  with assms(2) show ?thesis by (rule chat_inv_scheduled)
next
  case Enqueue
  with assms(2) show ?thesis by (rule chat_inv_enqueued)
next
  case Open
  with assms(2) show ?thesis by (rule chat_inv_opens)
qed

lemma moves_inv: "chat_move\<^sup>*\<^sup>* s s' \<Longrightarrow> chat_inv s \<Longrightarrow> chat_inv s'"
  by (induction rule: rtranclp_induct) (auto intro: move_inv)

section \<open>What the moves leave alone\<close>

lemma moves_snoc:
  assumes "chat_move\<^sup>*\<^sup>* s s'" "chat_inv s" "P s" "\<And>t t'. chat_inv t \<Longrightarrow> P t \<Longrightarrow> chat_move t t' \<Longrightarrow> P t'"
  shows "P s'"
proof -
  have "chat_inv s' \<and> P s'"
    using assms(1) by (induction rule: rtranclp_induct) (use assms(2-4) move_inv in blast)+
  then show ?thesis ..
qed

text \<open>The Run with this identifier stands at \<open>st\<close>.\<close>

definition stands :: "uuid \<Rightarrow> status \<Rightarrow> 'a chat_db_scheme \<Rightarrow> bool" where
  "stands run st s \<longleftrightarrow> (\<exists>r \<in> set (runs s). r_run_id r = run \<and> chat r \<and> r_status r = st)"

lemma move_stands:
  assumes "chat_move s s'" "stands run st s"
  obtains st' where "stands run st' s'" "st' = st \<or> run_transition_ok st st'"
proof -
  obtain r where r: "r \<in> set (runs s)" "r_run_id r = run" "chat r" "r_status r = st"
    using assms(2) unfolding stands_def by blast
  have kept: "stands run st s'" if "runs s' = runs s"
    unfolding stands_def that using r by blast
  show thesis using assms(1)
  proof cases
    case Advance
    obtain r' where r': "r' \<in> set (runs s')" "moved_run r r'" using moved_runs_forth [OF Advance(2) r(1)] .
    have "stands run (r_status r') s'"
      unfolding stands_def using r' r moved_run_eqs(1,2) [OF r'(2)] by blast
    then show ?thesis by (rule that) (use r'(2) r(4) in \<open>auto simp: moved_run_def\<close>)
  next
    case (End x st' content now)
    then have e: "ended_runs x st' (runs s) (runs s')" by (simp add: run_ends_def)
    obtain r' where r': "r' \<in> set (runs s')" "ended_run x st' r r'" using ended_runs_forth [OF e r(1)] .
    note eqs = ended_run_eqs [OF r'(2)]
    have "stands run (r_status r') s'" unfolding stands_def using r'(1) r eqs(1,2) by blast
    moreover have "r_status r' = st \<or> run_transition_ok st (r_status r')"
      using End(2) [OF r(1)] eqs(4,5) r(4) by (cases "r_run_id r = x") auto
    ultimately show ?thesis by (rule that)
  next
    case (Open r0 c us m e)
    then have "stands run st s'" unfolding stands_def run_opens_def using r by auto
    then show ?thesis by (rule that) simp
  qed (use kept that in blast)+
qed

text \<open>A reply is closed once: the reply of a Run that ended never changes.\<close>

lemma move_replies:
  assumes "chat_move s s'" "chat_inv s" "stands run st s" "st \<in> set TERMINAL"
  shows "replies_of run (messages s') = replies_of run (messages s)"
  using assms(1)
proof cases
  case (End x st' content now)
  then have e: "ended_runs x st' (runs s) (runs s')"
    and ms: "messages s' = closed_replies x (reply_status st') content now (messages s)" by (simp_all add: run_ends_def)
  have "run \<noteq> x"
    using assms(3,4) ended_runs_facts(4) [OF e] unfolding stands_def active_not_terminal by blast
  then show ?thesis unfolding ms by (rule closed_replies_other)
next
  case (Open r0 c us m e)
  have "r_run_id r0 \<notin> set (map r_run_id (runs s))" using Open by (simp add: run_opens_def)
  moreover have "run \<in> set (map r_run_id (runs s))" using assms(3) by (auto simp: stands_def)
  ultimately have "run \<noteq> r_run_id r0" by blast
  moreover have "replies_of run us = []"
    using Open by (auto simp: run_opens_def replies_of_def list_all_iff filter_empty_conv)
  ultimately show ?thesis using Open by (simp add: run_opens_def replies_of_def)
qed (simp_all add: same_core_def)

text \<open>An event is never forgotten, and a settled one stays as it is.\<close>

lemma move_keys:
  assumes "chat_move s s'" "k \<in> set (map ob_business_key (outbox s))"
  shows "k \<in> set (map ob_business_key (outbox s'))"
  using assms(1)
proof cases
  case (End run st content now)
  then have "set (map ob_business_key (outbox s')) = set (map ob_business_key (outbox s)) \<union> end_keys run st"
    by (simp add: run_ends_def)
  with assms(2) show ?thesis by blast
next
  case Hand_Over
  with assms(2) handed_over_keys(1) [OF Hand_Over(3)] show ?thesis by simp
qed (use assms(2) in \<open>auto simp: same_core_def run_opens_def\<close>)

lemma move_settled:
  assumes "chat_move s s'" "e \<in> set (outbox s)" "ob_status e \<notin> {Outbox_Pending, Processing}"
  shows "e \<in> set (outbox s')"
  using assms(1)
proof cases
  case (End run st content now)
  with assms(2) show ?thesis by (auto simp: run_ends_def)
next
  case Hand_Over
  then obtain e' where e': "e' \<in> set (outbox s')" "handed_over (runs s) (workflow_rows s) e e'"
    using assms(2) by (metis in_set_conv_nth list_all2_conv_all_nth)
  from e'(2) assms(3) have "e' = e" unfolding handed_over_def by blast
  with e'(1) show ?thesis by simp
qed (use assms(2) in \<open>auto simp: same_core_def run_opens_def\<close>)

section \<open>Along any number of moves\<close>

lemma transitions_from:
  "run_transition_ok\<^sup>*\<^sup>* st st' \<Longrightarrow> st \<in> set TERMINAL \<Longrightarrow> st' = st"
  "run_transition_ok\<^sup>*\<^sup>* st st' \<Longrightarrow> st = Cancelling \<Longrightarrow> st' \<in> {Cancelling, Cancelled}"
  by (induction rule: rtranclp_induct) (auto simp: TERMINAL_def)

lemma moves_stands:
  assumes "chat_move\<^sup>*\<^sup>* s s'" "stands run st s"
  shows "\<exists>st'. stands run st' s' \<and> run_transition_ok\<^sup>*\<^sup>* st st'"
  using assms(1)
proof (induction rule: rtranclp_induct)
  case base
  with assms(2) show ?case by blast
next
  case (step t t')
  then obtain x where x: "stands run x t" "run_transition_ok\<^sup>*\<^sup>* st x" by blast
  obtain y where "stands run y t'" "y = x \<or> run_transition_ok x y" using move_stands [OF step.hyps(2) x(1)] .
  with x(2) show ?case by (metis rtranclp.rtrancl_into_rtrancl)
qed

lemma moves_final:
  assumes "chat_move\<^sup>*\<^sup>* s s'" "chat_inv s" "stands run st s" "st \<in> set TERMINAL"
  shows "stands run st s' \<and> replies_of run (messages s') = replies_of run (messages s)"
proof (rule moves_snoc [OF assms(1,2)])
  fix t t' assume t: "chat_inv t" "stands run st t \<and> replies_of run (messages t) = replies_of run (messages s)" "chat_move t t'"
  obtain y where "stands run y t'" "y = st \<or> run_transition_ok st y" using move_stands [OF t(3) conjunct1 [OF t(2)]] .
  moreover have "\<not> run_transition_ok st y" using assms(4) by (auto simp: TERMINAL_def)
  ultimately show "stands run st t' \<and> replies_of run (messages t') = replies_of run (messages s)"
    using move_replies [OF t(3,1) conjunct1 [OF t(2)] assms(4)] t(2) by metis
qed (use assms(3) in simp)

lemma moves_events:
  assumes "chat_move\<^sup>*\<^sup>* s s'"
  shows "set (map ob_business_key (outbox s)) \<subseteq> set (map ob_business_key (outbox s'))"
    and "e \<in> set (outbox s) \<Longrightarrow> ob_status e \<notin> {Outbox_Pending, Processing} \<Longrightarrow> e \<in> set (outbox s')"
proof -
  show "set (map ob_business_key (outbox s)) \<subseteq> set (map ob_business_key (outbox s'))"
    using assms by (induction rule: rtranclp_induct) (use move_keys in blast)+
  show "e \<in> set (outbox s')" if "e \<in> set (outbox s)" "ob_status e \<notin> {Outbox_Pending, Processing}"
    using assms by (induction rule: rtranclp_induct) (use move_settled that in blast)+
qed

section \<open>What the moves keep\<close>

definition rooted :: "'a chat_db_scheme \<Rightarrow> bool" where
  "rooted s \<longleftrightarrow> (\<forall>r \<in> set (runs s). \<exists>e \<in> set (executions s). root_of_run r e)"

definition all_chat :: "'a chat_db_scheme \<Rightarrow> bool" where
  "all_chat s \<longleftrightarrow> (\<forall>r \<in> set (runs s). chat r)"

text \<open>A Run after a move: one from before with the same fixed columns, or the one that was opened.\<close>

lemma move_roots_kept: "chat_move s s' \<Longrightarrow> roots_kept s s'"
  by (erule chat_move.cases) (simp_all add: same_core_def run_ends_def run_opens_def roots_kept_def)

lemma move_heir:
  assumes "chat_move s s'" "r' \<in> set (runs s')"
  shows "(\<exists>r \<in> set (runs s). same_run r r') \<or> chat r' \<and> (\<exists>e \<in> set (executions s'). root_of_run r' e)"
proof -
  have refl: "same_run r r" for r by (simp add: same_run_def)
  have kept: "\<exists>r \<in> set (runs s). same_run r r'" if "runs s' = runs s"
    using assms(2) refl unfolding that by blast
  show ?thesis using assms(1)
  proof cases
    case Advance
    obtain r where "r \<in> set (runs s)" "moved_run r r'" using moved_runs_back [OF Advance(2) assms(2)] .
    then show ?thesis unfolding moved_run_def by blast
  next
    case (End x st content now)
    then have e: "ended_runs x st (runs s) (runs s')" by (simp add: run_ends_def)
    obtain r where "r \<in> set (runs s)" "ended_run x st r r'" using ended_runs_back [OF e assms(2)] .
    with refl show ?thesis unfolding ended_run_def by metis
  next
    case (Open r c us m e)
    then have o: "runs s' = runs s @ [r]" "chat r" "\<exists>x \<in> set (executions s'). root_of_run r x" by (simp_all add: run_opens_def)
    then consider "r' \<in> set (runs s)" | "r' = r" using assms(2) by auto
    then show ?thesis using o refl by cases blast+
  qed (use kept in blast)+
qed

lemma move_rooted:
  assumes "chat_move s s'" "rooted s"
  shows "rooted s'"
  unfolding rooted_def
proof
  fix r' assume "r' \<in> set (runs s')"
  from move_heir [OF assms(1) this] show "\<exists>e \<in> set (executions s'). root_of_run r' e"
  proof (elim disjE bexE)
    fix r assume r: "r \<in> set (runs s)" "same_run r r'"
    with assms(2) obtain e where e: "e \<in> set (executions s)" "root_of_run r e" unfolding rooted_def by blast
    with move_roots_kept [OF assms(1)] obtain e' where "e' \<in> set (executions s')" "e_run_id e' = e_run_id e"
      "e_role e' = e_role e" "e_account_id e' = e_account_id e" unfolding roots_kept_def by blast
    with e(2) r(2) show ?thesis unfolding root_of_run_def same_run_def by metis
  qed blast
qed

lemma move_all_chat:
  assumes "chat_move s s'" "all_chat s"
  shows "all_chat s'"
  unfolding all_chat_def
proof
  fix r' assume "r' \<in> set (runs s')"
  from move_heir [OF assms(1) this] assms(2) show "chat r'"
    unfolding all_chat_def same_run_def chat_def by metis
qed

text \<open>Whatever else happens, an event stays the event of its Run, and a Run that was started stays started.\<close>

definition event_of :: "uuid \<Rightarrow> string \<Rightarrow> uuid option \<Rightarrow> 'a chat_db_scheme \<Rightarrow> bool" where
  "event_of ev ty run s \<longleftrightarrow> (\<exists>e \<in> set (outbox s). ob_event_id e = ev \<and> ob_event_type e = ty \<and> ob_run_id e = run)"

lemma move_event_of:
  assumes "chat_move s s'" "event_of ev ty run s"
  shows "event_of ev ty run s'"
proof -
  obtain e where e: "e \<in> set (outbox s)" "ob_event_id e = ev" "ob_event_type e = ty" "ob_run_id e = run"
    using assms(2) unfolding event_of_def by blast
  have kept: ?thesis if "e \<in> set (outbox s')" using that e unfolding event_of_def by blast
  show ?thesis using assms(1)
  proof cases
    case Hand_Over
    then obtain e' where e': "e' \<in> set (outbox s')" "handed_over (runs s) (workflow_rows s) e e'"
      using e(1) by (metis in_set_conv_nth list_all2_conv_all_nth)
    then show ?thesis using e unfolding event_of_def handed_over_def same_event_def by metis
  next
    case (End x st content now)
    then show ?thesis using e(1) by (intro kept) (auto simp: run_ends_def)
  qed (use kept e(1) in \<open>auto simp: same_core_def run_opens_def\<close>)
qed

lemma move_started:
  assumes "chat_move s s'" "run \<in> set (map r_run_id (runs s))" "started (runs s) (workflow_rows s) run"
  shows "started (runs s') (workflow_rows s') run" "run \<in> set (map r_run_id (runs s'))"
proof -
  have ex: "list_ex (\<lambda>w. wx_run_id w = run) ws \<longleftrightarrow> run \<in> set (map wx_run_id ws)" for ws
    by (induction ws) auto
  show "run \<in> set (map r_run_id (runs s'))" using assms(1)
  proof cases
    case Advance
    with assms(2) moved_runs_ids [OF Advance(2)] show ?thesis by simp
  next
    case (End x st content now)
    with assms(2) ended_runs_ids [of x st "runs s" "runs s'"] show ?thesis by (simp add: run_ends_def)
  qed (use assms(2) in \<open>auto simp: run_opens_def\<close>)
  show "started (runs s') (workflow_rows s') run" using assms(1)
  proof cases
    case Advance
    then have "workflow_rows s' = workflow_rows s" by (simp add: same_core_def)
    moreover have "r_status r' \<noteq> Queued"
      if none: "\<forall>r \<in> set (runs s). r_run_id r = run \<longrightarrow> r_status r \<noteq> Queued" and r': "r' \<in> set (runs s')" "r_run_id r' = run" for r'
    proof -
      obtain r where "r \<in> set (runs s)" "moved_run r r'" using moved_runs_back [OF Advance(2) r'(1)] .
      with none r'(2) moved_run_eqs(1,9) show ?thesis by metis
    qed
    ultimately show ?thesis using assms(3) unfolding started_def by metis
  next
    case (End x st content now)
    then have e: "ended_runs x st (runs s) (runs s')" and w: "workflow_rows s' = workflow_rows s" by (simp_all add: run_ends_def)
    have "st \<noteq> Queued" using ended_runs_facts(1) [OF e] by (auto simp: TERMINAL_def)
    then have "r_status r' \<noteq> Queued"
      if none: "\<forall>r \<in> set (runs s). r_run_id r = run \<longrightarrow> r_status r \<noteq> Queued" and r': "r' \<in> set (runs s')" "r_run_id r' = run" for r'
      using ended_runs_back [OF e r'(1)] ended_run_eqs(1,4,5) none r'(2) by metis
    then show ?thesis using assms(3) unfolding started_def w by metis
  next
    case Record
    then show ?thesis using assms(3) same_workflows_runs [OF Record(3)] unfolding started_def ex by simp
  next
    case (Open r c us m e)
    then have o: "runs s' = runs s @ [r]" "r_run_id r \<notin> set (map r_run_id (runs s))" "workflow_rows s' = workflow_rows s"
      by (simp_all add: run_opens_def)
    then have "r_run_id r \<noteq> run" using assms(2) by metis
    then show ?thesis using assms(3) unfolding started_def o(1,3) by auto
  qed (use assms(3) in \<open>auto simp: started_def same_core_def\<close>)
qed

lemma moves_keep:
  assumes "chat_move\<^sup>*\<^sup>* s s'"
  shows "rooted s \<Longrightarrow> rooted s'" "all_chat s \<Longrightarrow> all_chat s'" "event_of ev ty o_run s \<Longrightarrow> event_of ev ty o_run s'"
    "run \<in> set (map r_run_id (runs s)) \<and> started (runs s) (workflow_rows s) run \<Longrightarrow>
     run \<in> set (map r_run_id (runs s')) \<and> started (runs s') (workflow_rows s') run"
proof -
  show "rooted s \<Longrightarrow> rooted s'"
    using assms by (induction rule: rtranclp_induct) (blast intro: move_rooted)+
  show "all_chat s \<Longrightarrow> all_chat s'"
    using assms by (induction rule: rtranclp_induct) (blast intro: move_all_chat)+
  show "event_of ev ty o_run s \<Longrightarrow> event_of ev ty o_run s'"
    using assms by (induction rule: rtranclp_induct) (blast intro: move_event_of)+
  show "run \<in> set (map r_run_id (runs s)) \<and> started (runs s) (workflow_rows s) run \<Longrightarrow>
      run \<in> set (map r_run_id (runs s')) \<and> started (runs s') (workflow_rows s') run"
    using assms by (induction rule: rtranclp_induct) (blast intro: move_started)+
qed

end
