(* ===== verification/Chat_Transactions.thy ===== *)
theory Chat_Transactions
  imports Chat_Moves
begin

text \<open>
  Every transaction on the conversations is a sequence of the moves of \<open>Chat_Moves\<close>: one lemma per operation, in
  the order of the code. The operations on a Run are those of chat Runs.
\<close>

section \<open>Single moves\<close>

definition idle :: "'a chat_db_scheme \<Rightarrow> 'a chat_db_scheme \<Rightarrow> bool" where
  "idle s s' \<longleftrightarrow> same_core s s' \<and> runs s' = runs s"

lemma idle_trans: "idle s s' \<Longrightarrow> idle s' s'' \<Longrightarrow> idle s s''"
  by (auto simp: idle_def same_core_def intro: roots_kept_trans)

lemma idle_moves: "idle s s' \<Longrightarrow> chat_move\<^sup>*\<^sup>* s s'"
  by (rule r_into_rtranclp, rule Advance) (simp_all add: idle_def)

lemma advance_moves: "same_chat_tables s s' \<Longrightarrow> moved_runs (runs s) (runs s') \<Longrightarrow> chat_move\<^sup>*\<^sup>* s s'"
  by (rule r_into_rtranclp, rule Advance) (simp_all add: same_chat_tables_def same_core_def)

lemma idle_simps [simp]:
  "idle s s" "idle s (command_complete acc oper key code body s)" "idle s (s\<lparr>approval_rows := as\<rparr>)"
  "idle s (record_cancel_control acc run key s)" "idle s (s\<lparr>commands := cs\<rparr>)"
  "idle s (s\<lparr>conversations := cv, conversation_rows := cr\<rparr>)"
  by (simp_all add: idle_def same_core_def command_complete_def record_cancel_control_def Let_def)

lemma enqueue_moves:
  assumes "outbox_enqueue ev acc ty key conv run payload now s = Inr s'" "plain_key key" "\<not> is_start_key key" "ty \<noteq> ''start_run''"
  shows "chat_move\<^sup>*\<^sup>* s s'"
  using assms(1)
proof (cases rule: outbox_enqueue_cases)
  case (New e)
  have "plain_event e" using New(3-8) assms(3,4) by (simp add: plain_event_def event_shape_def)
  then have "chat_move s s'"
    by (intro Enqueue [where e = e]) (use New assms in \<open>simp_all add: same_core_def\<close>)
  then show ?thesis by blast
qed simp

lemma update_current_moves:
  assumes "\<And>w. wx_run_id (f w) = wx_run_id w \<and> wx_is_current (f w) = wx_is_current w \<and> wx_workflow_id (f w) = wx_workflow_id w"
  shows "chat_move\<^sup>*\<^sup>* s (update_current run sts f s)"
proof (rule r_into_rtranclp, rule Record)
  show "same_workflows (workflow_rows s) (workflow_rows (update_current run sts f s))"
    by (rule same_workflows_update) (rule assms)
qed (simp_all add: update_current_def same_core_def)

section \<open>The lifecycle\<close>

text \<open>The Runs here are those of a conversation.\<close>

definition chat_run :: "'a chat_db_scheme \<Rightarrow> uuid \<Rightarrow> bool" where
  "chat_run s run \<longleftrightarrow> (\<forall>r \<in> set (runs s). r_run_id r = run \<longrightarrow> chat r)"

lemma lock_run:
  assumes "lock s acc run = Inr r"
  shows "r \<in> set (runs s)" "r_run_id r = run" "r_account_id r = acc"
proof -
  have "find_run s acc run = Some r"
    using assms by (auto simp: lock_def res_simps split: if_splits option.splits)
  then show "r \<in> set (runs s)" "r_run_id r = run" "r_account_id r = acc"
    unfolding find_run_def by (auto dest: find_SomeD)
qed

lemma run_unique:
  assumes "chat_inv s" "r \<in> set (runs s)" "x \<in> set (runs s)" "r_run_id x = r_run_id r"
  shows "x = r"
  using assms by (simp add: chat_inv_def runs_ok_def distinct_map inj_on_def)

lemma finish_in_uow_moves:
  assumes "finish_in_uow fresh now r st content result code msg s = Inr (b, s')"
    and "chat_inv s" and "r \<in> set (runs s)" and "chat r"
  shows "chat_move\<^sup>*\<^sup>* s s'"
  using assms
proof (cases rule: finish_in_uow_cases)
  case Kept
  show ?thesis by (rule advance_moves [OF Kept(1)]) (simp add: Kept(2))
next
  case Ended
  have "chat_move s s'"
    by (rule End [OF Ended(5)]) (use run_unique [OF assms(2,3)] Ended(4) in blast)
  then show ?thesis by blast
qed

lemma finish_moves:
  assumes "finish fresh now acc run st content result code msg s = Inr (b, s')" "chat_inv s" "chat_run s run"
  shows "chat_move\<^sup>*\<^sup>* s s'"
proof -
  from assms(1) obtain r where r: "lock s acc run = Inr r"
    "finish_in_uow fresh now r st content result code msg s = Inr (b, s')"
    by (auto simp: finish_def res_simps)
  show ?thesis
    by (rule finish_in_uow_moves [OF r(2) assms(2) lock_run(1) [OF r(1)]])
      (use assms(3) lock_run [OF r(1)] in \<open>auto simp: chat_run_def\<close>)
qed

lemma bind_workflow_moves:
  assumes "bind_workflow run wid temporal now s = Inr s'"
  shows "chat_move\<^sup>*\<^sup>* s s'"
proof (cases "wid = None \<and> temporal = None")
  case True
  with assms show ?thesis by (simp add: bind_workflow_def)
next
  case False
  with assms(1) obtain t where eq: "s' = update_current run [Wf_Scheduled, Wf_Running]
     (\<lambda>y. y\<lparr>wx_temporal_run_id := Some t, wx_status := Wf_Running,
            wx_started_at := (case wx_started_at y of None \<Rightarrow> Some now | Some u \<Rightarrow> Some u)\<rparr>) s"
    by (auto simp: bind_workflow_def res_simps split: option.splits if_splits)
  show ?thesis unfolding eq by (rule update_current_moves) simp
qed

lemma prepare_moves:
  assumes "prepare run wid temporal now s = Inr (st, s')"
  shows "chat_move\<^sup>*\<^sup>* s s'"
proof -
  from assms(1) [unfolded prepare_def ebind_Inr_iff] obtain acc r s1 where
    "lock s acc run = Inr r" and 1: "bind_workflow run wid temporal now s = Inr s1"
    and 2: "(if r_status r = Queued then ebind (mark_running_queued run now s1) (\<lambda>s2. Inr (Running, s2))
       else Inr (r_status r, s1)) = Inr (st, s')"
    by blast
  show ?thesis
  proof (cases "r_status r = Queued")
    case True
    with 2 have "mark_running_queued run now s1 = Inr s'" by (auto simp: res_simps)
    from mark_running_moved [OF this] bind_workflow_moves [OF 1] advance_moves show ?thesis by (meson rtranclp_trans)
  qed (use 2 bind_workflow_moves [OF 1] in simp)
qed

lemma finalize_failed_moves:
  assumes "finalize_failed fresh now run code msg s = Inr (st, s')" "chat_inv s" "chat_run s run"
  shows "chat_move\<^sup>*\<^sup>* s s'"
proof -
  from assms(1) obtain acc b where "finish fresh now acc run Failed None None (Some code) (Some msg) s = Inr (b, s')"
    by (auto simp: finalize_failed_def res_simps)
  from finish_moves [OF this assms(2,3)] show ?thesis .
qed

lemma finalize_cancelled_moves:
  assumes "finalize_cancelled fresh now run s = Inr (st, s')" "chat_inv s" "chat_run s run"
  shows "chat_move\<^sup>*\<^sup>* s s'"
proof -
  from assms(1) consider "s' = s" | acc b where "finish fresh now acc run Cancelled None None None None s = Inr (b, s')"
    | "finalize_failed fresh now run ''workflow_cancelled_unexpectedly'' UNEXPECTED_CANCEL s = Inr (st, s')"
    by (auto simp: finalize_cancelled_def res_simps split: if_splits)
  then show ?thesis
  proof cases
    case 2
    from finish_moves [OF 2 assms(2,3)] show ?thesis .
  next
    case 3
    from finalize_failed_moves [OF 3 assms(2,3)] show ?thesis .
  qed simp
qed

lemma complete_moves:
  assumes "complete fresh now run content receipt rejected accepted s = Inr (st, s')" "chat_inv s" "chat_run s run"
  shows "chat_move\<^sup>*\<^sup>* s s'"
proof -
  from assms(1) obtain acc r where r: "lock s acc run = Inr r"
    and d: "s' = s \<or> (\<exists>reply b. finish_in_uow fresh now r Succeeded (Some reply) None None None s = Inr (b, s'))"
    by (fastforce simp: complete_def res_simps Let_def split: if_splits)
  have "chat r" using lock_run [OF r] assms(3) unfolding chat_run_def by blast
  note step = finish_in_uow_moves [OF _ assms(2) lock_run(1) [OF r] this]
  from d show ?thesis
  proof (elim disjE exE)
    assume "s' = s"
    then show ?thesis by simp
  qed (rule step)
qed

section \<open>The outbox\<close>

lemma hand_over_moves:
  assumes "\<And>e. e \<in> set (outbox s) \<Longrightarrow> P e \<Longrightarrow> handed_over (runs s) (workflow_rows s) e (f e)"
  shows "chat_move\<^sup>*\<^sup>* s (s\<lparr>outbox := update_where P f (outbox s)\<rparr>)"
  by (rule r_into_rtranclp, rule Hand_Over) (use handed_over_update [OF assms] in \<open>simp_all add: same_core_def\<close>)

lemma handed_over_queue:
  assumes "same_event e e'" "ob_status e \<in> {Outbox_Pending, Processing}" "ob_status e' \<in> {Outbox_Pending, Processing}"
  shows "handed_over rs ws e e'"
  using assms by (simp add: handed_over_def)

lemma event_unique:
  assumes "chat_inv s" "e \<in> set (outbox s)" "x \<in> set (outbox s)" "ob_event_id x = ob_event_id e"
  shows "x = e"
  using assms by (simp add: chat_inv_def events_ok_def distinct_map inj_on_def)

lemma outbox_claim_moves:
  assumes "outbox_claim worker types skipped limit now s = Inr (es, s')" "chat_inv s"
  shows "chat_move\<^sup>*\<^sup>* s s'"
proof -
  let ?cs = "claim_candidates types skipped limit now s"
  have eq: "s' = s\<lparr>outbox := update_where (\<lambda>e. ob_event_id e \<in> set (map ob_event_id ?cs)) (take_lease worker now) (outbox s)\<rparr>"
    using assms(1) by (simp add: outbox_claim_def claim_batch_def res_simps Let_def)
  show ?thesis unfolding eq
  proof (rule hand_over_moves)
    fix e assume e: "e \<in> set (outbox s)" "ob_event_id e \<in> set (map ob_event_id ?cs)"
    then obtain x where x: "x \<in> set ?cs" "ob_event_id x = ob_event_id e" by auto
    then have "x \<in> set (outbox s)" "ob_status x = Outbox_Pending"
      unfolding claim_candidates_def by (auto dest: in_set_takeD)
    with event_unique [OF assms(2) e(1) this(1) x(2)] show "handed_over (runs s) (workflow_rows s) e (take_lease worker now e)"
      by (intro handed_over_queue) (simp_all add: take_lease_def same_event_def)
  qed
qed

lemma recover_expired_moves:
  assumes "recover_expired older types now s = Inr (n, s')"
  shows "chat_move\<^sup>*\<^sup>* s s'"
proof -
  have eq: "s' = s\<lparr>outbox := update_where (lease_expired older types now) free_lease (outbox s)\<rparr>"
    using assms(1) by (simp add: recover_expired_def recover_expired_rows_def res_simps)
  show ?thesis unfolding eq
    by (rule hand_over_moves, rule handed_over_queue) (simp_all add: free_lease_def same_event_def lease_expired_def)
qed

lemma mark_retryable_moves:
  assumes "mark_retryable_failure ev worker code msg next_at s = Inr (b, s')"
  shows "chat_move\<^sup>*\<^sup>* s s'"
proof -
  have eq: "s' = s\<lparr>outbox := update_where (owned_by ev worker)
      (\<lambda>e. e\<lparr>ob_status := Outbox_Pending, ob_locked_at := None, ob_locked_by := None, ob_available_at := next_at,
     ob_last_error_code := Some (safe_error code 100), ob_last_error_message := Some (safe_error msg 1000)\<rparr>) (outbox s)\<rparr>"
    using assms(1) by (simp add: mark_retryable_failure_def mark_retryable_row_def)
  show ?thesis unfolding eq
    by (rule hand_over_moves, rule handed_over_queue) (simp_all add: same_event_def owned_by_def)
qed

text \<open>A start event leaves the queue for good only when its Run was started: the event with this identifier.\<close>

definition delivered :: "uuid \<Rightarrow> 'a chat_db_scheme \<Rightarrow> bool" where
  "delivered ev s \<longleftrightarrow> (\<forall>e \<in> set (outbox s). \<forall>run. ob_event_id e = ev \<longrightarrow> ob_event_type e = ''start_run'' \<longrightarrow>
     ob_run_id e = Some run \<longrightarrow> started (runs s) (workflow_rows s) run)"

lemma settle_moves:
  assumes "delivered ev s" "\<And>e. same_event e (f e)"
  shows "chat_move\<^sup>*\<^sup>* s (s\<lparr>outbox := update_where (owned_by ev worker) f (outbox s)\<rparr>)"
proof (rule hand_over_moves)
  fix e assume e: "e \<in> set (outbox s)" "owned_by ev worker e"
  with assms(1) have "\<forall>run. ob_event_type e = ''start_run'' \<longrightarrow> ob_run_id e = Some run \<longrightarrow> started (runs s) (workflow_rows s) run"
    unfolding delivered_def owned_by_def by blast
  moreover have "ob_status e \<in> {Outbox_Pending, Processing}" using e(2) by (simp add: owned_by_def)
  ultimately show "handed_over (runs s) (workflow_rows s) e (f e)" using assms(2) unfolding handed_over_def by blast
qed

lemma mark_processed_moves:
  assumes "mark_processed ev worker now s = Inr (b, s')" "delivered ev s"
  shows "chat_move\<^sup>*\<^sup>* s s'"
proof -
  have eq: "s' = s\<lparr>outbox := update_where (owned_by ev worker)
      (\<lambda>e. e\<lparr>ob_status := Processed, ob_processed_at := Some now, ob_locked_at := None, ob_locked_by := None\<rparr>) (outbox s)\<rparr>"
    using assms(1) by (simp add: mark_processed_def mark_processed_row_def)
  show ?thesis unfolding eq by (rule settle_moves [OF assms(2)]) (simp add: same_event_def)
qed

lemma mark_dead_letter_moves:
  assumes "delivered ev s"
  shows "chat_move\<^sup>*\<^sup>* s (snd (mark_dead_letter_row ev worker code msg s))"
  unfolding mark_dead_letter_row_def snd_conv
  by (rule settle_moves [OF assms]) (simp add: same_event_def)

lemma finish_ends_queue:
  assumes "finish_in_uow fresh now r Failed content result code msg s = Inr (b, s')" "chat_inv s" "r \<in> set (runs s)" "chat r"
    and "r_status r = Queued"
  shows "started (runs s') (workflow_rows s') (r_run_id r)" "set (outbox s) \<subseteq> set (outbox s')"
proof -
  from assms(1-4) have "run_ends (r_run_id r) Failed content now s s'"
  proof (cases rule: finish_in_uow_cases)
    case Kept
    with assms(5) show ?thesis by (simp add: TERMINAL_def)
  qed
  then have e: "ended_runs (r_run_id r) Failed (runs s) (runs s')" and es: "\<exists>es. outbox s' = outbox s @ es"
    by (auto simp: run_ends_def)
  have "r_status x \<noteq> Queued" if x: "x \<in> set (runs s')" "r_run_id x = r_run_id r" for x
  proof -
    obtain y where y: "y \<in> set (runs s)" "ended_run (r_run_id r) Failed y x" using ended_runs_back [OF e x(1)] .
    from ended_run_eqs(1,4) [OF y(2)] x(2) show ?thesis by auto
  qed
  then show "started (runs s') (workflow_rows s') (r_run_id r)" by (simp add: started_def)
  show "set (outbox s) \<subseteq> set (outbox s')" using es by auto
qed

text \<open>The Run of an event is one of a conversation.\<close>

definition chat_event :: "'a chat_db_scheme \<Rightarrow> uuid \<Rightarrow> bool" where
  "chat_event s ev \<longleftrightarrow> (\<forall>e \<in> set (outbox s). \<forall>run. ob_event_id e = ev \<longrightarrow> ob_run_id e = Some run \<longrightarrow> chat_run s run)"

lemma dead_letter_moves:
  assumes "dead_letter fresh now ev worker code msg s = Inr (b, s')" and inv: "chat_inv s" and "chat_event s ev"
  shows "chat_move\<^sup>*\<^sup>* s s'"
proof -
  from assms(1) [unfolded dead_letter_def ebind_Inr_iff need_Inr_iff ensure_Inr_iff] obtain seen run r e s1 where
    seen: "find (\<lambda>e. ob_event_id e = ev) (outbox s) = Some seen" "ob_run_id seen = Some run"
    and r: "lock s (ob_account_id seen) run = Inr r"
    and e: "find (owned_by ev worker) (outbox s) = Some e" "ob_run_id e = ob_run_id seen"
    and 1: "(if ob_event_type e = ''start_run'' \<and> r_status r = Queued
             then ebind (finish_in_uow fresh now r Failed None None (Some ''workflow_start_exhausted'')
                    (Some (safe_error msg 1000)) s) (\<lambda>(_, s1). Inr s1)
             else Inr s) = Inr s1"
    and 2: "(let (changed, s2) = mark_dead_letter_row ev worker (safe_error code 100) (safe_error msg 1000) s1 in
        ensure changed OutboxLeaseLost (Inr (True, s2))) = Inr (b, s')"
    by blast
  have s': "s' = snd (mark_dead_letter_row ev worker (safe_error code 100) (safe_error msg 1000) s1)"
    using 2 by (auto simp: res_simps split: prod.splits)
  note lr = lock_run [OF r]
  have er: "e \<in> set (outbox s)" "ob_event_id e = ev" "ob_run_id e = Some run"
    using find_SomeD [OF e(1)] e(2) seen(2) by (simp_all add: owned_by_def)
  have "chat r" using assms(3) er lr(1,2) unfolding chat_event_def chat_run_def by blast
  have one: "chat_move\<^sup>*\<^sup>* s s1 \<and> e \<in> set (outbox s1)
      \<and> (ob_event_type e = ''start_run'' \<longrightarrow> started (runs s1) (workflow_rows s1) run)"
  proof (cases "ob_event_type e = ''start_run'' \<and> r_status r = Queued")
    case True
    with 1 obtain b1 where f: "finish_in_uow fresh now r Failed None None (Some ''workflow_start_exhausted'')
        (Some (safe_error msg 1000)) s = Inr (b1, s1)"
      by (auto simp: ebind_Inr_iff)
    from finish_in_uow_moves [OF f inv lr(1) \<open>chat r\<close>] finish_ends_queue [OF f inv lr(1) \<open>chat r\<close>] True er(1) lr(2)
    show ?thesis by auto
  next
    case False
    then have "s1 = s" using 1 by (simp only: if_False sum.inject)
    moreover have "started (runs s) (workflow_rows s) run" if "ob_event_type e = ''start_run''"
      using False that run_unique [OF inv lr(1)] lr(2) unfolding started_def by metis
    ultimately show ?thesis using er(1) by blast
  qed
  have "delivered ev s1"
    using event_unique [OF moves_inv [OF conjunct1 [OF one] inv] conjunct1 [OF conjunct2 [OF one]]] one er(2,3)
    unfolding delivered_def by (metis option.inject)
  from rtranclp_trans [OF conjunct1 [OF one] mark_dead_letter_moves [OF this]] show ?thesis unfolding s' .
qed

section \<open>Workflow facts\<close>

lemma insert_scheduled_moves:
  assumes "insert_scheduled rec acc conv run wid s = Inr s'" "run \<in> set (map r_run_id (runs s))"
    and "chat_runs s run = Some c" "wid = cr_workflow_id c"
  shows "chat_move\<^sup>*\<^sup>* s s'"
proof (cases "find (\<lambda>e. e_account_id e = acc \<and> e_run_id e = run \<and> e_role e = Root) (executions s)")
  case None
  with assms(1) show ?thesis by (simp add: insert_scheduled_def)
next
  case (Some e)
  let ?w = "\<lparr>wx_record_id = rec, wx_account_id = acc, wx_conversation_id = conv, wx_run_id = run,
                wx_workflow_id = wid, wx_temporal_run_id = None, wx_execution_id = e_execution_id e,
                wx_is_current = True, wx_status = Wf_Scheduled, wx_version = 1, wx_started_at = None,
                wx_closed_at = None\<rparr>"
  from assms(1) Some have new: "\<not> list_ex (\<lambda>w. wx_record_id w = rec \<or> wx_run_id w = run) (workflow_rows s)"
    and eq: "s' = s\<lparr>workflow_rows := workflow_rows s @ [?w]\<rparr>"
    by (simp_all add: insert_scheduled_def res_simps)
  have "chat_move s s'"
    unfolding eq by (rule Schedule [where w = ?w])
      (use new assms(2-4) in \<open>auto simp: same_core_def workflow_shape_def list_ex_iff\<close>)
  then show ?thesis by blast
qed

lemma prepare_start_moves:
  assumes "prepare_start rec run s = Inr (x, s')"
  shows "chat_move\<^sup>*\<^sup>* s s'"
proof (cases "find_run_id s run")
  case None
  with assms show ?thesis by (simp add: prepare_start_def)
next
  case (Some r0)
  then have r0: "run \<in> set (map r_run_id (runs s))"
    unfolding find_run_id_def by (auto dest: find_SomeD)
  from assms Some have "s' = s \<or> (\<exists>acc conv c. chat_runs s run = Some c
      \<and> insert_scheduled rec acc conv run (cr_workflow_id c) s = Inr s')"
    by (auto simp: prepare_start_def res_simps split: option.splits if_splits)
  then show ?thesis using insert_scheduled_moves [OF _ r0] by blast
qed

lemma fact_moves:
  "record_started run temporal now s = Inr (u, s') \<Longrightarrow> chat_move\<^sup>*\<^sup>* s s'"
  "record_cancel_requested run s = Inr (u, s') \<Longrightarrow> chat_move\<^sup>*\<^sup>* s s'"
  "record_temporal_fact run st now s = Inr (u, s') \<Longrightarrow> chat_move\<^sup>*\<^sup>* s s'"
  by (auto simp: record_started_def record_started_row_def record_cancel_requested_def record_cancel_requested_row_def
      record_temporal_fact_def record_terminal_fact_def res_simps intro!: update_current_moves)

section \<open>The commands\<close>

lemma claim_moves:
  assumes "claim env fresh acc oper key payload s = Inr (x, s')"
  shows "idle s s'"
proof -
  from assms obtain row where "command_claim (fresh 0) acc oper key (hash_of env payload) s = Inr (row, s')"
    by (auto simp: claim_def res_simps split: option.splits)
  then show ?thesis by (auto simp: command_claim_def res_simps split: option.splits)
qed

lemma ebind_pair_iff: "ebind m (\<lambda>(a, b). f a b) = Inr y \<longleftrightarrow> (\<exists>a b. m = Inr (a, b) \<and> f a b = Inr y)"
  by (cases m) (auto simp: res_simps)

lemma reply_moves: "reply acc oper key code reused body s = Inr (x, s') \<Longrightarrow> idle s s'"
  by (auto simp: reply_def)

lemma create_conversation_moves:
  assumes "create_conversation env fresh acc key title s = Inr (x, s')"
  shows "chat_move\<^sup>*\<^sup>* s s'"
proof -
  from assms [unfolded create_conversation_def ebind_pair_iff] obtain existing s1 where
    1: "claim env fresh acc ''create_conversation'' key (JObj [(''title'', JStr title)]) s = Inr (existing, s1)"
    and 2: "existing = Some x \<and> s' = s1 \<or> (\<exists>conv row. reply acc ''create_conversation'' key 201 False (Conversation_Body conv row)
               (s1\<lparr>conversations := conversations s1 @ [(acc, conv)],
                   conversation_rows := (conversation_rows s1)((acc, conv) \<mapsto> row)\<rparr>) = Inr (x, s'))"
    by (auto simp: Let_def ensure_Inr_iff split: option.splits)
  have "idle s s'" using 2
  proof (elim disjE exE conjE)
    assume "s' = s1"
    with claim_moves [OF 1] show ?thesis by simp
  next
    fix conv row
    assume "reply acc ''create_conversation'' key 201 False (Conversation_Body conv row)
       (s1\<lparr>conversations := conversations s1 @ [(acc, conv)],
           conversation_rows := (conversation_rows s1)((acc, conv) \<mapsto> row)\<rparr>) = Inr (x, s')"
    from reply_moves [OF this] show ?thesis
      by (rule idle_trans [OF claim_moves [OF 1] idle_trans [rotated]]) simp
  qed
  then show ?thesis by (rule idle_moves)
qed

text \<open>A new Run: the rows it is opened with.\<close>

lemma insert_message_new:
  assumes "insert_message m s = Inr s'"
  shows "s' = s\<lparr>messages := messages s @ [m]\<rparr>"
    "mg_produced_by_run_id m = Some run \<Longrightarrow> replies_of run (messages s) = []"
  using assms by (auto simp: insert_message_def res_simps list_ex_iff replies_of_def filter_empty_conv)

lemma open_run_opens:
  assumes "open_run env fresh acc conv c sequence now s = Inr s'" and inv: "chat_inv s0" and same: "executions s = executions s0"
    and "runs s = runs s0" "chat_runs s = chat_runs s0" "outbox s = outbox s0" "workflow_rows s = workflow_rows s0"
    and "messages s = messages s0 @ us" "list_all (\<lambda>u. mg_produced_by_run_id u = None) us"
    and "cr_workflow_id c = web_workflow_id (fresh 2)"
  shows "chat_move\<^sup>*\<^sup>* s0 s'"
proof -
  let ?run = "fresh 2"
  from assms(1) obtain s1 s2 s3 where
    1: "insert_chat_run (root_of env) ?run acc conv c now s = Inr s1" and
    2: "insert_assistant (fresh 3) acc conv sequence ?run now s1 = Inr s2" and
    3: "create_budget ?run (budget_mode env) (budget_limits env) (final_reserve env) s2 = Inr s3" and
    4: "outbox_enqueue (fresh 4) acc ''start_run'' (start_key ?run) (Some conv) (Some ?run)
       (JObj [(''run_id'', JStr ?run), (''version'', JInt 1)]) now s3 = Inr s'"
    unfolding open_run_def Let_def ebind_Inr_iff enqueue_run_event_def plain_keys(1) by blast
  obtain r x where r: "runs s1 = runs s @ [r]" "chat r" "r_status r = Queued" "r_run_id r = ?run" "r_conversation_id r = Some conv"
    and x: "executions s1 = executions s @ [x]" "root_of_run r x"
    and s1: "chat_runs s1 = (chat_runs s)(?run \<mapsto> c)" "messages s1 = messages s" "outbox s1 = outbox s"
      "workflow_rows s1 = workflow_rows s"
    and new: "\<not> list_ex (\<lambda>r. r_run_id r = ?run) (runs s)" "\<not> list_ex (active_in conv) (runs s)"
    using 1 unfolding insert_chat_run_def ensure_Inr_iff by (auto simp: chat_def root_of_run_def)
  obtain m where m: "s2 = s1\<lparr>messages := messages s1 @ [m]\<rparr>" "mg_produced_by_run_id m = Some ?run" "mg_status m = Msg_Pending"
    "replies_of ?run (messages s1) = []"
    by (rule that [OF insert_message_new(1) [OF 2 [unfolded insert_assistant_def]]])
      (simp_all add: insert_message_new(2) [OF 2 [unfolded insert_assistant_def]])
  have s3: "runs s3 = runs s2" "chat_runs s3 = chat_runs s2" "messages s3 = messages s2" "outbox s3 = outbox s2"
    "workflow_rows s3 = workflow_rows s2" "executions s3 = executions s2"
    using 3 by (auto simp: create_budget_def res_simps)
  have ids: "?run \<notin> set (map r_run_id (runs s0))" using new(1) assms(4) by (auto simp: list_ex_iff)
  have fresh_key: "start_key ?run \<notin> set (map ob_business_key (outbox s0))"
  proof
    assume "start_key ?run \<in> set (map ob_business_key (outbox s0))"
    with inv have "drop 10 (start_key ?run) \<in> set (map r_run_id (runs s0))"
      unfolding chat_inv_def starts_known_def by (metis key_kinds(7))
    with ids show False by (simp add: start_key_def)
  qed
  have events: "outbox s3 = outbox s0" using s3(4) m(1) s1(3) assms(6) by simp
  from 4 obtain e where e: "s' = s3\<lparr>outbox := outbox s3 @ [e]\<rparr>" "ob_business_key e = start_key ?run"
    "plain_event e" "ob_event_id e \<notin> set (map ob_event_id (outbox s0))"
  proof (cases rule: outbox_enqueue_cases)
    case Known
    with fresh_key events show ?thesis by simp
  next
    case (New e)
    have "plain_event e" using New(3-8) by (simp add: plain_event_def event_shape_def start_key_def is_start_key_def)
    with New events show ?thesis by (intro that) simp_all
  qed
  have "run_opens r c us m e s0 s'"
    unfolding run_opens_def
  proof (intro conjI)
    show "\<not> list_ex (\<lambda>x. chat x \<and> r_conversation_id x = r_conversation_id r \<and> r_status x \<in> set ACTIVE) (runs s0)"
      using new(2) assms(4) unfolding list_ex_iff active_in_def chat_def r(5) by metis
    have "executions s' = executions s0 @ [x]" using e(1) s3(6) m(1) x(1) same by simp
    then show "roots_kept s0 s'" "\<exists>x \<in> set (executions s'). root_of_run r x" using x(2) by (auto simp: roots_kept_def)
    show "replies_of (r_run_id r) (messages s0) = []"
      using m(4) by (simp add: r(4) s1(2) assms(8) replies_of_def)
  qed (use r m e s1 s3 ids fresh_key assms(4-10) in simp_all)
  then show ?thesis by (intro r_into_rtranclp Open)
qed

lemma allocate_same:
  assumes "allocate_messages acc conv n s = Inr (k, s')"
  shows "runs s' = runs s" "chat_runs s' = chat_runs s" "outbox s' = outbox s" "workflow_rows s' = workflow_rows s"
    "messages s' = messages s" "executions s' = executions s"
  using assms by (auto simp: allocate_messages_def res_simps Let_def)

lemma then_reply_moves:
  assumes "ebind m (\<lambda>body. reply acc oper key code reused (Run_Body body) s1) = Inr (x, s')" "chat_move\<^sup>*\<^sup>* s s1"
  shows "chat_move\<^sup>*\<^sup>* s s'"
proof -
  from assms(1) obtain body where "reply acc oper key code reused (Run_Body body) s1 = Inr (x, s')"
    by (auto simp: ebind_Inr_iff)
  from rtranclp_trans [OF assms(2) idle_moves [OF reply_moves [OF this]]] show ?thesis .
qed

lemma idle_inv: "idle s s' \<Longrightarrow> chat_inv s \<Longrightarrow> chat_inv s'"
  using moves_inv idle_moves by blast

lemma send_message_moves:
  assumes "send_message env fresh now acc conv key content strategy html s = Inr (x, s')" "chat_inv s"
  shows "chat_move\<^sup>*\<^sup>* s s'"
proof -
  from assms(1) [unfolded send_message_def ensure_Inr_iff ebind_Inr_iff [of "message_request_id env key"] ebind_pair_iff]
  obtain request existing s1 where
    1: "claim env fresh acc ''send_message'' key (send_payload conv content strategy html) s = Inr (existing, s1)"
    and 2: "(case existing of Some r \<Rightarrow> Inr (r, s1)
        | None \<Rightarrow> ensure (lock_active acc conv s1 \<noteq> None) ResourceNotFound
            (case find_initial_by_client_request s1 acc request of
               Some (m, run) \<Rightarrow>
                 ensure (mg_conversation_id m = conv \<and> mg_content m = Some content) IdempotencyConflict
                 (ebind (send_result s1 run) (\<lambda>body.
                  ensure (shown_strategy s1 run = strategy) IdempotencyConflict
                  (reply acc ''send_message'' key 202 False (Run_Body body) s1)))
             | None \<Rightarrow>
                 ebind (admit_in_locked_conversation conv s1) (\<lambda>_.
                 ebind (allocate_messages acc conv 2 s1) (\<lambda>(allocated, s2).
                 let run = fresh 2 in
                 ebind (insert_user (fresh 1) acc conv content (allocated - 1) request now s2) (\<lambda>s3.
                 ebind (open_run env fresh acc conv
                    (build_chat_run (fresh 1) (web_workflow_id run) (allocated - 1) None strategy html
                       (Some (policy_snapshot env))) allocated now s3) (\<lambda>s4.
                 ebind (send_result s4 run) (\<lambda>body.
                   reply acc ''send_message'' key 202 False (Run_Body body) s4)))))) ) = Inr (x, s')"
    by blast
  have i1: "idle s s1" by (rule claim_moves [OF 1])
  have inv1: "chat_inv s1" using idle_inv [OF i1 assms(2)] .
  show ?thesis
  proof (cases existing)
    case (Some r)
    with 2 idle_moves [OF i1] show ?thesis by simp
  next
    case None
    show ?thesis
    proof (cases "find_initial_by_client_request s1 acc request")
      case (Some p)
      from 2 None Some obtain body where "reply acc ''send_message'' key 202 False (Run_Body body) s1 = Inr (x, s')"
        by (auto simp: res_simps split: prod.splits)
      from rtranclp_trans [OF idle_moves [OF i1] idle_moves [OF reply_moves [OF this]]] show ?thesis .
    next
      case fresh_request: None
      from 2 [unfolded None fresh_request option.case ensure_Inr_iff Let_def]
      obtain allocated s2 s3 s4 where
        3: "allocate_messages acc conv 2 s1 = Inr (allocated, s2)"
           "insert_user (fresh 1) acc conv content (allocated - 1) request now s2 = Inr s3"
        and 4: "open_run env fresh acc conv (build_chat_run (fresh 1) (web_workflow_id (fresh 2)) (allocated - 1) None strategy html
                       (Some (policy_snapshot env))) allocated now s3 = Inr s4"
        and 5: "ebind (send_result s4 (fresh 2)) (\<lambda>body. reply acc ''send_message'' key 202 False (Run_Body body) s4) = Inr (x, s')"
        unfolding ebind_pair_iff [of "allocate_messages acc conv 2 s1"] ebind_Inr_iff [of "admit_in_locked_conversation conv s1"]
          ebind_Inr_iff [of "insert_user _ _ _ _ _ _ _ _"] ebind_Inr_iff [of "open_run _ _ _ _ _ _ _ _"] by blast
      note s2 = allocate_same [OF 3(1)]
      obtain u where u: "s3 = s2\<lparr>messages := messages s2 @ [u]\<rparr>" "mg_produced_by_run_id u = None"
        by (rule that [OF insert_message_new(1) [OF 3(2) [unfolded insert_user_def]]]) simp
      have "chat_move\<^sup>*\<^sup>* s1 s4"
        by (rule open_run_opens [OF 4 inv1, where us = "[u]"]) (simp_all add: u s2 build_chat_run_def)
      from then_reply_moves [OF 5 rtranclp_trans [OF idle_moves [OF i1] this]] show ?thesis .
    qed
  qed
qed

lemma retry_run_moves:
  assumes "retry_run env fresh now ready acc source key s = Inr (x, s')" "chat_inv s"
  shows "chat_move\<^sup>*\<^sup>* s s'"
  using assms(1) [unfolded retry_run_def ebind_pair_iff]
proof (elim exE conjE, goal_cases)
  case (1 existing s1)
  have i1: "idle s s1" by (rule claim_moves [OF 1(1)])
  show ?case
  proof (cases existing)
    case (Some r)
    with 1(2) idle_moves [OF i1] show ?thesis by simp
  next
    case None
    note body = 1(2) [unfolded None option.case]
    obtain r where r: "find_run s1 acc source = Some r" using body by (cases "find_run s1 acc source") simp_all
    obtain conv where conv: "r_conversation_id r = Some conv" using body r by (cases "r_conversation_id r") simp_all
    note body' = body [unfolded r conv option.case ensure_Inr_iff Let_def]
    show ?thesis
    proof (cases "direct_retry s1 source")
      case (Some child)
      with body' have "ebind (retry_result s1 source (r_run_id child))
         (\<lambda>body. reply acc ''retry_run'' key 200 True (Run_Body body) s1) = Inr (x, s')" by simp
      from then_reply_moves [OF this idle_moves [OF i1]] show ?thesis .
    next
      case no_child: None
      from body' [unfolded no_child option.case ensure_Inr_iff ebind_Inr_iff need_Inr_iff split_paired_Ex prod.case]
      obtain sequence s2 c s3 shown where "chat_runs s2 source = Some c" and a: "allocate_messages acc conv 1 s1 = Inr (sequence, s2)"
        and o: "open_run env fresh acc conv (build_chat_run (cr_trigger_message_id c) (web_workflow_id (fresh 2))
                  (cr_context_message_seq c) (Some source) (shown_strategy s2 source)
                  (if cr_executor_key c = ''artifact_html'' then Some (cr_input_snapshot c) else None)
                  (Some (policy_snapshot env))) sequence now s2 = Inr s3"
        and reply: "reply acc ''retry_run'' key 202 False (Run_Body shown) s3 = Inr (x, s')"
        by blast
      have "chat_move\<^sup>*\<^sup>* s1 s3"
        by (rule open_run_opens [OF o idle_inv [OF i1 assms(2)], where us = "[]"])
          (simp_all add: allocate_same [OF a] build_chat_run_def)
      then have "chat_move\<^sup>*\<^sup>* s s3" by (rule rtranclp_trans [OF idle_moves [OF i1]])
      from rtranclp_trans [OF this idle_moves [OF reply_moves [OF reply]]] show ?thesis .
    qed
  qed
qed

lemma cancelled_approvals_moves:
  "enqueue_cancelled_approvals env evs acc conv run now as s = Inr s' \<Longrightarrow> chat_move\<^sup>*\<^sup>* s s'"
proof (induction env evs acc conv run now as s rule: enqueue_cancelled_approvals.induct)
  case (1 env ev evs acc conv run now a as s)
  from 1(2) obtain s1 where
    e: "outbox_enqueue ev acc ''file_action_approval_decided'' (''file-approval:'' @ fa_approval_id a @ '':cancelled'') conv (Some run)
          (JObj [(''approval_id'', JStr (fa_approval_id a)), (''operation_id'', JStr (fa_operation_id a)),
                 (''tool_execution_workflow_id'', JStr (tool_execution_workflow_id (workflow_hex env) run (fa_operation_id a))),
                 (''version'', JInt 1)]) now s = Inr s1"
    and r: "enqueue_cancelled_approvals env evs acc conv run now as s1 = Inr s'"
    by (auto simp: ebind_Inr_iff)
  have "chat_move\<^sup>*\<^sup>* s s1"
    using e by (rule enqueue_moves) (simp_all only: plain_keys, simp_all)
  from rtranclp_trans [OF this 1(1) [OF r]] show ?case .
qed simp_all

lemma request_cancel_moves:
  assumes "request_cancel env fresh now acc r s = Inr s'"
  shows "chat_move\<^sup>*\<^sup>* s s'"
proof -
  from assms [unfolded request_cancel_def Let_def ebind_Inr_iff] obtain s1 s2 as evs where
    1: "set_cancelling (r_run_id r) s = Inr s1"
    and 2: "enqueue_cancelled_approvals env evs acc (r_conversation_id r) (r_run_id r) now as (s1\<lparr>approval_rows :=
        update_where (pending_approval acc (r_run_id r)) (\<lambda>a. a\<lparr>fa_status := ''cancelled''\<rparr>) (approval_rows s1)\<rparr>) = Inr s2"
    and 3: "enqueue_run_event (fresh 2) acc (r_conversation_id r) (r_run_id r) ''cancel_run'' now s2 = Inr s'"
    by blast
  have "chat_move\<^sup>*\<^sup>* s s1" using set_cancelling_moved [OF 1] advance_moves by blast
  moreover have "chat_move\<^sup>*\<^sup>* s1 (s1\<lparr>approval_rows :=
        update_where (pending_approval acc (r_run_id r)) (\<lambda>a. a\<lparr>fa_status := ''cancelled''\<rparr>) (approval_rows s1)\<rparr>)"
    by (rule idle_moves) simp
  moreover have "chat_move\<^sup>*\<^sup>* s2 s'"
    using 3 [unfolded enqueue_run_event_def] by (rule enqueue_moves) (simp_all only: plain_keys, simp_all)
  ultimately show ?thesis using cancelled_approvals_moves [OF 2] by (meson rtranclp_trans)
qed

lemma cancel_run_moves:
  assumes "cancel_run env fresh now acc run key s = Inr (x, s')" "chat_inv s" "chat_run s run"
  shows "chat_move\<^sup>*\<^sup>* s s'"
  using assms(1) [unfolded cancel_run_def ebind_pair_iff]
proof (elim exE conjE, goal_cases)
  case (1 existing s1)
  have i1: "idle s s1" by (rule claim_moves [OF 1(1)])
  show ?case
  proof (cases existing)
    case (Some r)
    with 1(2) idle_moves [OF i1] show ?thesis by simp
  next
    case None
    note body = 1(2) [unfolded None option.case ebind_Inr_iff [of "lock s1 acc run"] ensure_Inr_iff]
    then obtain r where r: "lock s1 acc run = Inr r" and b: "(if r_status r = Cancelled then
              ebind (cancel_result s1 run Cancelled) (\<lambda>body.
                reply acc ''cancel_run'' key 200 False (Run_Body body) s1)
            else
              (let s2 = record_cancel_control acc run key s1 in
               if r_status r = Queued \<and> \<not> has_current s2 run then
                 ebind (need (RuntimeError ''NoneType'') (find_run s2 acc run)) (\<lambda>r2.
                 ebind (finish_in_uow (\<lambda>n. fresh (n + 1)) now r2 Cancelled None None None None s2) (\<lambda>(_, s3).
                 ebind (cancel_result s3 run Cancelled) (\<lambda>body.
                   reply acc ''cancel_run'' key 200 False (Run_Body body) s3)))
               else
                 ebind (request_cancel env fresh now acc r s2) (\<lambda>s3.
                 ebind (cancel_result s3 run Cancelling) (\<lambda>body.
                   reply acc ''cancel_run'' key 202 False (Run_Body body) s3)))) = Inr (x, s')"
      by blast
    let ?s2 = "record_cancel_control acc run key s1"
    have i2: "idle s ?s2" by (rule idle_trans [OF i1]) simp
    show ?thesis
    proof (cases "r_status r = Cancelled")
      case True
      with b then_reply_moves [OF _ idle_moves [OF i1]] show ?thesis by simp
    next
      case not_cancelled: False
      show ?thesis
      proof (cases "r_status r = Queued \<and> \<not> has_current ?s2 run")
        case True
        with b not_cancelled obtain r2 u s3 where r2: "find_run ?s2 acc run = Some r2"
          and f: "finish_in_uow (\<lambda>n. fresh (n + 1)) now r2 Cancelled None None None None ?s2 = Inr (u, s3)"
          and e: "ebind (cancel_result s3 run Cancelled) (\<lambda>body. reply acc ''cancel_run'' key 200 False (Run_Body body) s3) = Inr (x, s')"
          by (auto simp: Let_def ebind_pair_iff ebind_Inr_iff [of "need _ _"] need_Inr_iff)
        have m: "r2 \<in> set (runs ?s2)" "r_run_id r2 = run" using r2 by (auto simp: find_run_def dest: find_SomeD)
        with assms(3) i2 have "chat r2" unfolding chat_run_def idle_def by metis
        from finish_in_uow_moves [OF f idle_inv [OF i2 assms(2)] m(1) this]
        show ?thesis by (intro then_reply_moves [OF e] rtranclp_trans [OF idle_moves [OF i2]])
      next
        case False
        with b not_cancelled obtain s3 where q: "request_cancel env fresh now acc r ?s2 = Inr s3"
          and e: "ebind (cancel_result s3 run Cancelling) (\<lambda>body. reply acc ''cancel_run'' key 202 False (Run_Body body) s3) = Inr (x, s')"
          by (auto simp: Let_def ebind_Inr_iff [of "request_cancel _ _ _ _ _ _"])
        from request_cancel_moves [OF q]
        show ?thesis by (intro then_reply_moves [OF e] rtranclp_trans [OF idle_moves [OF i2]])
      qed
    qed
  qed
qed

end
