(* ===== verification/Chat_Runs.thy ===== *)
theory Chat_Runs
  imports Chat_Transactions
begin

text \<open>
  The conversations over time: \<open>chat_step\<close> is any transaction of any surface, worker, dispatcher or reconciler on
  the Runs of a conversation, with any arguments, any clock and any fresh identifiers, in any order. A transaction
  that raises is rolled back and is no step. The properties speak of the states that any number of steps reaches.
\<close>

section \<open>Steps\<close>

lemma filter_key_distinct:
  "distinct (map f xs) \<Longrightarrow> x \<in> set xs \<Longrightarrow> filter (\<lambda>y. f y = f x) xs = [x]"
  by (induction xs) (auto simp: filter_empty_conv, metis image_eqI)

text \<open>\<open>Settle\<close>: a dispatcher marks a start event as processed once its Run was started (\<open>prepare_start_delivers\<close>).
  \<open>Outside\<close>: the other components, which leave the tables of the conversations alone and move Runs only along the
  transitions of the code.\<close>

inductive chat_step :: "'a chat_db_scheme \<Rightarrow> 'a chat_db_scheme \<Rightarrow> bool" where
  Create: "create_conversation env fresh acc key title s = Inr (x, s') \<Longrightarrow> chat_step s s'"
| Send: "send_message env fresh now acc conv key content strategy html s = Inr (x, s') \<Longrightarrow> chat_step s s'"
| Retry: "retry_run env fresh now ready acc source key s = Inr (x, s') \<Longrightarrow> chat_step s s'"
| Cancel: "cancel_run env fresh now acc run key s = Inr (x, s') \<Longrightarrow> chat_run s run \<Longrightarrow> chat_step s s'"
| Prepare: "prepare run wid temporal now s = Inr (st, s') \<Longrightarrow> chat_step s s'"
| Complete: "complete fresh now run content receipt rejected accepted s = Inr (st, s') \<Longrightarrow> chat_run s run \<Longrightarrow> chat_step s s'"
| Fail: "finalize_failed fresh now run code msg s = Inr (st, s') \<Longrightarrow> chat_run s run \<Longrightarrow> chat_step s s'"
| Stop: "finalize_cancelled fresh now run s = Inr (st, s') \<Longrightarrow> chat_run s run \<Longrightarrow> chat_step s s'"
| Finish: "finish fresh now acc run st content result code msg s = Inr (b, s') \<Longrightarrow> chat_run s run \<Longrightarrow> chat_step s s'"
| Claim: "outbox_claim worker types skipped limit now s = Inr (es, s') \<Longrightarrow> chat_step s s'"
| Recover: "recover_expired older types now s = Inr (n, s') \<Longrightarrow> chat_step s s'"
| Settle: "mark_processed ev worker now s = Inr (b, s') \<Longrightarrow> delivered ev s \<Longrightarrow> chat_step s s'"
| Retry_Later: "mark_retryable_failure ev worker code msg next_at s = Inr (b, s') \<Longrightarrow> chat_step s s'"
| Give_Up: "dead_letter fresh now ev worker code msg s = Inr (b, s') \<Longrightarrow> chat_event s ev \<Longrightarrow> chat_step s s'"
| Start: "prepare_start rec run s = Inr (w, s') \<Longrightarrow> chat_step s s'"
| Started: "record_started run temporal now s = Inr (u, s') \<Longrightarrow> chat_step s s'"
| Cancelling_Asked: "record_cancel_requested run s = Inr (u, s') \<Longrightarrow> chat_step s s'"
| Closed: "record_temporal_fact run ws now s = Inr (u, s') \<Longrightarrow> chat_step s s'"
| Outside: "same_chat_tables s s' \<Longrightarrow> moved_runs (runs s) (runs s') \<Longrightarrow> chat_step s s'"

lemmas command_moves = create_conversation_moves send_message_moves retry_run_moves cancel_run_moves
lemmas lifecycle_moves = prepare_moves complete_moves finalize_failed_moves finalize_cancelled_moves finish_moves
lemmas outbox_moves = outbox_claim_moves recover_expired_moves mark_processed_moves mark_retryable_moves dead_letter_moves
lemmas workflow_moves = prepare_start_moves fact_moves

lemma step_moves:
  assumes "chat_step s s'" and "chat_inv s"
  shows "chat_move\<^sup>*\<^sup>* s s'"
  using assms
proof (induction rule: chat_step.induct)
  case (Outside s s')
  show ?case by (rule advance_moves [OF Outside(1,2)])
qed (erule command_moves lifecycle_moves outbox_moves workflow_moves; assumption)+

lemma steps_moves:
  assumes "chat_step\<^sup>*\<^sup>* s s'" "chat_inv s"
  shows "chat_move\<^sup>*\<^sup>* s s' \<and> chat_inv s'"
  using assms(1)
proof (induction rule: rtranclp_induct)
  case (step t t')
  then have "chat_move\<^sup>*\<^sup>* t t'" using step_moves by blast
  with step.IH show ?case using moves_inv by (meson rtranclp_trans)
qed (use assms(2) in simp)

definition event_keys :: "'a chat_db_scheme \<Rightarrow> string list" where
  "event_keys s = map ob_business_key (outbox s)"

lemma chat_invD:
  assumes "chat_inv s"
  shows "runs_ok (runs s) (chat_runs s)" "replies_ok (runs s) (messages s)" "ends_ok (runs s) (event_keys s)"
    "starts_known (runs s) (event_keys s)" "events_ok (outbox s)" "starts_ok (runs s) (outbox s) (workflow_rows s)"
    "workflows_ok (runs s) (chat_runs s) (workflow_rows s)"
  using assms by (simp_all add: chat_inv_def event_keys_def)

lemma terminal_events:
  assumes inv: "chat_inv s" and r: "r \<in> set (runs s)" "chat r" and st: "st \<in> set TERMINAL"
  shows "terminal_key (r_run_id r) st \<in> set (event_keys s) \<longleftrightarrow> r_status r = st"
proof
  assume "terminal_key (r_run_id r) st \<in> set (event_keys s)"
  then obtain x where x: "x \<in> set (runs s)" "r_status x \<in> set TERMINAL"
    "terminal_key (r_run_id r) st = terminal_key (r_run_id x) (r_status x)"
    using chat_invD(3) [OF inv] key_kinds(1) unfolding ends_ok_def by metis
  from terminal_key_inject [OF x(3) st x(2)] run_unique [OF inv r(1) x(1)] show "r_status r = st" by metis
qed (use chat_invD(3) [OF inv] r st in \<open>auto simp: ends_ok_def\<close>)

lemma retain_events:
  assumes inv: "chat_inv s" and r: "r \<in> set (runs s)" "chat r"
  shows "retain_key (r_run_id r) \<in> set (event_keys s) \<longleftrightarrow> r_status r = Succeeded"
proof
  assume "retain_key (r_run_id r) \<in> set (event_keys s)"
  then obtain x where x: "x \<in> set (runs s)" "r_status x = Succeeded" "retain_key (r_run_id r) = retain_key (r_run_id x)"
    using chat_invD(3) [OF inv] key_kinds(4) unfolding ends_ok_def by metis
  with run_unique [OF inv r(1) x(1)] show "r_status r = Succeeded" by (metis retain_key_inject)
qed (use chat_invD(3) [OF inv] r in \<open>auto simp: ends_ok_def\<close>)

section \<open>Properties\<close>

text \<open>C1. Every transaction of the code on the Runs of the conversations refines the abstract conversation: it is
  a sequence of the moves of \<open>chat_move\<close> (a Run advances, a Run ends with its reply and events at once, an event
  changes hands, a fact is recorded, a Workflow is scheduled, an event is added, a Run is opened whole).\<close>

theorem transactions_refine_moves:
  assumes "chat_step\<^sup>*\<^sup>* s s'" and "chat_inv s"
  shows "chat_move\<^sup>*\<^sup>* s s'"
  using steps_moves [OF assms] by blast

text \<open>C2. A Run, its reply and its events always agree: whatever transactions run in whatever order, a chat Run
  has exactly one reply, whose status is the one its own status calls for; a terminal event is in the outbox for the
  status it ended with and for no other, and its memory is retained exactly when it succeeded; and no event
  is there twice.\<close>

theorem run_reply_and_events_agree:
  assumes "chat_step\<^sup>*\<^sup>* s s'" and "chat_inv s" and "r \<in> set (runs s')" and "chat r"
  shows "map mg_status (filter (\<lambda>m. mg_produced_by_run_id m = Some (r_run_id r)) (messages s')) = [reply_status (r_status r)]
    \<and> (\<forall>st \<in> {Succeeded, Failed, Cancelled}. terminal_key (r_run_id r) st \<in> set (event_keys s') \<longleftrightarrow> r_status r = st)
    \<and> (retain_key (r_run_id r) \<in> set (event_keys s') \<longleftrightarrow> r_status r = Succeeded)
    \<and> distinct (event_keys s')"
proof -
  have inv: "chat_inv s'" using steps_moves [OF assms(1,2)] by blast
  have "map mg_status (replies_of (r_run_id r) (messages s')) = [reply_status (r_status r)]"
    using chat_invD(2) [OF inv] assms(3,4) by (simp add: replies_ok_def)
  moreover have "distinct (event_keys s')" using chat_invD(5) [OF inv] by (simp add: events_ok_def event_keys_def)
  moreover have "\<forall>st \<in> {Succeeded, Failed, Cancelled}. terminal_key (r_run_id r) st \<in> set (event_keys s') \<longleftrightarrow> r_status r = st"
    using terminal_events [OF inv assms(3,4)] terminals(1) by blast
  ultimately show ?thesis using retain_events [OF inv assms(3,4)] unfolding replies_of_def by blast
qed

text \<open>C9. A Run that ended stays as it ended: its status never changes again and neither does its reply, its text
  included, whatever is delivered, retried, recovered or cancelled afterwards.\<close>

theorem ended_run_is_final:
  assumes "chat_step\<^sup>*\<^sup>* s s'" and "chat_inv s" and "r \<in> set (runs s)" and "chat r"
    and "r_status r \<in> {Succeeded, Failed, Cancelled}"
  shows "(\<exists>r' \<in> set (runs s'). r_run_id r' = r_run_id r \<and> r_status r' = r_status r)
    \<and> filter (\<lambda>m. mg_produced_by_run_id m = Some (r_run_id r)) (messages s')
      = filter (\<lambda>m. mg_produced_by_run_id m = Some (r_run_id r)) (messages s)"
proof -
  have "stands (r_run_id r) (r_status r) s" using assms(3,4) unfolding stands_def by blast
  moreover have "r_status r \<in> set TERMINAL" using assms(5) terminals(1) by blast
  ultimately show ?thesis
    using moves_final [OF conjunct1 [OF steps_moves [OF assms(1,2)]] assms(2)] unfolding stands_def replies_of_def by blast
qed

text \<open>C8. A cancellation that was accepted wins: a Run that is being cancelled, or was, can only end as cancelled. It
  never succeeds and never fails, no such event is ever sent and its memory is never retained, however late its
  Workflow completes.\<close>

theorem cancelled_run_never_succeeds:
  assumes "chat_step\<^sup>*\<^sup>* s s'" and "chat_inv s" and "r \<in> set (runs s)" and "chat r" and "r_status r = Cancelling"
  shows "\<exists>r' \<in> set (runs s'). r_run_id r' = r_run_id r \<and> r_status r' \<in> {Cancelling, Cancelled}
    \<and> terminal_key (r_run_id r) Succeeded \<notin> set (event_keys s') \<and> terminal_key (r_run_id r) Failed \<notin> set (event_keys s')
    \<and> retain_key (r_run_id r) \<notin> set (event_keys s')"
proof -
  have inv: "chat_inv s'" and moves: "chat_move\<^sup>*\<^sup>* s s'" using steps_moves [OF assms(1,2)] by blast+
  have "stands (r_run_id r) Cancelling s" using assms(3-5) unfolding stands_def by blast
  from moves_stands [OF moves this] obtain st where "stands (r_run_id r) st s'" "st \<in> {Cancelling, Cancelled}"
    using transitions_from(2) by blast
  then obtain r' where r': "r' \<in> set (runs s')" "chat r'" "r_run_id r' = r_run_id r" "r_status r' \<in> {Cancelling, Cancelled}"
    unfolding stands_def by blast
  have "Succeeded \<in> set TERMINAL" "Failed \<in> set TERMINAL" by (simp_all add: TERMINAL_def)
  note none = this [THEN terminal_events [OF inv r'(1,2)]] retain_events [OF inv r'(1,2)]
  have "r_status r' \<noteq> Succeeded" "r_status r' \<noteq> Failed" using r'(4) by auto
  with r'(1,3,4) none show ?thesis by metis
qed

text \<open>C7. No queued Run is lost: as long as a chat Run is queued, its start event is in the outbox, waiting or in the
  hands of a worker, or its Workflow is recorded.\<close>

theorem queued_run_is_not_lost:
  assumes "chat_step\<^sup>*\<^sup>* s s'" and "chat_inv s" and "r \<in> set (runs s')" and "chat r" and "r_status r = Queued"
  shows "(\<exists>e \<in> set (outbox s'). ob_event_type e = ''start_run'' \<and> ob_run_id e = Some (r_run_id r)
        \<and> ob_status e \<in> {Outbox_Pending, Processing})
    \<or> (\<exists>w \<in> set (workflow_rows s'). wx_run_id w = r_run_id r)"
proof -
  have inv: "chat_inv s'" using steps_moves [OF assms(1,2)] by blast
  have "list_ex (waiting_start (r_run_id r)) (outbox s') \<or> list_ex (\<lambda>w. wx_run_id w = r_run_id r) (workflow_rows s')"
    using chat_invD(6) [OF inv] assms(3-5) unfolding starts_ok_def by blast
  moreover have "ob_event_type e = ''start_run'' \<and> ob_run_id e = Some (r_run_id r)"
    if e: "e \<in> set (outbox s')" "waiting_start (r_run_id r) e" for e
  proof -
    have "event_shape e" using chat_invD(5) [OF inv] e(1) by (simp add: events_ok_def)
    with e(2) key_kinds(7) show ?thesis unfolding event_shape_def waiting_start_def by (auto simp: start_key_def)
  qed
  ultimately show ?thesis unfolding list_ex_iff waiting_start_def by blast
qed

text \<open>C10. A conversation has at most one chat Run that is not ended, and a Run at most one Workflow, whose
  identifier is the one derived from the Run: a second delivery of its start meets the Workflow of the first.\<close>

theorem one_active_run_and_one_workflow:
  assumes "chat_step\<^sup>*\<^sup>* s s'" and "chat_inv s"
  shows "(\<forall>r \<in> set (runs s'). \<forall>q \<in> set (runs s'). chat r \<longrightarrow> chat q \<longrightarrow> r_conversation_id r = r_conversation_id q
      \<longrightarrow> r_status r \<in> {Queued, Running, Cancelling} \<longrightarrow> r_status q \<in> {Queued, Running, Cancelling} \<longrightarrow> r = q)
    \<and> (\<forall>r \<in> set (runs s'). \<forall>w \<in> set (workflow_rows s'). chat r \<longrightarrow> wx_run_id w = r_run_id r
      \<longrightarrow> wx_workflow_id w = web_workflow_id (r_run_id r) \<and> filter (\<lambda>v. wx_run_id v = r_run_id r) (workflow_rows s') = [w])"
proof (intro conjI ballI impI)
  have inv: "chat_inv s'" using steps_moves [OF assms] by blast
  show "r = q" if "r \<in> set (runs s')" "q \<in> set (runs s')" "chat r" "chat q" "r_conversation_id r = r_conversation_id q"
      "r_status r \<in> {Queued, Running, Cancelling}" "r_status q \<in> {Queued, Running, Cancelling}" for r q
    using chat_invD(1) [OF inv] run_unique [OF inv] that unfolding runs_ok_def terminals(2) by metis
  fix r w assume h: "r \<in> set (runs s')" "w \<in> set (workflow_rows s')" "chat r" "wx_run_id w = r_run_id r"
  have "named_workflow (chat_runs s') (r_run_id r)" using chat_invD(1) [OF inv] h(1,3) by (simp add: runs_ok_def)
  moreover have "workflow_shape (runs s') (chat_runs s') (wx_run_id w) (wx_is_current w) (wx_workflow_id w)"
    using chat_invD(7) [OF inv] h(2) by (simp add: workflows_ok_def)
  ultimately show "wx_workflow_id w = web_workflow_id (r_run_id r)"
    unfolding h(4) named_workflow_def workflow_shape_def by (auto split: option.splits)
  have "distinct (map wx_run_id (workflow_rows s'))" using chat_invD(7) [OF inv] by (simp add: workflows_ok_def)
  with h(2,4) show "filter (\<lambda>v. wx_run_id v = r_run_id r) (workflow_rows s') = [w]"
    using filter_key_distinct by metis
qed

end
