(* ===== verification/Dispatch_Laws.thy ===== *)
theory Dispatch_Laws
  imports Chat_Runs Chat_Dispatch
begin

text \<open>
  The workers of \<open>Chat_Dispatch\<close> only do what \<open>chat_step\<close> allows: a round of the dispatcher or of the reconciler is a
  sequence of steps, whatever Temporal answers, wherever the worker dies and whatever the others do in between.
  This discharges the condition of \<open>Settle\<close>: a start event is marked as processed only after its Run was started.
  \<open>job_ok P p Q\<close> says that \<open>p\<close>, run where \<open>P\<close> holds of the database, takes steps only, calls only the Workflows of
  the Runs it is about, and ends where \<open>Q\<close> holds, if it returns.
\<close>

section \<open>Jobs\<close>

definition sound_db :: "chat_db \<Rightarrow> bool" where
  "sound_db s \<longleftrightarrow> chat_inv s \<and> rooted s \<and> all_chat s"

lemma steps_sound:
  assumes "chat_step\<^sup>*\<^sup>* s s'" "sound_db s"
  shows "sound_db s'" "chat_move\<^sup>*\<^sup>* s s'"
  using steps_moves [OF assms(1)] moves_keep(1,2) assms(2) unfolding sound_db_def by blast+

text \<open>The others take steps.\<close>

definition others_step :: "'x job_env \<Rightarrow> bool" where
  "others_step env \<longleftrightarrow> (\<forall>x s lives x' s'. je_others env x s = (lives, x', s') \<longrightarrow> sound_db s \<longrightarrow> chat_step\<^sup>*\<^sup>* s s')"

definition own_start :: "temporal_call \<Rightarrow> bool" where
  "own_start c \<longleftrightarrow> (case c of Start_Call wid run \<Rightarrow> wid = web_workflow_id run | _ \<Rightarrow> True)"

definition steps_keep :: "(chat_db \<Rightarrow> bool) \<Rightarrow> bool" where
  "steps_keep P \<longleftrightarrow> (\<forall>s s'. sound_db s \<longrightarrow> P s \<longrightarrow> chat_step\<^sup>*\<^sup>* s s' \<longrightarrow> P s')"

lemma keepD: "steps_keep P \<Longrightarrow> sound_db s \<Longrightarrow> P s \<Longrightarrow> chat_step\<^sup>*\<^sup>* s s' \<Longrightarrow> P s'"
  unfolding steps_keep_def by (elim allE [of _ s] allE [of _ s']) simp

definition job_ok :: "(chat_db \<Rightarrow> bool) \<Rightarrow> ('x, 'a) job \<Rightarrow> ('a \<Rightarrow> chat_db \<Rightarrow> bool) \<Rightarrow> bool" where
  "job_ok P p Q \<longleftrightarrow> (\<forall>w r w'. sound_db (jw_db w) \<longrightarrow> P (jw_db w) \<longrightarrow> p w = (r, w') \<longrightarrow>
     chat_step\<^sup>*\<^sup>* (jw_db w) (jw_db w') \<and> (\<exists>cs. jw_log w' = jw_log w @ cs \<and> list_all own_start cs)
     \<and> (case r of Job_Done a \<Rightarrow> Q a (jw_db w') | _ \<Rightarrow> True))"

lemma job_okI:
  assumes "\<And>w r w'. sound_db (jw_db w) \<Longrightarrow> P (jw_db w) \<Longrightarrow> p w = (r, w') \<Longrightarrow>
     chat_step\<^sup>*\<^sup>* (jw_db w) (jw_db w') \<and> (\<exists>cs. jw_log w' = jw_log w @ cs \<and> list_all own_start cs)
     \<and> (case r of Job_Done a \<Rightarrow> Q a (jw_db w') | _ \<Rightarrow> True)"
  shows "job_ok P p Q"
  using assms unfolding job_ok_def by blast

lemma job_okD:
  assumes "job_ok P p Q" "sound_db (jw_db w)" "P (jw_db w)" "p w = (r, w')"
  shows "chat_step\<^sup>*\<^sup>* (jw_db w) (jw_db w')" "\<exists>cs. jw_log w' = jw_log w @ cs \<and> list_all own_start cs"
    "r = Job_Done a \<Longrightarrow> Q a (jw_db w')" "sound_db (jw_db w')"
proof -
  have *: "chat_step\<^sup>*\<^sup>* (jw_db w) (jw_db w') \<and> (\<exists>cs. jw_log w' = jw_log w @ cs \<and> list_all own_start cs)
     \<and> (case r of Job_Done a \<Rightarrow> Q a (jw_db w') | _ \<Rightarrow> True)"
    using assms unfolding job_ok_def by blast
  then show "chat_step\<^sup>*\<^sup>* (jw_db w) (jw_db w')" "\<exists>cs. jw_log w' = jw_log w @ cs \<and> list_all own_start cs"
    "r = Job_Done a \<Longrightarrow> Q a (jw_db w')" by auto
  from steps_sound(1) [OF conjunct1 [OF *] assms(2)] show "sound_db (jw_db w')" .
qed

lemma logs_append:
  assumes "\<exists>cs. l' = l @ cs \<and> list_all own_start cs" "\<exists>cs. l'' = l' @ cs \<and> list_all own_start cs"
  shows "\<exists>cs. l'' = l @ cs \<and> list_all own_start cs"
  using assms by (metis append.assoc list_all_append)

lemma ok_return: "(\<And>s. P s \<Longrightarrow> Q a s) \<Longrightarrow> job_ok P (job_return a) Q"
  by (rule job_okI) (auto simp: job_return_def)

lemma ok_raise: "job_ok P (job_raise e) Q"
  by (rule job_okI) (auto simp: job_raise_def)

lemma ok_bind:
  assumes p: "job_ok P p R" and k: "\<And>a. job_ok (R a) (k a) Q"
  shows "job_ok P (job_bind p k) Q"
proof (rule job_okI)
  fix w r w' assume w: "sound_db (jw_db w)" "P (jw_db w)" "job_bind p k w = (r, w')"
  obtain r1 w1 where 1: "p w = (r1, w1)" by (cases "p w")
  note d = job_okD [OF p w(1,2) 1]
  show "chat_step\<^sup>*\<^sup>* (jw_db w) (jw_db w') \<and> (\<exists>cs. jw_log w' = jw_log w @ cs \<and> list_all own_start cs)
     \<and> (case r of Job_Done a \<Rightarrow> Q a (jw_db w') | _ \<Rightarrow> True)"
  proof (cases r1)
    case (Job_Done a)
    then have 2: "k a w1 = (r, w')" using w(3) 1 by (simp add: job_bind_def)
    note d' = job_okD [OF k d(4) d(3) [OF Job_Done] 2]
    from rtranclp_trans [OF d(1) d'(1)] logs_append [OF d(2) d'(2)] d'(3) show ?thesis by (cases r) auto
  qed (use w(3) 1 d in \<open>auto simp: job_bind_def\<close>)
qed

lemma ok_catch:
  assumes p: "job_ok P p Q" and h: "\<And>e. job_ok P (h e) Q" and "steps_keep P"
  shows "job_ok P (job_catch p h) Q"
proof (rule job_okI)
  fix w r w' assume w: "sound_db (jw_db w)" "P (jw_db w)" "job_catch p h w = (r, w')"
  obtain r1 w1 where 1: "p w = (r1, w1)" by (cases "p w")
  note d = job_okD [OF p w(1,2) 1]
  show "chat_step\<^sup>*\<^sup>* (jw_db w) (jw_db w') \<and> (\<exists>cs. jw_log w' = jw_log w @ cs \<and> list_all own_start cs)
     \<and> (case r of Job_Done a \<Rightarrow> Q a (jw_db w') | _ \<Rightarrow> True)"
  proof (cases r1)
    case (Job_Raised e)
    then have 2: "h e w1 = (r, w')" using w(3) 1 by (simp add: job_catch_def)
    have "P (jw_db w1)" by (rule keepD [OF assms(3) w(1,2) d(1)])
    note d' = job_okD [OF h d(4) this 2]
    from rtranclp_trans [OF d(1) d'(1)] logs_append [OF d(2) d'(2)] d'(3) show ?thesis by (cases r) auto
  qed (use w(3) 1 d in \<open>auto simp: job_catch_def\<close>)
qed

lemma ok_weaken: "job_ok P p Q \<Longrightarrow> (\<And>s. P' s \<Longrightarrow> P s) \<Longrightarrow> (\<And>a s. Q a s \<Longrightarrow> Q' a s) \<Longrightarrow> job_ok P' p Q'"
  unfolding job_ok_def by (fastforce split: job_end.splits)

text \<open>A fact that the steps keep is there afterwards.\<close>

lemma ok_keep:
  assumes "job_ok P p Q" "steps_keep S"
  shows "job_ok (\<lambda>s. P s \<and> S s) p (\<lambda>a s. Q a s \<and> S s)"
proof (rule job_okI)
  fix w r w' assume w: "sound_db (jw_db w)" "P (jw_db w) \<and> S (jw_db w)" "p w = (r, w')"
  note d = job_okD [OF assms(1) w(1) conjunct1 [OF w(2)] w(3)]
  have "S (jw_db w')" by (rule keepD [OF assms(2) w(1) conjunct2 [OF w(2)] d(1)])
  with d show "chat_step\<^sup>*\<^sup>* (jw_db w) (jw_db w') \<and> (\<exists>cs. jw_log w' = jw_log w @ cs \<and> list_all own_start cs)
     \<and> (case r of Job_Done a \<Rightarrow> Q a (jw_db w') \<and> S (jw_db w') | _ \<Rightarrow> True)" by (cases r) auto
qed

lemma ok_pause:
  assumes "others_step env" "steps_keep P"
  shows "job_ok P (job_pause env) (\<lambda>_. P)"
proof (rule job_okI)
  fix w r w' assume w: "sound_db (jw_db w)" "P (jw_db w)" "job_pause env w = (r, w')"
  obtain lives x db where o': "je_others env (jw_ext w) (jw_db w) = (lives, x, db)" by (cases "je_others env (jw_ext w) (jw_db w)")
  with assms(1) w(1) have s: "chat_step\<^sup>*\<^sup>* (jw_db w) db" unfolding others_step_def by blast
  then have "P db" by (rule keepD [OF assms(2) w(1,2)])
  with s w(3) o' show "chat_step\<^sup>*\<^sup>* (jw_db w) (jw_db w') \<and> (\<exists>cs. jw_log w' = jw_log w @ cs \<and> list_all own_start cs)
     \<and> (case r of Job_Done a \<Rightarrow> P (jw_db w') | _ \<Rightarrow> True)" by (auto simp: job_pause_def)
qed

lemma ok_commit:
  assumes "\<And>now fresh s a s'. sound_db s \<Longrightarrow> P s \<Longrightarrow> f now fresh s = Inr (a, s') \<Longrightarrow> chat_step\<^sup>*\<^sup>* s s' \<and> Q a s'"
  shows "job_ok P (job_commit env f) Q"
proof (rule job_okI)
  fix w r w' assume w: "sound_db (jw_db w)" "P (jw_db w)" "job_commit env f w = (r, w')"
  show "chat_step\<^sup>*\<^sup>* (jw_db w) (jw_db w') \<and> (\<exists>cs. jw_log w' = jw_log w @ cs \<and> list_all own_start cs)
     \<and> (case r of Job_Done a \<Rightarrow> Q a (jw_db w') | _ \<Rightarrow> True)"
  proof (cases "f (je_clock env (jw_ext w)) (je_fresh env (jw_ext w)) (jw_db w)")
    case (Inl e)
    with w(3) show ?thesis by (auto simp: job_commit_def)
  next
    case (Inr y)
    obtain a s' where y: "y = (a, s')" by (cases y)
    from assms [OF w(1,2) Inr [unfolded y]] w(3) Inr y show ?thesis by (auto simp: job_commit_def)
  qed
qed

lemma ok_tx:
  assumes "others_step env" "steps_keep P"
    and "\<And>now fresh s a s'. sound_db s \<Longrightarrow> P s \<Longrightarrow> f now fresh s = Inr (a, s') \<Longrightarrow> chat_step\<^sup>*\<^sup>* s s' \<and> Q a s'"
  shows "job_ok P (job_tx env f) Q"
  unfolding job_tx_def by (rule ok_bind [OF ok_pause [OF assms(1,2)]], rule ok_commit, rule assms(3))

lemma ok_call: "list_all own_start note \<Longrightarrow> job_ok P (job_call note f) (\<lambda>_. P)"
  by (rule job_okI) (auto simp: job_call_def split: prod.splits sum.splits)

lemma ok_rpc: "others_step env \<Longrightarrow> steps_keep P \<Longrightarrow> list_all own_start note \<Longrightarrow> job_ok P (job_rpc env note f) (\<lambda>_. P)"
  unfolding job_rpc_def by (rule ok_bind [OF ok_pause]) (auto intro: ok_call)

lemma ok_of_res: "(\<And>a s. r = Inr a \<Longrightarrow> P s \<Longrightarrow> Q a s) \<Longrightarrow> job_ok P (job_of_res r) Q"
  by (cases r) (auto simp: job_of_res_def intro: ok_return ok_raise)

section \<open>The dispatcher\<close>

definition known_run :: "uuid \<Rightarrow> chat_db \<Rightarrow> bool" where
  "known_run run s \<longleftrightarrow> run \<in> set (map r_run_id (runs s))"

definition started_run :: "uuid \<Rightarrow> chat_db \<Rightarrow> bool" where
  "started_run run s \<longleftrightarrow> known_run run s \<and> started (runs s) (workflow_rows s) run"

text \<open>The event \<open>e\<close> was claimed: its row is there, and the Run of a start event is known.\<close>

definition claimed :: "outbox_row \<Rightarrow> chat_db \<Rightarrow> bool" where
  "claimed e s \<longleftrightarrow> event_of (ob_event_id e) (ob_event_type e) (ob_run_id e) s"

lemma started_kept: "steps_keep (started_run run)"
  unfolding steps_keep_def started_run_def known_run_def using steps_sound(2) moves_keep(4) by blast

lemma claimed_kept: "steps_keep (claimed e)"
  unfolding steps_keep_def claimed_def using steps_sound(2) moves_keep(3) by blast

lemma true_kept [simp]: "steps_keep (\<lambda>_. True)"
  by (simp add: steps_keep_def)

lemma kept_conj: "steps_keep P \<Longrightarrow> steps_keep Q \<Longrightarrow> steps_keep (\<lambda>s. P s \<and> Q s)"
  unfolding steps_keep_def by blast

lemma claimed_start_known:
  assumes "sound_db s" "claimed e s" "ob_event_type e = ''start_run''" "ob_run_id e = Some run"
  shows "known_run run s"
proof -
  have inv: "chat_inv s" using assms(1) by (simp add: sound_db_def)
  obtain x where x: "x \<in> set (outbox s)" "ob_event_type x = ''start_run''" "ob_run_id x = Some run"
    using assms(2-4) unfolding claimed_def event_of_def by metis
  have "event_shape x" using chat_invD(5) [OF inv] x(1) by (simp add: events_ok_def)
  with x(2,3) have k: "is_start_key (ob_business_key x)" "drop 10 (ob_business_key x) = run" by (simp_all add: event_shape_def)
  have "ob_business_key x \<in> set (event_keys s)" using x(1) by (simp add: event_keys_def)
  with chat_invD(4) [OF inv] k show ?thesis unfolding starts_known_def known_run_def by blast
qed

lemma find_run_id_known:
  assumes "known_run run s"
  shows "\<exists>r. find_run_id s run = Some r \<and> r \<in> set (runs s) \<and> r_run_id r = run"
proof -
  have "find (\<lambda>r. r_run_id r = run) (runs s) \<noteq> None"
    using assms by (auto simp: known_run_def find_None_iff)
  then show ?thesis unfolding find_run_id_def by (auto dest: find_SomeD)
qed

lemma prepare_start_starts:
  assumes "prepare_start rec run s = Inr ((wid, b), s')" "sound_db s" "known_run run s"
  shows "started_run run s'" "wid = web_workflow_id run"
proof -
  have inv: "chat_inv s" "rooted s" "all_chat s" using assms(2) by (simp_all add: sound_db_def)
  obtain r0 where r0: "find_run_id s run = Some r0" "r0 \<in> set (runs s)" "r_run_id r0 = run"
    using find_run_id_known [OF assms(3)] by blast
  from assms(1) r0(1) obtain r where r: "lock s (r_account_id r0) run = Inr r"
    by (auto simp: prepare_start_def res_simps)
  have rr: "r = r0" using run_unique [OF inv(1) r0(2) lock_run(1) [OF r]] lock_run(2) [OF r] r0(3) by simp
  have chat: "chat r0" using inv(3) r0(2) by (simp add: all_chat_def)
  obtain c where c: "chat_runs s run = Some c" "cr_workflow_id c = web_workflow_id run"
    using chat_invD(1) [OF inv(1)] r0(2,3) chat unfolding runs_ok_def named_workflow_def by (force split: option.splits)
  have "stands run (r_status r0) s" using r0(2,3) chat unfolding stands_def by blast
  from moves_stands [OF prepare_start_moves [OF assms(1)] this] have known': "known_run run s'"
    unfolding stands_def known_run_def by auto
  have not_work: "r_source_kind r \<noteq> Work" using chat rr by (auto simp: chat_def)
  note body = assms(1) [unfolded prepare_start_def r0(1) option.case r]
  have "started (runs s') (workflow_rows s') run \<and> wid = web_workflow_id run"
  proof (cases "current_workflow s run")
    case (Some w)
    then have w: "w \<in> set (workflow_rows s)" "wx_run_id w = run" unfolding current_workflow_def by (auto dest: find_SomeD simp: current_of_def)
    with chat_invD(7) [OF inv(1)] c have "wx_workflow_id w = web_workflow_id run"
      unfolding workflows_ok_def workflow_shape_def by fastforce
    with body Some w not_work show ?thesis by (auto simp: started_def list_ex_iff)
  next
    case None
    show ?thesis
    proof (cases "r_status r = Queued")
      case False
      with body None not_work have "s' = s" "wid = web_workflow_id run" by (simp_all add: c)
      moreover have "started (runs s) (workflow_rows s) run"
        using False rr run_unique [OF inv(1) r0(2)] r0(3) unfolding started_def by metis
      ultimately show ?thesis by simp
    next
      case True
      with body None not_work have i: "insert_scheduled rec (r_account_id r) (r_conversation_id r) run (cr_workflow_id c) s = Inr s'"
        and "wid = web_workflow_id run" by (auto simp: ebind_Inr_iff c)
      obtain e where "e \<in> set (executions s)" "root_of_run r0 e" using inv(2) r0(2) unfolding rooted_def by blast
      then have "find (\<lambda>e. e_account_id e = r_account_id r \<and> e_run_id e = run \<and> e_role e = Root) (executions s) \<noteq> None"
        using rr r0(3) unfolding find_None_iff root_of_run_def by blast
      with i have "list_ex (\<lambda>w. wx_run_id w = run) (workflow_rows s')"
        by (auto simp: insert_scheduled_def res_simps split: option.splits)
      with \<open>wid = _\<close> show ?thesis by (simp add: started_def)
    qed
  qed
  with known' show "started_run run s'" "wid = web_workflow_id run" by (simp_all add: started_run_def)
qed

lemma one_step: "chat_step s s' \<Longrightarrow> chat_step\<^sup>*\<^sup>* s s'"
  by (rule r_into_rtranclp)

lemma all_chat_run: "sound_db s \<Longrightarrow> chat_run s run" "sound_db s \<Longrightarrow> chat_event s ev"
  by (simp_all add: sound_db_def all_chat_def chat_run_def chat_event_def)

lemma ok_start_web_run:
  assumes "others_step env" "steps_keep P" "wid = web_workflow_id run"
  shows "job_ok P (start_web_run env wid run) (\<lambda>_. P)"
  unfolding start_web_run_def
  by (rule ok_bind [OF ok_rpc [OF assms(1,2)]])
    (auto simp: own_start_def assms(3) split: start_reply.splits option.splits list.splits
      intro!: ok_raise ok_return ok_bind [OF ok_rpc [OF assms(1,2)]])

lemma ok_cancel_web_run:
  assumes "others_step env" "steps_keep P"
  shows "job_ok P (cancel_web_run env wid) (\<lambda>_. P)"
  unfolding cancel_web_run_def
  by (rule ok_catch [OF ok_bind [OF ok_rpc [OF assms]] _ assms(2)])
    (auto simp: own_start_def intro: ok_return ok_raise)

text \<open>A transaction that is a step and keeps \<open>P\<close>.\<close>

lemma ok_step_tx:
  assumes "others_step env" "steps_keep P"
    and "\<And>now fresh s a s'. sound_db s \<Longrightarrow> f now fresh s = Inr (a, s') \<Longrightarrow> chat_step\<^sup>*\<^sup>* s s'"
  shows "job_ok P (job_tx env f) (\<lambda>_. P)"
  by (rule ok_tx [OF assms(1,2)]) (use assms(2,3) in \<open>auto simp: steps_keep_def\<close>)

text \<open>A transaction that only reads.\<close>

lemma ok_read_tx:
  assumes "others_step env" "steps_keep P"
  shows "job_ok P (job_tx env (\<lambda>_ _ s. ebind (g s) (\<lambda>a. Inr (a, s)))) (\<lambda>_. P)"
  by (rule ok_step_tx [OF assms]) (auto simp: ebind_Inr_iff)

lemma ok_finish:
  assumes "others_step env" "steps_keep P"
  shows "job_ok P (job_tx env (\<lambda>now fresh. finish fresh now acc run st content result code msg)) (\<lambda>_. P)"
  by (rule ok_step_tx [OF assms]) (rule one_step, erule chat_step.Finish, rule all_chat_run)

lemma ok_finish_run:
  assumes "others_step env" "steps_keep P"
  shows "job_ok P (job_bind (job_tx env (\<lambda>_ _ s. ebind (account_for s run) (\<lambda>acc. Inr (acc, s)))) (\<lambda>acc.
     job_bind (job_tx env (\<lambda>now fresh. finish fresh now acc run st content result code msg)) (\<lambda>_.
       job_tx env (\<lambda>_ _ s. ebind (run_authority s run) (\<lambda>st. Inr (st, s)))))) (\<lambda>_. P)"
  by (rule ok_bind [OF ok_read_tx [OF assms]], rule ok_bind [OF ok_finish [OF assms]], rule ok_read_tx [OF assms])

lemma ok_finalize_failed:
  assumes "others_step env" "steps_keep P"
  shows "job_ok P (finalize_failed_job env run code msg) (\<lambda>_. P)"
  unfolding finalize_failed_job_def by (rule ok_finish_run [OF assms])

lemma ok_finalize_cancelled:
  assumes "others_step env" "steps_keep P"
  shows "job_ok P (finalize_cancelled_job env run) (\<lambda>_. P)"
  unfolding finalize_cancelled_job_def
  by (rule ok_bind [OF ok_read_tx [OF assms]])
    (simp add: ok_finish_run [OF assms] ok_finalize_failed [OF assms] ok_return)

lemma ok_cancel_requested:
  assumes "others_step env" "steps_keep P"
  shows "job_ok P (job_tx env (\<lambda>_ _. record_cancel_requested run)) (\<lambda>_. P)"
  by (rule ok_step_tx [OF assms]) (auto intro: one_step chat_step.Cancelling_Asked)

lemma known_kept: "steps_keep (known_run run)"
  unfolding steps_keep_def
proof (intro allI impI)
  fix s s' assume h: "sound_db s" "known_run run s" "chat_step\<^sup>*\<^sup>* s s'"
  obtain r where r: "r \<in> set (runs s)" "r_run_id r = run" using h(2) by (auto simp: known_run_def)
  then have "stands run (r_status r) s" using h(1) by (auto simp: stands_def sound_db_def all_chat_def)
  from moves_stands [OF steps_sound(2) [OF h(3,1)] this] show "known_run run s'"
    unfolding stands_def known_run_def by auto
qed

lemma ok_dispatch_start:
  assumes "others_step env"
  shows "job_ok (known_run run) (dispatch_start env run) (\<lambda>_. started_run run)"
  unfolding dispatch_start_def
proof (rule ok_bind)
  show "job_ok (known_run run) (job_tx env (\<lambda>_ fresh. prepare_start (fresh 0) run))
      (\<lambda>(wid, b) s. started_run run s \<and> wid = web_workflow_id run)"
  proof (rule ok_tx [OF assms known_kept])
    fix fresh s a s' assume h: "sound_db s" "known_run run s" "prepare_start (fresh (0 :: nat)) run s = Inr (a, s')"
    obtain wid b where a: "a = (wid, b)" by (cases a)
    from prepare_start_starts [OF h(3) [unfolded a] h(1,2)] one_step [OF chat_step.Start [OF h(3)]]
    show "chat_step\<^sup>*\<^sup>* s s' \<and> (case a of (wid, b) \<Rightarrow> \<lambda>s. started_run run s \<and> wid = web_workflow_id run) s'"
      by (simp add: a)
  qed
next
  fix a :: "string \<times> bool"
  obtain wid b where a: "a = (wid, b)" by (cases a)
  note keep = started_kept [of run]
  have rest: "job_ok (started_run run)
      (job_bind (start_web_run env wid run) (\<lambda>temporal.
         job_bind (job_tx env (\<lambda>now _. record_started run temporal now)) (\<lambda>_.
         job_bind (job_tx env (\<lambda>_ _ s. Inr (needs_cancel run s, s))) (\<lambda>cancel.
           if cancel
           then job_bind (cancel_web_run env wid) (\<lambda>found.
                  if found then job_bind (job_tx env (\<lambda>_ _. record_cancel_requested run)) (\<lambda>_. job_return True)
                  else job_return True)
           else job_return True)))) (\<lambda>_. started_run run)" if "wid = web_workflow_id run"
  proof (rule ok_bind [OF ok_start_web_run [OF assms keep that]], rule ok_bind [where R = "\<lambda>_. started_run run"],
      goal_cases)
    case (1 temporal)
    show ?case by (rule ok_step_tx [OF assms keep]) (rule one_step, erule chat_step.Started)
  next
    case (2 temporal u)
    show ?case
    proof (rule ok_bind [where R = "\<lambda>_. started_run run"], goal_cases)
      case 1
      show ?case by (rule ok_step_tx [OF assms keep]) simp
    next
      case (2 cancel)
      have "job_ok (started_run run) (job_bind (cancel_web_run env wid) (\<lambda>found.
                  if found then job_bind (job_tx env (\<lambda>_ _. record_cancel_requested run)) (\<lambda>_. job_return True)
                  else job_return True)) (\<lambda>_. started_run run)"
      proof (rule ok_bind [OF ok_cancel_web_run [OF assms keep]])
        fix found
        have "job_ok (started_run run) (job_bind (job_tx env (\<lambda>_ _. record_cancel_requested run)) (\<lambda>_. job_return True)) (\<lambda>_. started_run run)"
          by (rule ok_bind [OF ok_cancel_requested [OF assms keep]], rule ok_return)
        then show "job_ok (started_run run) (if found then job_bind (job_tx env (\<lambda>_ _. record_cancel_requested run)) (\<lambda>_. job_return True)
                  else job_return True) (\<lambda>_. started_run run)"
          by (cases found) (simp_all add: ok_return)
      qed
      then show ?case by (cases cancel) (simp_all add: ok_return)
    qed
  qed
  show "job_ok ((\<lambda>(wid, b) s. started_run run s \<and> wid = web_workflow_id run) a)
     ((\<lambda>(wid, should_start). if \<not> should_start then job_return False
       else job_bind (start_web_run env wid run) (\<lambda>temporal.
         job_bind (job_tx env (\<lambda>now _. record_started run temporal now)) (\<lambda>_.
         job_bind (job_tx env (\<lambda>_ _ s. Inr (needs_cancel run s, s))) (\<lambda>cancel.
           if cancel
           then job_bind (cancel_web_run env wid) (\<lambda>found.
                  if found then job_bind (job_tx env (\<lambda>_ _. record_cancel_requested run)) (\<lambda>_. job_return True)
                  else job_return True)
           else job_return True)))) a) (\<lambda>_. started_run run)"
  proof (cases "wid = web_workflow_id run")
    case True
    show ?thesis
    proof (cases b)
      case b: True
      show ?thesis unfolding a prod.case eqTrueI [OF b] not_True_eq_False if_False
        by (rule ok_weaken [OF rest [OF True]]) simp_all
    next
      case False
      then show ?thesis unfolding a by (auto intro!: ok_return)
    qed
  next
    case False
    then show ?thesis unfolding a by (auto simp: job_ok_def)
  qed
qed

lemma ok_dispatch_cancel:
  assumes "others_step env"
  shows "job_ok (\<lambda>_. True) (dispatch_cancel env run) (\<lambda>_ _. True)"
proof -
  have finalize: "job_ok (\<lambda>_. True) (job_bind (finalize_cancelled_job env run) (\<lambda>_. job_return x)) (\<lambda>_ _. True)" for x :: bool
    by (rule ok_bind [OF ok_finalize_cancelled [OF assms true_kept]], rule ok_return)
  have request: "job_ok (\<lambda>_. True) (job_bind (job_tx env (\<lambda>_ _. record_cancel_requested run)) (\<lambda>_. job_return True)) (\<lambda>_ _. True)"
    by (rule ok_bind [OF ok_cancel_requested [OF assms true_kept]], rule ok_return)
  show ?thesis
    unfolding dispatch_cancel_def
  proof (rule ok_bind [where R = "\<lambda>_ _. True"], goal_cases)
    case 1
    show ?case by (rule ok_step_tx [OF assms true_kept]) simp
  next
    case (2 current)
    show ?case
    proof (cases current)
      case None
      then show ?thesis using finalize by (simp add: ok_return)
    next
      case (Some wid)
      have "job_ok (\<lambda>_. True) (if \<not> found
             then (if \<not> je_has_finalizer env
                   then job_raise (RuntimeError ''cancelled Run has no Workflow and no lifecycle finalizer'')
                   else job_bind (finalize_cancelled_job env run) (\<lambda>_. job_return True))
             else job_bind (job_tx env (\<lambda>_ _. record_cancel_requested run)) (\<lambda>_. job_return True)) (\<lambda>_ _. True)" for found
        using finalize request by (simp add: ok_raise)
      then show ?thesis unfolding Some option.case by (rule ok_bind [OF ok_cancel_web_run [OF assms true_kept]])
    qed
  qed
qed

lemma ok_dispatch_approval:
  assumes "others_step env"
  shows "job_ok (\<lambda>_. True) (dispatch_approval_decision env payload) (\<lambda>_ _. True)"
proof -
  have words: "job_ok (\<lambda>_. True) (job_of_res r) (\<lambda>_ _. True)" for r :: "string res"
    by (rule ok_of_res) simp
  have signal: "job_ok (\<lambda>_. True) (job_bind (job_rpc env [Signal_Call wid approval oper] (je_signal env wid approval oper)) (\<lambda>_. job_return True)) (\<lambda>_ _. True)"
    for wid approval oper
    by (rule ok_bind [OF ok_rpc [OF assms true_kept]], simp add: own_start_def, rule ok_return, simp)
  show ?thesis unfolding dispatch_approval_decision_def
    by (rule ok_bind [OF words], rule ok_bind [OF words], rule ok_bind [OF words], rule signal)
qed

text \<open>The row of a claimed event is the one with its identifier, so that a dispatched start event is a delivered one.\<close>

lemma claimed_delivered:
  assumes "sound_db s" "claimed e s" "ob_run_id e = Some run" "ob_event_type e = ''start_run'' \<Longrightarrow> started_run run s"
  shows "delivered (ob_event_id e) s"
  unfolding delivered_def
proof (intro ballI allI impI)
  fix x run' assume x: "x \<in> set (outbox s)" "ob_event_id x = ob_event_id e" "ob_event_type x = ''start_run''" "ob_run_id x = Some run'"
  obtain y where y: "y \<in> set (outbox s)" "ob_event_id y = ob_event_id e" "ob_event_type y = ob_event_type e" "ob_run_id y = ob_run_id e"
    using assms(2) unfolding claimed_def event_of_def by blast
  have "x = y" using event_unique [of s y x] assms(1) x y by (simp add: sound_db_def)
  then have "started_run run s" "run' = run" using assms(3,4) x y by simp_all
  then show "started (runs s) (workflow_rows s) run'" by (simp add: started_run_def)
qed

lemma ok_dispatch_event:
  assumes "others_step env" "ob_run_id e = Some run"
  shows "job_ok (claimed e) (dispatch_event env run e)
    (\<lambda>_ s. claimed e s \<and> (ob_event_type e = ''start_run'' \<longrightarrow> started_run run s))"
proof (cases "ob_event_type e = ''start_run''")
  case True
  have "job_ok (\<lambda>s. known_run run s \<and> claimed e s) (dispatch_start env run) (\<lambda>_ s. started_run run s \<and> claimed e s)"
    by (rule ok_keep [OF ok_dispatch_start [OF assms(1)] claimed_kept])
  then have "job_ok (claimed e) (dispatch_start env run) (\<lambda>_ s. started_run run s \<and> claimed e s)"
    unfolding job_ok_def using claimed_start_known [OF _ _ True assms(2)] by blast
  with True show ?thesis by (auto simp: dispatch_event_def elim: ok_weaken)
next
  case False
  have d: "job_ok (\<lambda>_. True) (dispatch_event env run e) (\<lambda>_ _. True)"
    using False ok_dispatch_cancel [OF assms(1)] ok_dispatch_approval [OF assms(1)] by (simp add: dispatch_event_def)
  show ?thesis using ok_keep [OF d claimed_kept [of e]] False by simp
qed

lemma ok_deliver_event:
  assumes "others_step env"
  shows "job_ok (claimed e) (deliver_event env e) (\<lambda>_ _. True)"
proof -
  let ?handler = "\<lambda>x. if ob_attempt_count e \<ge> je_max_attempts env
            then job_bind (job_tx env (\<lambda>now fresh. dead_letter fresh now (ob_event_id e) (je_worker env)
                   ''temporal_dispatch_exhausted'' (take 1000 (je_text env x)))) (\<lambda>_. job_return ())
            else job_bind (job_tx env (\<lambda>now _. mark_retryable_failure (ob_event_id e) (je_worker env)
                   ''temporal_dispatch_failed'' (take 1000 (je_text env x)) (now + 5))) (\<lambda>_. job_return ())"
  have handler: "job_ok (claimed e) (?handler x) (\<lambda>_ _. True)" for x
  proof (cases "ob_attempt_count e \<ge> je_max_attempts env")
    case True
    have "job_ok (claimed e) (job_tx env (\<lambda>now fresh. dead_letter fresh now (ob_event_id e) (je_worker env)
         ''temporal_dispatch_exhausted'' (take 1000 (je_text env x)))) (\<lambda>_. claimed e)"
      by (rule ok_step_tx [OF assms claimed_kept]) (auto intro: one_step chat_step.Give_Up all_chat_run)
    from ok_bind [OF this, where k = "\<lambda>_. job_return ()"] True show ?thesis by (simp add: ok_return)
  next
    case False
    have "job_ok (claimed e) (job_tx env (\<lambda>now _. mark_retryable_failure (ob_event_id e) (je_worker env)
         ''temporal_dispatch_failed'' (take 1000 (je_text env x)) (now + 5))) (\<lambda>_. claimed e)"
      by (rule ok_step_tx [OF assms claimed_kept]) (auto intro: one_step chat_step.Retry_Later)
    from ok_bind [OF this, where k = "\<lambda>_. job_return ()"] False show ?thesis by (simp add: ok_return)
  qed
  have mark: "job_ok (\<lambda>s. claimed e s \<and> (ob_event_type e = ''start_run'' \<longrightarrow> started_run run s))
      (job_bind (job_tx env (\<lambda>now _. mark_processed (ob_event_id e) (je_worker env) now)) (\<lambda>_. job_return ())) (\<lambda>_ _. True)"
    if "ob_run_id e = Some run" for run
  proof (rule ok_bind [OF ok_tx [OF assms]], rule kept_conj [OF claimed_kept])
    show "steps_keep (\<lambda>s. ob_event_type e = ''start_run'' \<longrightarrow> started_run run s)"
      using started_kept [of run] unfolding steps_keep_def by blast
    fix now s a s' assume "sound_db s" "claimed e s \<and> (ob_event_type e = ''start_run'' \<longrightarrow> started_run run s)"
      "mark_processed (ob_event_id e) (je_worker env) now s = Inr (a, s')"
    with claimed_delivered [of s e run] that show "chat_step\<^sup>*\<^sup>* s s' \<and> True"
      by (auto intro!: one_step chat_step.Settle)
  qed (rule ok_return, simp)
  show ?thesis
    unfolding deliver_event_def
  proof (rule ok_bind [where R = "\<lambda>run s. claimed e s \<and> ob_run_id e = Some run"], goal_cases)
    case 1
    show ?case by (rule ok_of_res) (simp add: need_Inr_iff)
  next
    case (2 run)
    show ?case
    proof (cases "ob_run_id e = Some run")
      case True
      have "job_ok (claimed e) (job_catch (job_bind (dispatch_event env run e) (\<lambda>_.
        job_bind (job_tx env (\<lambda>now _. mark_processed (ob_event_id e) (je_worker env) now)) (\<lambda>_. job_return ()))) ?handler) (\<lambda>_ _. True)"
        by (rule ok_catch [OF ok_bind [OF ok_dispatch_event [OF assms True] mark [OF True]] handler claimed_kept])
      then show ?thesis by (rule ok_weaken) simp_all
    qed (simp add: job_ok_def)
  qed
qed

lemma ok_deliver_events:
  assumes "others_step env"
  shows "job_ok (\<lambda>s. \<forall>e \<in> set es. claimed e s) (deliver_events env es) (\<lambda>_ _. True)"
proof (induction es)
  case Nil
  show ?case by (simp add: ok_return)
next
  case (Cons e es)
  have "steps_keep (\<lambda>s. \<forall>e \<in> set es. claimed e s)"
    using claimed_kept unfolding steps_keep_def by blast
  from ok_bind [OF ok_keep [OF ok_deliver_event [OF assms] this]] Cons.IH
  have "job_ok (\<lambda>s. claimed e s \<and> (\<forall>e \<in> set es. claimed e s)) (deliver_events env (e # es)) (\<lambda>_ _. True)"
    by simp
  then show ?case by simp
qed

lemma claim_claims:
  assumes "outbox_claim worker types skipped limit now s = Inr (es, s')" "e \<in> set es"
  shows "claimed e s'"
proof -
  let ?c = "\<lambda>e. ob_event_id e \<in> set (map ob_event_id (claim_candidates types skipped limit now s))"
  have "es = map (take_lease worker now) (filter ?c (outbox s))" "s' = s\<lparr>outbox := update_where ?c (take_lease worker now) (outbox s)\<rparr>"
    using assms(1) by (auto simp: outbox_claim_def claim_batch_def res_simps Let_def)
  with assms(2) have "e \<in> set (outbox s')" by (auto simp: update_where_def)
  then show ?thesis unfolding claimed_def event_of_def by blast
qed

lemma ok_claim_events:
  assumes "others_step env"
  shows "job_ok (\<lambda>_. True) (claim_events env limit) (\<lambda>es s. \<forall>e \<in> set es. claimed e s)"
  unfolding claim_events_def
proof (rule ok_bind [OF ok_pause [OF assms true_kept]])
  fix u :: unit
  show "job_ok (\<lambda>_. True) (\<lambda>w. job_commit env (\<lambda>now _. outbox_claim (je_worker env)
       [''start_run'', ''cancel_run'', ''file_action_approval_decided''] (je_skipped env (jw_ext w)) limit now) w)
     (\<lambda>es s. \<forall>e \<in> set es. claimed e s)"
  proof (rule job_okI)
    fix w r w'
    assume w: "sound_db (jw_db w)" "True" "job_commit env (\<lambda>now _. outbox_claim (je_worker env)
       [''start_run'', ''cancel_run'', ''file_action_approval_decided''] (je_skipped env (jw_ext w)) limit now) w = (r, w')"
    have "job_ok (\<lambda>_. True) (job_commit env (\<lambda>now _. outbox_claim (je_worker env)
       [''start_run'', ''cancel_run'', ''file_action_approval_decided''] (je_skipped env (jw_ext w)) limit now))
       (\<lambda>es s. \<forall>e \<in> set es. claimed e s)"
      by (rule ok_commit) (auto intro: one_step chat_step.Claim claim_claims)
    from job_okD [OF this w] show "chat_step\<^sup>*\<^sup>* (jw_db w) (jw_db w') \<and> (\<exists>cs. jw_log w' = jw_log w @ cs \<and> list_all own_start cs)
     \<and> (case r of Job_Done es \<Rightarrow> \<forall>e \<in> set es. claimed e (jw_db w') | _ \<Rightarrow> True)"
      by (cases r) auto
  qed
qed

lemma ok_dispatcher:
  assumes "others_step env"
  shows "job_ok (\<lambda>_. True) (dispatcher_run_once env limit) (\<lambda>_ _. True)"
  unfolding dispatcher_run_once_def
  by (rule ok_bind [OF ok_claim_events [OF assms]], rule ok_bind [OF ok_deliver_events [OF assms]], rule ok_return)

section \<open>The reconciler\<close>

lemma ok_store:
  assumes "others_step env"
  shows "job_ok (\<lambda>_. True) (store_failed env run code msg) (\<lambda>_ _. True)"
    "job_ok (\<lambda>_. True) (store_cancelled env run) (\<lambda>_ _. True)" "job_ok (\<lambda>_. True) (store_fact env run seen) (\<lambda>_ _. True)"
    "job_ok (\<lambda>_. True) (inspector_cancel env wid) (\<lambda>_ _. True)"
proof -
  show "job_ok (\<lambda>_. True) (store_failed env run code msg) (\<lambda>_ _. True)"
    unfolding store_failed_def by (rule ok_bind [OF ok_finalize_failed [OF assms true_kept]]) (simp add: ok_return)
  show "job_ok (\<lambda>_. True) (store_cancelled env run) (\<lambda>_ _. True)"
    unfolding store_cancelled_def by (rule ok_bind [OF ok_finalize_cancelled [OF assms true_kept]]) (simp add: ok_return)
  show "job_ok (\<lambda>_. True) (store_fact env run seen) (\<lambda>_ _. True)"
  proof (cases seen)
    case (Fact st)
    have "job_ok (\<lambda>_. True) (job_tx env (\<lambda>now _. record_temporal_fact run st now)) (\<lambda>_ _. True)"
      by (rule ok_step_tx [OF assms true_kept]) (auto intro: one_step chat_step.Closed)
    then show ?thesis unfolding store_fact_def Fact temporal_fact.case by (rule ok_bind) (simp add: ok_return)
  qed (simp_all add: store_fact_def ok_return)
  show "job_ok (\<lambda>_. True) (inspector_cancel env wid) (\<lambda>_ _. True)"
    unfolding inspector_cancel_def by (rule ok_rpc [OF assms true_kept]) (simp add: own_start_def)
qed

lemma ok_reconcile_run:
  assumes "others_step env"
  shows "job_ok (\<lambda>_. True) (reconcile_run env c) (\<lambda>_ _. True)"
proof -
  note ok = ok_store [OF assms] ok_return
  have rest: "job_ok (\<lambda>_. True) (if st \<in> {Succeeded, Failed, Cancelled}
             then (if seen = Fact_Open then inspector_cancel env wid else job_return ())
             else if st = Cancelling \<and> seen \<noteq> Fact_Open then store_cancelled env run
             else if seen \<in> {Fact Wf_Failed, Fact Wf_Timed_Out, Fact Wf_Terminated}
             then store_failed env run (case seen of Fact x \<Rightarrow> failure_code_of x | _ \<Rightarrow> []) NOT_FINISHED
             else if seen = Fact Wf_Completed then store_failed env run ''terminal_commit_missing'' COMMIT_MISSING
             else if seen = Fact Wf_Cancelled then store_cancelled env run
             else if seen = Fact_Open \<and> st = Cancelling then inspector_cancel env wid
             else if seen = Fact_Not_Found \<and> st = Cancelling then store_cancelled env run
             else if seen = Fact_Not_Found \<and> st = Running
             then store_failed env run ''terminal_commit_missing'' TEMPORAL_MISSING
             else job_return ()) (\<lambda>_ _. True)" for st seen wid run
    by (simp only: ok split: if_split) simp
  show ?thesis
  proof (cases "rc_workflow_id c")
    case None
    then show ?thesis by (simp add: reconcile_run_def ok)
  next
    case (Some wid)
    show ?thesis
    proof (cases wid)
      case Nil
      with Some show ?thesis by (simp add: reconcile_run_def ok)
    next
      case (Cons a cs)
      have describe: "job_ok (\<lambda>_. True) (job_rpc env [] (je_describe env w)) (\<lambda>_ _. True)" for w
        by (rule ok_rpc [OF assms true_kept]) simp
      show ?thesis unfolding reconcile_run_def Some Cons option.case list.case Let_def
        by (rule ok_bind [OF describe], rule ok_bind [OF ok_store(3) [OF assms]], rule rest)
    qed
  qed
qed

lemma ok_reconciler:
  assumes "others_step env"
  shows "job_ok (\<lambda>_. True) (reconciler_run_once env limit) (\<lambda>_ _. True)"
proof -
  have all: "job_ok (\<lambda>_. True) (reconcile_runs env cs) (\<lambda>_ _. True)" for cs
    by (induction cs) (auto intro: ok_return ok_bind [OF ok_reconcile_run [OF assms]])
  have read: "job_ok (\<lambda>_. True) (job_tx env (\<lambda>_ _ s. Inr (reconcile_rows (je_by_updated env) limit s, s))) (\<lambda>_ _. True)"
    by (rule ok_step_tx [OF assms true_kept]) simp
  show ?thesis unfolding reconciler_run_once_def
    by (rule ok_bind [OF read], rule ok_bind [OF all], rule ok_return)
qed

end
