(* ===== verification/Lifecycle_Laws.thy ===== *)
theory Lifecycle_Laws
  imports Lifecycle_Workflow Dispatch_Laws
begin

text \<open>
  The Workflow of a Run over its conversation: whatever its Activities and children do, whatever the rest of the
  system does in between, it ends, it takes the steps of \<open>chat_step\<close> only, and what it reports is how the Run ended.
  \<open>stood run st s\<close> says that the Run has been at \<open>st\<close> and moved on from there along the transitions of the code;
  what an Activity answers is a status the Run has stood at.
\<close>

section \<open>What a status says later\<close>

definition stood :: "uuid \<Rightarrow> status \<Rightarrow> 'a chat_db_scheme \<Rightarrow> bool" where
  "stood run st s \<longleftrightarrow> (\<exists>st'. stands run st' s \<and> run_transition_ok\<^sup>*\<^sup>* st st')"

definition closing :: "status set" where
  "closing = {Cancelling, Cancelled, Succeeded, Failed}"

definition closing_run :: "uuid \<Rightarrow> 'a chat_db_scheme \<Rightarrow> bool" where
  "closing_run run s \<longleftrightarrow> (\<exists>st \<in> closing. stands run st s)"

lemma closing_kept:
  assumes "run_transition_ok\<^sup>*\<^sup>* st st'" "st \<in> closing"
  shows "st' \<in> closing" "st \<noteq> Cancelling \<Longrightarrow> st' = st"
proof -
  have "st' \<in> closing \<and> (st \<noteq> Cancelling \<longrightarrow> st' = st)"
    using assms
  proof (induction rule: rtranclp_induct)
    case (step y z)
    then show ?case by (cases y; cases z) (auto simp: closing_def)
  qed simp
  then show "st' \<in> closing" "st \<noteq> Cancelling \<Longrightarrow> st' = st" by blast+
qed

lemma stands_stood: "stands run st s \<Longrightarrow> stood run st s"
  unfolding stood_def by blast

lemma stood_kept: "steps_keep (stood run st)"
  unfolding steps_keep_def
proof (intro allI impI)
  fix s s' assume h: "sound_db s" "stood run st s" "chat_step\<^sup>*\<^sup>* s s'"
  from steps_sound(2) [OF h(3,1)] h(2) show "stood run st s'"
  proof (induction rule: rtranclp_induct)
    case (step y z)
    then obtain t where t: "stands run t y" "run_transition_ok\<^sup>*\<^sup>* st t" unfolding stood_def by blast
    from move_stands [OF step.hyps(2) t(1)] obtain t' where "stands run t' z" "t' = t \<or> run_transition_ok t t'" .
    with t(2) show ?case unfolding stood_def by (metis rtranclp.rtrancl_into_rtrancl)
  qed
qed

lemma closing_run_kept: "steps_keep (closing_run run)"
  unfolding steps_keep_def
proof (intro allI impI)
  fix s s' assume h: "sound_db s" "closing_run run s" "chat_step\<^sup>*\<^sup>* s s'"
  then obtain st where st: "st \<in> closing" "stands run st s" unfolding closing_run_def by blast
  from keepD [OF stood_kept h(1) stands_stood [OF st(2)] h(3)] closing_kept(1) [OF _ st(1)]
  show "closing_run run s'" unfolding stood_def closing_run_def by blast
qed

lemma stood_closing: "stood run st s \<Longrightarrow> st \<in> closing \<Longrightarrow> closing_run run s"
  unfolding stood_def closing_run_def using closing_kept(1) by blast

lemma stood_succeeded: "stood run Succeeded s \<Longrightarrow> stands run Succeeded s"
  unfolding stood_def using closing_kept(2) [of Succeeded] by (auto simp: closing_def)

text \<open>The fixed columns of a Run never change.\<close>

definition row_of :: "uuid \<Rightarrow> chat_run_row \<Rightarrow> chat_db \<Rightarrow> bool" where
  "row_of run c s \<longleftrightarrow> known_run run s \<and> chat_runs s run = Some c"

lemma move_row_of:
  assumes "chat_move s s'" "row_of run c s" "known_run run s'"
  shows "row_of run c s'"
  using assms(1)
proof cases
  case (Open r c' us m e)
  then have "r_run_id r \<noteq> run" using assms(2) by (auto simp: run_opens_def row_of_def known_run_def)
  with Open assms(2,3) show ?thesis by (auto simp: run_opens_def row_of_def)
qed (use assms(2,3) in \<open>auto simp: row_of_def same_core_def run_ends_def\<close>)

lemma row_of_kept: "steps_keep (row_of run c)"
  unfolding steps_keep_def
proof (intro allI impI)
  fix s s' assume h: "sound_db s" "row_of run c s" "chat_step\<^sup>*\<^sup>* s s'"
  from steps_sound(2) [OF h(3,1)] h(1,2) show "row_of run c s'"
  proof (induction rule: rtranclp_induct)
    case (step y z)
    have y: "row_of run c y" by (rule step.IH [OF step.prems])
    obtain r where r: "r \<in> set (runs s)" "r_run_id r = run" using h(2) by (auto simp: row_of_def known_run_def)
    then have "stands run (r_status r) s" using h(1) by (auto simp: stands_def sound_db_def all_chat_def)
    from moves_stands [OF rtranclp.rtrancl_into_rtrancl [OF step.hyps] this] have "known_run run z"
      unfolding stands_def known_run_def by auto
    with step.hyps(2) y show ?case by (rule move_row_of)
  qed
qed

section \<open>The transactions\<close>

lemma authority_stands:
  assumes "run_authority s run = Inr st" "sound_db s"
  shows "stands run st s"
proof -
  obtain r where r: "find_run_id s run = Some r" "st = r_status r" using assms(1) by (auto simp: run_authority_def res_simps)
  then have "r \<in> set (runs s)" "r_run_id r = run" unfolding find_run_id_def by (auto dest: find_SomeD)
  with r(2) assms(2) show ?thesis by (auto simp: stands_def sound_db_def all_chat_def)
qed

lemma ends_stands:
  assumes "run_ends run st content now s s'" "r \<in> set (runs s)" "r_run_id r = run" "chat r"
  shows "stands run st s'"
proof -
  have e: "ended_runs run st (runs s) (runs s')" using assms(1) by (simp add: run_ends_def)
  obtain r' where r': "r' \<in> set (runs s')" "ended_run run st r r'" using ended_runs_forth [OF e assms(2)] .
  from ended_run_eqs [OF r'(2)] r'(1) assms(3,4) show ?thesis unfolding stands_def by blast
qed

lemma finish_closes:
  assumes "finish fresh now acc run st content result code msg s = Inr (b, s')" "sound_db s"
  shows "closing_run run s'"
proof -
  from assms(1) obtain r where r: "lock s acc run = Inr r" "finish_in_uow fresh now r st content result code msg s = Inr (b, s')"
    by (auto simp: finish_def res_simps)
  note l = lock_run [OF r(1)]
  have inv: "chat_inv s" "chat r" using assms(2) l(1) by (simp_all add: sound_db_def all_chat_def)
  from r(2) inv(1) l(1) inv(2) show ?thesis
  proof (cases rule: finish_in_uow_cases)
    case Kept
    then have "r_status r \<in> closing" by (auto simp: closing_def TERMINAL_def)
    with Kept(2) l inv(2) show ?thesis unfolding closing_run_def stands_def by auto
  next
    case Ended
    have "stands run st s'" using ends_stands [OF Ended(5) l(1) refl inv(2)] l(2) by simp
    with Ended(2) show ?thesis unfolding closing_run_def by (auto simp: closing_def TERMINAL_def)
  qed
qed

lemma complete_cases:
  assumes "complete fresh now run content receipt rejected accepted s = Inr (st, s')" "lock s acc run = Inr r" "account_for s run = Inr acc"
  shows "r_status r \<in> closing \<and> s' = s \<or> (\<exists>reply b. finish_in_uow fresh now r Succeeded (Some reply) None None None s = Inr (b, s'))"
proof -
  note body = assms(1) [unfolded complete_def assms(3) ebind.simps assms(2)]
  show ?thesis
  proof (cases "r_status r \<in> closing")
    case True
    with body show ?thesis by (auto simp: closing_def ebind_Inr_iff)
  next
    case False
    then have "r_status r \<notin> {Cancelling, Cancelled, Succeeded, Failed}" by (simp add: closing_def)
    from body [unfolded if_not_P [OF this] ebind_Inr_iff Let_def ensure_Inr_iff] show ?thesis by auto
  qed
qed

lemma complete_closes:
  assumes "complete fresh now run content receipt rejected accepted s = Inr (st, s')" "sound_db s"
  shows "closing_run run s'"
proof -
  from assms(1) obtain acc r where a: "account_for s run = Inr acc" and r: "lock s acc run = Inr r"
    unfolding complete_def ebind_Inr_iff by blast
  note d = complete_cases [OF assms(1) r a]
  note l = lock_run [OF r(1)]
  have inv: "chat r" using assms(2) l(1) by (simp add: sound_db_def all_chat_def)
  from d show ?thesis
  proof
    assume "r_status r \<in> closing \<and> s' = s"
    with l inv show ?thesis unfolding closing_run_def stands_def by auto
  next
    assume "\<exists>reply b. finish_in_uow fresh now r Succeeded (Some reply) None None None s = Inr (b, s')"
    then obtain reply b where "finish fresh now acc run Succeeded (Some reply) None None None s = Inr (b, s')"
      using r by (auto simp: finish_def res_simps)
    from finish_closes [OF this assms(2)] show ?thesis .
  qed
qed

lemma prepare_stands:
  assumes "prepare run wid temporal now s = Inr (st, s')" "sound_db s"
  shows "stands run st s'"
proof -
  from assms(1) [unfolded prepare_def ebind_Inr_iff] obtain acc r s1 where
    r: "lock s acc run = Inr r" and 1: "bind_workflow run wid temporal now s = Inr s1"
    and 2: "(if r_status r = Queued then ebind (mark_running_queued run now s1) (\<lambda>s2. Inr (Running, s2))
       else Inr (r_status r, s1)) = Inr (st, s')" by auto
  note l = lock_run [OF r(1)]
  have inv: "chat r" using assms(2) l(1) by (simp add: sound_db_def all_chat_def)
  have rs: "runs s1 = runs s" using 1
    by (auto simp: bind_workflow_def update_current_def res_simps split: if_splits option.splits)
  show ?thesis
  proof (cases "r_status r = Queued")
    case False
    with 2 rs l inv show ?thesis unfolding stands_def by auto
  next
    case True
    with 2 obtain s2 where 3: "mark_running_queued run now s1 = Inr s2" "st = Running" "s' = s2" by (auto simp: res_simps)
    let ?f = "\<lambda>r. r\<lparr>r_status := Running, r_started_at := Some (max now (r_created_at r)), r_version := r_version r + 1\<rparr>"
    have r1: "r \<in> set (runs s1)" "r_run_id r = run" using l rs by simp_all
    from 3(1) [unfolded mark_running_queued_def] have "?f r \<in> set (runs s2)"
    proof (cases rule: run_update_cases)
      case (Updated x)
      then show ?thesis using r1 True by (auto simp: update_where_def image_iff)
    qed (use r1 True in blast)
    then show ?thesis unfolding 3 stands_def using l(2) inv by (intro bexI [of _ "?f r"]) (auto simp: chat_def)
  qed
qed

section \<open>The Activities\<close>

lemma job_ok_keepD:
  assumes "job_ok P p Q" "steps_keep P" "sound_db (jw_db w)" "P (jw_db w)" "p w = (r, w')"
  shows "sound_db (jw_db w')" "P (jw_db w')" "chat_step\<^sup>*\<^sup>* (jw_db w) (jw_db w')" "r = Job_Done a \<Longrightarrow> Q a (jw_db w')"
  using job_okD [OF assms(1,3,4,5)] keepD [OF assms(2,3,4)] by blast+

lemma ok_reported:
  assumes "others_step (lf_job env)" "job_ok P p Q" "\<And>a. steps_keep (Q a)"
  shows "job_ok P (reported env p) Q"
  unfolding reported_def
  by (rule ok_bind [OF assms(2)], rule ok_bind [OF ok_pause [OF assms(1,3)]], rule ok_return)

text \<open>Any number of attempts takes steps; an answer comes from one of them.\<close>

lemma ok_attempts:
  assumes o': "others_step (lf_job env)" and p: "job_ok P p Q" and keep: "steps_keep P" "\<And>a. steps_keep (Q a)"
    and w: "sound_db (jw_db w)" "P (jw_db w)" "activity_attempts env n p w = (r, w')"
  shows "chat_step\<^sup>*\<^sup>* (jw_db w) (jw_db w') \<and> P (jw_db w') \<and> (\<forall>a. r = Inr a \<longrightarrow> Q a (jw_db w'))"
  using w
proof (induction n arbitrary: w)
  case (Suc n)
  obtain stop x where i: "lf_interrupt env (jw_ext w) = (stop, x)" by (cases "lf_interrupt env (jw_ext w)")
  show ?case
  proof (cases stop)
    case (Some e)
    with Suc.prems i show ?thesis by auto
  next
    case None
    let ?w = "w\<lparr>jw_ext := x\<rparr>"
    obtain q w1 where 1: "reported env p ?w = (q, w1)" by (cases "reported env p ?w")
    note d = job_ok_keepD [OF ok_reported [OF o' p keep(2)] keep(1) _ _ 1]
    have w1: "sound_db (jw_db w1)" "P (jw_db w1)" "chat_step\<^sup>*\<^sup>* (jw_db w) (jw_db w1)" "\<And>a. q = Job_Done a \<Longrightarrow> Q a (jw_db w1)"
      using d Suc.prems(1,2) by simp_all
    have run: "(r, w') = (case q of Job_Done a \<Rightarrow> (Inr a, w1)
        | Job_Raised e \<Rightarrow> if n = 0 \<or> non_retryable e then (Inl (Activity_Error (Plain e)), w1) else activity_attempts env n p w1
        | Job_Died \<Rightarrow> activity_attempts env n p w1)"
      using Suc.prems(3) by (simp add: i None 1)
    have again: ?thesis if "activity_attempts env n p w1 = (r, w')"
      using Suc.IH [OF w1(1,2) that] rtranclp_trans [OF w1(3)] by blast
    show ?thesis
    proof (cases q)
      case (Job_Raised e)
      with run again w1 show ?thesis by (cases "n = 0 \<or> non_retryable e") auto
    qed (use run again w1 in auto)
  qed
qed auto

lemma ok_lifecycle_call: "job_ok P p Q \<Longrightarrow> steps_keep P \<Longrightarrow> job_ok P (lifecycle_call p) Q"
  unfolding lifecycle_call_def by (rule ok_catch) (auto intro: ok_raise)

lemma ok_authority:
  assumes "others_step env" "steps_keep P"
  shows "job_ok P (job_tx env (\<lambda>_ _ s. ebind (run_authority s run) (\<lambda>st. Inr (st, s)))) (\<lambda>st s. stood run st s \<and> P s)"
  by (rule ok_tx [OF assms]) (auto simp: ebind_Inr_iff intro: stands_stood authority_stands)

lemma closing_answer_kept: "steps_keep (\<lambda>s. stood run st s \<and> closing_run run s)"
  by (rule kept_conj [OF stood_kept closing_run_kept])

lemma ok_finish_closes:
  assumes "others_step env"
  shows "job_ok (\<lambda>_. True) (job_bind (job_tx env (\<lambda>_ _ s. ebind (account_for s run) (\<lambda>acc. Inr (acc, s)))) (\<lambda>acc.
     job_bind (job_tx env (\<lambda>now fresh. finish fresh now acc run st content result code msg)) (\<lambda>_.
       job_tx env (\<lambda>_ _ s. ebind (run_authority s run) (\<lambda>st. Inr (st, s))))))
     (\<lambda>st s. stood run st s \<and> closing_run run s)"
proof (rule ok_bind [OF ok_read_tx [OF assms true_kept]], rule ok_bind [OF _ ok_authority [OF assms closing_run_kept]])
  fix acc
  show "job_ok (\<lambda>_. True) (job_tx env (\<lambda>now fresh. finish fresh now acc run st content result code msg)) (\<lambda>_. closing_run run)"
  proof (rule ok_tx [OF assms true_kept])
    fix now fresh s a s' assume h: "sound_db s" "finish fresh now acc run st content result code msg s = Inr (a, s')"
    from finish_closes [OF h(2,1)] one_step [OF chat_step.Finish [OF h(2) all_chat_run(1) [OF h(1)]]]
    show "chat_step\<^sup>*\<^sup>* s s' \<and> closing_run run s'" by blast
  qed
qed

lemma ok_failed_closes:
  assumes "others_step (lf_job env)"
  shows "job_ok (\<lambda>_. True) (finalize_failed_activity env run code msg) (\<lambda>st s. stood run st s \<and> closing_run run s)"
  unfolding finalize_failed_activity_def finalize_failed_job_def
  by (rule ok_lifecycle_call [OF ok_finish_closes [OF assms] true_kept])

lemma ok_cancelled_closes:
  assumes "others_step (lf_job env)"
  shows "job_ok (\<lambda>_. True) (finalize_cancelled_activity env run) (\<lambda>st s. stood run st s \<and> closing_run run s)"
  unfolding finalize_cancelled_activity_def finalize_cancelled_job_def
proof (rule ok_lifecycle_call [OF _ true_kept], rule ok_bind [OF ok_authority [OF assms true_kept]])
  fix st
  have read: "job_ok (\<lambda>s. stood run st s \<and> True) (job_return st) (\<lambda>st s. stood run st s \<and> closing_run run s)"
    if "st \<in> {Cancelled, Succeeded, Failed}"
    by (rule ok_return) (use that stood_closing [of run st] in \<open>auto simp: closing_def\<close>)
  note finished = ok_weaken [OF ok_finish_closes [OF assms]]
  show "job_ok (\<lambda>s. stood run st s \<and> True)
     (if st = Cancelling then
         job_bind (job_tx (lf_job env) (\<lambda>_ _ s. ebind (account_for s run) (\<lambda>acc. Inr (acc, s)))) (\<lambda>acc.
         job_bind (job_tx (lf_job env) (\<lambda>now fresh. finish fresh now acc run Cancelled None None None None)) (\<lambda>_.
           job_tx (lf_job env) (\<lambda>_ _ s. ebind (run_authority s run) (\<lambda>st'. Inr (st', s)))))
       else if st \<in> {Cancelled, Succeeded, Failed} then job_return st
       else finalize_failed_job (lf_job env) run ''workflow_cancelled_unexpectedly'' UNEXPECTED_CANCEL)
     (\<lambda>st s. stood run st s \<and> closing_run run s)"
  proof (cases "st \<in> {Cancelled, Succeeded, Failed}")
    case True
    then show ?thesis using read [OF True] by (cases st) simp_all
  next
    case False
    then show ?thesis unfolding finalize_failed_job_def by (cases "st = Cancelling") (simp_all add: finished)
  qed
qed

lemma ok_prepare:
  assumes "others_step (lf_job env)"
  shows "job_ok (\<lambda>_. True) (prepare_run_activity env run) (\<lambda>st s. stood run st s)"
  unfolding prepare_run_activity_def
proof (rule ok_lifecycle_call [OF ok_tx [OF assms true_kept] true_kept])
  fix now and fresh :: "nat \<Rightarrow> uuid" and s st s'
  assume h: "sound_db s" "prepare run (Some (lf_workflow_id env)) (Some (lf_temporal_id env)) now s = Inr (st, s')"
  from stands_stood [OF prepare_stands [OF h(2,1)]] one_step [OF chat_step.Prepare [OF h(2)]]
  show "chat_step\<^sup>*\<^sup>* s s' \<and> stood run st s'" by blast
qed

lemma ok_load_strategy:
  assumes "others_step (lf_job env)"
  shows "job_ok (row_of run c) (load_strategy env run) (\<lambda>k s. row_of run c s \<and> validate_run c = Inr k)"
  unfolding load_strategy_def
proof (rule ok_catch [OF ok_tx [OF assms row_of_kept] _ row_of_kept])
  fix s k s'
  assume h: "row_of run c s" "ebind (need (ValueError ''Run unavailable'') (chat_runs s run)) (\<lambda>c.
      ebind (validate_run c) (\<lambda>k. Inr (k, s))) = Inr (k, s')"
  then show "chat_step\<^sup>*\<^sup>* s s' \<and> row_of run c s' \<and> validate_run c = Inr k"
    by (auto simp: row_of_def ebind_Inr_iff need_def)
qed (auto intro: ok_raise split: exn.split)

lemma ok_complete_job:
  fixes env :: "'x life_env"
  assumes "others_step (lf_job env)"
  shows "job_ok (\<lambda>_. True) (complete_job env run content ref) (\<lambda>st s. stood run st s \<and> closing_run run s)"
  unfolding complete_job_def
proof (rule ok_bind [OF ok_read_tx [OF assms true_kept]], rule ok_bind [OF _ ok_authority [OF assms closing_run_kept]],
    rule ok_bind [OF ok_pause [OF assms true_kept]], rule job_okI)
  fix w w' :: "'x job_world" and r
  let ?f = "\<lambda>now fresh. complete fresh now run content (lf_receipt env ref run (jw_ext w)) (lf_rejected env run (jw_ext w))
      (lf_accepted env run (jw_ext w))"
  assume w: "sound_db (jw_db w)" "True" "job_commit (lf_job env) ?f w = (r, w')"
  have "job_ok (\<lambda>_. True) (job_commit (lf_job env) ?f) (\<lambda>_. closing_run run)"
  proof (rule ok_commit)
    fix now fresh s a s' assume h: "sound_db s" "?f now fresh s = Inr (a, s')"
    from complete_closes [OF h(2,1)] one_step [OF chat_step.Complete [OF h(2) all_chat_run(1) [OF h(1)]]]
    show "chat_step\<^sup>*\<^sup>* s s' \<and> closing_run run s'" by blast
  qed
  from job_okD [OF this w(1,2,3)]
  show "chat_step\<^sup>*\<^sup>* (jw_db w) (jw_db w') \<and> (\<exists>cs. jw_log w' = jw_log w @ cs \<and> list_all own_start cs)
    \<and> (case r of Job_Done a \<Rightarrow> closing_run run (jw_db w') | _ \<Rightarrow> True)" by (cases r) auto
qed

lemma ok_finalize_result:
  assumes "others_step (lf_job env)"
  shows "job_ok (\<lambda>_. True) (finalize_agent_result env run ref) (\<lambda>st s. stood run st s \<and> closing_run run s)"
  unfolding finalize_agent_result_def
  by (rule ok_catch [OF ok_bind [OF ok_rpc [OF assms true_kept] ok_complete_job [OF assms]] _ true_kept])
    (auto intro: ok_raise split: option.split)

section \<open>The Workflow\<close>

definition reaches :: "chat_db \<Rightarrow> (chat_db \<Rightarrow> bool) \<Rightarrow> 'x job_world \<Rightarrow> bool" where
  "reaches d P w \<longleftrightarrow> chat_step\<^sup>*\<^sup>* d (jw_db w) \<and> P (jw_db w)"

lemma reachesI: "chat_step\<^sup>*\<^sup>* d (jw_db w) \<Longrightarrow> P (jw_db w) \<Longrightarrow> reaches d P w"
  by (simp add: reaches_def)

text \<open>The exceptions the handlers of the Workflow catch.\<close>

definition handled :: "wf_exn \<Rightarrow> bool" where
  "handled e \<longleftrightarrow> e = Plain CancelledError \<or> (\<forall>x. e \<noteq> Plain x)"

lemma handled_simps [simp]: "handled (Activity_Error c)" "handled (Child_Error c)" "handled (Plain CancelledError)"
  by (simp_all add: handled_def)

lemma await_handled: "handled (await_exn Activity_Error i)" "handled (await_exn Child_Error i)"
  by (cases i; simp add: await_exn_def)+

lemma attempts_handled: "activity_attempts env n p w = (Inl e, w') \<Longrightarrow> handled e"
proof (induction n arbitrary: w)
  case (Suc n)
  then show ?case
    by (auto simp: await_handled split: prod.splits option.splits job_end.splits if_splits)
qed auto

lemma ensures_activity:
  fixes env :: "'x life_env"
  assumes o': "others_step (lf_job env)" and d: "sound_db d"
    and p: "job_ok P p Q" "steps_keep P" "\<And>a. steps_keep (Q a)"
  shows "ensures (reaches d P) (activity env n p)
     (\<lambda>w r. reaches d P w \<and> (case r of Inr a \<Rightarrow> Q a (jw_db w) | Inl e \<Rightarrow> handled e \<and> (\<exists>w0. activity_attempts env n p w0 = (Inl e, w))))"
  unfolding activity_def
proof (rule ensures_perform)
  fix w :: "'x job_world" assume w: "reaches d P w"
  obtain r w' where 1: "activity_attempts env n p w = (r, w')" by (cases "activity_attempts env n p w")
  have s: "sound_db (jw_db w)" using w steps_sound(1) [OF _ d] by (simp add: reaches_def)
  have "P (jw_db w)" using w by (simp add: reaches_def)
  from ok_attempts [OF o' p s this 1] w have "reaches d P w'" "\<forall>a. r = Inr a \<longrightarrow> Q a (jw_db w')"
    by (auto simp: reaches_def intro: rtranclp_trans)
  with 1 attempts_handled [of env n p w _ w'] show "reaches d P (snd (activity_attempts env n p w))
     \<and> (case fst (activity_attempts env n p w) of Inr a \<Rightarrow> Q a (jw_db (snd (activity_attempts env n p w)))
        | Inl e \<Rightarrow> handled e \<and> (\<exists>w0. activity_attempts env n p w0 = (Inl e, snd (activity_attempts env n p w))))"
    by (auto split: sum.splits)
qed

lemma ensures_child_workflow:
  fixes env :: "'x life_env"
  assumes o': "others_step (lf_job env)" and d: "sound_db d" and P: "steps_keep P"
  shows "ensures (reaches d P) (child_workflow env f) (\<lambda>w r. reaches d P w \<and> (case r of Inr a \<Rightarrow> True | Inl e \<Rightarrow> handled e))"
  unfolding child_workflow_def
proof (rule ensures_perform)
  fix w :: "'x job_world" assume w: "reaches d P w"
  let ?g = "\<lambda>w. case lf_interrupt env (jw_ext w) of (stop, x) \<Rightarrow>
       (case stop of
          Some i \<Rightarrow> (Inl (await_exn Child_Error i), w\<lparr>jw_ext := x\<rparr>)
        | None \<Rightarrow>
            (case with_others env f (w\<lparr>jw_ext := x\<rparr>) of (r, w') \<Rightarrow>
               (case r of Inl e \<Rightarrow> Inl (Child_Error (if is_cancelled_exception e then Plain CancelledError else e))
                        | Inr a \<Rightarrow> Inr a, w')))"
  have s: "sound_db (jw_db w)" "P (jw_db w)" "chat_step\<^sup>*\<^sup>* d (jw_db w)"
    using w steps_sound(1) [OF _ d] by (simp_all add: reaches_def)
  obtain stop x where i: "lf_interrupt env (jw_ext w) = (stop, x)" by (cases "lf_interrupt env (jw_ext w)")
  show "reaches d P (snd (?g w)) \<and> (case fst (?g w) of Inr a \<Rightarrow> True | Inl e \<Rightarrow> handled e)"
  proof (cases stop)
    case (Some e)
    with i w show ?thesis by (simp add: reaches_def await_handled)
  next
    case None
    obtain lives x1 db where o1: "je_others (lf_job env) x (jw_db w) = (lives, x1, db)"
      by (cases "je_others (lf_job env) x (jw_db w)")
    with o' s(1) have st: "chat_step\<^sup>*\<^sup>* (jw_db w) db" unfolding others_step_def by blast
    have "P db" by (rule keepD [OF P s(1,2) st])
    moreover have "chat_step\<^sup>*\<^sup>* d db" by (rule rtranclp_trans [OF s(3) st])
    ultimately show ?thesis
      by (auto simp: i None with_others_def o1 reaches_def split: prod.splits sum.splits)
  qed
qed

lemma true_job_ok: "others_step env \<Longrightarrow> steps_keep P \<Longrightarrow> job_ok P (job_rpc env [] f) (\<lambda>_. P)"
  by (rule ok_rpc) simp_all

text \<open>The last Activity of the Workflow, one that finalizes the Run, failed.\<close>

definition gave_up :: "'x life_env \<Rightarrow> uuid \<Rightarrow> wf_exn \<Rightarrow> 'x job_world \<Rightarrow> bool" where
  "gave_up env run e w \<longleftrightarrow> (\<exists>w0 p. (p = finalize_cancelled_activity env run \<or> (\<exists>code msg. p = finalize_failed_activity env run code msg))
     \<and> activity_attempts env FINALIZE_ATTEMPTS p w0 = (Inl e, w))"

definition settled :: "'x life_env \<Rightarrow> chat_db \<Rightarrow> uuid \<Rightarrow> 'x job_world \<Rightarrow> wf_exn + json \<Rightarrow> bool" where
  "settled env d run w r \<longleftrightarrow> reaches d (\<lambda>_. True) w
     \<and> (case r of Inr a \<Rightarrow> a = completed_result run \<and> stands run Succeeded (jw_db w)
        | Inl e \<Rightarrow> closing_run run (jw_db w) \<or> gave_up env run e w)"

lemma ensures_finalizer:
  assumes "others_step (lf_job env)" "sound_db d"
    and "p = finalize_cancelled_activity env run \<or> (\<exists>code msg. p = finalize_failed_activity env run code msg)"
  shows "ensures (reaches d (\<lambda>_. True)) (activity env FINALIZE_ATTEMPTS p)
     (\<lambda>w r. case r of Inr st \<Rightarrow> reaches d (\<lambda>s. stood run st s \<and> closing_run run s) w | Inl e \<Rightarrow> settled env d run w (Inl e))"
proof -
  have ok: "job_ok (\<lambda>_. True) p (\<lambda>st s. stood run st s \<and> closing_run run s)"
    using assms(3) ok_cancelled_closes [OF assms(1)] ok_failed_closes [OF assms(1)] by auto
  show ?thesis
    by (rule ensures_weaken [OF ensures_activity [OF assms(1,2) ok true_kept closing_answer_kept]])
      (use assms(3) in \<open>auto simp: reaches_def settled_def gave_up_def split: sum.splits\<close>)
qed

lemma settled_answer:
  assumes "reaches d (\<lambda>s. stood run st s \<and> closing_run run s) w"
  shows "st = Succeeded \<Longrightarrow> settled env d run w (Inr (completed_result run))" "settled env d run w (Inl e)"
  using assms stood_succeeded by (auto simp: settled_def reaches_def)

lemma ensures_after:
  assumes "others_step (lf_job env)" "sound_db d"
  shows "ensures (reaches d (\<lambda>_. True)) (after_cancel env run) (settled env d run)"
    "ensures (reaches d (\<lambda>_. True)) (after_failure env run e) (settled env d run)"
  unfolding after_cancel_def after_failure_def
  by (rule ensures_bind [OF ensures_finalizer [OF assms]], blast, simp,
      auto intro!: ensures_return ensures_raise settled_answer)+

text \<open>What the body leaves to the handlers.\<close>

definition body_ok :: "chat_db \<Rightarrow> uuid \<Rightarrow> 'x job_world \<Rightarrow> wf_exn + json \<Rightarrow> bool" where
  "body_ok d run w r \<longleftrightarrow> reaches d (\<lambda>_. True) w
     \<and> (case r of Inr a \<Rightarrow> a = completed_result run \<and> stands run Succeeded (jw_db w)
        | Inl e \<Rightarrow> handled e \<or> closing_run run (jw_db w))"

lemma body_ok_simps:
  "body_ok d run w (Inl e) \<longleftrightarrow> reaches d (\<lambda>_. True) w \<and> (handled e \<or> closing_run run (jw_db w))"
  "body_ok d run w (Inr a) \<longleftrightarrow> reaches d (\<lambda>_. True) w \<and> a = completed_result run \<and> stands run Succeeded (jw_db w)"
  by (simp_all add: body_ok_def)

lemma ensures_agent_execution:
  assumes "others_step (lf_job env)" "sound_db d"
  shows "ensures (reaches d (\<lambda>_. True)) (agent_execution env run) (body_ok d run)"
  unfolding agent_execution_def outside_activity_def
proof (rule ensures_bind [OF ensures_activity [OF assms true_job_ok [OF assms(1) true_kept] true_kept true_kept]], goal_cases)
  case (2 identity)
  show ?case
  proof (rule ensures_weaken [OF ensures_bind [OF ensures_child_workflow [OF assms true_kept], where Q = "body_ok d run"]], goal_cases)
    case (2 result)
    show ?case
    proof (rule ensures_weaken [OF ensures_bind [OF ensures_activity [OF assms ok_finalize_result [OF assms(1)] true_kept closing_answer_kept],
          where Q = "body_ok d run"]], goal_cases)
      case (2 st)
      show ?case
        by (auto intro!: ensures_return ensures_raise simp: body_ok_simps dest: stood_succeeded)
    qed (auto simp: body_ok_simps)
  qed (auto simp: body_ok_simps)
qed (simp add: body_ok_simps)

lemma ensures_body:
  assumes "others_step (lf_job env)" "sound_db d" and c: "cr_executor_key c \<noteq> ''artifact_html''"
  shows "ensures (reaches d (row_of run c)) (lifecycle_body env run) (body_ok d run)"
  unfolding lifecycle_body_def
proof (rule ensures_bind [OF ensures_activity [OF assms(1,2) _ row_of_kept, where Q = "\<lambda>st s. stood run st s"]], goal_cases)
  case 1
  show ?case by (rule ok_weaken [OF ok_prepare [OF assms(1)]]) simp_all
next
  case (2 st)
  show ?case by (rule stood_kept)
next
  case (3 w e)
  then show ?case by (auto simp: body_ok_simps reaches_def)
next
  case (4 st)
  have load: "ensures (reaches d (row_of run c)) (wf_bind (activity env LIFECYCLE_ATTEMPTS (load_strategy env run)) (\<lambda>(kind, key).
           if kind = ''fixed_workflow''
           then (if key = ''artifact_html'' then artifact_build env run else wf_perform (with_others env (lf_research env run)))
           else if kind = ''deterministic''
           then wf_bind (outside_activity env (lf_reminder env run)) (\<lambda>_. wf_return (completed_result run))
           else agent_execution env run)) (body_ok d run)"
  proof (rule ensures_bind [OF ensures_activity [OF assms(1,2) ok_load_strategy [OF assms(1)] row_of_kept]], goal_cases)
    case (1 k)
    show ?case using row_of_kept [of run c] unfolding steps_keep_def by blast
  next
    case (2 w e)
    then show ?case by (auto simp: body_ok_simps reaches_def)
  next
    case (3 a)
    obtain kind key where a: "a = (kind, key)" by (cases a)
    show ?case
    proof (cases "kind = ''generic_agent''")
      case True
      have ne: "''generic_agent'' \<noteq> ''fixed_workflow''" "''generic_agent'' \<noteq> ''deterministic''" by simp_all
      show ?thesis unfolding a True prod.case if_not_P [OF ne(1)] if_not_P [OF ne(2)]
        by (rule ensures_weaken [OF ensures_agent_execution [OF assms(1,2)]]) (auto simp: reaches_def)
    next
      case False
      have "validate_run c \<noteq> Inr a" using False c by (auto simp: validate_run_def a Let_def ensure_def)
      then show ?thesis by (auto simp: ensures_def)
    qed
  qed
  show ?case
  proof (cases "st = Queued \<or> st = Running")
    case True
    then have st: "st \<noteq> Succeeded" "st \<notin> {Cancelling, Cancelled}" "st \<noteq> Failed" by auto
    show ?thesis unfolding if_not_P [OF st(1)] if_not_P [OF st(2)] if_not_P [OF st(3)]
      by (rule ensures_weaken [OF load]) (auto simp: reaches_def)
  next
    case False
    then have "st \<in> closing" "st = Succeeded \<or> st \<in> {Cancelling, Cancelled} \<or> st = Failed" by (cases st; simp add: closing_def)+
    then show ?thesis
      by (auto intro!: ensures_return ensures_raise simp: body_ok_simps reaches_def dest: stood_succeeded stood_closing)
  qed
qed

lemma ensures_handlers:
  assumes "others_step (lf_job env)" "sound_db d"
  shows "ensures (\<lambda>w. body_ok d run w (Inl e)) (lifecycle_handlers env run e) (settled env d run)"
proof (cases "handled e")
  case True
  have "ensures (reaches d (\<lambda>_. True)) (lifecycle_handlers env run e) (settled env d run)"
    using True ensures_after [OF assms] unfolding lifecycle_handlers_def handled_def by (auto split: wf_exn.split)
  then show ?thesis by (rule ensures_weaken) (auto simp: body_ok_simps)
next
  case False
  then have "lifecycle_handlers env run e = wf_raise e" by (cases e) (auto simp: handled_def lifecycle_handlers_def)
  with False show ?thesis by (auto intro!: ensures_raise simp: body_ok_simps settled_def)
qed

lemma ensures_lifecycle:
  assumes "others_step (lf_job env)" "sound_db d" "cr_executor_key c \<noteq> ''artifact_html''" "run \<noteq> []"
  shows "ensures (reaches d (row_of run c)) (lifecycle_run env \<lparr>li_schema_version = 1, li_run_id = run\<rparr>) (settled env d run)"
proof -
  have v: "validate_lifecycle \<lparr>li_schema_version = 1, li_run_id = run\<rparr> = Inr ()"
    using assms(4) by (simp add: validate_lifecycle_def ensure_def)
  have "ensures (reaches d (row_of run c)) (wf_bind (wf_attempt (lifecycle_body env run)) (\<lambda>r.
      case r of Inr a \<Rightarrow> wf_return a | Inl e \<Rightarrow> lifecycle_handlers env run e)) (settled env d run)"
  proof (rule ensures_bind [where R = "\<lambda>w r. case r of Inl e \<Rightarrow> False | Inr r' \<Rightarrow> body_ok d run w r'"])
    show "ensures (reaches d (row_of run c)) (wf_attempt (lifecycle_body env run)) (\<lambda>w r. case r of Inl e \<Rightarrow> False | Inr r' \<Rightarrow> body_ok d run w r')"
      using ensures_body [OF assms(1-3)] by (intro ensures_attempt) simp
    show "ensures (\<lambda>w. case Inr r of Inl e \<Rightarrow> False | Inr r' \<Rightarrow> body_ok d run w r')
        (case r of Inr a \<Rightarrow> wf_return a | Inl e \<Rightarrow> lifecycle_handlers env run e) (settled env d run)" for r
      using ensures_handlers [OF assms(1,2)]
      by (cases r) (auto intro!: ensures_return simp: body_ok_simps settled_def)
  qed simp
  then show ?thesis
    unfolding lifecycle_run_def v by (simp add: wf_of_res_def wf_bind_def wf_return_def ensures_def)
qed

end
