(* ===== verification/Chat_Replays.thy ===== *)
theory Chat_Replays
  imports Chat_Runs
begin

text \<open>
  The commands of the surfaces are executed once: a command claims its key in the transaction that records its
  answer, no other transaction touches an answered command, and a repeated delivery finds the answer.
\<close>

section \<open>Repeated commands\<close>

lemma claim_new:
  assumes "claim env fresh acc oper key payload s = Inr (None, s1)"
  shows "find (command_of acc oper key) (commands s) = None"
    "commands s1 = commands s @ [\<lparr>cm_command_id = fresh 0, cm_account_id = acc, cm_operation = oper, cm_key = key,
       cm_request_hash = hash_of env payload, cm_response = None\<rparr>]"
  using assms by (auto simp: claim_def command_claim_def res_simps split: option.splits)

lemma claim_known:
  assumes "claim env fresh acc oper key payload s = Inr (Some x, s1)"
  shows "s1 = s" "cx_replayed x" "find (command_of acc oper key) (commands t) = find (command_of acc oper key) (commands s)
    \<Longrightarrow> claim env fresh' acc oper key payload t = Inr (Some x, t)"
  using assms by (auto simp: claim_def command_claim_def res_simps split: option.splits prod.splits)

lemma reply_recorded:
  assumes "claim env fresh acc oper key payload s = Inr (None, s1)" "commands s2 = commands s1"
    and "reply acc oper key code reused body s2 = Inr (x, s')"
    and "find (command_of acc oper key) (commands t) = find (command_of acc oper key) (commands s')"
    and "reused \<longleftrightarrow> oper = ''retry_run'' \<and> code = 200"
  shows "claim env fresh' acc oper key payload t = Inr (Some (x\<lparr>cx_replayed := True\<rparr>), t)"
proof -
  let ?c = "\<lparr>cm_command_id = fresh 0, cm_account_id = acc, cm_operation = oper, cm_key = key,
       cm_request_hash = hash_of env payload, cm_response = Some (code, body)\<rparr>"
  have "commands s' = update_where (command_of acc oper key) (\<lambda>c. c\<lparr>cm_response := Some (code, body)\<rparr>) (commands s1)"
    and x: "x = \<lparr>cx_status = code, cx_body = body, cx_replayed = False, cx_resource_reused = reused\<rparr>"
    using assms(2,3) by (auto simp: reply_def command_complete_def)
  then have "find (command_of acc oper key) (commands t) = Some ?c"
    unfolding assms(4) claim_new(2) [OF assms(1)] using claim_new(1) [OF assms(1)]
    by (simp add: find_update_where command_of_def find_append)
  with x assms(5) show ?thesis by (simp add: claim_def command_claim_def res_simps)
qed

lemma open_run_commands:
  assumes "open_run env fresh acc conv c sequence now s = Inr s'"
  shows "commands s' = commands s"
  using assms
  by (auto simp: open_run_def Let_def insert_chat_run_def insert_assistant_def insert_message_def create_budget_def
      enqueue_run_event_def outbox_enqueue_def res_simps split: if_splits)

lemma finish_in_uow_commands:
  assumes "finish_in_uow fresh now r st content result code msg s = Inr (b, s')"
  shows "commands s' = commands s"
proof -
  have recover: "commands b = commands a" if "recover_budgets r a = Inr b" for r and a b :: "'a chat_db_scheme"
    using same_chat_tables_budgets [OF recover_budgets_frame [OF that]] by (simp add: same_chat_tables_def)
  have finish: "commands b = commands a" if "set_result_terminal st code msg res run now a = Inr b" for st code msg res run and a b :: "'a chat_db_scheme"
    using that [unfolded set_result_terminal_def]
    by (cases rule: run_update_cases) (simp_all add: same_chat_tables_def)
  have project: "commands b = commands a" if "project_terminal fresh now r st content a = Inr b" for r st and a b :: "'a chat_db_scheme"
    using that by (auto simp: project_terminal_def set_message_terminal_def outbox_enqueue_def res_simps split: if_splits)
  show ?thesis
    using assms unfolding finish_in_uow_def end_chat_run_def
    by (auto simp: res_simps dest!: recover finish project split: if_splits)
qed

lemma replayed_result: "cx_replayed x \<Longrightarrow> x\<lparr>cx_replayed := True\<rparr> = x"
  by (cases x) simp

text \<open>A command claims its key and records its answer, or finds the answer of an earlier delivery.\<close>

definition answers ::
  "chat_env \<Rightarrow> (nat \<Rightarrow> uuid) \<Rightarrow> uuid \<Rightarrow> string \<Rightarrow> string \<Rightarrow> json \<Rightarrow> 'a chat_db_scheme \<Rightarrow> command_result \<Rightarrow> 'a chat_db_scheme \<Rightarrow> bool" where
  "answers env fresh acc oper key payload s x s' \<longleftrightarrow> claim env fresh acc oper key payload s = Inr (Some x, s') \<or>
     (\<exists>s1 s2 code body. claim env fresh acc oper key payload s = Inr (None, s1) \<and> commands s2 = commands s1
        \<and> reply acc oper key code (oper = ''retry_run'' \<and> code = 200) body s2 = Inr (x, s'))"

lemma answersI:
  assumes "claim env fresh acc oper key payload s = Inr (None, s1)" "commands s2 = commands s1"
    and "reply acc oper key code reused body s2 = Inr (x, s')" and "reused \<longleftrightarrow> oper = ''retry_run'' \<and> code = 200"
  shows "answers env fresh acc oper key payload s x s'"
  using assms unfolding answers_def by blast

lemma answered_again:
  assumes "answers env fresh acc oper key payload s x s'"
    and "find (command_of acc oper key) (commands t) = find (command_of acc oper key) (commands s')"
  shows "claim env fresh' acc oper key payload t = Inr (Some (x\<lparr>cx_replayed := True\<rparr>), t)"
  using assms(1) [unfolded answers_def]
proof (elim disjE exE conjE)
  assume c: "claim env fresh acc oper key payload s = Inr (Some x, s')"
  have "claim env fresh' acc oper key payload t = Inr (Some x, t)"
    by (rule claim_known(3) [OF c]) (simp add: assms(2) claim_known(1) [OF c])
  then show ?thesis by (simp add: replayed_result [OF claim_known(2) [OF c]])
qed (rule reply_recorded [OF _ _ _ assms(2)], simp_all)

lemma create_conversation_answers:
  assumes "create_conversation env fresh acc key title s = Inr (x, s')"
  shows "answers env fresh acc ''create_conversation'' key (JObj [(''title'', JStr title)]) s x s'"
  using assms [unfolded create_conversation_def ebind_pair_iff]
proof (elim exE conjE, goal_cases)
  case (1 existing s1)
  show ?case
  proof (cases existing)
    case (Some r)
    with 1 show ?thesis by (simp add: answers_def)
  next
    case None
    from 1(2) [unfolded None option.case Let_def ensure_Inr_iff]
    have r: "reply acc ''create_conversation'' key 201 False (Conversation_Body (fresh 1) \<lparr>cv_title = title, cv_status = ''active'', cv_last_message_seq = 0\<rparr>)
       (s1\<lparr>conversations := conversations s1 @ [(acc, fresh 1)],
           conversation_rows := (conversation_rows s1)((acc, fresh 1) \<mapsto> \<lparr>cv_title = title, cv_status = ''active'', cv_last_message_seq = 0\<rparr>)\<rparr>) = Inr (x, s')"
      by blast
    show ?thesis by (rule answersI [OF 1(1) [unfolded None] _ r]) simp_all
  qed
qed

lemma send_message_answers:
  assumes "send_message env fresh now acc conv key content strategy html s = Inr (x, s')"
  shows "answers env fresh acc ''send_message'' key (send_payload conv content strategy html) s x s'
    \<and> strategy \<in> {''react'', ''plan_and_execute''} \<and> (\<exists>request. message_request_id env key = Inr request)"
  using assms [unfolded send_message_def ensure_Inr_iff ebind_Inr_iff [of "message_request_id env key"] ebind_pair_iff [of "claim _ _ _ _ _ _ _"]]
proof (elim exE conjE, goal_cases)
  case (1 request existing s1)
  have "answers env fresh acc ''send_message'' key (send_payload conv content strategy html) s x s'"
  proof (cases existing)
    case (Some r)
    with 1 show ?thesis by (simp add: answers_def)
  next
    case None
    note body = 1(4) [unfolded None option.case ensure_Inr_iff]
    show ?thesis
    proof (cases "find_initial_by_client_request s1 acc request")
      case (Some p)
      with body obtain b where "reply acc ''send_message'' key 202 False (Run_Body b) s1 = Inr (x, s')"
        by (auto simp: res_simps split: prod.splits)
      from answersI [OF 1(3) [unfolded None] _ this] show ?thesis by simp
    next
      case fresh_request: None
      from body [unfolded fresh_request option.case Let_def ebind_Inr_iff split_paired_Ex prod.case]
      obtain allocated s2 s3 s4 b c where a: "allocate_messages acc conv 2 s1 = Inr (allocated, s2)"
        and u: "insert_user (fresh 1) acc conv content (allocated - 1) request now s2 = Inr s3"
        and o: "open_run env fresh acc conv c allocated now s3 = Inr s4"
        and r: "reply acc ''send_message'' key 202 False (Run_Body b) s4 = Inr (x, s')"
        by blast
      have "commands s2 = commands s1" using a by (auto simp: allocate_messages_def Let_def res_simps)
      then have "commands s4 = commands s1"
        unfolding open_run_commands [OF o] using insert_message_new(1) [OF u [unfolded insert_user_def]] by simp
      from answersI [OF 1(3) [unfolded None] this r] show ?thesis by simp
    qed
  qed
  with 1(1,2) show ?case by blast
qed

lemma retry_run_answers:
  assumes "retry_run env fresh now ready acc source key s = Inr (x, s')"
  shows "answers env fresh acc ''retry_run'' key (JObj [(''run_id'', JStr source)]) s x s'"
  using assms [unfolded retry_run_def ebind_pair_iff [of "claim _ _ _ _ _ _ _"]]
proof (elim exE conjE, goal_cases)
  case (1 existing s1)
  show ?case
  proof (cases existing)
    case (Some r)
    with 1 show ?thesis by (simp add: answers_def)
  next
    case None
    note body = 1(2) [unfolded None option.case]
    obtain r where r: "find_run s1 acc source = Some r" using body by (cases "find_run s1 acc source") simp_all
    obtain conv where conv: "r_conversation_id r = Some conv" using body r by (cases "r_conversation_id r") simp_all
    note body' = body [unfolded r conv option.case ensure_Inr_iff Let_def]
    show ?thesis
    proof (cases "direct_retry s1 source")
      case (Some child)
      with body' obtain b where "reply acc ''retry_run'' key 200 True (Run_Body b) s1 = Inr (x, s')"
        by (auto simp: res_simps)
      from answersI [OF 1(1) [unfolded None] _ this] show ?thesis by simp
    next
      case no_child: None
      from body' [unfolded no_child option.case ensure_Inr_iff ebind_Inr_iff need_Inr_iff split_paired_Ex prod.case]
      obtain sequence s2 c s3 b where a: "allocate_messages acc conv 1 s1 = Inr (sequence, s2)"
        and o: "open_run env fresh acc conv c sequence now s2 = Inr s3"
        and r: "reply acc ''retry_run'' key 202 False (Run_Body b) s3 = Inr (x, s')"
        by blast
      have "commands s3 = commands s1"
        unfolding open_run_commands [OF o] using a by (auto simp: allocate_messages_def Let_def res_simps)
      from answersI [OF 1(1) [unfolded None] this r] show ?thesis by simp
    qed
  qed
qed

lemma outbox_enqueue_commands: "outbox_enqueue ev acc ty k conv run payload now s = Inr s' \<Longrightarrow> commands s' = commands s"
  by (auto simp: outbox_enqueue_def res_simps split: if_splits)

lemma cancelled_approvals_commands:
  "enqueue_cancelled_approvals env evs acc conv run now as s = Inr s' \<Longrightarrow> commands s' = commands s"
proof (induction env evs acc conv run now as s rule: enqueue_cancelled_approvals.induct)
  case (1 env ev evs acc conv run now a as s)
  from 1(2) obtain s1 where "commands s1 = commands s" "enqueue_cancelled_approvals env evs acc conv run now as s1 = Inr s'"
    by (auto simp: ebind_Inr_iff dest: outbox_enqueue_commands)
  with 1(1) show ?case by simp
qed simp_all

lemma request_cancel_commands:
  assumes "request_cancel env fresh now acc r s = Inr s'"
  shows "commands s' = commands s"
proof -
  from assms [unfolded request_cancel_def Let_def ebind_Inr_iff] obtain s1 s2 as evs where
    1: "set_cancelling (r_run_id r) s = Inr s1"
    and 2: "enqueue_cancelled_approvals env evs acc (r_conversation_id r) (r_run_id r) now as (s1\<lparr>approval_rows :=
        update_where (pending_approval acc (r_run_id r)) (\<lambda>a. a\<lparr>fa_status := ''cancelled''\<rparr>) (approval_rows s1)\<rparr>) = Inr s2"
    and 3: "enqueue_run_event (fresh 2) acc (r_conversation_id r) (r_run_id r) ''cancel_run'' now s2 = Inr s'"
    by blast
  have "commands s1 = commands s" using set_cancelling_moved [OF 1] by (simp add: same_chat_tables_def)
  moreover have "commands s' = commands s2"
    using 3 unfolding enqueue_run_event_def by (rule outbox_enqueue_commands)
  ultimately show ?thesis using cancelled_approvals_commands [OF 2] by simp
qed

lemma cancel_run_answers:
  assumes "cancel_run env fresh now acc run key s = Inr (x, s')"
  shows "answers env fresh acc ''cancel_run'' key (JObj [(''run_id'', JStr run)]) s x s'"
  using assms [unfolded cancel_run_def ebind_pair_iff [of "claim _ _ _ _ _ _ _"]]
proof (elim exE conjE, goal_cases)
  case (1 existing s1)
  show ?case
  proof (cases existing)
    case (Some r)
    with 1 show ?thesis by (simp add: answers_def)
  next
    case None
    let ?s2 = "record_cancel_control acc run key s1"
    have c2: "commands ?s2 = commands s1" by (simp add: record_cancel_control_def Let_def)
    from 1(2) [unfolded None option.case ensure_Inr_iff ebind_Inr_iff [of "lock s1 acc run"] Let_def]
    have "(\<exists>b. reply acc ''cancel_run'' key 200 False (Run_Body b) s1 = Inr (x, s'))
      \<or> (\<exists>r2 v s3 b. finish_in_uow (\<lambda>n. fresh (n + 1)) now r2 Cancelled None None None None ?s2 = Inr (v, s3)
          \<and> reply acc ''cancel_run'' key 200 False (Run_Body b) s3 = Inr (x, s'))
      \<or> (\<exists>r s3 b. request_cancel env fresh now acc r ?s2 = Inr s3
          \<and> reply acc ''cancel_run'' key 202 False (Run_Body b) s3 = Inr (x, s'))"
      by (auto simp: ebind_Inr_iff need_Inr_iff split: if_splits)
    then show ?thesis
    proof (elim disjE exE conjE, goal_cases)
      case (1 b)
      from answersI [OF \<open>claim _ _ _ _ _ _ _ = _\<close> [unfolded None] _ 1] show ?case by simp
    next
      case (2 r2 v s3 b)
      from answersI [OF \<open>claim _ _ _ _ _ _ _ = _\<close> [unfolded None] _ 2(2)] finish_in_uow_commands [OF 2(1)] c2 show ?case by simp
    next
      case (3 r s3 b)
      from answersI [OF \<open>claim _ _ _ _ _ _ _ = _\<close> [unfolded None] _ 3(2)] request_cancel_commands [OF 3(1)] c2 show ?case by simp
    qed
  qed
qed

text \<open>An answered command keeps its answer.\<close>

definition answered :: "uuid \<Rightarrow> string \<Rightarrow> string \<Rightarrow> command_row \<Rightarrow> 'a chat_db_scheme \<Rightarrow> bool" where
  "answered acc oper key c s \<longleftrightarrow> find (command_of acc oper key) (commands s) = Some c \<and> cm_response c \<noteq> None"

lemma command_of_response [simp]: "command_of acc oper key (c\<lparr>cm_response := v\<rparr>) = command_of acc oper key c"
  by (simp add: command_of_def)

lemma answers_keeps:
  assumes "answers env fresh acc' oper' key' payload s x s'" "answered acc oper key c s"
  shows "answered acc oper key c s'"
  using assms(1) [unfolded answers_def]
proof (elim disjE exE conjE)
  assume "claim env fresh acc' oper' key' payload s = Inr (Some x, s')"
  from claim_known(1) [OF this] assms(2) show ?thesis by simp
next
  fix s1 s2 code body
  assume c: "claim env fresh acc' oper' key' payload s = Inr (None, s1)" and e: "commands s2 = commands s1"
    and r: "reply acc' oper' key' code (oper' = ''retry_run'' \<and> code = 200) body s2 = Inr (x, s')"
  have rows: "commands s' = update_where (command_of acc' oper' key') (\<lambda>c. c\<lparr>cm_response := Some (code, body)\<rparr>) (commands s1)"
    using r e by (auto simp: reply_def command_complete_def)
  have f: "find (command_of acc oper key) (commands s) = Some c" using assms(2) by (simp add: answered_def)
  have "\<not> command_of acc' oper' key' c"
    using claim_new(1) [OF c] find_SomeD [OF f] by (auto simp: find_None_iff)
  moreover have "find (command_of acc oper key) (commands s1) = Some c"
    using f by (simp add: claim_new(2) [OF c] find_append)
  ultimately have "find (command_of acc oper key) (commands s') = Some c"
    unfolding rows by (simp add: find_update_where)
  with assms(2) show ?thesis by (simp add: answered_def)
qed

lemma answers_answered:
  assumes "answers env fresh acc oper key payload s x s'"
  shows "\<exists>c. answered acc oper key c s'"
  using assms [unfolded answers_def]
proof (elim disjE exE conjE)
  assume c: "claim env fresh acc oper key payload s = Inr (Some x, s')"
  then show ?thesis by (auto simp: claim_def command_claim_def answered_def res_simps split: option.splits)
next
  fix s1 s2 code body
  assume c: "claim env fresh acc oper key payload s = Inr (None, s1)" and e: "commands s2 = commands s1"
    and r: "reply acc oper key code (oper = ''retry_run'' \<and> code = 200) body s2 = Inr (x, s')"
  have "commands s' = update_where (command_of acc oper key) (\<lambda>c. c\<lparr>cm_response := Some (code, body)\<rparr>) (commands s1)"
    using r e by (auto simp: reply_def command_complete_def)
  then show ?thesis
    using claim_new [OF c] by (simp add: answered_def find_update_where command_of_def find_append)
qed

lemma finish_commands:
  "finish fresh now acc run st content result code msg s = Inr (b, s') \<Longrightarrow> commands s' = commands s"
  by (auto simp: finish_def res_simps dest: finish_in_uow_commands)

lemma finalize_commands:
  "finalize_failed fresh now run code msg s = Inr (st, s') \<Longrightarrow> commands s' = commands s"
  "finalize_cancelled fresh now run s = Inr (st, s') \<Longrightarrow> commands s' = commands s"
  "complete fresh now run content receipt rejected accepted s = Inr (st, s') \<Longrightarrow> commands s' = commands s"
  by (auto simp: finalize_failed_def finalize_cancelled_def complete_def res_simps Let_def
      dest!: finish_commands finish_in_uow_commands split: if_splits)

lemma update_current_commands [simp]: "commands (update_current run sts f s) = commands s"
  by (simp add: update_current_def)

lemma prepare_commands:
  assumes "prepare run wid temporal now s = Inr (st, s')"
  shows "commands s' = commands s"
proof -
  from assms [unfolded prepare_def ebind_Inr_iff] obtain acc r s1 where
    "lock s acc run = Inr r" and 1: "bind_workflow run wid temporal now s = Inr s1"
    and 2: "(if r_status r = Queued then ebind (mark_running_queued run now s1) (\<lambda>s2. Inr (Running, s2))
       else Inr (r_status r, s1)) = Inr (st, s')"
    by blast
  have "commands s1 = commands s"
    using 1 by (auto simp: bind_workflow_def res_simps split: option.splits if_splits)
  moreover have "s' = s1 \<or> mark_running_queued run now s1 = Inr s'"
    using 2 by (auto simp: ebind_Inr_iff split: if_splits)
  ultimately show ?thesis using mark_running_moved [of run now s1 s'] unfolding same_chat_tables_def by metis
qed

lemma outbox_commands:
  "outbox_claim worker types skipped limit now s = Inr (es, s') \<Longrightarrow> commands s' = commands s"
  "recover_expired older types now s = Inr (n, s') \<Longrightarrow> commands s' = commands s"
  "mark_processed ev worker now s = Inr (b, s') \<Longrightarrow> commands s' = commands s"
  "mark_retryable_failure ev worker code msg next_at s = Inr (b, s') \<Longrightarrow> commands s' = commands s"
  by (auto simp: outbox_claim_def claim_batch_def recover_expired_def recover_expired_rows_def mark_processed_def
      mark_processed_row_def mark_retryable_failure_def mark_retryable_row_def res_simps Let_def)

lemma dead_letter_commands:
  "dead_letter fresh now ev worker code msg s = Inr (b, s') \<Longrightarrow> commands s' = commands s"
  by (auto simp: dead_letter_def mark_dead_letter_row_def res_simps Let_def dest!: finish_in_uow_commands split: if_splits)

lemma workflow_commands:
  "prepare_start rec run s = Inr (w, s') \<Longrightarrow> commands s' = commands s"
  "record_started run temporal now s = Inr (u, s') \<Longrightarrow> commands s' = commands s"
  "record_cancel_requested run s = Inr (u, s') \<Longrightarrow> commands s' = commands s"
  "record_temporal_fact run ws now s = Inr (u, s') \<Longrightarrow> commands s' = commands s"
  by (auto simp: prepare_start_def insert_scheduled_def record_started_def record_started_row_def record_cancel_requested_def
      record_cancel_requested_row_def record_temporal_fact_def record_terminal_fact_def res_simps
      split: option.splits if_splits)

lemma step_answered:
  assumes "chat_step s s'" "answered acc oper key c s"
  shows "answered acc oper key c s'"
proof -
  have kept: "answered acc oper key c s'" if "commands s' = commands s"
    using that assms(2) by (simp add: answered_def)
  show ?thesis using assms(1)
  proof cases
    case Create
    from answers_keeps [OF create_conversation_answers [OF this] assms(2)] show ?thesis .
  next
    case Send
    from answers_keeps [OF conjunct1 [OF send_message_answers [OF this]] assms(2)] show ?thesis .
  next
    case Retry
    from answers_keeps [OF retry_run_answers [OF this] assms(2)] show ?thesis .
  next
    case Cancel
    from answers_keeps [OF cancel_run_answers [OF Cancel(1)] assms(2)] show ?thesis .
  next
    case Outside
    then show ?thesis by (intro kept) (simp add: same_chat_tables_def)
  qed (rule kept, erule finish_commands finalize_commands prepare_commands outbox_commands dead_letter_commands workflow_commands)+
qed

lemma steps_answered:
  "chat_step\<^sup>*\<^sup>* s s' \<Longrightarrow> answered acc oper key c s \<Longrightarrow> answered acc oper key c s'"
  by (induction rule: rtranclp_induct) (auto intro: step_answered)

lemma answers_later:
  assumes "answers env fresh acc oper key payload s x s'" "chat_step\<^sup>*\<^sup>* s' t"
  shows "claim env fresh' acc oper key payload t = Inr (Some (x\<lparr>cx_replayed := True\<rparr>), t)"
proof (rule answered_again [OF assms(1)])
  obtain c where c: "answered acc oper key c s'" using answers_answered [OF assms(1)] by blast
  from c steps_answered [OF assms(2) c] show "find (command_of acc oper key) (commands t) = find (command_of acc oper key) (commands s')"
    by (simp add: answered_def)
qed

text \<open>C11. A command is executed once: sending a message again with its key, at any later time and after any
  other transactions, answers with the first answer and changes nothing, and so do a repeated retry, cancellation and
  creation of a conversation (the lemmas that follow).\<close>

theorem repeated_message_answers_again:
  assumes "send_message env fresh now acc conv key content strategy html s = Inr (x, s')" and "chat_step\<^sup>*\<^sup>* s' t"
  shows "send_message env fresh' now' acc conv key content strategy html t = Inr (x\<lparr>cx_replayed := True\<rparr>, t)"
proof -
  note a = send_message_answers [OF assms(1)]
  obtain request where "message_request_id env key = Inr request" using a by blast
  with a answers_later [OF conjunct1 [OF a] assms(2)] show ?thesis
    by (simp add: send_message_def)
qed

lemma repeated_retry_answers_again:
  assumes "retry_run env fresh now ready acc source key s = Inr (x, s')" and "chat_step\<^sup>*\<^sup>* s' t"
  shows "retry_run env fresh' now' ready' acc source key t = Inr (x\<lparr>cx_replayed := True\<rparr>, t)"
  using answers_later [OF retry_run_answers [OF assms(1)] assms(2)] by (simp add: retry_run_def)

lemma repeated_cancel_answers_again:
  assumes "cancel_run env fresh now acc run key s = Inr (x, s')" and "chat_step\<^sup>*\<^sup>* s' t"
  shows "cancel_run env fresh' now' acc run key t = Inr (x\<lparr>cx_replayed := True\<rparr>, t)"
  using answers_later [OF cancel_run_answers [OF assms(1)] assms(2)] by (simp add: cancel_run_def)

lemma repeated_creation_answers_again:
  assumes "create_conversation env fresh acc key title s = Inr (x, s')" and "chat_step\<^sup>*\<^sup>* s' t"
  shows "create_conversation env fresh' acc key title t = Inr (x\<lparr>cx_replayed := True\<rparr>, t)"
  using answers_later [OF create_conversation_answers [OF assms(1)] assms(2)] by (simp add: create_conversation_def)

end
