(* ===== verification/Chat_Properties.thy ===== *)
theory Chat_Properties
  imports Chat_Replays Dispatch_Laws
begin

text \<open>
  The rounds of the workers as steps of the conversations, and the concrete conversation on which the properties of
  \<open>Chat_Runs\<close> and \<open>Chat_Replays\<close> are witnessed: a message is sent, its Run is started, prepared and completed, or
  cancelled on the way.
\<close>

section \<open>Rounds of the workers\<close>


section \<open>A conversation\<close>

definition demo_chat_env :: chat_env where
  "demo_chat_env = \<lparr>hash_of = (\<lambda>j. case j of JObj ((k, JStr t) # _) \<Rightarrow> t | _ \<Rightarrow> ''other''), request_of = (\<lambda>k. k),
     root_of = (\<lambda>run. ''root-'' @ run), workflow_hex = (\<lambda>t. t), budget_mode = ''enforce'', budget_limits = [],
     final_reserve = 0, policy_snapshot = JNull\<rparr>"

definition demo_ids :: "string \<Rightarrow> nat \<Rightarrow> uuid" where
  "demo_ids p n = p @ replicate n CHR ''i''"

definition demo_chat :: chat_db where
  "demo_chat =
    \<lparr>accounts = (\<lambda>x. if x = ''acc'' then Some \<lparr>a_status = ''active'', a_memory_epoch = 0\<rparr> else None),
     conversations = [(''acc'', ''conv'')], works = (\<lambda>_. None), runs = [], executions = [], leases = (\<lambda>_. None),
     waits = [], memory_actions = [], memory_sources = [], run_budgets = (\<lambda>_. None), run_usage = [],
     work_budgets = (\<lambda>_. None), work_usage = [], invocation_limits = [], entitlements = (\<lambda>_. None),
     daily_budgets = (\<lambda>_. None), account_usage = [], snapshots = [], dispatches = [],
     chat_runs = (\<lambda>_. None),
     conversation_rows = (\<lambda>x. if x = (''acc'', ''conv'')
        then Some \<lparr>cv_title = ''t'', cv_status = ''active'', cv_last_message_seq = 0\<rparr> else None),
     messages = [], outbox = [], workflow_rows = [], commands = [], control_events = [], approval_rows = []\<rparr>"

text \<open>The message, the start of its Run by the dispatcher, its preparation, its completion, and its cancellation.\<close>

definition demo_send :: "(command_result \<times> chat_db) res" where
  "demo_send = send_message demo_chat_env (demo_ids ''a'') 10 ''acc'' ''conv'' ''key'' ''hello'' ''react'' None demo_chat"

definition demo_sent :: chat_db where
  "demo_sent = committed demo_send demo_chat"

definition demo_run :: uuid where
  "demo_run = ''aii''"

definition demo_start_call :: "((string \<times> bool) \<times> chat_db) res" where
  "demo_start_call = prepare_start ''rec'' demo_run demo_sent"

definition demo_scheduled :: chat_db where
  "demo_scheduled = committed demo_start_call demo_sent"

definition demo_prepare_call :: "(status \<times> chat_db) res" where
  "demo_prepare_call = prepare demo_run (Some (web_workflow_id demo_run)) (Some ''t'') 20 demo_scheduled"

definition demo_running :: chat_db where
  "demo_running = committed demo_prepare_call demo_scheduled"

definition demo_complete_chat :: "(status \<times> chat_db) res" where
  "demo_complete_chat = complete (demo_ids ''b'') 30 demo_run ''answer'' (Some ''answer'') False False demo_running"

definition demo_completed :: chat_db where
  "demo_completed = committed demo_complete_chat demo_running"

definition demo_cancel_call :: "(command_result \<times> chat_db) res" where
  "demo_cancel_call = cancel_run demo_chat_env (demo_ids ''c'') 25 ''acc'' demo_run ''stop'' demo_running"

definition demo_cancelling :: chat_db where
  "demo_cancelling = committed demo_cancel_call demo_running"

lemma demo_calls_succeed:
  "\<not> isl demo_send" "\<not> isl demo_start_call" "\<not> isl demo_prepare_call" "\<not> isl demo_complete_chat" "\<not> isl demo_cancel_call"
  by code_simp+

text \<open>What the properties need to know of the states: one chat Run, at each status.\<close>

definition only_run :: "status \<Rightarrow> chat_db \<Rightarrow> bool" where
  "only_run st s = (case runs s of [r] \<Rightarrow> r_run_id r = demo_run \<and> r_source_kind r = Chat \<and> r_status r = st | _ \<Rightarrow> False)"

lemma demo_states:
  "only_run Queued demo_sent" "only_run Running demo_running" "only_run Succeeded demo_completed" "only_run Cancelling demo_cancelling"
  by code_simp+

lemma only_runD:
  assumes "only_run st s"
  obtains r where "runs s = [r]" "r \<in> set (runs s)" "chat r" "r_run_id r = demo_run" "r_status r = st"
  using assms by (auto simp: only_run_def chat_def split: list.splits)

lemma only_run_chat: "only_run st s \<Longrightarrow> chat_run s demo_run"
  by (auto simp: chat_run_def elim!: only_runD)

lemma demo_chat_inv: "chat_inv demo_chat"
  by (simp add: chat_inv_def runs_ok_def replies_ok_def ends_ok_def starts_known_def events_ok_def starts_ok_def
      workflows_ok_def demo_chat_def)

lemma demo_results:
  "send_message demo_chat_env (demo_ids ''a'') 10 ''acc'' ''conv'' ''key'' ''hello'' ''react'' None demo_chat
     = Inr (fst (projr demo_send), demo_sent)"
  "prepare_start ''rec'' demo_run demo_sent = Inr (fst (projr demo_start_call), demo_scheduled)"
  "prepare demo_run (Some (web_workflow_id demo_run)) (Some ''t'') 20 demo_scheduled = Inr (fst (projr demo_prepare_call), demo_running)"
  "complete (demo_ids ''b'') 30 demo_run ''answer'' (Some ''answer'') False False demo_running
     = Inr (fst (projr demo_complete_chat), demo_completed)"
  "cancel_run demo_chat_env (demo_ids ''c'') 25 ''acc'' demo_run ''stop'' demo_running
     = Inr (fst (projr demo_cancel_call), demo_cancelling)"
  using committed_result [OF demo_calls_succeed(1), of demo_chat] committed_result [OF demo_calls_succeed(2), of demo_sent]
    committed_result [OF demo_calls_succeed(3), of demo_scheduled] committed_result [OF demo_calls_succeed(4), of demo_running]
    committed_result [OF demo_calls_succeed(5), of demo_running]
  by (simp_all only: demo_send_def [symmetric] demo_start_call_def [symmetric] demo_prepare_call_def [symmetric]
      demo_complete_chat_def [symmetric] demo_cancel_call_def [symmetric] demo_sent_def [symmetric] demo_scheduled_def [symmetric]
      demo_running_def [symmetric] demo_completed_def [symmetric] demo_cancelling_def [symmetric])

lemma demo_steps:
  "chat_step demo_chat demo_sent" "chat_step demo_sent demo_scheduled" "chat_step demo_scheduled demo_running"
  "chat_step demo_running demo_completed" "chat_step demo_running demo_cancelling"
  by (rule chat_step.Send [OF demo_results(1)], rule chat_step.Start [OF demo_results(2)], rule chat_step.Prepare [OF demo_results(3)],
      rule chat_step.Complete [OF demo_results(4) only_run_chat [OF demo_states(2)]],
      rule chat_step.Cancel [OF demo_results(5) only_run_chat [OF demo_states(2)]])

lemma then_step: "chat_step\<^sup>*\<^sup>* s s' \<Longrightarrow> chat_step s' s'' \<Longrightarrow> chat_step\<^sup>*\<^sup>* s s''"
  by (rule rtranclp.rtrancl_into_rtrancl)

lemma demo_paths:
  "chat_step\<^sup>*\<^sup>* demo_chat demo_sent" "chat_step\<^sup>*\<^sup>* demo_chat demo_running" "chat_step\<^sup>*\<^sup>* demo_chat demo_completed"
  "chat_step\<^sup>*\<^sup>* demo_chat demo_cancelling" "chat_step\<^sup>*\<^sup>* demo_sent demo_completed"
proof -
  show sent: "chat_step\<^sup>*\<^sup>* demo_chat demo_sent" by (rule one_step [OF demo_steps(1)])
  have on: "chat_step\<^sup>*\<^sup>* demo_sent demo_running"
    by (rule then_step [OF one_step [OF demo_steps(2)] demo_steps(3)])
  show "chat_step\<^sup>*\<^sup>* demo_sent demo_completed" by (rule then_step [OF on demo_steps(4)])
  then show "chat_step\<^sup>*\<^sup>* demo_chat demo_completed" by (rule rtranclp_trans [OF sent])
  show running: "chat_step\<^sup>*\<^sup>* demo_chat demo_running" by (rule rtranclp_trans [OF sent on])
  show "chat_step\<^sup>*\<^sup>* demo_chat demo_cancelling" by (rule then_step [OF running demo_steps(5)])
qed

lemma demo_invs: "chat_inv demo_running" "chat_inv demo_completed" "chat_inv demo_cancelling"
  using steps_moves [OF _ demo_chat_inv] demo_paths by blast+

section \<open>Witnesses\<close>

theorem transactions_refine_moves_witness: "chat_move\<^sup>*\<^sup>* demo_chat demo_completed"
  by (rule transactions_refine_moves [OF demo_paths(3) demo_chat_inv])

theorem run_reply_and_events_agree_witness:
  "terminal_key demo_run Succeeded \<in> set (event_keys demo_completed) \<and> retain_key demo_run \<in> set (event_keys demo_completed)
    \<and> map mg_status (filter (\<lambda>m. mg_produced_by_run_id m = Some demo_run) (messages demo_completed)) = [Msg_Completed]"
proof (rule only_runD [OF demo_states(3)])
  fix r assume r: "r \<in> set (runs demo_completed)" "chat r" "r_run_id r = demo_run" "r_status r = Succeeded"
  from run_reply_and_events_agree [OF demo_paths(3) demo_chat_inv r(1,2)] r(3,4) show ?thesis
    by (simp add: reply_status_def)
qed

theorem ended_run_is_final_witness:
  "filter (\<lambda>m. mg_produced_by_run_id m = Some demo_run) (messages demo_completed) \<noteq> []
    \<and> (\<exists>r \<in> set (runs demo_completed). r_run_id r = demo_run \<and> r_status r = Succeeded)"
proof (rule only_runD [OF demo_states(3)])
  fix r assume r: "r \<in> set (runs demo_completed)" "chat r" "r_run_id r = demo_run" "r_status r = Succeeded"
  have "map mg_status (replies_of demo_run (messages demo_completed)) = [Msg_Completed]"
    using chat_invD(2) [OF demo_invs(2)] r unfolding replies_ok_def by (auto simp: reply_status_def)
  then have "filter (\<lambda>m. mg_produced_by_run_id m = Some demo_run) (messages demo_completed) \<noteq> []"
    by (auto simp: replies_of_def)
  moreover have "\<exists>r' \<in> set (runs demo_completed). r_run_id r' = r_run_id r \<and> r_status r' = r_status r"
    using ended_run_is_final [OF rtranclp.rtrancl_refl demo_invs(2) r(1,2)] r(4) by simp
  ultimately show ?thesis using r(3,4) by simp
qed

theorem cancelled_run_never_succeeds_witness:
  "\<exists>r' \<in> set (runs demo_cancelling). r_run_id r' = demo_run \<and> r_status r' \<in> {Cancelling, Cancelled}
    \<and> retain_key demo_run \<notin> set (event_keys demo_cancelling)"
proof (rule only_runD [OF demo_states(4)])
  fix r assume r: "r \<in> set (runs demo_cancelling)" "chat r" "r_run_id r = demo_run" "r_status r = Cancelling"
  from cancelled_run_never_succeeds [OF rtranclp.rtrancl_refl demo_invs(3) r(1,2,4)] r(3) show ?thesis by auto
qed

theorem queued_run_is_not_lost_witness:
  "(\<exists>e \<in> set (outbox demo_sent). ob_event_type e = ''start_run'' \<and> ob_run_id e = Some demo_run
      \<and> ob_status e \<in> {Outbox_Pending, Processing})
    \<or> (\<exists>w \<in> set (workflow_rows demo_sent). wx_run_id w = demo_run)"
proof (rule only_runD [OF demo_states(1)])
  fix r assume r: "r \<in> set (runs demo_sent)" "chat r" "r_run_id r = demo_run" "r_status r = Queued"
  from queued_run_is_not_lost [OF demo_paths(1) demo_chat_inv r(1,2,4)] show ?thesis unfolding r(3) .
qed

lemma demo_workflow: "map wx_run_id (workflow_rows demo_running) = [demo_run]"
  by code_simp

theorem one_active_run_and_one_workflow_witness:
  "map wx_workflow_id (filter (\<lambda>v. wx_run_id v = demo_run) (workflow_rows demo_running)) = [web_workflow_id demo_run]"
proof (rule only_runD [OF demo_states(2)])
  fix r assume r: "r \<in> set (runs demo_running)" "chat r" "r_run_id r = demo_run"
  obtain x where x: "x \<in> set (workflow_rows demo_running)" "wx_run_id x = r_run_id r"
    using demo_workflow r(3) by (auto simp: map_eq_Cons_conv)
  have "wx_workflow_id x = web_workflow_id (r_run_id r) \<and> filter (\<lambda>v. wx_run_id v = r_run_id r) (workflow_rows demo_running) = [x]"
    using one_active_run_and_one_workflow [OF demo_paths(2) demo_chat_inv] r(1,2) x by blast
  then show ?thesis unfolding r(3) by simp
qed

theorem repeated_message_answers_again_witness:
  "send_message demo_chat_env (demo_ids ''z'') 99 ''acc'' ''conv'' ''key'' ''hello'' ''react'' None demo_completed
    = Inr ((fst (projr demo_send))\<lparr>cx_replayed := True\<rparr>, demo_completed)"
  by (rule repeated_message_answers_again [OF demo_results(1) demo_paths(5)])







end
