(* ===== verification/Lifecycle_Properties.thy ===== *)
theory Lifecycle_Properties
  imports Lifecycle_Laws Chat_Properties
begin

text \<open>
  The property of the Workflow of a Run, and the run of it that witnesses the property: the conversation of
  \<open>Chat_Properties\<close> after the dispatcher scheduled its Workflow, with an Agent that answers at once.
\<close>

section \<open>The property\<close>


section \<open>A run of the Workflow\<close>



















end
