(* ===== verification/Spec2Isabelle.thy ===== *)
theory Spec2Isabelle
  imports Account_Laws Lease_Properties Memory_Laws Operation_Properties Agent_Bounds Agent_Policy Capacity_Laws Tool_Properties Agent_Returns Lifecycle_Properties
begin

text \<open>
  Verification library for HpAgent.

  HpAgent runs language model Agents as durable Temporal Workflows over a PostgreSQL database. A user's
  message (or a Work) creates a Run; a Run has a root Execution and possibly subagents; an Agent Workflow
  drives an Execution segment by segment: each segment takes an attempt lease with a fencing token, runs one
  Activity (a model decision, a tool call, a planning step) and lets the lease go. What the Activities do is
  recorded as durable operations with receipts and an append-only transcript, and is paid for from the budgets
  of the Run, of its Work and of the Account's day. The library follows these layers; all paths below are
  under \<open>src/src/\<close>.

  Vocabulary. \<open>HP_Prelude\<close>: identifiers, the exceptions of the source as the datatype \<open>exn\<close>, fallible
  operations as \<open>'a res = exn + 'a\<close>, Python dictionaries as association lists, tables as lists of rows with
  the SQL updates used on them. A database operation is a function from the tables to a result with the new
  tables: an exception loses the new tables, as the rollback of \<open>UnitOfWork\<close> does. The tables grow along
  record extensions: \<open>authority_db\<close> to \<open>budget_db\<close> to \<open>account_db\<close> (budgets), to \<open>lease_db\<close> to \<open>op_db\<close>
  (Agent data), to \<open>capacity_db\<close>, and from \<open>account_db\<close> to \<open>chat_db\<close> (conversations); every operation
  is polymorphic in the extension. Triggers and constraints of the migrations that the code relies on are part
  of the statements that fire them.

  Authority. \<open>Authority\<close>: Runs, Executions, Works and leases with the ownership checks of
  \<open>run_domain/lifecycle.py\<close> (lock, check_work, start), \<open>run_domain/execution.py\<close> and the memory epochs of
  \<open>persistence/memory_context.py\<close>. \<open>Memory_Laws\<close>: the check of a memory manifest refuses exactly the contexts
  touched by a later action, and a revoked context never acts again.

  Budgets. \<open>Usage_Ledger\<close>: the locale of a ledger with reserved, settled and released rows, interpreted on the
  ledgers of the Run, of the Work and of the Account. \<open>Run_Budget\<close> (\<open>resources/run_budget.py\<close>,
  \<open>resources/work_budget.py\<close>), \<open>Account_Budget\<close> (\<open>resources/account_budget.py\<close> and entitlements),
  \<open>Budget_Coordinator\<close> (\<open>resources/model_budget_coordinator.py\<close>, the frozen requests). \<open>Run_Budget_Laws\<close>,
  \<open>Budget_Mirror\<close>, \<open>Budget_Properties\<close>, \<open>Account_Laws\<close>: the columns of a budget are the sums of its ledger in
  every reachable state, reservations stay within the limits, a settled operation is final, the recovery of a
  finished Run leaves nothing held, a dispatched request keeps its hold.

  Leases. \<open>Lease_Store\<close> (leases, segments and waits of \<open>agent_activities/store.py\<close> and
  \<open>agent_activities/segments.py\<close>). \<open>Lease_Laws\<close>, \<open>Lease_Properties\<close>: the locale \<open>fenced\<close> (a token that
  stopped being held never comes back) with its interpretation on the lease table; a dead token never passes
  the fence, a released segment never runs again, a closed Run admits nothing, a suspended Execution holds no
  lease.

  Durable operations. \<open>Operation_Store\<close> (\<open>run_domain/results.py\<close> with the triggers of migrations 055 and 058),
  \<open>Transcript_Store\<close> (operation and transcript methods of \<open>agent_activities/store.py\<close>). \<open>Operation_Laws\<close>,
  \<open>Operation_Keys\<close>, \<open>Transcript_Laws\<close>, \<open>Operation_Properties\<close>: the locale \<open>write_once\<close> with three
  interpretations (results, receipts, attempts); a completed operation is final and replayed, an unresolved
  effect is never restarted, a late receipt never completes, an append refines the abstract log and is not
  repeated by a retry.

  Tool Activity. \<open>Tool_Activity\<close> (\<open>tool_execution\<close> of \<open>agent_activities/runtime.py\<close> with
  \<open>agent_activities/side_effects.py\<close>): the Activity as a computation in which every call out may fail, be
  cancelled before or after its effect, or be the last of a dying worker. \<open>Tool_Laws\<close> (a Hoare logic for
  these computations), \<open>Tool_Effects\<close>, \<open>Tool_Properties\<close>: over any number of attempts with the rest of the
  system acting in between, a call that cannot be repeated is executed at most once more than the reconciler
  confirmed that it was not.

  Workflows. \<open>Workflow_Base\<close>: a Workflow as a computation over its History and the world, with the Activities
  and children of other modules as fields of an environment; \<open>None\<close> is a Workflow that never ends.
  \<open>Agent_Contracts\<close> (\<open>agent_workflows/contracts.py\<close>, \<open>lifecycle_contracts.py\<close>, \<open>ids.py\<close>), \<open>Segments\<close>
  (\<open>segments.py\<close>), \<open>Tool_Workflow\<close> (\<open>tool_execution.py\<close>), \<open>Agent_Loop\<close> (\<open>react.py\<close>, \<open>agent_step.py\<close>),
  \<open>Plan_Workflow\<close> (\<open>plan_execute.py\<close>, \<open>agent_run.py\<close>). \<open>Workflow_Protocol\<close>, \<open>Agent_Laws\<close>,
  \<open>Agent_Properties\<close>: an automaton that accepts the History event by event is the abstract specification, and
  every Workflow refines it; an approved execution follows an authoritative approval. \<open>Agent_Bounds\<close>: bounds
  on model calls and replanning, operation identities determine requests. \<open>Agent_Returns\<close>: on the control
  plane of \<open>Lease_Store\<close> every Agent run ends, whatever the other Activities answer. \<open>Workflow_Demo\<close> holds the
  runs the witnesses evaluate. \<open>Agent_Policy\<close>: \<open>common/agent_policy.py\<close> with the round trip of its snapshot.

  Conversations. \<open>Chat_Store\<close>: messages, outbox, Workflow facts, commands and the rows of chat Runs
  (\<open>persistence/messages.py\<close>, \<open>outbox.py\<close>, \<open>workflow_executions.py\<close>, \<open>idempotency.py\<close>, \<open>conversations.py\<close>,
  \<open>runs.py\<close>, \<open>run_domain/creation.py\<close>). \<open>Run_Lifecycle\<close>: the end of a Run with its budgets, reply and events
  (\<open>finish_in_uow\<close> of \<open>run_domain/lifecycle.py\<close>, \<open>conversation_domain/run_projection.py\<close>), prepare, complete and
  the finalizers (\<open>web_domain/lifecycle.py\<close>), the outbox service (\<open>web_domain/outbox.py\<close>) and the Workflow facts
  (\<open>web_domain/workflow_execution.py\<close>). \<open>Chat_Commands\<close>: creating a conversation, sending a message, retrying and
  cancelling a Run (\<open>application/chat\<close>, \<open>application/run/cancel_run.py\<close>). \<open>Chat_Frames\<close>, \<open>Chat_Laws\<close>,
  \<open>Chat_Steps\<close>: the invariant, one predicate for each pair of tables that must agree. \<open>Chat_Moves\<close>: the abstract
  conversation, seven moves on its tables. \<open>Chat_Transactions\<close>, \<open>Chat_Runs\<close>: every transaction is a sequence of
  moves (\<open>chat_step\<close> is any of them, with any arguments; its case \<open>Outside\<close> is the rest of the system, which
  leaves the conversations alone and moves Runs only along their transitions), hence a Run, its reply and its events
  agree, an ended Run is final, a cancelled one never succeeds, a queued one is not lost. \<open>Chat_Replays\<close>: a
  repeated command finds its answer.

  Workers. \<open>Chat_Dispatch\<close>: the dispatcher and the reconciler between the outbox and Temporal
  (\<open>orchestration/web_dispatcher.py\<close>, \<open>web_reconciler.py\<close>) as jobs: sequences of short transactions and calls,
  before each of which the others act and the worker may die. \<open>Dispatch_Laws\<close> (\<open>job_ok\<close>, a Hoare logic for jobs),
  \<open>Chat_Properties\<close>: a round takes steps of the conversations only, and starts only the Workflow derived from the
  Run. \<open>Lifecycle_Workflow\<close>: the Workflow of a Run with its Activities
  (\<open>orchestration/agent_lifecycle_workflow.py\<close>, \<open>run_lifecycle_activities.py\<close>), an Activity being up to five or ten
  attempts of a job. \<open>Lifecycle_Laws\<close>, \<open>Lifecycle_Properties\<close>: it ends, reports completion only of a Run that
  succeeded, and otherwise leaves the Run ended or being cancelled, unless the Activity that finalizes the Run was
  given up.

  Capacity. \<open>Capacity\<close> and \<open>Capacity_Laws\<close> (\<open>resources/capacity.py\<close>): tickets, lanes and limits.

  Bounds and fuel. No definition uses fuel: loops that may not end are \<open>partial_function (option)\<close> (the
  acquisition of a segment, the durable wait) and their ending is proved in \<open>Agent_Returns\<close>; the attempts of an
  Activity count down its retry policy; the other loops
  are structural recursions over the turns, the attempts or the rows. Python integers are \<open>int\<close>; the times of
  the database are \<open>int\<close> with one value \<open>now\<close> per transaction.

  What stands for code outside the repository is a parameter: SHA-256 digests, parsing of timestamps, the
  signals of Temporal, the executors of the tools and the answers of the model. A transaction is atomic, which
  is what the row locks and advisory locks of the code are for; interleavings are sequences of transactions.

  Not modelled of the conversations: attached files, artifacts and their HTML builds, notifications of QQ, resource
  snapshots of a Run, the text of the responses, and \<open>converge_controls\<close> of the reconciler. Of a Work only what the Run
  authority and the budgets read is modelled: the results, checkpoints, progress and delivery of Works are left
  out, and with them the Work branch of \<open>finish_in_uow\<close>, of \<open>complete\<close> and of the commands.

  Not modelled: the Web API, channels and delivery, the sandbox and its tools, research, files and documents,
  the memory service, tracing, process start-up and configuration, the HTTP clients of the models and the
  operator scripts: they are I/O around the parts above, or call libraries that are not in the repository.
\<close>

end
